(* ===== verification/Go_Prelude.thy ===== *)
theory Go_Prelude
  imports Main "HOL-Library.Word"
begin

text \<open>
  The prelude of the development: what the modelled Go code uses of its language and of the
  standard library.

  \<^item> \<open>goerror\<close>: the error values of the program. \<open>fmt.Errorf\<close> with a cause is \<open>Errorf\<close>, which keeps
    the constant part of the message and the cause; the typed errors of \<open>pkg/types/scheduler.go\<close>
    are constructors of their own; \<open>Panic\<close> is a run-time panic, which ends the call like an error.
  \<^item> \<open>('s, 'a) io\<close>: a Go function that may fail and that changes a state \<open>'s\<close>, with \<open>bindE\<close> for
    \<open>if err != nil { return err }\<close>, \<open>attempt\<close> for a call whose error is inspected or ignored, and
    \<open>deferring\<close> for \<open>defer\<close>; \<open>wp\<close> is the weakest precondition that the component proofs run on.
  \<^item> \<open>i32\<close>, \<open>i64\<close>: the wrap-around of Go's signed integers; \<open>itoa\<close>, \<open>ParseInt\<close>, \<open>ParseUint\<close>,
    \<open>ParseBool\<close>: \<open>strconv\<close> in base 10; the \<open>strings\<close> functions the sources call.
\<close>

named_theorems wp_eqs \<open>equations that push \<open>wp\<close> through the program combinators\<close>
named_theorems key_eqs \<open>definitions of the Redis key names\<close>

section \<open>Errors\<close>

datatype goerror =
    RedisNil
  | RedisErr string
  | ErrNotObtained
  | ErrLockNotHeld
  | SqlErrNoRows
  | BackendErr string
  | ErrNew string
  | Errorf string goerror
  | ErrWorkerNotFound string
  | ErrContainerStateNotFound string
  | ErrWorkerPoolStateNotFound string
  | ErrNoSuitableWorkerFound
  | ContainerAlreadyScheduledError string
  | ThrottledByConcurrencyLimitError string
  | Panic string

section \<open>Programs that fail and change state\<close>

type_synonym ('s, 'a) io = "'s \<Rightarrow> (goerror + 'a) \<times> 's"

definition returnE :: "'a \<Rightarrow> ('s, 'a) io" where
  "returnE a s = (Inr a, s)"

definition throwE :: "goerror \<Rightarrow> ('s, 'a) io" where
  "throwE e s = (Inl e, s)"

definition bindE :: "('s, 'a) io \<Rightarrow> ('a \<Rightarrow> ('s, 'b) io) \<Rightarrow> ('s, 'b) io" where
  "bindE m f s = (case m s of (Inl e, s') \<Rightarrow> (Inl e, s') | (Inr a, s') \<Rightarrow> f a s')"

definition thenE :: "('s, 'a) io \<Rightarrow> ('s, 'b) io \<Rightarrow> ('s, 'b) io" where
  "thenE m k = bindE m (\<lambda>_. k)"

text \<open>\<open>attempt m\<close> never fails: it hands the error to the caller as a value.\<close>

definition attempt :: "('s, 'a) io \<Rightarrow> ('s, goerror + 'a) io" where
  "attempt m s = (case m s of (r, s') \<Rightarrow> (Inr r, s'))"

text \<open>An error that the caller goes on after; a panic is none.\<close>

definition tryE :: "('s, 'a) io \<Rightarrow> ('s, goerror + 'a) io" where
  "tryE m = bindE (attempt m) (\<lambda>r. case r of Inl e \<Rightarrow> (case e of Panic s \<Rightarrow> throwE (Panic s) | _ \<Rightarrow> returnE (Inl e)) | Inr a \<Rightarrow> returnE (Inr a))"

text \<open>\<open>wrapE msg m\<close> is \<open>return fmt.Errorf(msg, err)\<close> on the error path.\<close>

definition wrapE :: "string \<Rightarrow> ('s, 'a) io \<Rightarrow> ('s, 'a) io" where
  "wrapE msg m s = (case m s of (Inl e, s') \<Rightarrow> (Inl (Errorf msg e), s') | (Inr a, s') \<Rightarrow> (Inr a, s'))"

text \<open>\<open>deferring d m\<close> runs \<open>m\<close> and then \<open>d\<close>, whose result a Go \<open>defer\<close> drops.\<close>

definition deferring :: "('s, 'b) io \<Rightarrow> ('s, 'a) io \<Rightarrow> ('s, 'a) io" where
  "deferring d m s = (case m s of (r, s') \<Rightarrow> (r, snd (d s')))"

definition liftOpt :: "goerror \<Rightarrow> 'a option \<Rightarrow> ('s, 'a) io" where
  "liftOpt e x = (case x of None \<Rightarrow> throwE e | Some a \<Rightarrow> returnE a)"

text \<open>A \<open>for\<close> loop whose body returns early on error.\<close>

fun forE :: "('a \<Rightarrow> ('s, unit) io) \<Rightarrow> 'a list \<Rightarrow> ('s, unit) io" where
  "forE f [] = returnE ()"
| "forE f (x # xs) = thenE (f x) (forE f xs)"

definition wp :: "('s, 'a) io \<Rightarrow> ('a \<Rightarrow> 's \<Rightarrow> bool) \<Rightarrow> (goerror \<Rightarrow> 's \<Rightarrow> bool) \<Rightarrow> 's \<Rightarrow> bool" where
  "wp m Q E s = (case m s of (Inl e, s') \<Rightarrow> E e s' | (Inr a, s') \<Rightarrow> Q a s')"

lemma wp_returnE [wp_eqs]: "wp (returnE a) Q E s = Q a s"
  by (simp add: wp_def returnE_def)

lemma wp_throwE [wp_eqs]: "wp (throwE e) Q E s = E e s"
  by (simp add: wp_def throwE_def)

lemma wp_bindE [wp_eqs]: "wp (bindE m f) Q E s = wp m (\<lambda>a s'. wp (f a) Q E s') E s"
  by (simp add: wp_def bindE_def split: sum.splits prod.splits)

lemma wp_thenE [wp_eqs]: "wp (thenE m k) Q E s = wp m (\<lambda>_ s'. wp k Q E s') E s"
  by (simp add: thenE_def wp_bindE)

lemma wp_attempt [wp_eqs]:
  "wp (attempt m) Q E s = wp m (\<lambda>a. Q (Inr a)) (\<lambda>e. Q (Inl e)) s"
  by (cases "m s"; cases "fst (m s)") (simp_all add: wp_def attempt_def)

lemma wp_wrapE [wp_eqs]: "wp (wrapE msg m) Q E s = wp m Q (\<lambda>e. E (Errorf msg e)) s"
  by (simp add: wp_def wrapE_def split: sum.splits prod.splits)

lemma wp_deferring [wp_eqs]:
  "wp (deferring d m) Q E s =
     wp m (\<lambda>a s'. wp d (\<lambda>_. Q a) (\<lambda>_. Q a) s') (\<lambda>e s'. wp d (\<lambda>_. E e) (\<lambda>_. E e) s') s"
proof -
  obtain r s1 where 1: "m s = (r, s1)" by force
  obtain r2 s2 where 2: "d s1 = (r2, s2)" by force
  show ?thesis by (cases r; cases r2) (simp_all add: wp_def deferring_def 1 2)
qed

lemma wp_liftOpt [wp_eqs]:
  "wp (liftOpt e x) Q E s = (case x of None \<Rightarrow> E e s | Some a \<Rightarrow> Q a s)"
  by (simp add: liftOpt_def wp_returnE wp_throwE split: option.splits)

lemma wp_forE_Nil [wp_eqs]: "wp (forE f []) Q E s = Q () s"
  by (simp add: wp_returnE)

lemma wp_forE_Cons [wp_eqs]:
  "wp (forE f (x # xs)) Q E s = wp (f x) (\<lambda>_ s'. wp (forE f xs) Q E s') E s"
  by (simp add: wp_thenE)

lemma wp_if [wp_eqs]: "wp (if b then m else n) Q E s = (if b then wp m Q E s else wp n Q E s)"
  by simp

lemma wp_mono:
  assumes "wp m Q E s" and "\<And>a s'. Q a s' \<Longrightarrow> Q' a s'" and "\<And>e s'. E e s' \<Longrightarrow> E' e s'"
  shows "wp m Q' E' s"
  using assms by (auto simp: wp_def split: sum.splits prod.splits)

lemma wp_Inr: "wp m Q E s \<Longrightarrow> m s = (Inr a, s') \<Longrightarrow> Q a s'"
  by (simp add: wp_def)

lemma wp_Inl: "wp m Q E s \<Longrightarrow> m s = (Inl e, s') \<Longrightarrow> E e s'"
  by (simp add: wp_def)

lemma wpI:
  assumes "\<And>a s'. m s = (Inr a, s') \<Longrightarrow> Q a s'" and "\<And>e s'. m s = (Inl e, s') \<Longrightarrow> E e s'"
  shows "wp m Q E s"
  using assms by (cases "m s") (auto simp: wp_def split: sum.splits)

lemma wp_fst: "wp m (\<lambda>a _. Inr a = x) (\<lambda>e _. Inl e = x) s \<Longrightarrow> fst (m s) = x"
  by (cases "m s"; cases "fst (m s)") (simp_all add: wp_def)

lemma wp_success: "wp m Q (\<lambda>_ _. False) s \<Longrightarrow> \<exists>a s'. m s = (Inr a, s') \<and> Q a s'"
  by (cases "m s"; cases "fst (m s)") (simp_all add: wp_def)

lemma wp_tryE: "wp m (\<lambda>a. Q (Inr a)) (\<lambda>e w'. Q (Inl e) w' \<and> E e w') w \<Longrightarrow> wp (tryE m) Q E w"
  unfolding tryE_def wp_eqs
  by (erule wp_mono) (auto simp: wp_eqs split: goerror.splits)

lemma wp_all: "(\<And>a w'. Q a w') \<Longrightarrow> (\<And>e w'. E e w') \<Longrightarrow> wp m Q E w"
  by (auto simp: wp_def split: prod.splits sum.splits)

text \<open>An error that is known not to be a panic.\<close>

lemma wp_tryE_no_panic:
  "wp m (\<lambda>a. Q (Inr a)) (\<lambda>e w'. (\<forall>p. e \<noteq> Panic p) \<and> Q (Inl e) w') w \<Longrightarrow> wp (tryE m) Q E w"
  unfolding tryE_def wp_eqs
  by (erule wp_mono) (auto simp: wp_eqs split: goerror.splits)

lemma wp_forE_snoc: "wp (forE f (xs @ [x])) Q E s = wp (forE f xs) (\<lambda>_ s'. wp (f x) Q E s') E s"
  by (induction xs arbitrary: s) (simp_all add: wp_eqs)

text \<open>A loop keeps what its body keeps.\<close>

lemma wp_forE_inv:
  assumes "\<And>x s. x \<in> set xs \<Longrightarrow> I s \<Longrightarrow> wp (f x) (\<lambda>_. I) (\<lambda>_. I) s" and "I s"
  shows "wp (forE f xs) (\<lambda>_. I) (\<lambda>_. I) s"
  using assms
proof (induction xs arbitrary: s)
  case Nil
  then show ?case by (simp add: wp_eqs)
next
  case (Cons x xs)
  have "wp (f x) (\<lambda>_. I) (\<lambda>_. I) s" using Cons.prems by simp
  then show ?case
    unfolding wp_forE_Cons by (rule wp_mono) (use Cons in simp_all)
qed

section \<open>Lists\<close>

lemma subset_image_list: "set ks \<subseteq> f ` I \<Longrightarrow> \<exists>is. ks = map f is \<and> set is \<subseteq> I"
proof (induction ks)
  case (Cons k ks)
  then obtain i "is" where "k = f i" "i \<in> I" "ks = map f is" "set is \<subseteq> I" by auto
  then have "k # ks = map f (i # is) \<and> set (i # is) \<subseteq> I" by simp
  then show ?case by (rule exI)
qed simp

section \<open>Machine integers\<close>

text \<open>Signed integers are kept as \<open>int\<close> with the wrap-around written out; \<open>uint32\<close> is \<open>32 word\<close>.\<close>

definition i64 :: "int \<Rightarrow> int" where
  "i64 x = (x + 2 ^ 63) mod 2 ^ 64 - 2 ^ 63"

definition i32 :: "int \<Rightarrow> int" where
  "i32 x = (x + 2 ^ 31) mod 2 ^ 32 - 2 ^ 31"

definition in_i64 :: "int \<Rightarrow> bool" where
  "in_i64 x \<longleftrightarrow> - (2 ^ 63) \<le> x \<and> x < 2 ^ 63"

definition in_i32 :: "int \<Rightarrow> bool" where
  "in_i32 x \<longleftrightarrow> - (2 ^ 31) \<le> x \<and> x < 2 ^ 31"

lemma i64_id: "in_i64 x \<Longrightarrow> i64 x = x"
  by (simp add: in_i64_def i64_def)

lemma i32_id: "in_i32 x \<Longrightarrow> i32 x = x"
  by (simp add: in_i32_def i32_def)

lemma in_i64_i64 [simp]: "in_i64 (i64 x)"
proof -
  have "0 \<le> (x + 2 ^ 63) mod 2 ^ 64" "(x + 2 ^ 63) mod 2 ^ 64 < (2 ^ 64 :: int)" by simp_all
  then show ?thesis by (simp add: in_i64_def i64_def)
qed

lemma in_i32_i32 [simp]: "in_i32 (i32 x)"
proof -
  have "0 \<le> (x + 2 ^ 31) mod 2 ^ 32" "(x + 2 ^ 31) mod 2 ^ 32 < (2 ^ 32 :: int)" by simp_all
  then show ?thesis by (simp add: in_i32_def i32_def)
qed

lemma i64_i64_diff_add: "i64 (i64 (x - y) + y) = i64 x"
proof -
  have "(i64 (x - y) + y + 2 ^ 63) mod 2 ^ 64 = ((x - y + 2 ^ 63) mod 2 ^ 64 + y) mod (2 ^ 64 :: int)"
    by (simp add: i64_def algebra_simps)
  also have "\<dots> = (x + 2 ^ 63) mod 2 ^ 64"
    by (simp add: mod_add_left_eq)
  finally show ?thesis by (simp add: i64_def)
qed

lemma i64_i64_add [simp]: "i64 (i64 x + y) = i64 (x + y)" "i64 (x + i64 y) = i64 (x + y)"
proof -
  have *: "i64 (i64 x + y) = i64 (x + y)" for x y
    using i64_i64_diff_add [of "x + y" y] by simp
  show "i64 (i64 x + y) = i64 (x + y)" "i64 (x + i64 y) = i64 (x + y)"
    using * [of x y] * [of y x] by (simp_all add: add.commute)
qed

section \<open>The \<open>strings\<close> package\<close>

definition HasPrefix :: "string \<Rightarrow> string \<Rightarrow> bool" where
  "HasPrefix s p \<longleftrightarrow> take (length p) s = p"

definition TrimPrefix :: "string \<Rightarrow> string \<Rightarrow> string" where
  "TrimPrefix s p = (if HasPrefix s p then drop (length p) s else s)"

definition HasSuffix :: "string \<Rightarrow> string \<Rightarrow> bool" where
  "HasSuffix s p \<longleftrightarrow> length p \<le> length s \<and> drop (length s - length p) s = p"

definition TrimSuffix :: "string \<Rightarrow> string \<Rightarrow> string" where
  "TrimSuffix s p = (if HasSuffix s p then take (length s - length p) s else s)"

text \<open>\<open>strings.Split(s, c)\<close> for a separator of one character.\<close>

fun Split :: "char \<Rightarrow> string \<Rightarrow> string list" where
  "Split c [] = [[]]"
| "Split c (x # xs) =
     (if x = c then [] # Split c xs
      else (case Split c xs of [] \<Rightarrow> [[x]] | p # ps \<Rightarrow> (x # p) # ps))"

lemma HasPrefix_append [simp]: "HasPrefix (p @ s) p"
  by (simp add: HasPrefix_def)

lemma TrimPrefix_append [simp]: "TrimPrefix (p @ s) p = s"
  by (simp add: TrimPrefix_def)

lemma HasPrefix_iff: "HasPrefix s p \<longleftrightarrow> (\<exists>t. s = p @ t)"
  unfolding HasPrefix_def by (metis append_eq_conv_conj append_take_drop_id)

lemma TrimSuffix_append [simp]: "TrimSuffix (s @ p) p = s"
  by (simp add: TrimSuffix_def HasSuffix_def)

lemma Split_not_Nil [simp]: "Split c s \<noteq> []"
  by (induction s) (auto split: list.splits)

lemma Split_no_sep: "c \<notin> set s \<Longrightarrow> Split c s = [s]"
  by (induction s) auto

lemma Split_append: "Split c (s @ c # t) = Split c s @ Split c t"
  by (induction s) (auto split: list.splits)

lemma last_Split_append: "c \<notin> set t \<Longrightarrow> last (Split c (s @ c # t)) = t"
  by (simp add: Split_append Split_no_sep)

section \<open>The \<open>strconv\<close> package\<close>

definition digit :: "nat \<Rightarrow> char" where
  "digit d = ''0123456789'' ! d"

definition digit_val :: "char \<Rightarrow> nat option" where
  "digit_val c =
     map_of (zip ''0123456789'' [0, 1, 2, 3, 4, 5, 6, 7, 8, 9]) c"

fun utoa :: "nat \<Rightarrow> string" where
  "utoa n = (if n < 10 then [digit n] else utoa (n div 10) @ [digit (n mod 10)])"

declare utoa.simps [simp del]

text \<open>The decimal form of an integer, as \<open>fmt.Sprintf("%v", n)\<close> and \<open>strconv\<close> print it.\<close>

definition itoa :: "int \<Rightarrow> string" where
  "itoa i = (if i < 0 then CHR ''-'' # utoa (nat (- i)) else utoa (nat i))"

fun parse_digits :: "nat \<Rightarrow> string \<Rightarrow> nat option" where
  "parse_digits acc [] = Some acc"
| "parse_digits acc (c # cs) =
     (case digit_val c of None \<Rightarrow> None | Some d \<Rightarrow> parse_digits (10 * acc + d) cs)"

text \<open>\<open>strconv.ParseUint(s, 10, bits)\<close>; \<open>None\<close> is a syntax or a range error.\<close>

definition ParseUint :: "string \<Rightarrow> nat \<Rightarrow> nat option" where
  "ParseUint s bits =
     (if s = [] then None
      else case parse_digits 0 s of
             None \<Rightarrow> None
           | Some n \<Rightarrow> if n < 2 ^ bits then Some n else None)"

text \<open>\<open>strconv.ParseInt(s, 10, bits)\<close>.\<close>

definition ParseInt :: "string \<Rightarrow> nat \<Rightarrow> int option" where
  "ParseInt s bits =
     (case s of
        [] \<Rightarrow> None
      | c # cs \<Rightarrow>
          (let neg = (c = CHR ''-'');
               ds = (if c = CHR ''-'' \<or> c = CHR ''+'' then cs else s)
           in if ds = [] then None
              else case parse_digits 0 ds of
                     None \<Rightarrow> None
                   | Some n \<Rightarrow>
                       if \<not> neg \<and> n \<ge> 2 ^ (bits - 1) then None
                       else if neg \<and> n > 2 ^ (bits - 1) then None
                       else Some (if neg then - int n else int n)))"

definition ParseBool :: "string \<Rightarrow> bool option" where
  "ParseBool s =
     (if s \<in> set [''1'', ''t'', ''T'', ''TRUE'', ''true'', ''True''] then Some True
      else if s \<in> set [''0'', ''f'', ''F'', ''FALSE'', ''false'', ''False''] then Some False
      else None)"

definition btoa :: "bool \<Rightarrow> string" where
  "btoa b = (if b then ''true'' else ''false'')"

lemma less_10_cases:
  "(d :: nat) < 10 \<Longrightarrow> d = 0 \<or> d = 1 \<or> d = 2 \<or> d = 3 \<or> d = 4 \<or> d = 5 \<or> d = 6 \<or> d = 7 \<or> d = 8 \<or> d = 9"
  by arith

lemma digit_val_digit: "d < 10 \<Longrightarrow> digit_val (digit d) = Some d"
  by (drule less_10_cases) (auto simp: digit_def digit_val_def)

lemma digit_not_sign: "d < 10 \<Longrightarrow> digit d \<noteq> CHR ''-'' \<and> digit d \<noteq> CHR ''+''"
  by (drule less_10_cases) (auto simp: digit_def)

lemma parse_digits_append:
  "parse_digits acc (s @ t) = (case parse_digits acc s of None \<Rightarrow> None | Some n \<Rightarrow> parse_digits n t)"
  by (induction s arbitrary: acc) (auto split: option.splits)

lemma parse_digits_utoa: "parse_digits 0 (utoa n) = Some n"
proof (induction n rule: utoa.induct)
  case (1 n)
  show ?case
  proof (cases "n < 10")
    case True
    then show ?thesis by (simp add: utoa.simps [of n] digit_val_digit)
  next
    case False
    with 1 show ?thesis
      by (simp add: utoa.simps [of n] parse_digits_append digit_val_digit)
  qed
qed

lemma utoa_not_Nil [simp]: "utoa n \<noteq> []"
  by (subst utoa.simps) simp

lemma hd_utoa: "\<exists>d < 10. hd (utoa n) = digit d"
proof (induction n rule: utoa.induct)
  case (1 n)
  show ?case
  proof (cases "n < 10")
    case True
    then show ?thesis by (auto simp: utoa.simps [of n])
  next
    case False
    with 1 show ?thesis by (simp add: utoa.simps [of n])
  qed
qed

lemma ParseUint_utoa: "n < 2 ^ bits \<Longrightarrow> ParseUint (utoa n) bits = Some n"
  by (simp add: ParseUint_def parse_digits_utoa)

lemma ParseInt_itoa:
  assumes "- (2 ^ (bits - 1)) \<le> i" and "i < 2 ^ (bits - 1)"
  shows "ParseInt (itoa i) bits = Some i"
proof (cases "i < 0")
  case True
  have "nat (- i) \<le> 2 ^ (bits - 1)"
    using assms(1) by (simp add: nat_le_iff)
  with True show ?thesis
    by (simp add: itoa_def ParseInt_def parse_digits_utoa)
next
  case False
  then obtain c cs where c: "utoa (nat i) = c # cs" by (cases "utoa (nat i)") auto
  obtain d where "d < 10" "c = digit d" using hd_utoa [of "nat i"] c by auto
  then have sign: "c \<noteq> CHR ''-''" "c \<noteq> CHR ''+''" by (simp_all add: digit_not_sign)
  have "nat i < 2 ^ (bits - 1)"
    using assms(2) False by (simp add: nat_less_iff)
  moreover have "parse_digits 0 (c # cs) = Some (nat i)"
    using parse_digits_utoa [of "nat i"] c by simp
  ultimately show ?thesis
    using False sign c by (simp add: itoa_def ParseInt_def)
qed

lemma ParseInt_itoa_64: "in_i64 i \<Longrightarrow> ParseInt (itoa i) 64 = Some i"
  by (rule ParseInt_itoa) (simp_all add: in_i64_def)

lemma ParseInt_itoa_32: "in_i32 i \<Longrightarrow> ParseInt (itoa i) 32 = Some i"
  by (rule ParseInt_itoa) (simp_all add: in_i32_def)

lemma ParseBool_btoa [simp]: "ParseBool (btoa b) = Some b"
  by (simp add: ParseBool_def btoa_def)

lemma ParseInt_cases:
  assumes "ParseInt s bits = Some i"
  shows "\<exists>n. i = int n \<and> n < 2 ^ (bits - 1) \<or> i = - int n \<and> n \<le> 2 ^ (bits - 1)"
proof -
  obtain c cs where s: "s = c # cs" using assms by (cases s) (simp_all add: ParseInt_def)
  define ds where "ds = (if c = CHR ''-'' \<or> c = CHR ''+'' then cs else s)"
  obtain n where n: "parse_digits 0 ds = Some n"
    using assms by (auto simp: ParseInt_def s ds_def Let_def split: option.split_asm if_split_asm)
  have "\<not> (c \<noteq> CHR ''-'' \<and> n \<ge> 2 ^ (bits - 1))" "\<not> (c = CHR ''-'' \<and> n > 2 ^ (bits - 1))"
    and "i = (if c = CHR ''-'' then - int n else int n)"
    using assms n unfolding ParseInt_def s list.case Let_def ds_def [symmetric, unfolded s]
    by (simp_all split: if_split_asm)
  then show ?thesis by (cases "c = CHR ''-''") auto
qed

lemma ParseInt_range:
  assumes "ParseInt s bits = Some i"
  shows "- (2 ^ (bits - 1)) \<le> i \<and> i < 2 ^ (bits - 1)"
  using assms
proof -
  obtain n where "i = int n \<and> n < 2 ^ (bits - 1) \<or> i = - int n \<and> n \<le> 2 ^ (bits - 1)"
    using ParseInt_cases [OF assms] by blast
  then consider (1) "i = int n" "n < 2 ^ (bits - 1)" | (2) "i = - int n" "n \<le> 2 ^ (bits - 1)"
    by blast
  then show ?thesis
  proof cases
  case 1
  then have "int n < 2 ^ (bits - 1)" by (metis of_nat_less_iff of_nat_numeral of_nat_power)
  moreover have "- (2 ^ (bits - 1)) \<le> (0 :: int)" by simp
  ultimately show ?thesis using 1 by linarith
next
  case 2
  then have "int n \<le> 2 ^ (bits - 1)" by (metis of_nat_le_iff of_nat_numeral of_nat_power)
  moreover have "(0 :: int) < 2 ^ (bits - 1)" by simp
  ultimately show ?thesis using 2 by linarith
  qed
qed

end
