(* ===== verification/Redis.thy ===== *)
theory Redis
  imports Go_Prelude
begin

text \<open>
  The Redis server and the \<open>redislock\<close> library the program talks to, as an interface, and
  \<open>pkg/common/redis.go\<close>, the program's own wrapper around them.

  Redis is not part of the repository, so no definition of it is used by the model: the commands
  are the fields of a record \<open>redis_client\<close> that every operation takes as an argument, over an
  unspecified server state. The locale \<open>redis\<close> states what the Redis documentation promises of
  each command, through a view of the server state as a keyspace: a command touches its own key
  only, a reading command touches nothing, and a command that replies without an error had the
  documented effect. The locale \<open>redis_up\<close> adds that the server answers: a command on a key of
  the right type does not fail. The reference server \<open>mem_client\<close> at the end interprets both.

  On top of the commands, \<open>Acquire\<close>, \<open>Release\<close>, \<open>Token\<close> and \<open>ReleaseWithToken\<close> are the
  methods of \<open>RedisLock\<close>: the process keeps a table of the locks it holds beside the server.
\<close>

section \<open>Keyspace\<close>

datatype rvalue =
    RStr string
  | RHash "string \<rightharpoonup> string"
  | RSet "string set"
  | RList "string list"
  | RZSet "string \<rightharpoonup> int"

type_synonym keyspace = "string \<rightharpoonup> rvalue"

fun isHash :: "rvalue option \<Rightarrow> bool" where
  "isHash None = True" | "isHash (Some (RHash _)) = True" | "isHash _ = False"

fun isSet :: "rvalue option \<Rightarrow> bool" where
  "isSet None = True" | "isSet (Some (RSet _)) = True" | "isSet _ = False"

fun isList :: "rvalue option \<Rightarrow> bool" where
  "isList None = True" | "isList (Some (RList _)) = True" | "isList _ = False"

fun isStr :: "rvalue option \<Rightarrow> bool" where
  "isStr None = True" | "isStr (Some (RStr _)) = True" | "isStr _ = False"

fun isZSet :: "rvalue option \<Rightarrow> bool" where
  "isZSet None = True" | "isZSet (Some (RZSet _)) = True" | "isZSet _ = False"

fun hashOf :: "rvalue option \<Rightarrow> string \<rightharpoonup> string" where
  "hashOf (Some (RHash h)) = h" | "hashOf _ = Map.empty"

fun setOf :: "rvalue option \<Rightarrow> string set" where
  "setOf (Some (RSet S)) = S" | "setOf _ = {}"

fun listOf :: "rvalue option \<Rightarrow> string list" where
  "listOf (Some (RList xs)) = xs" | "listOf _ = []"

fun zsetOf :: "rvalue option \<Rightarrow> string \<rightharpoonup> int" where
  "zsetOf (Some (RZSet z)) = z" | "zsetOf _ = Map.empty"

text \<open>A collection that becomes empty disappears from the keyspace.\<close>

definition putSet :: "string set \<Rightarrow> rvalue option" where
  "putSet S = (if S = {} then None else Some (RSet S))"

definition putList :: "string list \<Rightarrow> rvalue option" where
  "putList xs = (if xs = [] then None else Some (RList xs))"

definition putZSet :: "(string \<rightharpoonup> int) \<Rightarrow> rvalue option" where
  "putZSet z = (if z = Map.empty then None else Some (RZSet z))"

lemma put_simps [simp]:
  "setOf (putSet S) = S" "isSet (putSet S)" "listOf (putList xs) = xs" "isList (putList xs)"
  "zsetOf (putZSet z) = z" "isZSet (putZSet z)"
  "putSet S = None \<longleftrightarrow> S = {}" "putList xs = None \<longleftrightarrow> xs = []"
  by (simp_all add: putSet_def putList_def putZSet_def)

lemma hset_not_empty [simp]: "fvs \<noteq> [] \<Longrightarrow> h ++ map_of (rev fvs) \<noteq> Map.empty"
proof
  assume "fvs \<noteq> []" and "h ++ map_of (rev fvs) = Map.empty"
  then have "dom (map_of (rev fvs)) = {}" by (metis dom_empty dom_map_add Un_empty)
  with \<open>fvs \<noteq> []\<close> show False by (simp add: dom_map_of_conv_image_fst)
qed

definition agree_off :: "string set \<Rightarrow> keyspace \<Rightarrow> keyspace \<Rightarrow> bool" where
  "agree_off K v v' \<longleftrightarrow> (\<forall>k. k \<notin> K \<longrightarrow> v' k = v k)"

lemma agree_off_refl [simp]: "agree_off K v v"
  by (simp add: agree_off_def)

lemma agree_off_upd [simp]: "k \<in> K \<Longrightarrow> agree_off K v (v(k := x))"
  by (simp add: agree_off_def)

lemma agree_off_upd_left [simp]: "k \<in> K \<Longrightarrow> agree_off K (v(k := x)) v' = agree_off K v v'"
  by (auto simp: agree_off_def)

lemma agree_off_trans: "agree_off K u v \<Longrightarrow> agree_off K v w \<Longrightarrow> agree_off K u w"
  by (simp add: agree_off_def)

lemma agree_off_mono: "agree_off K u v \<Longrightarrow> K \<subseteq> L \<Longrightarrow> agree_off L u v"
  by (auto simp: agree_off_def)

lemma agree_offD: "agree_off K v v' \<Longrightarrow> k \<notin> K \<Longrightarrow> v' k = v k"
  by (simp add: agree_off_def)

section \<open>The commands as an interface\<close>

record 's redis_client =
  cHSet :: "string \<Rightarrow> (string \<times> string) list \<Rightarrow> ('s, unit) io"
  cHGetAll :: "string \<Rightarrow> ('s, (string \<times> string) list) io"
  cSAdd :: "string \<Rightarrow> string \<Rightarrow> ('s, unit) io"
  cSRem :: "string \<Rightarrow> string \<Rightarrow> ('s, unit) io"
  cSMembers :: "string \<Rightarrow> ('s, string list) io"
  cDel :: "string \<Rightarrow> ('s, unit) io"
  cExists :: "string \<Rightarrow> ('s, bool) io"
  cExpire :: "string \<Rightarrow> int \<Rightarrow> ('s, unit) io"
  cGet :: "string \<Rightarrow> ('s, string) io"
  cSet :: "string \<Rightarrow> string \<Rightarrow> int \<Rightarrow> ('s, unit) io"
  cRPush :: "string \<Rightarrow> string \<Rightarrow> ('s, unit) io"
  cLPop :: "string \<Rightarrow> ('s, string) io"
  cLLen :: "string \<Rightarrow> ('s, nat) io"
  cZAdd :: "string \<Rightarrow> int \<Rightarrow> string \<Rightarrow> ('s, unit) io"
  cZPopMin :: "string \<Rightarrow> ('s, (string \<times> int) list) io"
  cZCard :: "string \<Rightarrow> ('s, nat) io"
  cObtain :: "string \<Rightarrow> int \<Rightarrow> int \<Rightarrow> ('s, string) io"
  cRetrieveLock :: "string \<Rightarrow> string \<Rightarrow> ('s, unit) io"
  cReleaseLock :: "string \<Rightarrow> string \<Rightarrow> ('s, unit) io"

text \<open>
  \<open>cmd_wr view k m pre f\<close>: the command \<open>m\<close> writes the key \<open>k\<close>. Whether it fails or not it leaves
  the other keys alone; when it succeeds, the value at \<open>k\<close> satisfied \<open>pre\<close> and is replaced by \<open>f\<close>
  of it. \<open>cmd_rd view m P\<close>: the command reads, and \<open>P\<close> relates the keyspace to the reply.
\<close>

definition cmd_wr :: "('s \<Rightarrow> keyspace) \<Rightarrow> string \<Rightarrow> ('s, 'a) io \<Rightarrow> (rvalue option \<Rightarrow> bool) \<Rightarrow>
    (rvalue option \<Rightarrow> rvalue option) \<Rightarrow> bool" where
  "cmd_wr view k m pre f \<longleftrightarrow>
     (\<forall>s r s'. m s = (r, s') \<longrightarrow>
        agree_off {k} (view s) (view s') \<and>
        (\<forall>a. r = Inr a \<longrightarrow> pre (view s k) \<and> view s' = (view s)(k := f (view s k))))"

definition cmd_rd :: "('s \<Rightarrow> keyspace) \<Rightarrow> ('s, 'a) io \<Rightarrow> (keyspace \<Rightarrow> goerror + 'a \<Rightarrow> bool) \<Rightarrow> bool" where
  "cmd_rd view m P \<longleftrightarrow> (\<forall>s r s'. m s = (r, s') \<longrightarrow> view s' = view s \<and> P (view s) r)"

text \<open>The least element of a sorted set, ties in favour of the lexicographically smaller member
  being left to the server.\<close>

definition zmin :: "(string \<rightharpoonup> int) \<Rightarrow> string \<times> int \<Rightarrow> bool" where
  "zmin z p \<longleftrightarrow> z (fst p) = Some (snd p) \<and> (\<forall>m sc. z m = Some sc \<longrightarrow> snd p \<le> sc)"

locale redis =
  fixes R :: "'s redis_client"
    and view :: "'s \<Rightarrow> keyspace"
  assumes HSet_law: "cmd_wr view k (cHSet R k fvs) isHash
            (\<lambda>x. Some (RHash (hashOf x ++ map_of (rev fvs))))"
    and HSet_nothing: "cHSet R k [] s \<noteq> (Inr u, s')"
    and HGetAll_law: "cmd_rd view (cHGetAll R k)
            (\<lambda>v r. \<forall>res. r = Inr res \<longrightarrow> isHash (v k) \<and> map_of res = hashOf (v k))"
    and SAdd_law: "cmd_wr view k (cSAdd R k m) isSet (\<lambda>x. Some (RSet (insert m (setOf x))))"
    and SRem_law: "cmd_wr view k (cSRem R k m) isSet (\<lambda>x. putSet (setOf x - {m}))"
    and SMembers_law: "cmd_rd view (cSMembers R k)
            (\<lambda>v r. \<forall>ms. r = Inr ms \<longrightarrow> isSet (v k) \<and> set ms = setOf (v k) \<and> distinct ms)"
    and Del_law: "cmd_wr view k (cDel R k) (\<lambda>_. True) (\<lambda>_. None)"
    and Exists_law: "cmd_rd view (cExists R k) (\<lambda>v r. \<forall>b. r = Inr b \<longrightarrow> (b \<longleftrightarrow> v k \<noteq> None))"
    and Expire_law: "cmd_wr view k (cExpire R k ttl) (\<lambda>_. True) (\<lambda>x. if 0 < ttl then x else None)"
    and Get_law: "cmd_rd view (cGet R k)
            (\<lambda>v r. (\<forall>x. r = Inr x \<longrightarrow> v k = Some (RStr x)) \<and> (r = Inl RedisNil \<longrightarrow> v k = None))"
    and Set_law: "cmd_wr view k (cSet R k x ttl) (\<lambda>_. True) (\<lambda>_. Some (RStr x))"
    and RPush_law: "cmd_wr view k (cRPush R k x) isList (\<lambda>y. Some (RList (listOf y @ [x])))"
    and LPop_wr: "cmd_wr view k (cLPop R k) (\<lambda>y. isList y \<and> listOf y \<noteq> []) (\<lambda>y. putList (tl (listOf y)))"
    and LPop_reply: "cLPop R k s = (Inr x, s') \<Longrightarrow> x = hd (listOf (view s k))"
    and LLen_law: "cmd_rd view (cLLen R k)
            (\<lambda>v r. \<forall>n. r = Inr n \<longrightarrow> isList (v k) \<and> n = length (listOf (v k)))"
    and ZAdd_law: "cmd_wr view k (cZAdd R k sc m) isZSet (\<lambda>y. Some (RZSet ((zsetOf y)(m \<mapsto> sc))))"
    and ZPopMin_foot: "cZPopMin R k s = (r, s') \<Longrightarrow> agree_off {k} (view s) (view s')"
    and ZPopMin_Nil: "cZPopMin R k s = (Inr [], s') \<Longrightarrow> zsetOf (view s k) = Map.empty \<and> view s' = view s"
    and ZPopMin_Cons: "cZPopMin R k s = (Inr (p # ps), s') \<Longrightarrow>
            isZSet (view s k) \<and> ps = [] \<and> zmin (zsetOf (view s k)) p \<and>
            view s' = (view s)(k := putZSet ((zsetOf (view s k))(fst p := None)))"
    and ZCard_law: "cmd_rd view (cZCard R k)
            (\<lambda>v r. \<forall>n. r = Inr n \<longrightarrow> isZSet (v k) \<and> n = card (dom (zsetOf (v k))))"
    and Obtain_foot: "cObtain R k ttl n s = (ro, s') \<Longrightarrow> agree_off {k} (view s) (view s')"
    and Obtain_ok: "cObtain R k ttl n s = (Inr tok, s') \<Longrightarrow>
            view s k = None \<and> view s' = (view s)(k \<mapsto> RStr tok)"
    and RetrieveLock_law: "cmd_rd view (cRetrieveLock R k tok)
            (\<lambda>v r. r = Inr () \<longrightarrow> v k = Some (RStr tok))"
    and ReleaseLock_law: "cmd_wr view k (cReleaseLock R k tok) (\<lambda>x. x = Some (RStr tok)) (\<lambda>_. None)"

text \<open>A server that answers: a command on a key of the right type succeeds.\<close>

locale redis_up = redis +
  assumes HSet_up: "fvs \<noteq> [] \<Longrightarrow> isHash (view s k) \<Longrightarrow> \<exists>a s'. cHSet R k fvs s = (Inr a, s')"
    and HGetAll_up: "isHash (view s k) \<Longrightarrow> \<exists>a s'. cHGetAll R k s = (Inr a, s')"
    and SAdd_up: "isSet (view s k) \<Longrightarrow> \<exists>a s'. cSAdd R k m s = (Inr a, s')"
    and SRem_up: "isSet (view s k) \<Longrightarrow> \<exists>a s'. cSRem R k m s = (Inr a, s')"
    and SMembers_up: "isSet (view s k) \<Longrightarrow> \<exists>a s'. cSMembers R k s = (Inr a, s')"
    and Del_up: "\<exists>a s'. cDel R k s = (Inr a, s')"
    and Exists_up: "\<exists>a s'. cExists R k s = (Inr a, s')"
    and Expire_up: "\<exists>a s'. cExpire R k ttl s = (Inr a, s')"
    and Get_up: "view s k = Some (RStr x) \<Longrightarrow> \<exists>a s'. cGet R k s = (Inr a, s')"
    and Get_nil: "view s k = None \<Longrightarrow> \<exists>s'. cGet R k s = (Inl RedisNil, s')"
    and Set_up: "\<exists>a s'. cSet R k x ttl s = (Inr a, s')"
    and RPush_up: "isList (view s k) \<Longrightarrow> \<exists>a s'. cRPush R k x s = (Inr a, s')"
    and LPop_up: "isList (view s k) \<Longrightarrow> listOf (view s k) \<noteq> [] \<Longrightarrow> \<exists>a s'. cLPop R k s = (Inr a, s')"
    and LLen_up: "isList (view s k) \<Longrightarrow> \<exists>a s'. cLLen R k s = (Inr a, s')"
    and ZAdd_up: "isZSet (view s k) \<Longrightarrow> \<exists>a s'. cZAdd R k sc m s = (Inr a, s')"
    and ZPopMin_up: "isZSet (view s k) \<Longrightarrow> \<exists>a s'. cZPopMin R k s = (Inr a, s')"
    and ZCard_up: "isZSet (view s k) \<Longrightarrow> \<exists>a s'. cZCard R k s = (Inr a, s')"
    and Obtain_up: "view s k = None \<Longrightarrow> \<exists>a s'. cObtain R k ttl n s = (Inr a, s')"
    and ReleaseLock_up: "view s k = Some (RStr tok) \<Longrightarrow> \<exists>a s'. cReleaseLock R k tok s = (Inr a, s')"

section \<open>The process: commands and held locks\<close>

record 's world =
  rdb :: 's
  locks :: "string \<rightharpoonup> string"

definition onR :: "('s, 'a) io \<Rightarrow> ('s world, 'a) io" where
  "onR m w = (case m (rdb w) of (r, s') \<Rightarrow> (r, w\<lparr>rdb := s'\<rparr>))"

definition HSet :: "'s redis_client \<Rightarrow> string \<Rightarrow> (string \<times> string) list \<Rightarrow> ('s world, unit) io" where
  "HSet R k fvs = onR (cHSet R k fvs)"

definition HGetAll :: "'s redis_client \<Rightarrow> string \<Rightarrow> ('s world, (string \<times> string) list) io" where
  "HGetAll R k = onR (cHGetAll R k)"

definition SAdd :: "'s redis_client \<Rightarrow> string \<Rightarrow> string \<Rightarrow> ('s world, unit) io" where
  "SAdd R k m = onR (cSAdd R k m)"

definition SRem :: "'s redis_client \<Rightarrow> string \<Rightarrow> string \<Rightarrow> ('s world, unit) io" where
  "SRem R k m = onR (cSRem R k m)"

definition SMembers :: "'s redis_client \<Rightarrow> string \<Rightarrow> ('s world, string list) io" where
  "SMembers R k = onR (cSMembers R k)"

definition Del :: "'s redis_client \<Rightarrow> string \<Rightarrow> ('s world, unit) io" where
  "Del R k = onR (cDel R k)"

definition Exists :: "'s redis_client \<Rightarrow> string \<Rightarrow> ('s world, bool) io" where
  "Exists R k = onR (cExists R k)"

definition Expire :: "'s redis_client \<Rightarrow> string \<Rightarrow> int \<Rightarrow> ('s world, unit) io" where
  "Expire R k ttl = onR (cExpire R k ttl)"

definition Get :: "'s redis_client \<Rightarrow> string \<Rightarrow> ('s world, string) io" where
  "Get R k = onR (cGet R k)"

definition SetKey :: "'s redis_client \<Rightarrow> string \<Rightarrow> string \<Rightarrow> int \<Rightarrow> ('s world, unit) io" where
  "SetKey R k x ttl = onR (cSet R k x ttl)"

definition RPush :: "'s redis_client \<Rightarrow> string \<Rightarrow> string \<Rightarrow> ('s world, unit) io" where
  "RPush R k x = onR (cRPush R k x)"

definition LPop :: "'s redis_client \<Rightarrow> string \<Rightarrow> ('s world, string) io" where
  "LPop R k = onR (cLPop R k)"

definition LLen :: "'s redis_client \<Rightarrow> string \<Rightarrow> ('s world, nat) io" where
  "LLen R k = onR (cLLen R k)"

definition ZAdd :: "'s redis_client \<Rightarrow> string \<Rightarrow> int \<Rightarrow> string \<Rightarrow> ('s world, unit) io" where
  "ZAdd R k sc m = onR (cZAdd R k sc m)"

definition ZPopMin :: "'s redis_client \<Rightarrow> string \<Rightarrow> ('s world, (string \<times> int) list) io" where
  "ZPopMin R k = onR (cZPopMin R k)"

definition ZCard :: "'s redis_client \<Rightarrow> string \<Rightarrow> ('s world, nat) io" where
  "ZCard R k = onR (cZCard R k)"

lemma wp_onR:
  "wp (onR m) Q E w = wp m (\<lambda>a s'. Q a (w\<lparr>rdb := s'\<rparr>)) (\<lambda>e s'. E e (w\<lparr>rdb := s'\<rparr>)) (rdb w)"
  by (simp add: wp_def onR_def split: sum.splits prod.splits)

section \<open>\<open>RedisLock\<close>\<close>

definition second :: int where
  "second = 1000000000"

definition Acquire :: "'s redis_client \<Rightarrow> string \<Rightarrow> int \<Rightarrow> int \<Rightarrow> ('s world, unit) io" where
  "Acquire R key ttlS retries =
     bindE (onR (cObtain R key (ttlS * second) (if retries > 0 then retries else 0)))
       (\<lambda>tok w. (Inr (), w\<lparr>locks := (locks w)(key \<mapsto> tok)\<rparr>))"

definition Token :: "string \<Rightarrow> ('s world, string) io" where
  "Token key w =
     (case locks w key of Some tok \<Rightarrow> (Inr tok, w) | None \<Rightarrow> (Inl ErrLockNotHeld, w))"

definition ReleaseWithToken :: "'s redis_client \<Rightarrow> string \<Rightarrow> string \<Rightarrow> ('s world, unit) io" where
  "ReleaseWithToken R key token =
     thenE (onR (cRetrieveLock R key token)) (onR (cReleaseLock R key token))"

definition Release :: "'s redis_client \<Rightarrow> string \<Rightarrow> ('s world, unit) io" where
  "Release R key w =
     (case locks w key of
        Some tok \<Rightarrow>
          bindE (onR (cReleaseLock R key tok))
            (\<lambda>_ w'. (Inr (), w'\<lparr>locks := (locks w')(key := None)\<rparr>)) w
      | None \<Rightarrow> (Inl ErrLockNotHeld, w))"

text \<open>The pattern of the repositories: acquire, release by \<open>defer\<close>, work.\<close>

definition locked :: "'s redis_client \<Rightarrow> string \<Rightarrow> int \<Rightarrow> int \<Rightarrow> ('s world, 'a) io \<Rightarrow> ('s world, 'a) io" where
  "locked R key ttlS retries body =
     thenE (Acquire R key ttlS retries) (deferring (Release R key) body)"

section \<open>Weakest preconditions of the commands\<close>

text \<open>In the rules below \<open>V w\<close> is the keyspace the process \<open>w\<close> sees.\<close>

lemma cmd_wr_wp:
  assumes "cmd_wr view k m pre f"
    and "\<And>a w'. pre (view (rdb w) k) \<Longrightarrow> view (rdb w') = (view (rdb w))(k := f (view (rdb w) k)) \<Longrightarrow>
           locks w' = locks w \<Longrightarrow> Q a w'"
    and "\<And>e w'. agree_off {k} (view (rdb w)) (view (rdb w')) \<Longrightarrow> locks w' = locks w \<Longrightarrow> E e w'"
  shows "wp (onR m) Q E w"
proof (cases "m (rdb w)")
  case (Pair r s')
  note law = assms(1) [unfolded cmd_wr_def, rule_format, OF Pair]
  show ?thesis
  proof (cases r)
    case (Inl e)
    with law Pair show ?thesis by (simp add: wp_def onR_def assms(3))
  next
    case (Inr a)
    with law Pair show ?thesis by (simp add: wp_def onR_def assms(2))
  qed
qed

lemma cmd_rd_wp:
  assumes "cmd_rd view m P"
    and "\<And>a w'. P (view (rdb w)) (Inr a) \<Longrightarrow> view (rdb w') = view (rdb w) \<Longrightarrow> locks w' = locks w \<Longrightarrow> Q a w'"
    and "\<And>e w'. P (view (rdb w)) (Inl e) \<Longrightarrow> view (rdb w') = view (rdb w) \<Longrightarrow> locks w' = locks w \<Longrightarrow> E e w'"
  shows "wp (onR m) Q E w"
proof (cases "m (rdb w)")
  case (Pair r s')
  note law = assms(1) [unfolded cmd_rd_def, rule_format, OF Pair]
  show ?thesis
  proof (cases r)
    case (Inl e)
    with law Pair show ?thesis by (simp add: wp_def onR_def assms(3))
  next
    case (Inr a)
    with law Pair show ?thesis by (simp add: wp_def onR_def assms(2))
  qed
qed

context redis
begin

abbreviation V :: "'s world \<Rightarrow> keyspace" where
  "V w \<equiv> view (rdb w)"

lemma wp_HSet:
  assumes "\<And>w'. isHash (V w k) \<Longrightarrow> V w' = (V w)(k \<mapsto> RHash (hashOf (V w k) ++ map_of (rev fvs))) \<Longrightarrow>
             locks w' = locks w \<Longrightarrow> Q () w'"
    and "\<And>e w'. agree_off {k} (V w) (V w') \<Longrightarrow> locks w' = locks w \<Longrightarrow> E e w'"
  shows "wp (HSet R k fvs) Q E w"
  unfolding HSet_def by (rule cmd_wr_wp [OF HSet_law]) (simp_all add: assms)

lemma wp_HSet_nothing:
  assumes "\<And>e w'. agree_off {k} (V w) (V w') \<Longrightarrow> locks w' = locks w \<Longrightarrow> E e w'"
  shows "wp (HSet R k []) Q E w"
proof (rule wpI)
  fix a w'
  assume "HSet R k [] w = (Inr a, w')"
  then show "Q a w'" using HSet_nothing by (auto simp: HSet_def onR_def split: prod.splits)
next
  fix e w'
  assume *: "HSet R k [] w = (Inl e, w')"
  have "wp (HSet R k []) (\<lambda>_ _. True) E w" by (rule wp_HSet) (simp_all add: assms)
  then show "E e w'" using * by (rule wp_Inl)
qed

lemma wp_HGetAll:
  assumes "\<And>res w'. isHash (V w k) \<Longrightarrow> map_of res = hashOf (V w k) \<Longrightarrow> V w' = V w \<Longrightarrow>
             locks w' = locks w \<Longrightarrow> Q res w'"
    and "\<And>e w'. V w' = V w \<Longrightarrow> locks w' = locks w \<Longrightarrow> E e w'"
  shows "wp (HGetAll R k) Q E w"
  unfolding HGetAll_def by (rule cmd_rd_wp [OF HGetAll_law]) (simp_all add: assms)

lemma wp_SAdd:
  assumes "\<And>w'. isSet (V w k) \<Longrightarrow> V w' = (V w)(k \<mapsto> RSet (insert m (setOf (V w k)))) \<Longrightarrow>
             locks w' = locks w \<Longrightarrow> Q () w'"
    and "\<And>e w'. agree_off {k} (V w) (V w') \<Longrightarrow> locks w' = locks w \<Longrightarrow> E e w'"
  shows "wp (SAdd R k m) Q E w"
  unfolding SAdd_def by (rule cmd_wr_wp [OF SAdd_law]) (simp_all add: assms)

lemma wp_SRem:
  assumes "\<And>w'. isSet (V w k) \<Longrightarrow> V w' = (V w)(k := putSet (setOf (V w k) - {m})) \<Longrightarrow>
             locks w' = locks w \<Longrightarrow> Q () w'"
    and "\<And>e w'. agree_off {k} (V w) (V w') \<Longrightarrow> locks w' = locks w \<Longrightarrow> E e w'"
  shows "wp (SRem R k m) Q E w"
  unfolding SRem_def by (rule cmd_wr_wp [OF SRem_law]) (simp_all add: assms)

lemma wp_SMembers:
  assumes "\<And>ms w'. isSet (V w k) \<Longrightarrow> set ms = setOf (V w k) \<Longrightarrow> distinct ms \<Longrightarrow> V w' = V w \<Longrightarrow>
             locks w' = locks w \<Longrightarrow> Q ms w'"
    and "\<And>e w'. V w' = V w \<Longrightarrow> locks w' = locks w \<Longrightarrow> E e w'"
  shows "wp (SMembers R k) Q E w"
  unfolding SMembers_def by (rule cmd_rd_wp [OF SMembers_law]) (simp_all add: assms)

lemma wp_Del:
  assumes "\<And>w'. V w' = (V w)(k := None) \<Longrightarrow> locks w' = locks w \<Longrightarrow> Q () w'"
    and "\<And>e w'. agree_off {k} (V w) (V w') \<Longrightarrow> locks w' = locks w \<Longrightarrow> E e w'"
  shows "wp (Del R k) Q E w"
  unfolding Del_def by (rule cmd_wr_wp [OF Del_law]) (simp_all add: assms)

lemma wp_Exists:
  assumes "\<And>w'. V w' = V w \<Longrightarrow> locks w' = locks w \<Longrightarrow> Q (V w k \<noteq> None) w'"
    and "\<And>e w'. V w' = V w \<Longrightarrow> locks w' = locks w \<Longrightarrow> E e w'"
  shows "wp (Exists R k) Q E w"
  unfolding Exists_def by (rule cmd_rd_wp [OF Exists_law]) (simp_all add: assms del: not_None_eq)

lemma wp_Expire:
  assumes "\<And>w'. V w' = (V w)(k := if 0 < ttl then V w k else None) \<Longrightarrow> locks w' = locks w \<Longrightarrow> Q () w'"
    and "\<And>e w'. agree_off {k} (V w) (V w') \<Longrightarrow> locks w' = locks w \<Longrightarrow> E e w'"
  shows "wp (Expire R k ttl) Q E w"
  unfolding Expire_def by (rule cmd_wr_wp [OF Expire_law]) (simp_all add: assms)

lemma wp_Expire_pos:
  assumes "0 < ttl" and "\<And>w'. V w' = V w \<Longrightarrow> locks w' = locks w \<Longrightarrow> Q () w'"
    and "\<And>e w'. agree_off {k} (V w) (V w') \<Longrightarrow> locks w' = locks w \<Longrightarrow> E e w'"
  shows "wp (Expire R k ttl) Q E w"
  by (rule wp_Expire) (simp_all add: assms)

lemma wp_Get:
  assumes "\<And>x w'. V w k = Some (RStr x) \<Longrightarrow> V w' = V w \<Longrightarrow> locks w' = locks w \<Longrightarrow> Q x w'"
    and "\<And>w'. V w k = None \<Longrightarrow> V w' = V w \<Longrightarrow> locks w' = locks w \<Longrightarrow> E RedisNil w'"
    and "\<And>e w'. e \<noteq> RedisNil \<Longrightarrow> V w' = V w \<Longrightarrow> locks w' = locks w \<Longrightarrow> E e w'"
  shows "wp (Get R k) Q E w"
  unfolding Get_def
proof (rule cmd_rd_wp [OF Get_law])
  fix e w'
  assume "(\<forall>x. Inl e = Inr x \<longrightarrow> V w k = Some (RStr x)) \<and> (Inl e = Inl RedisNil \<longrightarrow> V w k = None)"
    and "V w' = V w" "locks w' = locks w"
  then show "E e w'" using assms(2,3) by (cases "e = RedisNil") auto
qed (simp add: assms)

lemma wp_SetKey:
  assumes "\<And>w'. V w' = (V w)(k \<mapsto> RStr x) \<Longrightarrow> locks w' = locks w \<Longrightarrow> Q () w'"
    and "\<And>e w'. agree_off {k} (V w) (V w') \<Longrightarrow> locks w' = locks w \<Longrightarrow> E e w'"
  shows "wp (SetKey R k x ttl) Q E w"
  unfolding SetKey_def by (rule cmd_wr_wp [OF Set_law]) (simp_all add: assms)

lemma wp_RPush:
  assumes "\<And>w'. isList (V w k) \<Longrightarrow> V w' = (V w)(k \<mapsto> RList (listOf (V w k) @ [x])) \<Longrightarrow>
             locks w' = locks w \<Longrightarrow> Q () w'"
    and "\<And>e w'. agree_off {k} (V w) (V w') \<Longrightarrow> locks w' = locks w \<Longrightarrow> E e w'"
  shows "wp (RPush R k x) Q E w"
  unfolding RPush_def by (rule cmd_wr_wp [OF RPush_law]) (simp_all add: assms)

lemma wp_LLen:
  assumes "\<And>w'. isList (V w k) \<Longrightarrow> V w' = V w \<Longrightarrow> locks w' = locks w \<Longrightarrow> Q (length (listOf (V w k))) w'"
    and "\<And>e w'. V w' = V w \<Longrightarrow> locks w' = locks w \<Longrightarrow> E e w'"
  shows "wp (LLen R k) Q E w"
  unfolding LLen_def by (rule cmd_rd_wp [OF LLen_law]) (simp_all add: assms)

lemma wp_LPop:
  assumes "\<And>w'. isList (V w k) \<Longrightarrow> listOf (V w k) \<noteq> [] \<Longrightarrow> V w' = (V w)(k := putList (tl (listOf (V w k)))) \<Longrightarrow>
             locks w' = locks w \<Longrightarrow> Q (hd (listOf (V w k))) w'"
    and "\<And>e w'. agree_off {k} (V w) (V w') \<Longrightarrow> locks w' = locks w \<Longrightarrow> E e w'"
  shows "wp (LPop R k) Q E w"
proof (rule wpI)
  fix x w'
  assume "LPop R k w = (Inr x, w')"
  then obtain s' where s': "cLPop R k (rdb w) = (Inr x, s')" "w' = w\<lparr>rdb := s'\<rparr>"
    by (auto simp: LPop_def onR_def split: prod.splits)
  with LPop_wr [of k, unfolded cmd_wr_def] LPop_reply [OF s'(1)] show "Q x w'"
    by (auto intro!: assms(1))
next
  fix e w'
  assume "LPop R k w = (Inl e, w')"
  then obtain s' where s': "cLPop R k (rdb w) = (Inl e, s')" "w' = w\<lparr>rdb := s'\<rparr>"
    by (auto simp: LPop_def onR_def split: prod.splits)
  with LPop_wr [of k, unfolded cmd_wr_def] show "E e w'"
    by (auto intro!: assms(2))
qed

lemma wp_ZAdd:
  assumes "\<And>w'. isZSet (V w k) \<Longrightarrow> V w' = (V w)(k \<mapsto> RZSet ((zsetOf (V w k))(m \<mapsto> sc))) \<Longrightarrow>
             locks w' = locks w \<Longrightarrow> Q () w'"
    and "\<And>e w'. agree_off {k} (V w) (V w') \<Longrightarrow> locks w' = locks w \<Longrightarrow> E e w'"
  shows "wp (ZAdd R k sc m) Q E w"
  unfolding ZAdd_def by (rule cmd_wr_wp [OF ZAdd_law]) (simp_all add: assms)

lemma wp_ZCard:
  assumes "\<And>w'. isZSet (V w k) \<Longrightarrow> V w' = V w \<Longrightarrow> locks w' = locks w \<Longrightarrow> Q (card (dom (zsetOf (V w k)))) w'"
    and "\<And>e w'. V w' = V w \<Longrightarrow> locks w' = locks w \<Longrightarrow> E e w'"
  shows "wp (ZCard R k) Q E w"
  unfolding ZCard_def by (rule cmd_rd_wp [OF ZCard_law]) (simp_all add: assms)

lemma wp_ZPopMin:
  assumes "\<And>w'. zsetOf (V w k) = Map.empty \<Longrightarrow> V w' = V w \<Longrightarrow> locks w' = locks w \<Longrightarrow> Q [] w'"
    and "\<And>p w'. isZSet (V w k) \<Longrightarrow> zmin (zsetOf (V w k)) p \<Longrightarrow>
           V w' = (V w)(k := putZSet ((zsetOf (V w k))(fst p := None))) \<Longrightarrow> locks w' = locks w \<Longrightarrow> Q [p] w'"
    and "\<And>e w'. agree_off {k} (V w) (V w') \<Longrightarrow> locks w' = locks w \<Longrightarrow> E e w'"
  shows "wp (ZPopMin R k) Q E w"
proof (rule wpI)
  fix xs w'
  assume "ZPopMin R k w = (Inr xs, w')"
  then obtain s' where s': "cZPopMin R k (rdb w) = (Inr xs, s')" "w' = w\<lparr>rdb := s'\<rparr>"
    by (auto simp: ZPopMin_def onR_def split: prod.splits)
  show "Q xs w'"
  proof (cases xs)
    case Nil
    with ZPopMin_Nil s' show ?thesis by (auto intro!: assms(1))
  next
    case (Cons p ps)
    with ZPopMin_Cons [of k "rdb w" p ps s'] s' show ?thesis by (auto intro!: assms(2))
  qed
next
  fix e w'
  assume "ZPopMin R k w = (Inl e, w')"
  then obtain s' where s': "cZPopMin R k (rdb w) = (Inl e, s')" "w' = w\<lparr>rdb := s'\<rparr>"
    by (auto simp: ZPopMin_def onR_def split: prod.splits)
  with ZPopMin_foot [OF s'(1)] show "E e w'" by (auto intro!: assms(3))
qed

lemma wp_Acquire:
  assumes "\<And>tok w'. V w k = None \<Longrightarrow> V w' = (V w)(k \<mapsto> RStr tok) \<Longrightarrow> locks w' = (locks w)(k \<mapsto> tok) \<Longrightarrow> Q () w'"
    and "\<And>e w'. agree_off {k} (V w) (V w') \<Longrightarrow> locks w' = locks w \<Longrightarrow> E e w'"
  shows "wp (Acquire R k ttl n) Q E w"
proof -
  define n' where "n' = (if 0 < n then n else 0)"
  obtain r s' where *: "cObtain R k (ttl * second) n' (rdb w) = (r, s')" by force
  show ?thesis
  proof (cases r)
    case (Inl e)
    with * Obtain_foot [OF *] show ?thesis
      by (simp add: Acquire_def n'_def [symmetric] wp_def bindE_def onR_def assms(2))
  next
    case (Inr tok)
    with * Obtain_ok [of k "ttl * second" n' "rdb w" tok s'] show ?thesis
      by (simp add: Acquire_def n'_def [symmetric] wp_def bindE_def onR_def assms(1))
  qed
qed

text \<open>Releasing touches the lock key only, whether it succeeds or not.\<close>

lemma wp_Release:
  assumes "\<And>w'. agree_off {k} (V w) (V w') \<Longrightarrow> \<forall>j. j \<noteq> k \<longrightarrow> locks w' j = locks w j \<Longrightarrow> Q () w'"
    and "\<And>e w'. agree_off {k} (V w) (V w') \<Longrightarrow> \<forall>j. j \<noteq> k \<longrightarrow> locks w' j = locks w j \<Longrightarrow> E e w'"
  shows "wp (Release R k) Q E w"
proof (cases "locks w k")
  case None
  then show ?thesis by (simp add: Release_def wp_def assms(2))
next
  case (Some tok)
  obtain r s' where *: "cReleaseLock R k tok (rdb w) = (r, s')" by force
  have "agree_off {k} (V w) (view s')"
    using ReleaseLock_law [of k tok, unfolded cmd_wr_def] * by blast
  with Some * show ?thesis
    by (cases r) (simp_all add: Release_def wp_def bindE_def onR_def assms)
qed

text \<open>
  A locked section may assume that the lock key was free; what it establishes must not depend on
  the lock key, since the release changes it.
\<close>

lemma wp_locked:
  assumes "\<And>w'. V w k = None \<Longrightarrow> agree_off {k} (V w) (V w') \<Longrightarrow>
             wp body (\<lambda>a w1. \<forall>w2. agree_off {k} (V w1) (V w2) \<longrightarrow> Q a w2)
                     (\<lambda>e w1. \<forall>w2. agree_off {k} (V w1) (V w2) \<longrightarrow> E e w2) w'"
    and "\<And>e w'. agree_off {k} (V w) (V w') \<Longrightarrow> E e w'"
  shows "wp (locked R k ttl n body) Q E w"
  unfolding locked_def wp_eqs
proof (rule wp_Acquire)
  fix tok w'
  assume "V w k = None" "V w' = (V w)(k \<mapsto> RStr tok)"
  then have "wp body (\<lambda>a w1. \<forall>w2. agree_off {k} (V w1) (V w2) \<longrightarrow> Q a w2)
                     (\<lambda>e w1. \<forall>w2. agree_off {k} (V w1) (V w2) \<longrightarrow> E e w2) w'"
    by (intro assms(1)) auto
  then show "wp body (\<lambda>a s'. wp (Release R k) (\<lambda>_. Q a) (\<lambda>_. Q a) s')
              (\<lambda>e s'. wp (Release R k) (\<lambda>_. E e) (\<lambda>_. E e) s') w'"
    by (rule wp_mono) (auto intro!: wp_Release)
qed (simp add: assms(2))

text \<open>The library calls that code outside \<open>RedisLock\<close> makes.\<close>

lemma wp_Obtain:
  assumes "\<And>tok w'. V w k = None \<Longrightarrow> V w' = (V w)(k \<mapsto> RStr tok) \<Longrightarrow> locks w' = locks w \<Longrightarrow> Q tok w'"
    and "\<And>e w'. agree_off {k} (V w) (V w') \<Longrightarrow> locks w' = locks w \<Longrightarrow> E e w'"
  shows "wp (onR (cObtain R k ttl n)) Q E w"
proof (cases "cObtain R k ttl n (rdb w)")
  case (Pair r s')
  then show ?thesis
    using Obtain_foot [OF Pair] Obtain_ok [of k ttl n "rdb w" _ s']
    by (cases r) (auto simp: wp_def onR_def assms)
qed

lemma wp_ReleaseLock:
  assumes "\<And>r w'. agree_off {k} (V w) (V w') \<Longrightarrow> locks w' = locks w \<Longrightarrow> Q r w'"
    and "\<And>e w'. agree_off {k} (V w) (V w') \<Longrightarrow> locks w' = locks w \<Longrightarrow> E e w'"
  shows "wp (onR (cReleaseLock R k tok)) Q E w"
  by (rule cmd_wr_wp [OF ReleaseLock_law]) (auto intro: assms)

lemmas wp_cmds = wp_HSet wp_HGetAll wp_SAdd wp_SRem wp_SMembers wp_Del wp_Exists wp_Get wp_SetKey
  wp_RPush wp_LLen wp_LPop wp_ZAdd wp_ZCard wp_ZPopMin wp_Release

end

section \<open>Total correctness on a server that answers\<close>

lemma wp_up:
  assumes "\<exists>a s'. m (rdb w) = (Inr a, s')" and "wp (onR m) Q (\<lambda>_ _. True) w"
  shows "wp (onR m) Q E w"
  using assms by (auto simp: wp_def onR_def)

context redis_up
begin

lemma up_HSet:
  assumes "fvs \<noteq> []" and "isHash (V w k)"
    and "\<And>w'. V w' = (V w)(k \<mapsto> RHash (hashOf (V w k) ++ map_of (rev fvs))) \<Longrightarrow> locks w' = locks w \<Longrightarrow> Q () w'"
  shows "wp (HSet R k fvs) Q E w"
  unfolding HSet_def by (rule wp_up [OF HSet_up]) (use assms in \<open>auto simp flip: HSet_def intro: wp_HSet\<close>)

lemma up_HGetAll:
  assumes "isHash (V w k)"
    and "\<And>res w'. map_of res = hashOf (V w k) \<Longrightarrow> V w' = V w \<Longrightarrow> locks w' = locks w \<Longrightarrow> Q res w'"
  shows "wp (HGetAll R k) Q E w"
  unfolding HGetAll_def by (rule wp_up [OF HGetAll_up]) (auto simp flip: HGetAll_def intro: wp_HGetAll assms)

lemma up_SAdd:
  assumes "isSet (V w k)"
    and "\<And>w'. V w' = (V w)(k \<mapsto> RSet (insert m (setOf (V w k)))) \<Longrightarrow> locks w' = locks w \<Longrightarrow> Q () w'"
  shows "wp (SAdd R k m) Q E w"
  unfolding SAdd_def by (rule wp_up [OF SAdd_up]) (auto simp flip: SAdd_def intro: wp_SAdd assms)

lemma up_SRem:
  assumes "isSet (V w k)"
    and "\<And>w'. V w' = (V w)(k := putSet (setOf (V w k) - {m})) \<Longrightarrow> locks w' = locks w \<Longrightarrow> Q () w'"
  shows "wp (SRem R k m) Q E w"
  unfolding SRem_def by (rule wp_up [OF SRem_up]) (auto simp flip: SRem_def intro: wp_SRem assms)

lemma up_SMembers:
  assumes "isSet (V w k)"
    and "\<And>ms w'. set ms = setOf (V w k) \<Longrightarrow> distinct ms \<Longrightarrow> V w' = V w \<Longrightarrow> locks w' = locks w \<Longrightarrow> Q ms w'"
  shows "wp (SMembers R k) Q E w"
  unfolding SMembers_def by (rule wp_up [OF SMembers_up]) (auto simp flip: SMembers_def intro: wp_SMembers assms)

lemma up_Del:
  assumes "\<And>w'. V w' = (V w)(k := None) \<Longrightarrow> locks w' = locks w \<Longrightarrow> Q () w'"
  shows "wp (Del R k) Q E w"
  unfolding Del_def by (rule wp_up [OF Del_up]) (auto simp flip: Del_def intro: wp_Del assms)

lemma up_Exists:
  assumes "\<And>w'. V w' = V w \<Longrightarrow> locks w' = locks w \<Longrightarrow> Q (V w k \<noteq> None) w'"
  shows "wp (Exists R k) Q E w"
  unfolding Exists_def
  by (rule wp_up [OF Exists_up]) (auto simp flip: Exists_def simp del: not_None_eq intro: wp_Exists assms)

lemma up_Expire:
  assumes "0 < ttl" and "\<And>w'. V w' = V w \<Longrightarrow> locks w' = locks w \<Longrightarrow> Q () w'"
  shows "wp (Expire R k ttl) Q E w"
  unfolding Expire_def by (rule wp_up [OF Expire_up]) (auto simp flip: Expire_def intro: wp_Expire_pos assms)

lemma up_SetKey:
  assumes "\<And>w'. V w' = (V w)(k \<mapsto> RStr x) \<Longrightarrow> locks w' = locks w \<Longrightarrow> Q () w'"
  shows "wp (SetKey R k x ttl) Q E w"
  unfolding SetKey_def by (rule wp_up [OF Set_up]) (auto simp flip: SetKey_def intro: wp_SetKey assms)

lemma up_Get:
  assumes "V w k = Some (RStr x)"
    and "\<And>w'. V w' = V w \<Longrightarrow> locks w' = locks w \<Longrightarrow> Q x w'"
  shows "wp (Get R k) Q E w"
  unfolding Get_def
  by (rule wp_up [OF Get_up]) (use assms in \<open>auto simp flip: Get_def intro!: wp_Get\<close>)

lemma up_Get_None:
  assumes "V w k = None"
    and "\<And>w'. V w' = V w \<Longrightarrow> locks w' = locks w \<Longrightarrow> E RedisNil w'"
  shows "wp (Get R k) Q E w"
proof -
  obtain s' where s': "cGet R k (rdb w) = (Inl RedisNil, s')" using Get_nil [OF assms(1)] by blast
  then have "view s' = V w" using Get_law [of k, unfolded cmd_rd_def] by blast
  with s' assms(2) show ?thesis by (simp add: wp_def Get_def onR_def)
qed

lemma up_RPush:
  assumes "isList (V w k)"
    and "\<And>w'. V w' = (V w)(k \<mapsto> RList (listOf (V w k) @ [x])) \<Longrightarrow> locks w' = locks w \<Longrightarrow> Q () w'"
  shows "wp (RPush R k x) Q E w"
  unfolding RPush_def by (rule wp_up [OF RPush_up]) (auto simp flip: RPush_def intro: wp_RPush assms)

lemma up_LLen:
  assumes "isList (V w k)"
    and "\<And>w'. V w' = V w \<Longrightarrow> locks w' = locks w \<Longrightarrow> Q (length (listOf (V w k))) w'"
  shows "wp (LLen R k) Q E w"
  unfolding LLen_def by (rule wp_up [OF LLen_up]) (auto simp flip: LLen_def intro: wp_LLen assms)

lemma up_LPop:
  assumes "isList (V w k)" and "listOf (V w k) \<noteq> []"
    and "\<And>w'. V w' = (V w)(k := putList (tl (listOf (V w k)))) \<Longrightarrow> locks w' = locks w \<Longrightarrow>
           Q (hd (listOf (V w k))) w'"
  shows "wp (LPop R k) Q E w"
  unfolding LPop_def by (rule wp_up [OF LPop_up]) (use assms in \<open>auto simp flip: LPop_def intro: wp_LPop\<close>)

lemma up_ZAdd:
  assumes "isZSet (V w k)"
    and "\<And>w'. V w' = (V w)(k \<mapsto> RZSet ((zsetOf (V w k))(m \<mapsto> sc))) \<Longrightarrow> locks w' = locks w \<Longrightarrow> Q () w'"
  shows "wp (ZAdd R k sc m) Q E w"
  unfolding ZAdd_def by (rule wp_up [OF ZAdd_up]) (auto simp flip: ZAdd_def intro: wp_ZAdd assms)

lemma up_ZPopMin:
  assumes "isZSet (V w k)"
    and "\<And>w'. zsetOf (V w k) = Map.empty \<Longrightarrow> V w' = V w \<Longrightarrow> locks w' = locks w \<Longrightarrow> Q [] w'"
    and "\<And>p w'. zmin (zsetOf (V w k)) p \<Longrightarrow>
           V w' = (V w)(k := putZSet ((zsetOf (V w k))(fst p := None))) \<Longrightarrow> locks w' = locks w \<Longrightarrow> Q [p] w'"
  shows "wp (ZPopMin R k) Q E w"
  unfolding ZPopMin_def by (rule wp_up [OF ZPopMin_up]) (auto simp flip: ZPopMin_def intro: wp_ZPopMin assms)

lemma up_Obtain:
  assumes "V w k = None"
    and "\<And>tok w'. V w' = (V w)(k \<mapsto> RStr tok) \<Longrightarrow> locks w' = locks w \<Longrightarrow> Q tok w'"
  shows "wp (onR (cObtain R k ttl n)) Q E w"
  by (rule wp_up [OF Obtain_up]) (auto intro: wp_Obtain assms)

lemma up_Acquire:
  assumes "V w k = None"
    and "\<And>tok w'. V w' = (V w)(k \<mapsto> RStr tok) \<Longrightarrow> locks w' = (locks w)(k \<mapsto> tok) \<Longrightarrow> Q () w'"
  shows "wp (Acquire R k ttl n) Q E w"
  unfolding Acquire_def wp_bindE
  by (rule up_Obtain [OF assms(1)]) (simp add: wp_def assms(2))

lemma up_Release:
  assumes "locks w k = Some tok" and "V w k = Some (RStr tok)"
    and "\<And>w'. V w' = (V w)(k := None) \<Longrightarrow> locks w' = (locks w)(k := None) \<Longrightarrow> Q () w'"
  shows "wp (Release R k) Q E w"
proof -
  obtain s2 where s2: "cReleaseLock R k tok (rdb w) = (Inr (), s2)"
    using ReleaseLock_up [OF assms(2)] by auto
  then have "view s2 = (V w)(k := None)"
    using ReleaseLock_law [of k tok, unfolded cmd_wr_def] by blast
  then show ?thesis
    using s2 assms(1) by (simp add: wp_def Release_def bindE_def onR_def assms(3))
qed

lemma up_locked:
  assumes "V w k = None"
    and "\<And>tok w'. V w' = (V w)(k \<mapsto> RStr tok) \<Longrightarrow> locks w' = (locks w)(k \<mapsto> tok) \<Longrightarrow>
           wp body
             (\<lambda>a w1. V w1 k = Some (RStr tok) \<and> locks w1 = locks w' \<and>
                (\<forall>w2. V w2 = (V w1)(k := None) \<longrightarrow> locks w2 = (locks w)(k := None) \<longrightarrow> Q a w2))
             (\<lambda>e w1. V w1 k = Some (RStr tok) \<and> locks w1 = locks w' \<and>
                (\<forall>w2. V w2 = (V w1)(k := None) \<longrightarrow> locks w2 = (locks w)(k := None) \<longrightarrow> E e w2)) w'"
  shows "wp (locked R k ttl n body) Q E w"
proof -
  define n' where "n' = (if 0 < n then n else 0)"
  obtain tok s' where s': "cObtain R k (ttl * second) n' (rdb w) = (Inr tok, s')"
    using Obtain_up [OF assms(1)] by blast
  define w' where "w' = w\<lparr>rdb := s', locks := (locks w)(k \<mapsto> tok)\<rparr>"
  have acq: "Acquire R k ttl n w = (Inr (), w')"
    by (simp add: Acquire_def n'_def [symmetric] bindE_def onR_def s' w'_def)
  have V': "V w' = (V w)(k \<mapsto> RStr tok)" and L': "locks w' = (locks w)(k \<mapsto> tok)"
    using Obtain_ok [OF s'] by (simp_all add: w'_def)
  have rel: "wp (Release R k) (\<lambda>_. P) (\<lambda>_. P) w1"
    if v1: "V w1 k = Some (RStr tok)" and l1: "locks w1 = locks w'"
      and P: "\<And>w2. V w2 = (V w1)(k := None) \<Longrightarrow> locks w2 = (locks w)(k := None) \<Longrightarrow> P w2" for w1 P
  proof -
    obtain s2 where s2: "cReleaseLock R k tok (rdb w1) = (Inr (), s2)"
      using ReleaseLock_up [OF v1] by auto
    then have "view s2 = (V w1)(k := None)"
      using ReleaseLock_law [of k tok, unfolded cmd_wr_def] by blast
    moreover have "locks w1 k = Some tok" using l1 L' by simp
    ultimately show ?thesis
      using s2 l1 L' by (simp add: wp_def Release_def bindE_def onR_def P)
  qed
  have "wp (deferring (Release R k) body) Q E w'"
    unfolding wp_eqs
    by (rule wp_mono [OF assms(2) [OF V' L']]) (auto intro!: rel)
  then show ?thesis
    by (simp add: locked_def thenE_def wp_bindE wp_def [of "Acquire R k ttl n"] acq)
qed

lemmas up_cmds = up_HSet up_HGetAll up_SAdd up_SRem up_SMembers up_Del up_Exists up_Expire up_SetKey
  up_RPush up_LLen up_LPop up_ZAdd up_ZPopMin

end

section \<open>A reference server\<close>

text \<open>
  An in-memory server that implements the commands as documented. It is the concrete parameter the
  witnesses run the program on, and it shows that the two interfaces can be satisfied. Hashes, sets
  and sorted sets are lists, so that every command computes.
\<close>

datatype mval =
    MStr string
  | MHash "(string \<times> string) list"
  | MSet "string list"
  | MList "string list"
  | MZSet "(string \<times> int) list"

type_synonym mem = "string \<Rightarrow> mval option"

definition wrongtype :: goerror where
  "wrongtype = RedisErr ''WRONGTYPE Operation against a key holding the wrong kind of value''"

fun hput :: "string \<Rightarrow> 'v \<Rightarrow> (string \<times> 'v) list \<Rightarrow> (string \<times> 'v) list" where
  "hput f v [] = [(f, v)]"
| "hput f v ((g, u) # xs) = (if f = g then (g, v) # xs else (g, u) # hput f v xs)"

fun hputs :: "(string \<times> string) list \<Rightarrow> (string \<times> string) list \<Rightarrow> (string \<times> string) list" where
  "hputs [] h = h"
| "hputs ((f, v) # xs) h = hputs xs (hput f v h)"

fun zpick :: "string \<times> int \<Rightarrow> (string \<times> int) list \<Rightarrow> string \<times> int" where
  "zpick p [] = p"
| "zpick p (q # qs) = (if snd q < snd p then zpick q qs else zpick p qs)"

definition mem_HSet :: "string \<Rightarrow> (string \<times> string) list \<Rightarrow> (mem, unit) io" where
  "mem_HSet k fvs s =
     (if fvs = [] then (Inl (RedisErr ''ERR wrong number of arguments for 'hset' command''), s)
      else case s k of
        None \<Rightarrow> (Inr (), s(k \<mapsto> MHash (hputs fvs [])))
      | Some (MHash h) \<Rightarrow> (Inr (), s(k \<mapsto> MHash (hputs fvs h)))
      | _ \<Rightarrow> (Inl wrongtype, s))"

definition mem_HGetAll :: "string \<Rightarrow> (mem, (string \<times> string) list) io" where
  "mem_HGetAll k s =
     (case s k of None \<Rightarrow> (Inr [], s) | Some (MHash h) \<Rightarrow> (Inr h, s) | _ \<Rightarrow> (Inl wrongtype, s))"

definition mem_SAdd :: "string \<Rightarrow> string \<Rightarrow> (mem, unit) io" where
  "mem_SAdd k m s =
     (case s k of
        None \<Rightarrow> (Inr (), s(k \<mapsto> MSet [m]))
      | Some (MSet xs) \<Rightarrow> (Inr (), s(k \<mapsto> MSet (List.insert m xs)))
      | _ \<Rightarrow> (Inl wrongtype, s))"

definition mem_SRem :: "string \<Rightarrow> string \<Rightarrow> (mem, unit) io" where
  "mem_SRem k m s =
     (case s k of
        None \<Rightarrow> (Inr (), s)
      | Some (MSet xs) \<Rightarrow>
          (let ys = filter (\<lambda>x. x \<noteq> m) xs
           in (Inr (), s(k := if ys = [] then None else Some (MSet ys))))
      | _ \<Rightarrow> (Inl wrongtype, s))"

definition mem_SMembers :: "string \<Rightarrow> (mem, string list) io" where
  "mem_SMembers k s =
     (case s k of None \<Rightarrow> (Inr [], s) | Some (MSet xs) \<Rightarrow> (Inr (remdups xs), s) | _ \<Rightarrow> (Inl wrongtype, s))"

definition mem_Del :: "string \<Rightarrow> (mem, unit) io" where
  "mem_Del k s = (Inr (), s(k := None))"

definition mem_Exists :: "string \<Rightarrow> (mem, bool) io" where
  "mem_Exists k s = (Inr (case s k of None \<Rightarrow> False | Some _ \<Rightarrow> True), s)"

definition mem_Expire :: "string \<Rightarrow> int \<Rightarrow> (mem, unit) io" where
  "mem_Expire k ttl s = (Inr (), if 0 < ttl then s else s(k := None))"

definition mem_Get :: "string \<Rightarrow> (mem, string) io" where
  "mem_Get k s =
     (case s k of None \<Rightarrow> (Inl RedisNil, s) | Some (MStr x) \<Rightarrow> (Inr x, s) | _ \<Rightarrow> (Inl wrongtype, s))"

definition mem_Set :: "string \<Rightarrow> string \<Rightarrow> int \<Rightarrow> (mem, unit) io" where
  "mem_Set k x ttl s = (Inr (), s(k \<mapsto> MStr x))"

definition mem_RPush :: "string \<Rightarrow> string \<Rightarrow> (mem, unit) io" where
  "mem_RPush k x s =
     (case s k of
        None \<Rightarrow> (Inr (), s(k \<mapsto> MList [x]))
      | Some (MList xs) \<Rightarrow> (Inr (), s(k \<mapsto> MList (xs @ [x])))
      | _ \<Rightarrow> (Inl wrongtype, s))"

definition mem_LPop :: "string \<Rightarrow> (mem, string) io" where
  "mem_LPop k s =
     (case s k of
        None \<Rightarrow> (Inl RedisNil, s)
      | Some (MList []) \<Rightarrow> (Inl RedisNil, s)
      | Some (MList (x # xs)) \<Rightarrow> (Inr x, s(k := if xs = [] then None else Some (MList xs)))
      | _ \<Rightarrow> (Inl wrongtype, s))"

definition mem_LLen :: "string \<Rightarrow> (mem, nat) io" where
  "mem_LLen k s =
     (case s k of None \<Rightarrow> (Inr 0, s) | Some (MList xs) \<Rightarrow> (Inr (length xs), s) | _ \<Rightarrow> (Inl wrongtype, s))"

definition mem_ZAdd :: "string \<Rightarrow> int \<Rightarrow> string \<Rightarrow> (mem, unit) io" where
  "mem_ZAdd k sc m s =
     (case s k of
        None \<Rightarrow> (Inr (), s(k \<mapsto> MZSet [(m, sc)]))
      | Some (MZSet z) \<Rightarrow> (Inr (), s(k \<mapsto> MZSet (hput m sc z)))
      | _ \<Rightarrow> (Inl wrongtype, s))"

definition mem_ZPopMin :: "string \<Rightarrow> (mem, (string \<times> int) list) io" where
  "mem_ZPopMin k s =
     (case s k of
        None \<Rightarrow> (Inr [], s)
      | Some (MZSet z) \<Rightarrow>
          (case filter (\<lambda>q. map_of z (fst q) = Some (snd q)) z of
             [] \<Rightarrow> (Inr [], s)
           | p # ps \<Rightarrow>
               (let m = zpick p ps; rest = filter (\<lambda>q. fst q \<noteq> fst m) z
                in (Inr [m], s(k := if rest = [] then None else Some (MZSet rest)))))
      | _ \<Rightarrow> (Inl wrongtype, s))"

definition mem_ZCard :: "string \<Rightarrow> (mem, nat) io" where
  "mem_ZCard k s =
     (case s k of
        None \<Rightarrow> (Inr 0, s)
      | Some (MZSet z) \<Rightarrow> (Inr (length (remdups (map fst z))), s)
      | _ \<Rightarrow> (Inl wrongtype, s))"

definition mem_Obtain :: "string \<Rightarrow> int \<Rightarrow> int \<Rightarrow> (mem, string) io" where
  "mem_Obtain k ttl n s =
     (case s k of None \<Rightarrow> (Inr ''token'', s(k \<mapsto> MStr ''token'')) | Some _ \<Rightarrow> (Inl ErrNotObtained, s))"

definition mem_RetrieveLock :: "string \<Rightarrow> string \<Rightarrow> (mem, unit) io" where
  "mem_RetrieveLock k tok s =
     (if s k = Some (MStr tok) then (Inr (), s) else (Inl ErrLockNotHeld, s))"

definition mem_ReleaseLock :: "string \<Rightarrow> string \<Rightarrow> (mem, unit) io" where
  "mem_ReleaseLock k tok s =
     (if s k = Some (MStr tok) then (Inr (), s(k := None)) else (Inl ErrLockNotHeld, s))"

definition mem_client :: "mem redis_client" where
  "mem_client =
     \<lparr>cHSet = mem_HSet, cHGetAll = mem_HGetAll, cSAdd = mem_SAdd, cSRem = mem_SRem,
      cSMembers = mem_SMembers, cDel = mem_Del, cExists = mem_Exists, cExpire = mem_Expire,
      cGet = mem_Get, cSet = mem_Set, cRPush = mem_RPush, cLPop = mem_LPop, cLLen = mem_LLen,
      cZAdd = mem_ZAdd, cZPopMin = mem_ZPopMin, cZCard = mem_ZCard, cObtain = mem_Obtain,
      cRetrieveLock = mem_RetrieveLock, cReleaseLock = mem_ReleaseLock\<rparr>"

fun mval_view :: "mval \<Rightarrow> rvalue" where
  "mval_view (MStr x) = RStr x"
| "mval_view (MHash h) = RHash (map_of h)"
| "mval_view (MSet xs) = RSet (set xs)"
| "mval_view (MList xs) = RList xs"
| "mval_view (MZSet z) = RZSet (map_of z)"

definition mem_view :: "mem \<Rightarrow> keyspace" where
  "mem_view s k = map_option mval_view (s k)"

lemmas mem_cmd_defs =
  mem_HSet_def mem_HGetAll_def mem_SAdd_def mem_SRem_def mem_SMembers_def mem_Del_def mem_Exists_def
  mem_Expire_def mem_Get_def mem_Set_def mem_RPush_def mem_LPop_def mem_LLen_def mem_ZAdd_def
  mem_ZPopMin_def mem_ZCard_def mem_Obtain_def mem_RetrieveLock_def mem_ReleaseLock_def

lemma map_of_hput [simp]: "map_of (hput f v h) = (map_of h)(f \<mapsto> v)"
  by (induction f v h rule: hput.induct) auto

lemma map_of_hputs [simp]: "map_of (hputs fvs h) = map_of h ++ map_of (rev fvs)"
  by (induction fvs h rule: hputs.induct) (auto simp: map_add_def fun_eq_iff split: option.splits)

lemma zpick_in: "zpick p ps \<in> set (p # ps)"
  by (induction p ps rule: zpick.induct) auto

lemma zpick_le: "q \<in> set (p # ps) \<Longrightarrow> snd (zpick p ps) \<le> snd q"
  by (induction p ps arbitrary: q rule: zpick.induct) (auto, force+)

lemma mem_view_upd: "mem_view (s(k := x)) = (mem_view s)(k := map_option mval_view x)"
  by (auto simp: mem_view_def fun_eq_iff)

lemma mem_view_None [simp]: "mem_view s k = None \<longleftrightarrow> s k = None"
  by (simp add: mem_view_def)

lemma mem_view_Some: "s k = Some x \<Longrightarrow> mem_view s k = Some (mval_view x)"
  by (simp add: mem_view_def)

lemma mval_view_RStr [simp]: "mval_view x = RStr y \<longleftrightarrow> x = MStr y"
  by (cases x) auto

lemma map_of_filter_fst: "map_of (filter (\<lambda>q. fst q \<noteq> m) z) = (map_of z)(m := None)"
  by (induction z) auto

lemma current_pairs_Nil: "filter (\<lambda>q. map_of z (fst q) = Some (snd q)) z = [] \<longleftrightarrow> z = []"
  by (cases z) auto

lemma mem_ZPopMin_Nil:
  assumes "mem_ZPopMin k s = (Inr [], s')"
  shows "zsetOf (mem_view s k) = Map.empty \<and> mem_view s' = mem_view s"
  using assms current_pairs_Nil
  by (auto simp: mem_ZPopMin_def mem_view_def Let_def split: option.splits mval.splits list.splits)

lemma mem_ZPopMin_Cons:
  assumes "mem_ZPopMin k s = (Inr (m # ms), s')"
  shows "isZSet (mem_view s k) \<and> ms = [] \<and> zmin (zsetOf (mem_view s k)) m \<and>
    mem_view s' = (mem_view s)(k := putZSet ((zsetOf (mem_view s k))(fst m := None)))"
proof -
  obtain z where z: "s k = Some (MZSet z)"
    using assms by (auto simp: mem_ZPopMin_def split: option.splits mval.splits)
  define cs where "cs = filter (\<lambda>q. map_of z (fst q) = Some (snd q)) z"
  obtain p ps where cs: "cs = p # ps"
    using assms by (cases cs) (auto simp: mem_ZPopMin_def z cs_def [symmetric])
  have m: "m = zpick p ps" "ms = []"
    and s': "s' = s(k := if filter (\<lambda>q. fst q \<noteq> fst m) z = [] then None
                    else Some (MZSet (filter (\<lambda>q. fst q \<noteq> fst m) z)))"
    using assms by (auto simp: mem_ZPopMin_def z cs_def [symmetric] cs Let_def)
  have "m \<in> set cs" using zpick_in [of p ps] by (simp only: m cs)
  then have "map_of z (fst m) = Some (snd m)" by (simp add: cs_def)
  moreover have "snd m \<le> sc" if "map_of z x = Some sc" for x sc
  proof -
    have "(x, sc) \<in> set cs" using that by (simp add: cs_def map_of_SomeD)
    then show ?thesis using zpick_le [of "(x, sc)" p ps] by (simp add: m cs)
  qed
  ultimately have "zmin (map_of z) m" by (simp add: zmin_def)
  moreover have "filter (\<lambda>q. fst q \<noteq> fst m) z = [] \<longleftrightarrow> (map_of z)(fst m := None) = Map.empty"
    by (metis map_of_eq_empty_iff map_of_filter_fst)
  ultimately show ?thesis
    using m by (auto simp: s' z mem_view_upd mem_view_Some putZSet_def map_of_filter_fst)
qed

lemma mem_wr_laws:
  "cmd_wr mem_view k (mem_HSet k fvs) isHash (\<lambda>x. Some (RHash (hashOf x ++ map_of (rev fvs))))"
  "cmd_wr mem_view k (mem_SAdd k m) isSet (\<lambda>x. Some (RSet (insert m (setOf x))))"
  "cmd_wr mem_view k (mem_SRem k m) isSet (\<lambda>x. putSet (setOf x - {m}))"
  "cmd_wr mem_view k (mem_Del k) (\<lambda>_. True) (\<lambda>_. None)"
  "cmd_wr mem_view k (mem_Expire k ttl) (\<lambda>_. True) (\<lambda>x. if 0 < ttl then x else None)"
  "cmd_wr mem_view k (mem_Set k x ttl) (\<lambda>_. True) (\<lambda>_. Some (RStr x))"
  "cmd_wr mem_view k (mem_RPush k x) isList (\<lambda>y. Some (RList (listOf y @ [x])))"
  "cmd_wr mem_view k (mem_LPop k) (\<lambda>y. isList y \<and> listOf y \<noteq> []) (\<lambda>y. putList (tl (listOf y)))"
  "cmd_wr mem_view k (mem_ZAdd k sc m) isZSet (\<lambda>y. Some (RZSet ((zsetOf y)(m \<mapsto> sc))))"
  "cmd_wr mem_view k (mem_ReleaseLock k tok) (\<lambda>x. x = Some (RStr tok)) (\<lambda>_. None)"
  by (auto simp: cmd_wr_def mem_cmd_defs mem_view_upd mem_view_def putSet_def putList_def
        Let_def filter_empty_conv fun_upd_idem_iff
        split: option.splits mval.splits list.splits if_splits)

lemma mem_rd_laws:
  "cmd_rd mem_view (mem_HGetAll k) (\<lambda>v r. \<forall>res. r = Inr res \<longrightarrow> isHash (v k) \<and> map_of res = hashOf (v k))"
  "cmd_rd mem_view (mem_SMembers k) (\<lambda>v r. \<forall>ms. r = Inr ms \<longrightarrow> isSet (v k) \<and> set ms = setOf (v k) \<and> distinct ms)"
  "cmd_rd mem_view (mem_Exists k) (\<lambda>v r. \<forall>b. r = Inr b \<longrightarrow> (b \<longleftrightarrow> v k \<noteq> None))"
  "cmd_rd mem_view (mem_Get k) (\<lambda>v r. (\<forall>x. r = Inr x \<longrightarrow> v k = Some (RStr x)) \<and> (r = Inl RedisNil \<longrightarrow> v k = None))"
  "cmd_rd mem_view (mem_LLen k) (\<lambda>v r. \<forall>n. r = Inr n \<longrightarrow> isList (v k) \<and> n = length (listOf (v k)))"
  "cmd_rd mem_view (mem_ZCard k) (\<lambda>v r. \<forall>n. r = Inr n \<longrightarrow> isZSet (v k) \<and> n = card (dom (zsetOf (v k))))"
  "cmd_rd mem_view (mem_RetrieveLock k tok) (\<lambda>v r. r = Inr () \<longrightarrow> v k = Some (RStr tok))"
  by (auto simp: cmd_rd_def mem_cmd_defs mem_view_def wrongtype_def dom_map_of_conv_image_fst length_remdups_card_conv
        split: option.splits mval.splits if_splits)

lemma mem_ZPopMin_foot: "mem_ZPopMin k s = (r, s') \<Longrightarrow> agree_off {k} (mem_view s) (mem_view s')"
  by (auto simp: mem_ZPopMin_def Let_def mem_view_upd split: option.splits mval.splits list.splits)

lemma mem_Obtain_foot: "mem_Obtain k ttl n s = (r, s') \<Longrightarrow> agree_off {k} (mem_view s) (mem_view s')"
  by (auto simp: mem_Obtain_def mem_view_upd split: option.splits)

lemma mem_up:
  "fvs \<noteq> [] \<Longrightarrow> isHash (mem_view s k) \<Longrightarrow> \<exists>a s'. mem_HSet k fvs s = (Inr a, s')"
  "isHash (mem_view s k) \<Longrightarrow> \<exists>a s'. mem_HGetAll k s = (Inr a, s')"
  "isSet (mem_view s k) \<Longrightarrow> \<exists>a s'. mem_SAdd k m s = (Inr a, s')"
  "isSet (mem_view s k) \<Longrightarrow> \<exists>a s'. mem_SRem k m s = (Inr a, s')"
  "isSet (mem_view s k) \<Longrightarrow> \<exists>a s'. mem_SMembers k s = (Inr a, s')"
  "\<exists>a s'. mem_Del k s = (Inr a, s')"
  "\<exists>a s'. mem_Exists k s = (Inr a, s')"
  "\<exists>a s'. mem_Expire k ttl s = (Inr a, s')"
  "mem_view s k = Some (RStr x) \<Longrightarrow> \<exists>a s'. mem_Get k s = (Inr a, s')"
  "mem_view s k = None \<Longrightarrow> \<exists>s'. mem_Get k s = (Inl RedisNil, s')"
  "\<exists>a s'. mem_Set k x ttl s = (Inr a, s')"
  "isList (mem_view s k) \<Longrightarrow> \<exists>a s'. mem_RPush k x s = (Inr a, s')"
  "isList (mem_view s k) \<Longrightarrow> \<exists>a s'. mem_LLen k s = (Inr a, s')"
  "isZSet (mem_view s k) \<Longrightarrow> \<exists>a s'. mem_ZAdd k sc m s = (Inr a, s')"
  "isZSet (mem_view s k) \<Longrightarrow> \<exists>a s'. mem_ZPopMin k s = (Inr a, s')"
  "isZSet (mem_view s k) \<Longrightarrow> \<exists>a s'. mem_ZCard k s = (Inr a, s')"
  "mem_view s k = None \<Longrightarrow> \<exists>a s'. mem_Obtain k ttl n s = (Inr a, s')"
  "mem_view s k = Some (RStr tok) \<Longrightarrow> \<exists>a s'. mem_ReleaseLock k tok s = (Inr a, s')"
  by (auto simp: mem_cmd_defs mem_view_def Let_def split: option.splits mval.splits list.splits)

lemma mem_HSet_nothing: "mem_HSet k [] s \<noteq> (Inr u, s')"
  by (simp add: mem_HSet_def)

lemma mem_LPop_up:
  "isList (mem_view s k) \<Longrightarrow> listOf (mem_view s k) \<noteq> [] \<Longrightarrow> \<exists>a s'. mem_LPop k s = (Inr a, s')"
  by (cases "s k") (auto simp: mem_LPop_def mem_view_def split: mval.splits list.splits)

lemma mem_LPop_reply: "mem_LPop k s = (Inr x, s') \<Longrightarrow> x = hd (listOf (mem_view s k))"
  by (auto simp: mem_LPop_def mem_view_def split: option.splits mval.splits list.splits)

lemma mem_Obtain_ok:
  "mem_Obtain k ttl n s = (Inr tok, s') \<Longrightarrow> mem_view s k = None \<and> mem_view s' = (mem_view s)(k \<mapsto> RStr tok)"
  by (auto simp: mem_Obtain_def mem_view_upd split: option.splits)

lemmas mem_laws = mem_wr_laws mem_rd_laws mem_up mem_ZPopMin_foot mem_ZPopMin_Nil mem_ZPopMin_Cons
  mem_Obtain_foot mem_Obtain_ok mem_LPop_up mem_LPop_reply mem_HSet_nothing

interpretation mem: redis_up mem_client mem_view
  by (unfold_locales; unfold mem_client_def redis_client.select_convs; (rule mem_laws; assumption))

end
