(* ===== verification/Redis_Keys.thy ===== *)
theory Redis_Keys
  imports Go_Prelude
begin

text \<open>
  \<open>pkg/common/keys.go\<close>: the names of the Redis keys. Every key is a template and a function that
  fills it in with \<open>fmt.Sprintf\<close>. The \<open>key_eqs\<close> are the filled-in forms; the lemmas at the end show
  which key families are injective and disjoint: the repositories rely on it, since all components
  share one keyspace.
\<close>

section \<open>\<open>fmt.Sprintf\<close> with \<open>%s\<close> verbs\<close>

fun Sprintf :: "string \<Rightarrow> string list \<Rightarrow> string" where
  "Sprintf [] args = []"
| "Sprintf [c] args = [c]"
| "Sprintf (c # d # t) args =
     (if c = CHR ''%'' \<and> d = CHR ''s''
      then (case args of [] \<Rightarrow> ''%!s(MISSING)'' @ Sprintf t [] | a # as \<Rightarrow> a @ Sprintf t as)
      else c # Sprintf (d # t) args)"

section \<open>Templates\<close>

definition schedulerPrefix :: string where
  "schedulerPrefix = ''scheduler:''"

definition schedulerContainerRequests :: string where
  "schedulerContainerRequests = ''scheduler:container_requests''"

definition schedulerWorkerLock :: string where
  "schedulerWorkerLock = ''scheduler:worker:lock:%s''"

definition schedulerWorkerRequests :: string where
  "schedulerWorkerRequests = ''scheduler:worker:requests:%s''"

definition schedulerWorkerIndex :: string where
  "schedulerWorkerIndex = ''scheduler:worker:worker_index''"

definition schedulerWorkerState :: string where
  "schedulerWorkerState = ''scheduler:worker:state:%s''"

definition schedulerContainerConfig :: string where
  "schedulerContainerConfig = ''scheduler:container:config:%s''"

definition schedulerContainerState :: string where
  "schedulerContainerState = ''scheduler:container:state:%s''"

definition schedulerContainerAddress :: string where
  "schedulerContainerAddress = ''scheduler:container:container_addr:%s''"

definition schedulerContainerAddressMap :: string where
  "schedulerContainerAddressMap = ''scheduler:container:container_addr_map:%s''"

definition schedulerContainerRequestStatus :: string where
  "schedulerContainerRequestStatus = ''scheduler:container:request_status:%s''"

definition schedulerContainerIndex :: string where
  "schedulerContainerIndex = ''scheduler:container:index:%s''"

definition schedulerContainerWorkerIndex :: string where
  "schedulerContainerWorkerIndex = ''scheduler:container:worker:index:%s''"

definition schedulerContainerWorkspaceIndex :: string where
  "schedulerContainerWorkspaceIndex = ''scheduler:container:workspace:index:%s''"

definition schedulerWorkerAddress :: string where
  "schedulerWorkerAddress = ''scheduler:container:worker_addr:%s''"

definition schedulerContainerLock :: string where
  "schedulerContainerLock = ''scheduler:container:lock:%s''"

definition schedulerContainerExitCode :: string where
  "schedulerContainerExitCode = ''scheduler:container:exit_code:%s''"

definition schedulerCheckpointState :: string where
  "schedulerCheckpointState = ''scheduler:checkpoint_state:%s:%s''"

definition schedulerServeLock :: string where
  "schedulerServeLock = ''scheduler:serve:lock:%s:%s''"

definition schedulerStubState :: string where
  "schedulerStubState = ''scheduler:stub:state:%s''"

definition gatewayPrefix :: string where
  "gatewayPrefix = ''gateway''"

definition gatewayDefaultDeployment :: string where
  "gatewayDefaultDeployment = ''gateway:default_deployment:%s''"

definition gatewayDeploymentMinContainerCount :: string where
  "gatewayDeploymentMinContainerCount = ''gateway:min_containers:%s''"

definition gatewayAuthKey :: string where
  "gatewayAuthKey = ''gateway:auth:%s:%s''"

definition workerPrefix :: string where
  "workerPrefix = ''worker''"

definition workerImageLock :: string where
  "workerImageLock = ''worker:%s:image:%s:lock''"

definition workerContainerResourceUsage :: string where
  "workerContainerResourceUsage = ''worker:%s:container:%s:resource_usage''"

definition workerNetworkLock :: string where
  "workerNetworkLock = ''worker:network:%s:lock''"

definition workerNetworkIpIndex :: string where
  "workerNetworkIpIndex = ''worker:network:%s:ip_index''"

definition workerNetworkContainerIp :: string where
  "workerNetworkContainerIp = ''worker:network:%s:container_ip:%s''"

definition workerPoolPrefix :: string where
  "workerPoolPrefix = ''workerpool''"

definition workerPoolState :: string where
  "workerPoolState = ''workerpool:%s:state''"

definition workerPoolStateLock :: string where
  "workerPoolStateLock = ''workerpool:%s:state:lock''"

definition workerPoolSizerLock :: string where
  "workerPoolSizerLock = ''workerpool:%s:sizer:lock''"

definition workerPoolCleanerLock :: string where
  "workerPoolCleanerLock = ''workerpool:%s:cleaner:lock''"

definition taskPrefix :: string where
  "taskPrefix = ''task''"

definition taskIndex :: string where
  "taskIndex = ''task:index''"

definition taskIndexByStub :: string where
  "taskIndexByStub = ''task:%s:%s:stub_index''"

definition taskClaimIndex :: string where
  "taskClaimIndex = ''task:%s:%s:claim_index''"

definition taskEntry :: string where
  "taskEntry = ''task:%s:%s:%s''"

definition taskClaim :: string where
  "taskClaim = ''task:%s:%s:%s:claim''"

definition taskCancel :: string where
  "taskCancel = ''task:%s:%s:%s:cancel''"

definition taskRetryLock :: string where
  "taskRetryLock = ''task:%s:%s:%s:retry_lock''"

definition workspacePrefix :: string where
  "workspacePrefix = ''workspace''"

definition workspaceVolumePathDownloadToken :: string where
  "workspaceVolumePathDownloadToken = ''workspace:volume_path_download_token:%s''"

definition workspaceConcurrencyLimit :: string where
  "workspaceConcurrencyLimit = ''workspace:concurrency_limit:%s''"

definition workspaceConcurrencyLimitLock :: string where
  "workspaceConcurrencyLimitLock = ''workspace:concurrency_limit:lock:%s''"

definition workspaceAuthorizedToken :: string where
  "workspaceAuthorizedToken = ''workspace:authorization:token:%s''"

definition providerPrefix :: string where
  "providerPrefix = ''provider''"

definition providerMachineState :: string where
  "providerMachineState = ''provider:machine:%s:%s:%s''"

definition providerMachineMetrics :: string where
  "providerMachineMetrics = ''provider:machine:%s:%s:%s:metrics''"

definition providerMachineIndex :: string where
  "providerMachineIndex = ''provider:machine:%s:%s:machine_index''"

definition providerMachineLock :: string where
  "providerMachineLock = ''provider:machine:%s:%s:%s:lock''"

definition tailscalePrefix :: string where
  "tailscalePrefix = ''tailscale''"

definition tailscaleServiceHostname :: string where
  "tailscaleServiceHostname = ''tailscale:%s:%s''"

definition containerName :: string where
  "containerName = ''%s-%s-%s''"

definition imageBuildContainerTTL :: string where
  "imageBuildContainerTTL = ''image:build_container_ttl:%s''"

section \<open>Key functions\<close>

definition SchedulerPrefix :: "string" where
  "SchedulerPrefix = schedulerPrefix"

definition SchedulerWorkerIndex :: "string" where
  "SchedulerWorkerIndex = schedulerWorkerIndex"

definition SchedulerContainerRequests :: "string" where
  "SchedulerContainerRequests = schedulerContainerRequests"

definition SchedulerWorkerLock :: "string \<Rightarrow> string" where
  "SchedulerWorkerLock workerId = Sprintf schedulerWorkerLock [workerId]"

definition SchedulerWorkerRequests :: "string \<Rightarrow> string" where
  "SchedulerWorkerRequests workerId = Sprintf schedulerWorkerRequests [workerId]"

definition SchedulerWorkerState :: "string \<Rightarrow> string" where
  "SchedulerWorkerState workerId = Sprintf schedulerWorkerState [workerId]"

definition SchedulerContainerLock :: "string \<Rightarrow> string" where
  "SchedulerContainerLock containerId = Sprintf schedulerContainerLock [containerId]"

definition SchedulerServeLock :: "string \<Rightarrow> string \<Rightarrow> string" where
  "SchedulerServeLock workspaceName stubId = Sprintf schedulerServeLock [workspaceName, stubId]"

definition SchedulerContainerState :: "string \<Rightarrow> string" where
  "SchedulerContainerState containerId = Sprintf schedulerContainerState [containerId]"

definition SchedulerContainerConfig :: "string \<Rightarrow> string" where
  "SchedulerContainerConfig containerId = Sprintf schedulerContainerConfig [containerId]"

definition SchedulerContainerIndex :: "string \<Rightarrow> string" where
  "SchedulerContainerIndex stubId = Sprintf schedulerContainerIndex [stubId]"

definition SchedulerContainerWorkerIndex :: "string \<Rightarrow> string" where
  "SchedulerContainerWorkerIndex workerId = Sprintf schedulerContainerWorkerIndex [workerId]"

definition SchedulerContainerWorkspaceIndex :: "string \<Rightarrow> string" where
  "SchedulerContainerWorkspaceIndex workspaceId = Sprintf schedulerContainerWorkspaceIndex [workspaceId]"

definition SchedulerContainerAddress :: "string \<Rightarrow> string" where
  "SchedulerContainerAddress containerId = Sprintf schedulerContainerAddress [containerId]"

definition SchedulerContainerAddressMap :: "string \<Rightarrow> string" where
  "SchedulerContainerAddressMap containerId = Sprintf schedulerContainerAddressMap [containerId]"

definition SchedulerContainerRequestStatus :: "string \<Rightarrow> string" where
  "SchedulerContainerRequestStatus containerId = Sprintf schedulerContainerRequestStatus [containerId]"

definition SchedulerWorkerAddress :: "string \<Rightarrow> string" where
  "SchedulerWorkerAddress containerId = Sprintf schedulerWorkerAddress [containerId]"

definition SchedulerContainerExitCode :: "string \<Rightarrow> string" where
  "SchedulerContainerExitCode containerId = Sprintf schedulerContainerExitCode [containerId]"

definition SchedulerCheckpointState :: "string \<Rightarrow> string \<Rightarrow> string" where
  "SchedulerCheckpointState workspaceName checkpointId = Sprintf schedulerCheckpointState [workspaceName, checkpointId]"

definition SchedulerStubState :: "string \<Rightarrow> string" where
  "SchedulerStubState stubId = Sprintf schedulerStubState [stubId]"

definition GatewayPrefix :: "string" where
  "GatewayPrefix = gatewayPrefix"

definition GatewayDefaultDeployment :: "string \<Rightarrow> string" where
  "GatewayDefaultDeployment appId = Sprintf gatewayDefaultDeployment [appId]"

definition GatewayAuthKey :: "string \<Rightarrow> string \<Rightarrow> string" where
  "GatewayAuthKey appId encodedAuthToken = Sprintf gatewayAuthKey [appId, encodedAuthToken]"

definition GatewayDeploymentMinContainerCount :: "string \<Rightarrow> string" where
  "GatewayDeploymentMinContainerCount appId = Sprintf gatewayDeploymentMinContainerCount [appId]"

definition WorkerPrefix :: "string" where
  "WorkerPrefix = workerPrefix"

definition WorkerContainerResourceUsage :: "string \<Rightarrow> string \<Rightarrow> string" where
  "WorkerContainerResourceUsage workerId containerId = Sprintf workerContainerResourceUsage [workerId, containerId]"

definition WorkerImageLock :: "string \<Rightarrow> string \<Rightarrow> string" where
  "WorkerImageLock workerId imageId = Sprintf workerImageLock [workerId, imageId]"

definition WorkerNetworkLock :: "string \<Rightarrow> string" where
  "WorkerNetworkLock networkPrefix = Sprintf workerNetworkLock [networkPrefix]"

definition WorkerNetworkIpIndex :: "string \<Rightarrow> string" where
  "WorkerNetworkIpIndex networkPrefix = Sprintf workerNetworkIpIndex [networkPrefix]"

definition WorkerNetworkContainerIp :: "string \<Rightarrow> string \<Rightarrow> string" where
  "WorkerNetworkContainerIp networkPrefix containerId = Sprintf workerNetworkContainerIp [networkPrefix, containerId]"

definition WorkerPoolPrefix :: "string" where
  "WorkerPoolPrefix = workerPoolPrefix"

definition WorkerPoolState :: "string \<Rightarrow> string" where
  "WorkerPoolState poolName = Sprintf workerPoolState [poolName]"

definition WorkerPoolStateLock :: "string \<Rightarrow> string" where
  "WorkerPoolStateLock poolName = Sprintf workerPoolStateLock [poolName]"

definition WorkerPoolSizerLock :: "string \<Rightarrow> string" where
  "WorkerPoolSizerLock poolName = Sprintf workerPoolSizerLock [poolName]"

definition WorkerPoolCleanerLock :: "string \<Rightarrow> string" where
  "WorkerPoolCleanerLock poolName = Sprintf workerPoolCleanerLock [poolName]"

definition TaskPrefix :: "string" where
  "TaskPrefix = taskPrefix"

definition TaskIndex :: "string" where
  "TaskIndex = taskIndex"

definition TaskCancel :: "string \<Rightarrow> string \<Rightarrow> string \<Rightarrow> string" where
  "TaskCancel workspaceName stubId taskId = Sprintf taskCancel [workspaceName, stubId, taskId]"

definition TaskIndexByStub :: "string \<Rightarrow> string \<Rightarrow> string" where
  "TaskIndexByStub workspaceName stubId = Sprintf taskIndexByStub [workspaceName, stubId]"

definition TaskClaimIndex :: "string \<Rightarrow> string \<Rightarrow> string" where
  "TaskClaimIndex workspaceName stubId = Sprintf taskClaimIndex [workspaceName, stubId]"

definition TaskEntry :: "string \<Rightarrow> string \<Rightarrow> string \<Rightarrow> string" where
  "TaskEntry workspaceName stubId taskId = Sprintf taskEntry [workspaceName, stubId, taskId]"

definition TaskClaim :: "string \<Rightarrow> string \<Rightarrow> string \<Rightarrow> string" where
  "TaskClaim workspaceName stubId taskId = Sprintf taskClaim [workspaceName, stubId, taskId]"

definition TaskRetryLock :: "string \<Rightarrow> string \<Rightarrow> string \<Rightarrow> string" where
  "TaskRetryLock workspaceName stubId taskId = Sprintf taskRetryLock [workspaceName, stubId, taskId]"

definition WorkspacePrefix :: "string" where
  "WorkspacePrefix = workspacePrefix"

definition WorkspaceConcurrencyLimit :: "string \<Rightarrow> string" where
  "WorkspaceConcurrencyLimit workspaceId = Sprintf workspaceConcurrencyLimit [workspaceId]"

definition WorkspaceConcurrencyLimitLock :: "string \<Rightarrow> string" where
  "WorkspaceConcurrencyLimitLock workspaceId = Sprintf workspaceConcurrencyLimitLock [workspaceId]"

definition WorkspaceVolumePathDownloadToken :: "string \<Rightarrow> string" where
  "WorkspaceVolumePathDownloadToken token = Sprintf workspaceVolumePathDownloadToken [token]"

definition WorkspaceAuthorizedToken :: "string \<Rightarrow> string" where
  "WorkspaceAuthorizedToken token = Sprintf workspaceAuthorizedToken [token]"

definition TailscalePrefix :: "string" where
  "TailscalePrefix = tailscalePrefix"

definition TailscaleServiceHostname :: "string \<Rightarrow> string \<Rightarrow> string" where
  "TailscaleServiceHostname serviceName hostName = Sprintf tailscaleServiceHostname [serviceName, hostName]"

definition ProviderPrefix :: "string" where
  "ProviderPrefix = providerPrefix"

definition ProviderMachineState :: "string \<Rightarrow> string \<Rightarrow> string \<Rightarrow> string" where
  "ProviderMachineState providerName poolName machineId = Sprintf providerMachineState [providerName, poolName, machineId]"

definition ProviderMachineMetrics :: "string \<Rightarrow> string \<Rightarrow> string \<Rightarrow> string" where
  "ProviderMachineMetrics providerName poolName machineId = Sprintf providerMachineMetrics [providerName, poolName, machineId]"

definition ProviderMachineIndex :: "string \<Rightarrow> string \<Rightarrow> string" where
  "ProviderMachineIndex providerName poolName = Sprintf providerMachineIndex [providerName, poolName]"

definition ProviderMachineLock :: "string \<Rightarrow> string \<Rightarrow> string \<Rightarrow> string" where
  "ProviderMachineLock providerName poolName machineId = Sprintf providerMachineLock [providerName, poolName, machineId]"

definition ContainerName :: "string \<Rightarrow> string \<Rightarrow> string \<Rightarrow> string" where
  "ContainerName prefix stubId containerId = Sprintf containerName [prefix, stubId, containerId]"

definition ImageBuildContainerTTL :: "string \<Rightarrow> string" where
  "ImageBuildContainerTTL containerId = Sprintf imageBuildContainerTTL [containerId]"

section \<open>Filled-in forms\<close>

lemma SchedulerPrefix_eq [key_eqs]: "SchedulerPrefix = ''scheduler:''"
  by (simp add: SchedulerPrefix_def schedulerPrefix_def)

lemma SchedulerWorkerIndex_eq [key_eqs]: "SchedulerWorkerIndex = ''scheduler:worker:worker_index''"
  by (simp add: SchedulerWorkerIndex_def schedulerWorkerIndex_def)

lemma SchedulerContainerRequests_eq [key_eqs]: "SchedulerContainerRequests = ''scheduler:container_requests''"
  by (simp add: SchedulerContainerRequests_def schedulerContainerRequests_def)

lemma SchedulerWorkerLock_eq [key_eqs]: "SchedulerWorkerLock workerId = ''scheduler:worker:lock:'' @ workerId"
  by (simp add: SchedulerWorkerLock_def schedulerWorkerLock_def)

lemma SchedulerWorkerRequests_eq [key_eqs]: "SchedulerWorkerRequests workerId = ''scheduler:worker:requests:'' @ workerId"
  by (simp add: SchedulerWorkerRequests_def schedulerWorkerRequests_def)

lemma SchedulerWorkerState_eq [key_eqs]: "SchedulerWorkerState workerId = ''scheduler:worker:state:'' @ workerId"
  by (simp add: SchedulerWorkerState_def schedulerWorkerState_def)

lemma SchedulerContainerLock_eq [key_eqs]: "SchedulerContainerLock containerId = ''scheduler:container:lock:'' @ containerId"
  by (simp add: SchedulerContainerLock_def schedulerContainerLock_def)

lemma SchedulerServeLock_eq [key_eqs]: "SchedulerServeLock workspaceName stubId = ''scheduler:serve:lock:'' @ workspaceName @ '':'' @ stubId"
  by (simp add: SchedulerServeLock_def schedulerServeLock_def)

lemma SchedulerContainerState_eq [key_eqs]: "SchedulerContainerState containerId = ''scheduler:container:state:'' @ containerId"
  by (simp add: SchedulerContainerState_def schedulerContainerState_def)

lemma SchedulerContainerConfig_eq [key_eqs]: "SchedulerContainerConfig containerId = ''scheduler:container:config:'' @ containerId"
  by (simp add: SchedulerContainerConfig_def schedulerContainerConfig_def)

lemma SchedulerContainerIndex_eq [key_eqs]: "SchedulerContainerIndex stubId = ''scheduler:container:index:'' @ stubId"
  by (simp add: SchedulerContainerIndex_def schedulerContainerIndex_def)

lemma SchedulerContainerWorkerIndex_eq [key_eqs]: "SchedulerContainerWorkerIndex workerId = ''scheduler:container:worker:index:'' @ workerId"
  by (simp add: SchedulerContainerWorkerIndex_def schedulerContainerWorkerIndex_def)

lemma SchedulerContainerWorkspaceIndex_eq [key_eqs]: "SchedulerContainerWorkspaceIndex workspaceId = ''scheduler:container:workspace:index:'' @ workspaceId"
  by (simp add: SchedulerContainerWorkspaceIndex_def schedulerContainerWorkspaceIndex_def)

lemma SchedulerContainerAddress_eq [key_eqs]: "SchedulerContainerAddress containerId = ''scheduler:container:container_addr:'' @ containerId"
  by (simp add: SchedulerContainerAddress_def schedulerContainerAddress_def)

lemma SchedulerContainerAddressMap_eq [key_eqs]: "SchedulerContainerAddressMap containerId = ''scheduler:container:container_addr_map:'' @ containerId"
  by (simp add: SchedulerContainerAddressMap_def schedulerContainerAddressMap_def)

lemma SchedulerContainerRequestStatus_eq [key_eqs]: "SchedulerContainerRequestStatus containerId = ''scheduler:container:request_status:'' @ containerId"
  by (simp add: SchedulerContainerRequestStatus_def schedulerContainerRequestStatus_def)

lemma SchedulerWorkerAddress_eq [key_eqs]: "SchedulerWorkerAddress containerId = ''scheduler:container:worker_addr:'' @ containerId"
  by (simp add: SchedulerWorkerAddress_def schedulerWorkerAddress_def)

lemma SchedulerContainerExitCode_eq [key_eqs]: "SchedulerContainerExitCode containerId = ''scheduler:container:exit_code:'' @ containerId"
  by (simp add: SchedulerContainerExitCode_def schedulerContainerExitCode_def)

lemma SchedulerCheckpointState_eq [key_eqs]: "SchedulerCheckpointState workspaceName checkpointId = ''scheduler:checkpoint_state:'' @ workspaceName @ '':'' @ checkpointId"
  by (simp add: SchedulerCheckpointState_def schedulerCheckpointState_def)

lemma SchedulerStubState_eq [key_eqs]: "SchedulerStubState stubId = ''scheduler:stub:state:'' @ stubId"
  by (simp add: SchedulerStubState_def schedulerStubState_def)

lemma GatewayPrefix_eq [key_eqs]: "GatewayPrefix = ''gateway''"
  by (simp add: GatewayPrefix_def gatewayPrefix_def)

lemma GatewayDefaultDeployment_eq [key_eqs]: "GatewayDefaultDeployment appId = ''gateway:default_deployment:'' @ appId"
  by (simp add: GatewayDefaultDeployment_def gatewayDefaultDeployment_def)

lemma GatewayAuthKey_eq [key_eqs]: "GatewayAuthKey appId encodedAuthToken = ''gateway:auth:'' @ appId @ '':'' @ encodedAuthToken"
  by (simp add: GatewayAuthKey_def gatewayAuthKey_def)

lemma GatewayDeploymentMinContainerCount_eq [key_eqs]: "GatewayDeploymentMinContainerCount appId = ''gateway:min_containers:'' @ appId"
  by (simp add: GatewayDeploymentMinContainerCount_def gatewayDeploymentMinContainerCount_def)

lemma WorkerPrefix_eq [key_eqs]: "WorkerPrefix = ''worker''"
  by (simp add: WorkerPrefix_def workerPrefix_def)

lemma WorkerContainerResourceUsage_eq [key_eqs]: "WorkerContainerResourceUsage workerId containerId = ''worker:'' @ workerId @ '':container:'' @ containerId @ '':resource_usage''"
  by (simp add: WorkerContainerResourceUsage_def workerContainerResourceUsage_def)

lemma WorkerImageLock_eq [key_eqs]: "WorkerImageLock workerId imageId = ''worker:'' @ workerId @ '':image:'' @ imageId @ '':lock''"
  by (simp add: WorkerImageLock_def workerImageLock_def)

lemma WorkerNetworkLock_eq [key_eqs]: "WorkerNetworkLock networkPrefix = ''worker:network:'' @ networkPrefix @ '':lock''"
  by (simp add: WorkerNetworkLock_def workerNetworkLock_def)

lemma WorkerNetworkIpIndex_eq [key_eqs]: "WorkerNetworkIpIndex networkPrefix = ''worker:network:'' @ networkPrefix @ '':ip_index''"
  by (simp add: WorkerNetworkIpIndex_def workerNetworkIpIndex_def)

lemma WorkerNetworkContainerIp_eq [key_eqs]: "WorkerNetworkContainerIp networkPrefix containerId = ''worker:network:'' @ networkPrefix @ '':container_ip:'' @ containerId"
  by (simp add: WorkerNetworkContainerIp_def workerNetworkContainerIp_def)

lemma WorkerPoolPrefix_eq [key_eqs]: "WorkerPoolPrefix = ''workerpool''"
  by (simp add: WorkerPoolPrefix_def workerPoolPrefix_def)

lemma WorkerPoolState_eq [key_eqs]: "WorkerPoolState poolName = ''workerpool:'' @ poolName @ '':state''"
  by (simp add: WorkerPoolState_def workerPoolState_def)

lemma WorkerPoolStateLock_eq [key_eqs]: "WorkerPoolStateLock poolName = ''workerpool:'' @ poolName @ '':state:lock''"
  by (simp add: WorkerPoolStateLock_def workerPoolStateLock_def)

lemma WorkerPoolSizerLock_eq [key_eqs]: "WorkerPoolSizerLock poolName = ''workerpool:'' @ poolName @ '':sizer:lock''"
  by (simp add: WorkerPoolSizerLock_def workerPoolSizerLock_def)

lemma WorkerPoolCleanerLock_eq [key_eqs]: "WorkerPoolCleanerLock poolName = ''workerpool:'' @ poolName @ '':cleaner:lock''"
  by (simp add: WorkerPoolCleanerLock_def workerPoolCleanerLock_def)

lemma TaskPrefix_eq [key_eqs]: "TaskPrefix = ''task''"
  by (simp add: TaskPrefix_def taskPrefix_def)

lemma TaskIndex_eq [key_eqs]: "TaskIndex = ''task:index''"
  by (simp add: TaskIndex_def taskIndex_def)

lemma TaskCancel_eq [key_eqs]: "TaskCancel workspaceName stubId taskId = ''task:'' @ workspaceName @ '':'' @ stubId @ '':'' @ taskId @ '':cancel''"
  by (simp add: TaskCancel_def taskCancel_def)

lemma TaskIndexByStub_eq [key_eqs]: "TaskIndexByStub workspaceName stubId = ''task:'' @ workspaceName @ '':'' @ stubId @ '':stub_index''"
  by (simp add: TaskIndexByStub_def taskIndexByStub_def)

lemma TaskClaimIndex_eq [key_eqs]: "TaskClaimIndex workspaceName stubId = ''task:'' @ workspaceName @ '':'' @ stubId @ '':claim_index''"
  by (simp add: TaskClaimIndex_def taskClaimIndex_def)

lemma TaskEntry_eq [key_eqs]: "TaskEntry workspaceName stubId taskId = ''task:'' @ workspaceName @ '':'' @ stubId @ '':'' @ taskId"
  by (simp add: TaskEntry_def taskEntry_def)

lemma TaskClaim_eq [key_eqs]: "TaskClaim workspaceName stubId taskId = ''task:'' @ workspaceName @ '':'' @ stubId @ '':'' @ taskId @ '':claim''"
  by (simp add: TaskClaim_def taskClaim_def)

lemma TaskRetryLock_eq [key_eqs]: "TaskRetryLock workspaceName stubId taskId = ''task:'' @ workspaceName @ '':'' @ stubId @ '':'' @ taskId @ '':retry_lock''"
  by (simp add: TaskRetryLock_def taskRetryLock_def)

lemma WorkspacePrefix_eq [key_eqs]: "WorkspacePrefix = ''workspace''"
  by (simp add: WorkspacePrefix_def workspacePrefix_def)

lemma WorkspaceConcurrencyLimit_eq [key_eqs]: "WorkspaceConcurrencyLimit workspaceId = ''workspace:concurrency_limit:'' @ workspaceId"
  by (simp add: WorkspaceConcurrencyLimit_def workspaceConcurrencyLimit_def)

lemma WorkspaceConcurrencyLimitLock_eq [key_eqs]: "WorkspaceConcurrencyLimitLock workspaceId = ''workspace:concurrency_limit:lock:'' @ workspaceId"
  by (simp add: WorkspaceConcurrencyLimitLock_def workspaceConcurrencyLimitLock_def)

lemma WorkspaceVolumePathDownloadToken_eq [key_eqs]: "WorkspaceVolumePathDownloadToken token = ''workspace:volume_path_download_token:'' @ token"
  by (simp add: WorkspaceVolumePathDownloadToken_def workspaceVolumePathDownloadToken_def)

lemma WorkspaceAuthorizedToken_eq [key_eqs]: "WorkspaceAuthorizedToken token = ''workspace:authorization:token:'' @ token"
  by (simp add: WorkspaceAuthorizedToken_def workspaceAuthorizedToken_def)

lemma TailscalePrefix_eq [key_eqs]: "TailscalePrefix = ''tailscale''"
  by (simp add: TailscalePrefix_def tailscalePrefix_def)

lemma TailscaleServiceHostname_eq [key_eqs]: "TailscaleServiceHostname serviceName hostName = ''tailscale:'' @ serviceName @ '':'' @ hostName"
  by (simp add: TailscaleServiceHostname_def tailscaleServiceHostname_def)

lemma ProviderPrefix_eq [key_eqs]: "ProviderPrefix = ''provider''"
  by (simp add: ProviderPrefix_def providerPrefix_def)

lemma ProviderMachineState_eq [key_eqs]: "ProviderMachineState providerName poolName machineId = ''provider:machine:'' @ providerName @ '':'' @ poolName @ '':'' @ machineId"
  by (simp add: ProviderMachineState_def providerMachineState_def)

lemma ProviderMachineMetrics_eq [key_eqs]: "ProviderMachineMetrics providerName poolName machineId = ''provider:machine:'' @ providerName @ '':'' @ poolName @ '':'' @ machineId @ '':metrics''"
  by (simp add: ProviderMachineMetrics_def providerMachineMetrics_def)

lemma ProviderMachineIndex_eq [key_eqs]: "ProviderMachineIndex providerName poolName = ''provider:machine:'' @ providerName @ '':'' @ poolName @ '':machine_index''"
  by (simp add: ProviderMachineIndex_def providerMachineIndex_def)

lemma ProviderMachineLock_eq [key_eqs]: "ProviderMachineLock providerName poolName machineId = ''provider:machine:'' @ providerName @ '':'' @ poolName @ '':'' @ machineId @ '':lock''"
  by (simp add: ProviderMachineLock_def providerMachineLock_def)

lemma ContainerName_eq [key_eqs]: "ContainerName prefix stubId containerId = prefix @ ''-'' @ stubId @ ''-'' @ containerId"
  by (simp add: ContainerName_def containerName_def)

lemma ImageBuildContainerTTL_eq [key_eqs]: "ImageBuildContainerTTL containerId = ''image:build_container_ttl:'' @ containerId"
  by (simp add: ImageBuildContainerTTL_def imageBuildContainerTTL_def)

section \<open>Injectivity and disjointness\<close>

text \<open>The keys with one argument are injective in it.\<close>

lemma key_inj [simp]:
  "SchedulerWorkerLock x = SchedulerWorkerLock y \<longleftrightarrow> x = y"
  "SchedulerWorkerRequests x = SchedulerWorkerRequests y \<longleftrightarrow> x = y"
  "SchedulerWorkerState x = SchedulerWorkerState y \<longleftrightarrow> x = y"
  "SchedulerContainerLock x = SchedulerContainerLock y \<longleftrightarrow> x = y"
  "SchedulerContainerState x = SchedulerContainerState y \<longleftrightarrow> x = y"
  "SchedulerContainerIndex x = SchedulerContainerIndex y \<longleftrightarrow> x = y"
  "SchedulerContainerWorkerIndex x = SchedulerContainerWorkerIndex y \<longleftrightarrow> x = y"
  "SchedulerContainerWorkspaceIndex x = SchedulerContainerWorkspaceIndex y \<longleftrightarrow> x = y"
  "SchedulerContainerAddress x = SchedulerContainerAddress y \<longleftrightarrow> x = y"
  "SchedulerContainerAddressMap x = SchedulerContainerAddressMap y \<longleftrightarrow> x = y"
  "SchedulerContainerRequestStatus x = SchedulerContainerRequestStatus y \<longleftrightarrow> x = y"
  "SchedulerWorkerAddress x = SchedulerWorkerAddress y \<longleftrightarrow> x = y"
  "SchedulerContainerExitCode x = SchedulerContainerExitCode y \<longleftrightarrow> x = y"
  "SchedulerStubState x = SchedulerStubState y \<longleftrightarrow> x = y"
  "WorkspaceConcurrencyLimit x = WorkspaceConcurrencyLimit y \<longleftrightarrow> x = y"
  "WorkspaceConcurrencyLimitLock x = WorkspaceConcurrencyLimitLock y \<longleftrightarrow> x = y"
  "WorkspaceAuthorizedToken x = WorkspaceAuthorizedToken y \<longleftrightarrow> x = y"
  "WorkerPoolState x = WorkerPoolState y \<longleftrightarrow> x = y"
  "WorkerPoolStateLock x = WorkerPoolStateLock y \<longleftrightarrow> x = y"
  "WorkerPoolSizerLock x = WorkerPoolSizerLock y \<longleftrightarrow> x = y"
  "WorkerPoolCleanerLock x = WorkerPoolCleanerLock y \<longleftrightarrow> x = y"
  "WorkerNetworkLock x = WorkerNetworkLock y \<longleftrightarrow> x = y"
  "WorkerNetworkIpIndex x = WorkerNetworkIpIndex y \<longleftrightarrow> x = y"
  "ImageBuildContainerTTL x = ImageBuildContainerTTL y \<longleftrightarrow> x = y"
  by (simp_all add: key_eqs)

text \<open>
  A key whose arguments hold no colon splits back into its parts; this is how \<open>GetTasksInFlight\<close>
  and \<open>ListAllMachines\<close> read identifiers back from key names.
\<close>

definition plain :: "string \<Rightarrow> bool" where
  "plain x \<longleftrightarrow> CHR '':'' \<notin> set x"

lemma Split_TaskEntry:
  "plain w \<Longrightarrow> plain s \<Longrightarrow> plain t \<Longrightarrow> Split CHR '':'' (TaskEntry w s t) = [''task'', w, s, t]"
  by (simp add: key_eqs plain_def Split_append Split_no_sep)

lemma Split_TaskClaim:
  "plain w \<Longrightarrow> plain s \<Longrightarrow> plain t \<Longrightarrow>
   Split CHR '':'' (TaskClaim w s t) = [''task'', w, s, t, ''claim'']"
  by (simp add: key_eqs plain_def Split_append Split_no_sep)

lemma Split_TaskRetryLock:
  "plain w \<Longrightarrow> plain s \<Longrightarrow> plain t \<Longrightarrow>
   Split CHR '':'' (TaskRetryLock w s t) = [''task'', w, s, t, ''retry_lock'']"
  by (simp add: key_eqs plain_def Split_append Split_no_sep)

lemma Split_TaskIndexByStub:
  "plain w \<Longrightarrow> plain s \<Longrightarrow> Split CHR '':'' (TaskIndexByStub w s) = [''task'', w, s, ''stub_index'']"
  by (simp add: key_eqs plain_def Split_append Split_no_sep)

lemma Split_TaskClaimIndex:
  "plain w \<Longrightarrow> plain s \<Longrightarrow> Split CHR '':'' (TaskClaimIndex w s) = [''task'', w, s, ''claim_index'']"
  by (simp add: key_eqs plain_def Split_append Split_no_sep)

lemma Split_TaskIndex: "Split CHR '':'' TaskIndex = [''task'', ''index'']"
  by (simp add: key_eqs)

lemmas Split_task_keys = Split_TaskEntry Split_TaskClaim Split_TaskRetryLock Split_TaskIndexByStub
  Split_TaskClaimIndex Split_TaskIndex

lemma Split_ProviderMachineState:
  "plain p \<Longrightarrow> plain o' \<Longrightarrow> plain m \<Longrightarrow>
   Split CHR '':'' (ProviderMachineState p o' m) = [''provider'', ''machine'', p, o', m]"
  by (simp add: key_eqs plain_def Split_append Split_no_sep)

lemma last_Split_SchedulerWorkerState:
  "plain i \<Longrightarrow> last (Split CHR '':'' (SchedulerWorkerState i)) = i"
  by (simp add: key_eqs plain_def Split_no_sep)

lemma nth_Split_SchedulerWorkerState:
  "plain i \<Longrightarrow> Split CHR '':'' (SchedulerWorkerState i) ! 3 = i"
  by (simp add: key_eqs plain_def Split_no_sep)

lemma length_Split_SchedulerWorkerState:
  "plain i \<Longrightarrow> length (Split CHR '':'' (SchedulerWorkerState i)) = 4"
  by (simp add: key_eqs plain_def Split_no_sep)

lemma last_Split_SchedulerContainerState:
  "plain i \<Longrightarrow> last (Split CHR '':'' (SchedulerContainerState i)) = i"
  by (simp add: key_eqs plain_def Split_no_sep)

end
