(* ===== verification/Sched_Types.thy ===== *)
theory Sched_Types
  imports Go_Prelude
begin

text \<open>
  The data types of the scheduler: \<open>pkg/types/gpu.go\<close>, \<open>pkg/types/scheduler.go\<close>,
  \<open>pkg/types/worker.go\<close> (exit codes), the configuration structs of \<open>pkg/types/config.go\<close> that the
  scheduler reads, and the struct codec of \<open>pkg/common/redis.go\<close> (\<open>ToSlice\<close>, \<open>ToStruct\<close>), by which
  structs are written to and read from Redis hashes. \<open>ToSlice\<close> and \<open>ToStruct\<close> walk a struct by
  reflection; here the per-kind cases are the \<open>set_*\<close> functions and each struct has the walk over
  its own \<open>redis\<close> tags. The round-trip lemmas say that what is written is what is read back.
\<close>

section \<open>GPU types\<close>

definition GPU_ANY :: string where
  "GPU_ANY = ''any''"

definition AllGPUTypes :: "string list" where
  "AllGPUTypes =
     [''A10G'', ''A100-40'', ''A100-80'', ''L4'', ''T4'', ''H100'', ''A6000'', ''RTX4090'', ''L40S'',
      ''MPS'', GPU_ANY]"

definition trim_spaces :: "string \<Rightarrow> string" where
  "trim_spaces s = rev (dropWhile (\<lambda>c. c = CHR '' '') (rev (dropWhile (\<lambda>c. c = CHR '' '') s)))"

definition GPUTypesFromString :: "string \<Rightarrow> string list" where
  "GPUTypesFromString gpu =
     (let gpuString = trim_spaces gpu
      in if length gpuString > 0 then Split CHR '','' gpuString else [])"

definition GpuTypesToStrings :: "string list \<Rightarrow> string list" where
  "GpuTypesToStrings gpus = map (\<lambda>g. g) gpus"

text \<open>The map from a GPU type to its position; a later duplicate wins.\<close>

fun index_map :: "nat \<Rightarrow> string list \<Rightarrow> (string \<rightharpoonup> nat) \<Rightarrow> (string \<rightharpoonup> nat)" where
  "index_map i [] m = m"
| "index_map i (g # gs) m = index_map (Suc i) gs (m(g \<mapsto> i))"

definition GPUTypesToMap :: "string list \<Rightarrow> (string \<rightharpoonup> nat)" where
  "GPUTypesToMap gpuTypes = index_map 0 gpuTypes Map.empty"

section \<open>Workers\<close>

definition WorkerStatusAvailable :: string where
  "WorkerStatusAvailable = ''available''"

definition WorkerStatusPending :: string where
  "WorkerStatusPending = ''pending''"

definition WorkerStatusDisabled :: string where
  "WorkerStatusDisabled = ''disabled''"

definition WorkerStateTtlS :: int where
  "WorkerStateTtlS = 60"

definition ContainerStatusPending :: string where
  "ContainerStatusPending = ''PENDING''"

definition ContainerStatusRunning :: string where
  "ContainerStatusRunning = ''RUNNING''"

definition ContainerStatusStopping :: string where
  "ContainerStatusStopping = ''STOPPING''"

lemmas status_defs = WorkerStatusAvailable_def WorkerStatusPending_def WorkerStatusDisabled_def
  ContainerStatusPending_def ContainerStatusRunning_def ContainerStatusStopping_def

record container =
  c_ContainerId :: string
  c_StubId :: string
  c_Status :: string
  c_ScheduledAt :: int
  c_StartedAt :: int
  c_WorkspaceId :: string
  c_WorkerId :: string
  c_MachineId :: string
  c_DeploymentId :: string

record worker =
  w_Id :: string
  w_Status :: string
  w_TotalCpu :: int
  w_TotalMemory :: int
  w_TotalGpuCount :: "32 word"
  w_FreeCpu :: int
  w_FreeMemory :: int
  w_FreeGpuCount :: "32 word"
  w_Gpu :: string
  w_PoolName :: string
  w_MachineId :: string
  w_ResourceVersion :: int
  w_RequiresPoolSelector :: bool
  w_Priority :: int
  w_Preemptable :: bool
  w_BuildVersion :: string
  w_ActiveContainers :: "container list"
  w_Runtime :: string

text \<open>The zero value \<open>&types.Worker{Id: id}\<close>.\<close>

definition zero_worker :: "string \<Rightarrow> worker" where
  "zero_worker i =
     \<lparr>w_Id = i, w_Status = [], w_TotalCpu = 0, w_TotalMemory = 0, w_TotalGpuCount = 0, w_FreeCpu = 0,
      w_FreeMemory = 0, w_FreeGpuCount = 0, w_Gpu = [], w_PoolName = [], w_MachineId = [],
      w_ResourceVersion = 0, w_RequiresPoolSelector = False, w_Priority = 0, w_Preemptable = False,
      w_BuildVersion = [], w_ActiveContainers = [], w_Runtime = []\<rparr>"

datatype CapacityUpdateType = AddCapacity | RemoveCapacity | OtherCapacityUpdate int

section \<open>Containers and requests\<close>

record ContainerState =
  cs_ContainerId :: string
  cs_StubId :: string
  cs_Status :: string
  cs_ScheduledAt :: int
  cs_WorkspaceId :: string
  cs_Gpu :: string
  cs_GpuCount :: "32 word"
  cs_Cpu :: int
  cs_Memory :: int
  cs_StartedAt :: int

definition zero_ContainerState :: ContainerState where
  "zero_ContainerState =
     \<lparr>cs_ContainerId = [], cs_StubId = [], cs_Status = [], cs_ScheduledAt = 0, cs_WorkspaceId = [],
      cs_Gpu = [], cs_GpuCount = 0, cs_Cpu = 0, cs_Memory = 0, cs_StartedAt = 0\<rparr>"

record BuildOptions =
  bo_SourceImage :: "string option"
  bo_Dockerfile :: "string option"
  bo_BuildCtxObject :: "string option"
  bo_SourceImageCreds :: string
  bo_BuildSecrets :: "string list"

text \<open>Of a workspace the scheduler reads the name and, for caching, three attributes.\<close>

record workspace =
  ws_Name :: string
  ws_ExternalId :: string
  ws_VolumeCacheEnabled :: bool
  ws_StorageId :: "nat option"

text \<open>
  The request for a container. The stub, the mounts and the cost, which the scheduler only passes on
  to the worker, are left out; a checkpoint is represented by its id and the time is in nanoseconds.
\<close>

record ContainerRequest =
  r_ContainerId :: string
  r_EntryPoint :: "string list"
  r_Env :: "string list"
  r_Cpu :: int
  r_Memory :: int
  r_Gpu :: string
  r_GpuRequest :: "string list"
  r_GpuCount :: "32 word"
  r_ImageId :: string
  r_StubId :: string
  r_WorkspaceId :: string
  r_Workspace :: workspace
  r_Timestamp :: int
  r_RetryCount :: int
  r_PoolSelector :: string
  r_Preemptable :: bool
  r_CheckpointEnabled :: bool
  r_BuildOptions :: BuildOptions
  r_Ports :: "32 word list"
  r_AppId :: string
  r_Checkpoint :: "string option"
  r_ConfigPath :: string
  r_ImageCredentials :: string
  r_BuildRegistryCredentials :: string
  r_BlockNetwork :: bool
  r_AllowList :: "string list"
  r_DockerEnabled :: bool

definition zero_ContainerRequest :: ContainerRequest where
  "zero_ContainerRequest =
     \<lparr>r_ContainerId = [], r_EntryPoint = [], r_Env = [], r_Cpu = 0, r_Memory = 0, r_Gpu = [], r_GpuRequest = [],
      r_GpuCount = 0, r_ImageId = [], r_StubId = [], r_WorkspaceId = [],
      r_Workspace = \<lparr>ws_Name = [], ws_ExternalId = [], ws_VolumeCacheEnabled = False, ws_StorageId = None\<rparr>,
      r_Timestamp = 0, r_RetryCount = 0, r_PoolSelector = [], r_Preemptable = False,
      r_CheckpointEnabled = False,
      r_BuildOptions = \<lparr>bo_SourceImage = None, bo_Dockerfile = None, bo_BuildCtxObject = None,
        bo_SourceImageCreds = [], bo_BuildSecrets = []\<rparr>,
      r_Ports = [], r_AppId = [], r_Checkpoint = None, r_ConfigPath = [], r_ImageCredentials = [],
      r_BuildRegistryCredentials = [], r_BlockNetwork = False, r_AllowList = [], r_DockerEnabled = False\<rparr>"

definition RequiresGPU :: "ContainerRequest \<Rightarrow> bool" where
  "RequiresGPU c \<longleftrightarrow> length (r_GpuRequest c) > 0 \<or> r_Gpu c \<noteq> []"

definition IsBuildRequest :: "ContainerRequest \<Rightarrow> bool" where
  "IsBuildRequest c \<longleftrightarrow> bo_SourceImage (r_BuildOptions c) \<noteq> None \<or> bo_Dockerfile (r_BuildOptions c) \<noteq> None"

definition Workspace_StorageAvailable :: "workspace \<Rightarrow> bool" where
  "Workspace_StorageAvailable w \<longleftrightarrow> (case ws_StorageId w of None \<Rightarrow> False | Some i \<Rightarrow> i > 0)"

definition StorageAvailable :: "ContainerRequest \<Rightarrow> bool" where
  "StorageAvailable c = Workspace_StorageAvailable (r_Workspace c)"

definition VolumeCacheCompatible :: "ContainerRequest \<Rightarrow> bool" where
  "VolumeCacheCompatible c =
     (if IsBuildRequest c \<or> r_CheckpointEnabled c \<or> StorageAvailable c then False
      else ws_VolumeCacheEnabled (r_Workspace c))"

definition getPointerOrNil :: "string \<Rightarrow> string option" where
  "getPointerOrNil s = (if s = [] then None else Some s)"

definition getStringOrDefault :: "string option \<Rightarrow> string" where
  "getStringOrDefault s = (case s of Some x \<Rightarrow> x | None \<Rightarrow> [])"

section \<open>Pools, quotas and configuration\<close>

definition WorkerPoolStatusHealthy :: string where
  "WorkerPoolStatusHealthy = ''HEALTHY''"

definition WorkerPoolStatusDegraded :: string where
  "WorkerPoolStatusDegraded = ''DEGRADED''"

record worker_pool_state =
  ps_Status :: string
  ps_SchedulingLatency :: int
  ps_FreeGpu :: "64 word"
  ps_FreeCpu :: int
  ps_FreeMemory :: int
  ps_PendingWorkers :: int
  ps_AvailableWorkers :: int
  ps_PendingContainers :: int
  ps_RunningContainers :: int
  ps_RegisteredMachines :: int
  ps_PendingMachines :: int
  ps_ReadyMachines :: int

definition zero_WorkerPoolState :: worker_pool_state where
  "zero_WorkerPoolState =
     \<lparr>ps_Status = [], ps_SchedulingLatency = 0, ps_FreeGpu = 0, ps_FreeCpu = 0, ps_FreeMemory = 0,
      ps_PendingWorkers = 0, ps_AvailableWorkers = 0, ps_PendingContainers = 0,
      ps_RunningContainers = 0, ps_RegisteredMachines = 0, ps_PendingMachines = 0, ps_ReadyMachines = 0\<rparr>"

record WorkerPoolSizingConfig =
  sz_MinFreeCpu :: int
  sz_MinFreeMemory :: int
  sz_MinFreeGpu :: "64 word"
  sz_DefaultWorkerCpu :: int
  sz_DefaultWorkerMemory :: int
  sz_DefaultWorkerGpuType :: string
  sz_DefaultWorkerGpuCount :: "32 word"

definition NewWorkerPoolSizingConfig :: WorkerPoolSizingConfig where
  "NewWorkerPoolSizingConfig =
     \<lparr>sz_MinFreeCpu = 0, sz_MinFreeMemory = 0, sz_MinFreeGpu = 0, sz_DefaultWorkerCpu = 1000,
      sz_DefaultWorkerMemory = 1 * 1024, sz_DefaultWorkerGpuType = [], sz_DefaultWorkerGpuCount = 0\<rparr>"

record ConcurrencyLimit =
  cl_ExternalId :: string
  cl_WorkspaceId :: "64 word"
  cl_GPULimit :: "32 word"
  cl_CPUMillicoreLimit :: "32 word"

record FailoverConfig =
  fo_Enabled :: bool
  fo_MaxPendingWorkers :: int
  fo_MaxSchedulingLatencyMs :: int
  fo_MinMachinesAvailable :: int

section \<open>Exit codes and errors\<close>

definition IsFailed :: "int \<Rightarrow> bool" where
  "IsFailed c \<longleftrightarrow> c \<notin> set [0, 137, 558, 559, 560, 561]"

definition containerStateNotFoundPrefix :: string where
  "containerStateNotFoundPrefix = ''container state not found: ''"

definition workerNotFoundPrefix :: string where
  "workerNotFoundPrefix = ''worker not found: ''"

definition workerPoolStateNotFoundPrefix :: string where
  "workerPoolStateNotFoundPrefix = ''worker pool state not found: ''"

text \<open>The \<open>Error\<close> methods of the typed errors. \<open>None\<close>: the text comes from another package.\<close>

fun Error :: "goerror \<Rightarrow> string option" where
  "Error (ErrNew msg) = Some msg"
| "Error (ErrWorkerNotFound i) = Some (workerNotFoundPrefix @ i)"
| "Error (ErrContainerStateNotFound i) = Some (containerStateNotFoundPrefix @ i)"
| "Error (ErrWorkerPoolStateNotFound p) = Some (workerPoolStateNotFoundPrefix @ p)"
| "Error ErrNoSuitableWorkerFound = Some ''no suitable worker found for request''"
| "Error (ContainerAlreadyScheduledError msg) = Some msg"
| "Error (ThrottledByConcurrencyLimitError reason) = Some (''concurrency_limit_reached: '' @ reason)"
| "Error _ = None"

text \<open>
  The \<open>From\<close> methods recover a typed error from the text of an error that crossed a process
  boundary: \<open>None\<close> is the result \<open>false\<close>.
\<close>

definition ErrWorkerNotFound_From :: "string option \<Rightarrow> goerror option" where
  "ErrWorkerNotFound_From err =
     (case err of
        None \<Rightarrow> None
      | Some msg \<Rightarrow>
          if HasPrefix msg workerNotFoundPrefix
          then Some (ErrWorkerNotFound (TrimPrefix msg workerNotFoundPrefix)) else None)"

definition ErrContainerStateNotFound_From :: "string option \<Rightarrow> goerror option" where
  "ErrContainerStateNotFound_From err =
     (case err of
        None \<Rightarrow> None
      | Some msg \<Rightarrow>
          if HasPrefix msg containerStateNotFoundPrefix
          then Some (ErrContainerStateNotFound (TrimPrefix msg containerStateNotFoundPrefix)) else None)"

definition ErrWorkerPoolStateNotFound_From :: "string option \<Rightarrow> goerror option" where
  "ErrWorkerPoolStateNotFound_From err =
     (case err of
        None \<Rightarrow> None
      | Some msg \<Rightarrow>
          if HasPrefix msg workerPoolStateNotFoundPrefix
          then Some (ErrWorkerPoolStateNotFound (TrimPrefix msg workerPoolStateNotFoundPrefix)) else None)"

section \<open>The struct codec\<close>

type_synonym hash = "string \<rightharpoonup> string"

text \<open>The cases of \<open>ToStruct\<close> by field kind: a missing tag keeps the field, a bad value gives 0.\<close>

definition set_string :: "hash \<Rightarrow> string \<Rightarrow> string \<Rightarrow> string" where
  "set_string m tag old = (case m tag of Some v \<Rightarrow> v | None \<Rightarrow> old)"

definition set_int :: "nat \<Rightarrow> hash \<Rightarrow> string \<Rightarrow> int \<Rightarrow> int" where
  "set_int bits m tag old =
     (case m tag of
        Some v \<Rightarrow> (case ParseInt v bits of Some n \<Rightarrow> n | None \<Rightarrow> 0)
      | None \<Rightarrow> old)"

definition set_uint32 :: "hash \<Rightarrow> string \<Rightarrow> 32 word \<Rightarrow> 32 word" where
  "set_uint32 m tag old =
     (case m tag of
        Some v \<Rightarrow> (case ParseUint v 32 of Some n \<Rightarrow> of_nat n | None \<Rightarrow> 0)
      | None \<Rightarrow> old)"

definition set_uint :: "hash \<Rightarrow> string \<Rightarrow> 64 word \<Rightarrow> 64 word" where
  "set_uint m tag old =
     (case m tag of
        Some v \<Rightarrow> (case ParseUint v 64 of Some n \<Rightarrow> of_nat n | None \<Rightarrow> 0)
      | None \<Rightarrow> old)"

definition set_bool :: "hash \<Rightarrow> string \<Rightarrow> bool \<Rightarrow> bool" where
  "set_bool m tag old =
     (case m tag of
        Some v \<Rightarrow> (case ParseBool v of Some b \<Rightarrow> b | None \<Rightarrow> False)
      | None \<Rightarrow> old)"

lemma set_string_Some: "m tag = Some v \<Longrightarrow> set_string m tag old = v"
  by (simp add: set_string_def)

lemma set_int_Some: "m tag = Some (itoa i) \<Longrightarrow> in_i64 i \<Longrightarrow> set_int 64 m tag old = i"
  by (simp add: set_int_def ParseInt_itoa_64)

lemma set_int32_Some: "m tag = Some (itoa i) \<Longrightarrow> in_i32 i \<Longrightarrow> set_int 32 m tag old = i"
  by (simp add: set_int_def ParseInt_itoa_32)

lemma set_uint32_Some: "m tag = Some (utoa (unat u)) \<Longrightarrow> set_uint32 m tag old = u"
proof -
  have "unat u < 2 ^ LENGTH(32)" by (rule unsigned_less)
  then show "m tag = Some (utoa (unat u)) \<Longrightarrow> set_uint32 m tag old = u"
    by (simp add: set_uint32_def ParseUint_utoa)
qed

lemma set_uint_Some: "m tag = Some (utoa (unat u)) \<Longrightarrow> set_uint m tag old = u"
proof -
  have "unat u < 2 ^ LENGTH(64)" by (rule unsigned_less)
  then show "m tag = Some (utoa (unat u)) \<Longrightarrow> set_uint m tag old = u"
    by (simp add: set_uint_def ParseUint_utoa)
qed

lemma set_bool_Some: "m tag = Some (btoa b) \<Longrightarrow> set_bool m tag old = b"
  by (simp add: set_bool_def)

lemmas set_Some = set_string_Some set_int_Some set_int32_Some set_uint32_Some set_uint_Some set_bool_Some

lemma set_None [simp]:
  "set_string Map.empty tag s = s" "set_int bits Map.empty tag i = i"
  "set_uint32 Map.empty tag u = u" "set_uint Map.empty tag u' = u'" "set_bool Map.empty tag b = b"
  by (simp_all add: set_string_def set_int_def set_uint32_def set_uint_def set_bool_def)

text \<open>A hash that holds every pair of \<open>fvs\<close>.\<close>

definition holds :: "(string \<times> string) list \<Rightarrow> hash \<Rightarrow> bool" where
  "holds fvs h \<longleftrightarrow> (\<forall>(f, v) \<in> set fvs. h f = Some v)"

lemma holds_Cons [simp]: "holds ((f, v) # fvs) h \<longleftrightarrow> h f = Some v \<and> holds fvs h"
  by (simp add: holds_def)

lemma holds_Nil [simp]: "holds [] h"
  by (simp add: holds_def)

lemma holds_hset: "distinct (map fst fvs) \<Longrightarrow> holds fvs (h ++ map_of (rev fvs))"
  by (auto simp: holds_def map_add_Some_iff map_of_eq_Some_iff distinct_rev rev_map [symmetric])

subsection \<open>Workers\<close>

text \<open>
  \<open>ToSlice(worker)\<close>. The \<open>active_containers\<close> field, a slice, is written as display text that no
  case of \<open>ToStruct\<close> reads; the pair is left out here.
\<close>

definition Worker_ToSlice :: "worker \<Rightarrow> (string \<times> string) list" where
  "Worker_ToSlice w =
     [(''id'', w_Id w), (''status'', w_Status w), (''total_cpu'', itoa (w_TotalCpu w)),
      (''total_memory'', itoa (w_TotalMemory w)), (''total_gpu_count'', utoa (unat (w_TotalGpuCount w))),
      (''free_cpu'', itoa (w_FreeCpu w)), (''free_memory'', itoa (w_FreeMemory w)),
      (''gpu_count'', utoa (unat (w_FreeGpuCount w))), (''gpu'', w_Gpu w), (''pool_name'', w_PoolName w),
      (''machine_id'', w_MachineId w), (''resource_version'', itoa (w_ResourceVersion w)),
      (''requires_pool_selector'', btoa (w_RequiresPoolSelector w)), (''priority'', itoa (w_Priority w)),
      (''preemptable'', btoa (w_Preemptable w)), (''build_version'', w_BuildVersion w),
      (''runtime'', w_Runtime w)]"

definition Worker_ToStruct :: "hash \<Rightarrow> worker \<Rightarrow> worker" where
  "Worker_ToStruct m w =
     \<lparr>w_Id = set_string m ''id'' (w_Id w),
      w_Status = set_string m ''status'' (w_Status w),
      w_TotalCpu = set_int 64 m ''total_cpu'' (w_TotalCpu w),
      w_TotalMemory = set_int 64 m ''total_memory'' (w_TotalMemory w),
      w_TotalGpuCount = set_uint32 m ''total_gpu_count'' (w_TotalGpuCount w),
      w_FreeCpu = set_int 64 m ''free_cpu'' (w_FreeCpu w),
      w_FreeMemory = set_int 64 m ''free_memory'' (w_FreeMemory w),
      w_FreeGpuCount = set_uint32 m ''gpu_count'' (w_FreeGpuCount w),
      w_Gpu = set_string m ''gpu'' (w_Gpu w),
      w_PoolName = set_string m ''pool_name'' (w_PoolName w),
      w_MachineId = set_string m ''machine_id'' (w_MachineId w),
      w_ResourceVersion = set_int 64 m ''resource_version'' (w_ResourceVersion w),
      w_RequiresPoolSelector = set_bool m ''requires_pool_selector'' (w_RequiresPoolSelector w),
      w_Priority = set_int 32 m ''priority'' (w_Priority w),
      w_Preemptable = set_bool m ''preemptable'' (w_Preemptable w),
      w_BuildVersion = set_string m ''build_version'' (w_BuildVersion w),
      w_ActiveContainers = w_ActiveContainers w,
      w_Runtime = set_string m ''runtime'' (w_Runtime w)\<rparr>"

text \<open>The integers of a Go struct are always in range.\<close>

definition wf_worker :: "worker \<Rightarrow> bool" where
  "wf_worker w \<longleftrightarrow>
     in_i64 (w_TotalCpu w) \<and> in_i64 (w_TotalMemory w) \<and> in_i64 (w_FreeCpu w) \<and> in_i64 (w_FreeMemory w) \<and>
     in_i64 (w_ResourceVersion w) \<and> in_i32 (w_Priority w)"

lemma distinct_Worker_ToSlice [simp]: "distinct (map fst (Worker_ToSlice w))"
  by (simp add: Worker_ToSlice_def)

lemma Worker_roundtrip:
  assumes "holds (Worker_ToSlice w) h" and "wf_worker w"
  shows "Worker_ToStruct h w0 = w\<lparr>w_ActiveContainers := w_ActiveContainers w0\<rparr>"
  using assms by (simp add: Worker_ToSlice_def Worker_ToStruct_def wf_worker_def set_Some)

lemma Worker_ToStruct_empty [simp]: "Worker_ToStruct Map.empty w = w"
  by (simp add: Worker_ToStruct_def)

lemma set_int64_range: "in_i64 old \<Longrightarrow> in_i64 (set_int 64 m tag old)"
  using ParseInt_range [of _ 64]
  by (fastforce simp: set_int_def in_i64_def split: option.splits)

lemma set_int32_range: "in_i32 old \<Longrightarrow> in_i32 (set_int 32 m tag old)"
  using ParseInt_range [of _ 32]
  by (fastforce simp: set_int_def in_i32_def split: option.splits)

lemma wf_Worker_ToStruct: "wf_worker w \<Longrightarrow> wf_worker (Worker_ToStruct m w)"
  by (simp add: wf_worker_def Worker_ToStruct_def set_int64_range set_int32_range)

lemma wf_zero_worker [simp]: "wf_worker (zero_worker i)"
  by (simp add: wf_worker_def zero_worker_def in_i64_def in_i32_def)

subsection \<open>Container states\<close>

definition ContainerState_ToSlice :: "ContainerState \<Rightarrow> (string \<times> string) list" where
  "ContainerState_ToSlice s =
     [(''container_id'', cs_ContainerId s), (''stub_id'', cs_StubId s), (''status'', cs_Status s),
      (''scheduled_at'', itoa (cs_ScheduledAt s)), (''workspace_id'', cs_WorkspaceId s),
      (''gpu'', cs_Gpu s), (''gpu_count'', utoa (unat (cs_GpuCount s))), (''cpu'', itoa (cs_Cpu s)),
      (''memory'', itoa (cs_Memory s)), (''started_at'', itoa (cs_StartedAt s))]"

definition ContainerState_ToStruct :: "hash \<Rightarrow> ContainerState \<Rightarrow> ContainerState" where
  "ContainerState_ToStruct m s =
     \<lparr>cs_ContainerId = set_string m ''container_id'' (cs_ContainerId s),
      cs_StubId = set_string m ''stub_id'' (cs_StubId s),
      cs_Status = set_string m ''status'' (cs_Status s),
      cs_ScheduledAt = set_int 64 m ''scheduled_at'' (cs_ScheduledAt s),
      cs_WorkspaceId = set_string m ''workspace_id'' (cs_WorkspaceId s),
      cs_Gpu = set_string m ''gpu'' (cs_Gpu s),
      cs_GpuCount = set_uint32 m ''gpu_count'' (cs_GpuCount s),
      cs_Cpu = set_int 64 m ''cpu'' (cs_Cpu s),
      cs_Memory = set_int 64 m ''memory'' (cs_Memory s),
      cs_StartedAt = set_int 64 m ''started_at'' (cs_StartedAt s)\<rparr>"

definition wf_ContainerState :: "ContainerState \<Rightarrow> bool" where
  "wf_ContainerState s \<longleftrightarrow>
     in_i64 (cs_ScheduledAt s) \<and> in_i64 (cs_Cpu s) \<and> in_i64 (cs_Memory s) \<and> in_i64 (cs_StartedAt s)"

lemma distinct_ContainerState_ToSlice [simp]: "distinct (map fst (ContainerState_ToSlice s))"
  by (simp add: ContainerState_ToSlice_def)

lemma ContainerState_roundtrip:
  assumes "holds (ContainerState_ToSlice s) h" and "wf_ContainerState s"
  shows "ContainerState_ToStruct h s0 = s"
  using assms
  by (simp add: ContainerState_ToSlice_def ContainerState_ToStruct_def wf_ContainerState_def set_Some)

lemma wf_ContainerState_ToStruct:
  "wf_ContainerState s \<Longrightarrow> wf_ContainerState (ContainerState_ToStruct m s)"
  by (simp add: wf_ContainerState_def ContainerState_ToStruct_def set_int64_range)

lemma wf_zero_ContainerState [simp]: "wf_ContainerState zero_ContainerState"
  by (simp add: wf_ContainerState_def zero_ContainerState_def in_i64_def)

subsection \<open>Worker pool states and concurrency limits\<close>

definition WorkerPoolState_ToStruct :: "hash \<Rightarrow> worker_pool_state \<Rightarrow> worker_pool_state" where
  "WorkerPoolState_ToStruct m s =
     \<lparr>ps_Status = set_string m ''status'' (ps_Status s),
      ps_SchedulingLatency = set_int 64 m ''scheduling_latency'' (ps_SchedulingLatency s),
      ps_FreeGpu = set_uint m ''free_gpu'' (ps_FreeGpu s),
      ps_FreeCpu = set_int 64 m ''free_cpu'' (ps_FreeCpu s),
      ps_FreeMemory = set_int 64 m ''free_memory'' (ps_FreeMemory s),
      ps_PendingWorkers = set_int 64 m ''pending_workers'' (ps_PendingWorkers s),
      ps_AvailableWorkers = set_int 64 m ''available_workers'' (ps_AvailableWorkers s),
      ps_PendingContainers = set_int 64 m ''pending_containers'' (ps_PendingContainers s),
      ps_RunningContainers = set_int 64 m ''running_containers'' (ps_RunningContainers s),
      ps_RegisteredMachines = set_int 64 m ''registered_machines'' (ps_RegisteredMachines s),
      ps_PendingMachines = set_int 64 m ''pending_machines'' (ps_PendingMachines s),
      ps_ReadyMachines = set_int 64 m ''ready_machines'' (ps_ReadyMachines s)\<rparr>"

definition wf_WorkerPoolState :: "worker_pool_state \<Rightarrow> bool" where
  "wf_WorkerPoolState s \<longleftrightarrow>
     in_i64 (ps_SchedulingLatency s) \<and> in_i64 (ps_FreeCpu s) \<and> in_i64 (ps_FreeMemory s) \<and>
     in_i64 (ps_PendingWorkers s) \<and> in_i64 (ps_AvailableWorkers s) \<and> in_i64 (ps_PendingContainers s) \<and>
     in_i64 (ps_RunningContainers s) \<and> in_i64 (ps_RegisteredMachines s) \<and>
     in_i64 (ps_PendingMachines s) \<and> in_i64 (ps_ReadyMachines s)"

definition ConcurrencyLimit_ToSlice :: "ConcurrencyLimit \<Rightarrow> (string \<times> string) list" where
  "ConcurrencyLimit_ToSlice l =
     [(''external_id'', cl_ExternalId l), (''workspace_id'', utoa (unat (cl_WorkspaceId l))),
      (''gpu_limit'', utoa (unat (cl_GPULimit l))),
      (''cpu_millicore_limit'', utoa (unat (cl_CPUMillicoreLimit l)))]"

definition zero_ConcurrencyLimit :: ConcurrencyLimit where
  "zero_ConcurrencyLimit =
     \<lparr>cl_ExternalId = [], cl_WorkspaceId = 0, cl_GPULimit = 0, cl_CPUMillicoreLimit = 0\<rparr>"

definition ConcurrencyLimit_ToStruct :: "hash \<Rightarrow> ConcurrencyLimit \<Rightarrow> ConcurrencyLimit" where
  "ConcurrencyLimit_ToStruct m l =
     \<lparr>cl_ExternalId = set_string m ''external_id'' (cl_ExternalId l),
      cl_WorkspaceId = set_uint m ''workspace_id'' (cl_WorkspaceId l),
      cl_GPULimit = set_uint32 m ''gpu_limit'' (cl_GPULimit l),
      cl_CPUMillicoreLimit = set_uint32 m ''cpu_millicore_limit'' (cl_CPUMillicoreLimit l)\<rparr>"

lemma distinct_ConcurrencyLimit_ToSlice [simp]: "distinct (map fst (ConcurrencyLimit_ToSlice l))"
  by (simp add: ConcurrencyLimit_ToSlice_def)

lemma ConcurrencyLimit_roundtrip:
  "holds (ConcurrencyLimit_ToSlice l) h \<Longrightarrow> ConcurrencyLimit_ToStruct h l0 = l"
  by (simp add: ConcurrencyLimit_ToSlice_def ConcurrencyLimit_ToStruct_def set_Some)

end
