(* ===== verification/Worker_Repo.thy ===== *)
theory Worker_Repo
  imports Redis Redis_Keys Sched_Types "HOL-Library.Sublist"
begin

text \<open>
  \<open>pkg/repository/worker_redis.go\<close>: the worker repository. A worker is a hash under
  \<open>SchedulerWorkerState\<close>, its key is a member of the set \<open>SchedulerWorkerIndex\<close>, and the requests
  assigned to it are a list under \<open>SchedulerWorkerRequests\<close>. Every operation of the repository is a
  definition over the Redis client \<open>R\<close>; \<open>json\<close> is the encoding of requests by \<open>encoding/json\<close>.
  \<open>read_worker\<close> abstracts the keyspace to workers, and the lemmas give the effect of every
  operation on it.
\<close>

section \<open>Operations\<close>

record json_codec =
  marshal :: "ContainerRequest \<Rightarrow> goerror + string"
  unmarshal :: "string \<Rightarrow> goerror + ContainerRequest"

definition json_ok :: "json_codec \<Rightarrow> ContainerRequest \<Rightarrow> bool" where
  "json_ok J r \<longleftrightarrow> (\<exists>x. marshal J r = Inr x \<and> unmarshal J x = Inr r)"

definition liftSum :: "goerror + 'a \<Rightarrow> ('s, 'a) io" where
  "liftSum x = (case x of Inl e \<Rightarrow> throwE e | Inr a \<Rightarrow> returnE a)"

lemma wp_liftSum [wp_eqs]:
  "wp (liftSum x) Q E s = (case x of Inl e \<Rightarrow> E e s | Inr a \<Rightarrow> Q a s)"
  by (simp add: liftSum_def wp_eqs split: sum.splits)

definition last_part :: "string \<Rightarrow> string" where
  "last_part key = last (Split CHR '':'' key)"

definition AddWorker :: "'s redis_client \<Rightarrow> int \<Rightarrow> worker \<Rightarrow> ('s world, worker) io" where
  "AddWorker R cleanupPendingWorkerAgeLimit worker =
     locked R (SchedulerWorkerLock (w_Id worker)) 10 3
       (let stateKey = SchedulerWorkerState (w_Id worker);
            worker' = worker\<lparr>w_ResourceVersion := 0\<rparr>
        in thenE (wrapE ''failed to add worker state key to index'' (SAdd R SchedulerWorkerIndex stateKey))
          (thenE (wrapE ''failed to add worker state'' (HSet R stateKey (Worker_ToSlice worker')))
          (thenE (wrapE ''failed to set worker state ttl'' (Expire R stateKey cleanupPendingWorkerAgeLimit))
          (returnE worker'))))"

definition RemoveWorker :: "'s redis_client \<Rightarrow> string \<Rightarrow> ('s world, unit) io" where
  "RemoveWorker R workerId =
     locked R (SchedulerWorkerLock workerId) 10 3
       (let stateKey = SchedulerWorkerState workerId
        in bindE (Exists R stateKey) (\<lambda>exists.
           if \<not> exists then throwE (ErrWorkerNotFound workerId)
           else thenE (wrapE ''failed to remove worker state key from index'' (SRem R SchedulerWorkerIndex stateKey))
               (thenE (Del R stateKey)
                      (Del R (SchedulerWorkerRequests workerId)))))"

definition getWorkerFromKey :: "'s redis_client \<Rightarrow> string \<Rightarrow> ('s world, worker) io" where
  "getWorkerFromKey R key =
     bindE (wrapE ''failed to get worker'' (HGetAll R key)) (\<lambda>res.
       returnE (Worker_ToStruct (map_of res) (zero_worker (last_part key))))"

definition UpdateWorkerStatus :: "'s redis_client \<Rightarrow> string \<Rightarrow> string \<Rightarrow> ('s world, unit) io" where
  "UpdateWorkerStatus R workerId status =
     locked R (SchedulerWorkerLock workerId) 10 3
       (let stateKey = SchedulerWorkerState workerId
        in bindE (getWorkerFromKey R stateKey) (\<lambda>worker.
           let worker' = worker\<lparr>w_Status := status, w_ResourceVersion := i64 (w_ResourceVersion worker + 1)\<rparr>
           in thenE (wrapE ''failed to update worker status'' (HSet R stateKey (Worker_ToSlice worker')))
                    (wrapE ''failed to set worker state ttl'' (Expire R stateKey (WorkerStateTtlS * second)))))"

definition SetWorkerKeepAlive :: "'s redis_client \<Rightarrow> string \<Rightarrow> ('s world, unit) io" where
  "SetWorkerKeepAlive R workerId =
     wrapE ''failed to set worker state ttl''
       (Expire R (SchedulerWorkerState workerId) (WorkerStateTtlS * second))"

definition ToggleWorkerAvailable :: "'s redis_client \<Rightarrow> string \<Rightarrow> ('s world, unit) io" where
  "ToggleWorkerAvailable R workerId = UpdateWorkerStatus R workerId WorkerStatusAvailable"

text \<open>The pipeline of \<open>HGetAll\<close> commands; its error is the first error of a command.\<close>

fun pipeHGetAll :: "'s redis_client \<Rightarrow> string list \<Rightarrow> ('s world, (string \<times> (string \<times> string) list) list) io" where
  "pipeHGetAll R [] = returnE []"
| "pipeHGetAll R (key # keys) =
     bindE (HGetAll R key) (\<lambda>res. bindE (pipeHGetAll R keys) (\<lambda>cmds. returnE ((key, res) # cmds)))"

fun collectWorkers :: "'s redis_client \<Rightarrow> (string \<times> (string \<times> string) list) list \<Rightarrow> worker list \<Rightarrow>
    ('s world, worker list) io" where
  "collectWorkers R [] workers = returnE workers"
| "collectWorkers R ((key, res) # cmds) workers =
     (if length res = 0
      then thenE (attempt (SRem R SchedulerWorkerIndex key)) (collectWorkers R cmds workers)
      else collectWorkers R cmds
             (workers @ [Worker_ToStruct (map_of res) (zero_worker (last_part key))]))"

definition getWorkersFromKeys :: "'s redis_client \<Rightarrow> string list \<Rightarrow> ('s world, worker list) io" where
  "getWorkersFromKeys R keys =
     bindE (wrapE ''failed to execute pipeline'' (pipeHGetAll R keys)) (\<lambda>cmds. collectWorkers R cmds [])"

fun getWorkersLocked :: "'s redis_client \<Rightarrow> string list \<Rightarrow> worker list \<Rightarrow> ('s world, worker list) io" where
  "getWorkersLocked R [] workers = returnE workers"
| "getWorkersLocked R (key # keys) workers =
     (let parts = Split CHR '':'' key
      in if length parts \<le> 3 then throwE (Panic ''index out of range'')
         else let workerId = parts ! 3
         in bindE (attempt (Acquire R (SchedulerWorkerLock workerId) 10 0)) (\<lambda>acq.
            case acq of
              Inl _ \<Rightarrow> getWorkersLocked R keys workers
            | Inr _ \<Rightarrow>
                bindE (attempt (getWorkerFromKey R key)) (\<lambda>got.
                thenE (attempt (Release R (SchedulerWorkerLock workerId)))
                  (case got of
                     Inl _ \<Rightarrow> getWorkersLocked R keys workers
                   | Inr w \<Rightarrow> getWorkersLocked R keys (workers @ [w])))))"

definition getWorkers :: "'s redis_client \<Rightarrow> bool \<Rightarrow> ('s world, worker list) io" where
  "getWorkers R useLock =
     bindE (wrapE ''failed to retrieve worker state keys'' (SMembers R SchedulerWorkerIndex)) (\<lambda>keys.
       if \<not> useLock then wrapE ''failed to retrieve worker state keys'' (getWorkersFromKeys R keys)
       else getWorkersLocked R keys [])"

definition GetWorkerById :: "'s redis_client \<Rightarrow> string \<Rightarrow> ('s world, worker) io" where
  "GetWorkerById R workerId =
     locked R (SchedulerWorkerLock workerId) 10 3
       (let key = SchedulerWorkerState workerId
        in bindE (Exists R key) (\<lambda>exists.
           if \<not> exists then throwE (ErrWorkerNotFound workerId)
           else getWorkerFromKey R key))"

text \<open>The counters start at 0 for every GPU type; a worker of another type adds its own entry.\<close>

fun addGpuCount :: "string \<Rightarrow> int \<Rightarrow> (string \<times> int) list \<Rightarrow> (string \<times> int) list" where
  "addGpuCount g n [] = [(g, n)]"
| "addGpuCount g n ((h, k) # cs) = (if g = h then (h, i64 (k + n)) # cs else (h, k) # addGpuCount g n cs)"

definition initGpuCounts :: "(string \<times> int) list" where
  "initGpuCounts = map (\<lambda>g. (g, 0)) AllGPUTypes"

definition countGpus :: "(worker \<Rightarrow> 32 word) \<Rightarrow> worker list \<Rightarrow> (string \<times> int) list" where
  "countGpus f workers =
     fold (\<lambda>w counts. if w_Gpu w \<noteq> [] then addGpuCount (w_Gpu w) (uint (f w)) counts else counts)
       workers initGpuCounts"

definition GetGpuCounts :: "'s redis_client \<Rightarrow> ('s world, (string \<times> int) list) io" where
  "GetGpuCounts R = bindE (getWorkers R False) (\<lambda>workers. returnE (countGpus w_TotalGpuCount workers))"

definition GetFreeGpuCounts :: "'s redis_client \<Rightarrow> ('s world, (string \<times> int) list) io" where
  "GetFreeGpuCounts R = bindE (getWorkers R False) (\<lambda>workers. returnE (countGpus w_FreeGpuCount workers))"

fun contains_sub :: "string \<Rightarrow> string \<Rightarrow> bool" where
  "contains_sub [] sub = (sub = [])"
| "contains_sub (c # cs) sub = (HasPrefix (c # cs) sub \<or> contains_sub cs sub)"

text \<open>A pool is its GPU type and the values of its node selector.\<close>

definition GetPreemptibleGpus :: "(string \<times> string list) list \<Rightarrow> string list" where
  "GetPreemptibleGpus pools =
     concat (map (\<lambda>(gpuType, nodeSelector).
        if gpuType = [] then []
        else map (\<lambda>_. gpuType) (filter (\<lambda>v. contains_sub v ''spot'') nodeSelector)) pools)"

definition GetGpuAvailability :: "'s redis_client \<Rightarrow> (string \<times> string list) list \<Rightarrow>
    ('s world, string \<Rightarrow> bool option) io" where
  "GetGpuAvailability R pools =
     (let init = fold (\<lambda>g m. if g = GPU_ANY then m else m(g \<mapsto> False)) AllGPUTypes Map.empty
      in bindE (GetGpuCounts R) (\<lambda>gpuCounts.
         let counted = fold (\<lambda>(g, n) m. if g = GPU_ANY then m else m(g \<mapsto> (n > 0))) gpuCounts init
         in returnE (fold (\<lambda>g m. m(g \<mapsto> True)) (GetPreemptibleGpus pools) counted)))"

definition GetAllWorkers :: "'s redis_client \<Rightarrow> ('s world, worker list) io" where
  "GetAllWorkers R = getWorkers R True"

definition GetAllWorkersInPool :: "'s redis_client \<Rightarrow> string \<Rightarrow> ('s world, worker list) io" where
  "GetAllWorkersInPool R poolName =
     bindE (getWorkers R False) (\<lambda>workers. returnE (filter (\<lambda>w. w_PoolName w = poolName) workers))"

definition CordonAllPendingWorkersInPool :: "'s redis_client \<Rightarrow> string \<Rightarrow> ('s world, unit) io" where
  "CordonAllPendingWorkersInPool R poolName =
     bindE (GetAllWorkersInPool R poolName) (\<lambda>workers.
       forE (\<lambda>w. if w_Status w \<noteq> WorkerStatusPending then returnE ()
                 else UpdateWorkerStatus R (w_Id w) WorkerStatusDisabled) workers)"

definition GetAllWorkersOnMachine :: "'s redis_client \<Rightarrow> string \<Rightarrow> ('s world, worker list) io" where
  "GetAllWorkersOnMachine R machineId =
     bindE (getWorkers R False) (\<lambda>workers. returnE (filter (\<lambda>w. w_MachineId w = machineId) workers))"

text \<open>
  The switch of \<open>UpdateWorkerCapacity\<close>. \<open>FreeGpuCount\<close> is a \<open>uint32\<close>, so its subtraction wraps around
  and its comparison with 0 is the unsigned one.
\<close>

definition applyCapacity :: "worker \<Rightarrow> ContainerRequest \<Rightarrow> CapacityUpdateType \<Rightarrow> goerror + worker" where
  "applyCapacity w request t =
     (case t of
        AddCapacity \<Rightarrow>
          Inr (w\<lparr>w_FreeCpu := i64 (w_FreeCpu w + r_Cpu request),
                 w_FreeMemory := i64 (w_FreeMemory w + r_Memory request),
                 w_FreeGpuCount := (if r_Gpu request \<noteq> [] then w_FreeGpuCount w + r_GpuCount request
                                    else w_FreeGpuCount w)\<rparr>)
      | RemoveCapacity \<Rightarrow>
          (let w' = w\<lparr>w_FreeCpu := i64 (w_FreeCpu w - r_Cpu request),
                      w_FreeMemory := i64 (w_FreeMemory w - r_Memory request),
                      w_FreeGpuCount := (if r_Gpu request \<noteq> [] then w_FreeGpuCount w - r_GpuCount request
                                         else w_FreeGpuCount w)\<rparr>
           in if w_FreeCpu w' < 0 \<or> w_FreeMemory w' < 0 \<or> w_FreeGpuCount w' < 0
              then Inl (ErrNew ''unable to schedule container, worker out of cpu, memory, or gpu'')
              else Inr w')
      | OtherCapacityUpdate _ \<Rightarrow> Inl (ErrNew ''invalid capacity update type''))"

definition UpdateWorkerCapacity :: "'s redis_client \<Rightarrow> worker \<Rightarrow> ContainerRequest \<Rightarrow> CapacityUpdateType \<Rightarrow>
    ('s world, unit) io" where
  "UpdateWorkerCapacity R worker request t =
     locked R (SchedulerWorkerLock (w_Id worker)) 10 3
       (let key = SchedulerWorkerState (w_Id worker)
        in bindE (wrapE ''failed to get worker state'' (getWorkerFromKey R key)) (\<lambda>currentWorker.
           if w_ResourceVersion currentWorker \<noteq> w_ResourceVersion worker
           then throwE (ErrNew ''invalid worker resource version'')
           else bindE (liftSum (applyCapacity currentWorker request t)) (\<lambda>updatedWorker.
             wrapE ''failed to update worker capacity''
               (HSet R key (Worker_ToSlice
                  (updatedWorker\<lparr>w_ResourceVersion := i64 (w_ResourceVersion updatedWorker + 1)\<rparr>))))))"

definition ScheduleContainerRequest :: "'s redis_client \<Rightarrow> json_codec \<Rightarrow> worker \<Rightarrow> ContainerRequest \<Rightarrow>
    ('s world, unit) io" where
  "ScheduleContainerRequest R J worker request =
     bindE (wrapE ''failed to serialize request'' (liftSum (marshal J request))) (\<lambda>requestJSON.
     thenE (UpdateWorkerCapacity R worker request RemoveCapacity)
           (wrapE ''failed to push request'' (RPush R (SchedulerWorkerRequests (w_Id worker)) requestJSON)))"

definition AddContainerToWorker :: "'s redis_client \<Rightarrow> string \<Rightarrow> string \<Rightarrow> ('s world, unit) io" where
  "AddContainerToWorker R workerId containerId =
     wrapE ''failed to add container to worker container index''
       (SAdd R (SchedulerContainerWorkerIndex workerId) (SchedulerContainerState containerId))"

definition RemoveContainerFromWorker :: "'s redis_client \<Rightarrow> string \<Rightarrow> string \<Rightarrow> ('s world, unit) io" where
  "RemoveContainerFromWorker R workerId containerId =
     wrapE ''failed to remove container from worker container index''
       (SRem R (SchedulerContainerWorkerIndex workerId) (SchedulerContainerState containerId))"

definition GetNextContainerRequest :: "'s redis_client \<Rightarrow> json_codec \<Rightarrow> string \<Rightarrow>
    ('s world, ContainerRequest option) io" where
  "GetNextContainerRequest R J workerId =
     bindE (LLen R (SchedulerWorkerRequests workerId)) (\<lambda>queueLength.
       if queueLength = 0 then returnE None
       else bindE (LPop R (SchedulerWorkerRequests workerId)) (\<lambda>requestJSON.
            bindE (liftSum (unmarshal J requestJSON)) (\<lambda>request. returnE (Some request))))"

text \<open>
  \<open>ContainerResourceUsage\<close> has \<open>json\<close> tags only, so \<open>ToSlice\<close>, which collects the fields with a
  \<open>redis\<close> tag, returns no pair for it.
\<close>

record ContainerResourceUsage =
  u_ContainerID :: string
  u_CpuMillicoresUsed :: int
  u_MemoryUsed :: int
  u_GpuMemoryUsed :: int
  u_GpuMemoryTotal :: int
  u_GpuType :: string

definition ContainerResourceUsage_ToSlice :: "ContainerResourceUsage \<Rightarrow> (string \<times> string) list" where
  "ContainerResourceUsage_ToSlice usage = []"

definition SetContainerResourceValues :: "'s redis_client \<Rightarrow> string \<Rightarrow> string \<Rightarrow> ContainerResourceUsage \<Rightarrow>
    ('s world, unit) io" where
  "SetContainerResourceValues R workerId containerId usage =
     (let key = WorkerContainerResourceUsage workerId containerId
      in thenE (wrapE ''failed to set container resource usage'' (HSet R key (ContainerResourceUsage_ToSlice usage)))
               (wrapE ''failed to set container resource usage expiration'' (Expire R key (2 * 3 * second))))"

definition SetImagePullLock :: "'s redis_client \<Rightarrow> string \<Rightarrow> string \<Rightarrow> ('s world, string) io" where
  "SetImagePullLock R workerId imageId =
     (let lockKey = WorkerImageLock workerId imageId
      in thenE (Acquire R lockKey 10 3) (Token lockKey))"

definition RemoveImagePullLock :: "'s redis_client \<Rightarrow> string \<Rightarrow> string \<Rightarrow> string \<Rightarrow> ('s world, unit) io" where
  "RemoveImagePullLock R workerId imageId token = ReleaseWithToken R (WorkerImageLock workerId imageId) token"

definition GetContainerIps :: "'s redis_client \<Rightarrow> string \<Rightarrow> ('s world, string list) io" where
  "GetContainerIps R networkPrefix = SMembers R (WorkerNetworkIpIndex networkPrefix)"

definition GetContainerIp :: "'s redis_client \<Rightarrow> string \<Rightarrow> string \<Rightarrow> ('s world, string) io" where
  "GetContainerIp R networkPrefix containerId = Get R (WorkerNetworkContainerIp networkPrefix containerId)"

definition SetContainerIp :: "'s redis_client \<Rightarrow> string \<Rightarrow> string \<Rightarrow> string \<Rightarrow> ('s world, unit) io" where
  "SetContainerIp R networkPrefix containerId containerIp =
     thenE (SetKey R (WorkerNetworkContainerIp networkPrefix containerId) containerIp 0)
           (SAdd R (WorkerNetworkIpIndex networkPrefix) containerIp)"

definition SetNetworkLock :: "'s redis_client \<Rightarrow> string \<Rightarrow> int \<Rightarrow> int \<Rightarrow> ('s world, string) io" where
  "SetNetworkLock R networkPrefix ttl retries =
     (let lockKey = WorkerNetworkLock networkPrefix
      in thenE (Acquire R lockKey ttl retries) (Token lockKey))"

definition RemoveNetworkLock :: "'s redis_client \<Rightarrow> string \<Rightarrow> string \<Rightarrow> ('s world, unit) io" where
  "RemoveNetworkLock R networkPrefix token = ReleaseWithToken R (WorkerNetworkLock networkPrefix) token"

text \<open>\<open>Del\<close> is given two names: the key of the container's address, and the address itself.\<close>

definition RemoveContainerIp :: "'s redis_client \<Rightarrow> string \<Rightarrow> string \<Rightarrow> ('s world, unit) io" where
  "RemoveContainerIp R networkPrefix containerId =
     bindE (Get R (WorkerNetworkContainerIp networkPrefix containerId)) (\<lambda>containerIp.
     thenE (thenE (Del R (WorkerNetworkContainerIp networkPrefix containerId)) (Del R containerIp))
           (SRem R (WorkerNetworkIpIndex networkPrefix) containerIp))"

section \<open>Abstraction\<close>

text \<open>The worker that the repository reads back for an id.\<close>

definition read_worker :: "keyspace \<Rightarrow> string \<Rightarrow> worker" where
  "read_worker v i =
     Worker_ToStruct (hashOf (v (SchedulerWorkerState i))) (zero_worker (last_part (SchedulerWorkerState i)))"

definition bumpVersion :: "worker \<Rightarrow> worker" where
  "bumpVersion w = w\<lparr>w_ResourceVersion := i64 (w_ResourceVersion w + 1)\<rparr>"

text \<open>
  The pipelined read: \<open>collectWorkers\<close> keeps the workers whose hash is not empty, in the order of the
  keys, and removes the other keys from the index.
\<close>

definition live_workers :: "keyspace \<Rightarrow> string list \<Rightarrow> worker list" where
  "live_workers v ks =
     map (\<lambda>k. Worker_ToStruct (hashOf (v k)) (zero_worker (last_part k))) (filter (\<lambda>k. hashOf (v k) \<noteq> Map.empty) ks)"

lemma worker_keys_distinct [simp]:
  "SchedulerWorkerState i \<noteq> SchedulerWorkerIndex" "SchedulerWorkerIndex \<noteq> SchedulerWorkerState i"
  "SchedulerWorkerState i \<noteq> SchedulerWorkerLock j" "SchedulerWorkerLock j \<noteq> SchedulerWorkerState i"
  "SchedulerWorkerRequests i \<noteq> SchedulerWorkerIndex" "SchedulerWorkerIndex \<noteq> SchedulerWorkerRequests i"
  "SchedulerWorkerRequests i \<noteq> SchedulerWorkerLock j" "SchedulerWorkerLock j \<noteq> SchedulerWorkerRequests i"
  "SchedulerWorkerRequests i \<noteq> SchedulerWorkerState j" "SchedulerWorkerState j \<noteq> SchedulerWorkerRequests i"
  "SchedulerWorkerLock i \<noteq> SchedulerWorkerIndex" "SchedulerWorkerIndex \<noteq> SchedulerWorkerLock i"
  by (simp_all add: key_eqs)

lemma subseq_set: "subseq xs ys \<Longrightarrow> set xs \<subseteq> set ys"
  by (induction rule: list_emb.induct) auto

lemma subseq_distinct: "subseq xs ys \<Longrightarrow> distinct ys \<Longrightarrow> distinct xs"
  by (induction rule: list_emb.induct) (auto dest: subseq_set)

lemma read_worker_cong:
  "v' (SchedulerWorkerState i) = v (SchedulerWorkerState i) \<Longrightarrow> read_worker v' i = read_worker v i"
  by (simp add: read_worker_def)

lemma read_worker_agree:
  "agree_off K v v' \<Longrightarrow> SchedulerWorkerState i \<notin> K \<Longrightarrow> read_worker v' i = read_worker v i"
  by (rule read_worker_cong) (simp add: agree_off_def)

lemma read_worker_other [simp]:
  "k \<noteq> SchedulerWorkerState i \<Longrightarrow> read_worker (v(k := x)) i = read_worker v i"
  by (simp add: read_worker_def)

lemma wf_read_worker [simp]: "wf_worker (read_worker v i)"
  by (simp add: read_worker_def wf_Worker_ToStruct)

lemma read_worker_ActiveContainers [simp]: "w_ActiveContainers (read_worker v i) = []"
  by (simp add: read_worker_def Worker_ToStruct_def zero_worker_def)

lemma Worker_ToStruct_stored [simp]:
  "wf_worker x \<Longrightarrow>
     Worker_ToStruct (h ++ map_of (rev (Worker_ToSlice x))) (zero_worker i) = x\<lparr>w_ActiveContainers := []\<rparr>"
  by (subst Worker_roundtrip [OF holds_hset [OF distinct_Worker_ToSlice]]) (simp_all add: zero_worker_def)

lemma Worker_ToStruct_ToSlice:
  "wf_worker x \<Longrightarrow> w_ActiveContainers x = [] \<Longrightarrow> Worker_ToStruct (map_of (Worker_ToSlice x)) (zero_worker i) = x"
  using Worker_roundtrip [of x "map_of (Worker_ToSlice x)" "zero_worker i"]
  by (simp add: holds_def distinct_Worker_ToSlice zero_worker_def)

lemma wf_worker_simps [simp]:
  "wf_worker (w\<lparr>w_Status := st\<rparr>) = wf_worker w"
  "wf_worker (w\<lparr>w_ActiveContainers := cs\<rparr>) = wf_worker w"
  "wf_worker w \<Longrightarrow> wf_worker (w\<lparr>w_ResourceVersion := i64 n\<rparr>)"
  by (simp_all add: wf_worker_def)

lemma wf_Worker_ToStruct_zero [simp]: "wf_worker (Worker_ToStruct h (zero_worker i))"
  by (simp add: wf_Worker_ToStruct)

lemma Worker_ToStruct_ActiveContainers [simp]: "w_ActiveContainers (Worker_ToStruct h (zero_worker i)) = []"
  by (simp add: Worker_ToStruct_def zero_worker_def)

lemma worker_update_same [simp]: "w_ActiveContainers x = [] \<Longrightarrow> x\<lparr>w_ActiveContainers := []\<rparr> = x"
  by simp

lemma wf_bumpVersion [simp]: "wf_worker w \<Longrightarrow> wf_worker (bumpVersion w)"
  by (simp add: wf_worker_def bumpVersion_def)

lemma bumpVersion_sel [simp]:
  "w_FreeCpu (bumpVersion w) = w_FreeCpu w" "w_FreeMemory (bumpVersion w) = w_FreeMemory w"
  "w_FreeGpuCount (bumpVersion w) = w_FreeGpuCount w" "w_ActiveContainers (bumpVersion w) = w_ActiveContainers w"
  "w_ResourceVersion (bumpVersion w) = i64 (w_ResourceVersion w + 1)" "w_Status (bumpVersion w) = w_Status w"
  "w_Gpu (bumpVersion w) = w_Gpu w" "w_TotalCpu (bumpVersion w) = w_TotalCpu w"
  "w_TotalMemory (bumpVersion w) = w_TotalMemory w" "w_TotalGpuCount (bumpVersion w) = w_TotalGpuCount w"
  by (simp_all add: bumpVersion_def)

lemma applyCapacity_frame:
  assumes "applyCapacity w r t = Inr w'"
  shows "wf_worker w \<Longrightarrow> wf_worker w'" and "w_ActiveContainers w' = w_ActiveContainers w"
    and "w_ResourceVersion w' = w_ResourceVersion w" and "w_Id w' = w_Id w"
    and "w_TotalCpu w' = w_TotalCpu w" and "w_TotalMemory w' = w_TotalMemory w"
    and "w_TotalGpuCount w' = w_TotalGpuCount w" and "w_Status w' = w_Status w" and "w_Gpu w' = w_Gpu w"
  using assms
  by (auto simp: applyCapacity_def wf_worker_def Let_def split: CapacityUpdateType.splits if_splits)

lemma applyCapacity_stored:
  assumes "applyCapacity (Worker_ToStruct h0 (zero_worker i)) r t = Inr x"
  shows "Worker_ToStruct (h ++ map_of (rev (Worker_ToSlice
           (x\<lparr>w_ResourceVersion := i64 (w_ResourceVersion x + 1)\<rparr>)))) (zero_worker j) = bumpVersion x"
  using applyCapacity_frame(1,2) [OF assms] by (simp add: bumpVersion_def)

section \<open>Effect of the operations\<close>

context redis
begin

lemma wp_getWorkerFromKey:
  assumes "\<And>w'. isHash (V w (SchedulerWorkerState i)) \<Longrightarrow> V w' = V w \<Longrightarrow> locks w' = locks w \<Longrightarrow>
             Q (read_worker (V w) i) w'"
    and "\<And>e w'. V w' = V w \<Longrightarrow> locks w' = locks w \<Longrightarrow> E (Errorf ''failed to get worker'' e) w'"
  shows "wp (getWorkerFromKey R (SchedulerWorkerState i)) Q E w"
  unfolding getWorkerFromKey_def wp_eqs
  by (rule wp_HGetAll) (simp_all add: assms flip: read_worker_def)

lemma AddWorker_spec:
  assumes "wf_worker wk" and "0 < age"
  shows "wp (AddWorker R age wk)
    (\<lambda>wk' w'. wk' = wk\<lparr>w_ResourceVersion := 0\<rparr> \<and>
       read_worker (V w') (w_Id wk) = wk\<lparr>w_ResourceVersion := 0, w_ActiveContainers := []\<rparr> \<and>
       setOf (V w' SchedulerWorkerIndex) =
         insert (SchedulerWorkerState (w_Id wk)) (setOf (V w SchedulerWorkerIndex)) \<and>
       agree_off {SchedulerWorkerState (w_Id wk), SchedulerWorkerIndex, SchedulerWorkerLock (w_Id wk)} (V w) (V w'))
    (\<lambda>e w'. agree_off {SchedulerWorkerState (w_Id wk), SchedulerWorkerIndex, SchedulerWorkerLock (w_Id wk)} (V w) (V w'))
    w"
proof -
  have "wf_worker (wk\<lparr>w_ResourceVersion := 0\<rparr>)"
    using assms(1) by (simp add: wf_worker_def in_i64_def)
  then show ?thesis
    unfolding AddWorker_def Let_def wp_eqs
    by (auto simp: wp_eqs agree_off_def read_worker_def intro!: wp_locked wp_cmds wp_Expire_pos assms(2))
qed

lemma RemoveWorker_spec:
  "wp (RemoveWorker R i)
    (\<lambda>_ w'. V w (SchedulerWorkerState i) \<noteq> None \<and> V w' (SchedulerWorkerState i) = None \<and>
       V w' (SchedulerWorkerRequests i) = None \<and>
       setOf (V w' SchedulerWorkerIndex) = setOf (V w SchedulerWorkerIndex) - {SchedulerWorkerState i} \<and>
       agree_off {SchedulerWorkerState i, SchedulerWorkerRequests i, SchedulerWorkerIndex, SchedulerWorkerLock i}
         (V w) (V w'))
    (\<lambda>e w'. agree_off {SchedulerWorkerState i, SchedulerWorkerRequests i, SchedulerWorkerIndex,
              SchedulerWorkerLock i} (V w) (V w') \<and>
       (V w (SchedulerWorkerState i) = None \<longrightarrow> agree_off {SchedulerWorkerLock i} (V w) (V w')))
    w"
  by (auto simp: RemoveWorker_def Let_def wp_eqs agree_off_def simp del: not_None_eq intro!: wp_locked wp_cmds)

lemma UpdateWorkerStatus_spec:
  "wp (UpdateWorkerStatus R i st)
    (\<lambda>_ w'. read_worker (V w') i = (bumpVersion (read_worker (V w) i))\<lparr>w_Status := st\<rparr> \<and>
       V w' (SchedulerWorkerState i) \<noteq> None \<and>
       agree_off {SchedulerWorkerState i, SchedulerWorkerLock i} (V w) (V w'))
    (\<lambda>e w'. agree_off {SchedulerWorkerState i, SchedulerWorkerLock i} (V w) (V w'))
    w"
proof -
  have "0 < WorkerStateTtlS * second" by (simp add: WorkerStateTtlS_def second_def)
  then show ?thesis
    by (auto simp: UpdateWorkerStatus_def Let_def wp_eqs agree_off_def read_worker_def bumpVersion_def
      intro!: wp_locked wp_getWorkerFromKey wp_cmds wp_Expire_pos)
qed

lemma UpdateWorkerCapacity_spec:
  "wp (UpdateWorkerCapacity R wk r t)
    (\<lambda>_ w'. w_ResourceVersion (read_worker (V w) (w_Id wk)) = w_ResourceVersion wk \<and>
       (\<exists>x. applyCapacity (read_worker (V w) (w_Id wk)) r t = Inr x \<and>
          read_worker (V w') (w_Id wk) = bumpVersion x) \<and>
       V w' (SchedulerWorkerState (w_Id wk)) \<noteq> None \<and>
       agree_off {SchedulerWorkerState (w_Id wk), SchedulerWorkerLock (w_Id wk)} (V w) (V w'))
    (\<lambda>e w'. agree_off {SchedulerWorkerState (w_Id wk), SchedulerWorkerLock (w_Id wk)} (V w) (V w') \<and>
       (w_ResourceVersion (read_worker (V w) (w_Id wk)) \<noteq> w_ResourceVersion wk \<or>
        isl (applyCapacity (read_worker (V w) (w_Id wk)) r t) \<longrightarrow>
          agree_off {SchedulerWorkerLock (w_Id wk)} (V w) (V w')))
    w"
  by (auto simp: UpdateWorkerCapacity_def Let_def wp_eqs agree_off_def read_worker_def applyCapacity_stored
    intro!: wp_locked wp_getWorkerFromKey wp_cmds split: sum.splits)

lemma ScheduleContainerRequest_spec:
  "wp (ScheduleContainerRequest R J wk r)
    (\<lambda>_ w'. w_ResourceVersion (read_worker (V w) (w_Id wk)) = w_ResourceVersion wk \<and>
       (\<exists>x. applyCapacity (read_worker (V w) (w_Id wk)) r RemoveCapacity = Inr x \<and>
          read_worker (V w') (w_Id wk) = bumpVersion x) \<and>
       (\<exists>j. marshal J r = Inr j \<and>
          listOf (V w' (SchedulerWorkerRequests (w_Id wk))) = listOf (V w (SchedulerWorkerRequests (w_Id wk))) @ [j]) \<and>
       agree_off {SchedulerWorkerState (w_Id wk), SchedulerWorkerRequests (w_Id wk), SchedulerWorkerLock (w_Id wk)}
         (V w) (V w'))
    (\<lambda>e w'. agree_off {SchedulerWorkerState (w_Id wk), SchedulerWorkerRequests (w_Id wk), SchedulerWorkerLock (w_Id wk)}
         (V w) (V w') \<and>
       (w_ResourceVersion (read_worker (V w) (w_Id wk)) \<noteq> w_ResourceVersion wk \<or>
        isl (applyCapacity (read_worker (V w) (w_Id wk)) r RemoveCapacity) \<longrightarrow>
          agree_off {SchedulerWorkerLock (w_Id wk)} (V w) (V w')))
    w"
  by (auto simp: ScheduleContainerRequest_def wp_eqs agree_off_def read_worker_def
    intro!: wp_mono [OF UpdateWorkerCapacity_spec] wp_cmds split: sum.splits)

lemma GetNextContainerRequest_spec:
  "wp (GetNextContainerRequest R J i)
    (\<lambda>res w'. (case res of
         None \<Rightarrow> listOf (V w (SchedulerWorkerRequests i)) = [] \<and> V w' = V w
       | Some r \<Rightarrow> \<exists>j js. listOf (V w (SchedulerWorkerRequests i)) = j # js \<and> unmarshal J j = Inr r \<and>
           V w' = (V w)(SchedulerWorkerRequests i := putList js)))
    (\<lambda>e w'. agree_off {SchedulerWorkerRequests i} (V w) (V w'))
    w"
  by (auto simp: GetNextContainerRequest_def wp_eqs neq_Nil_conv intro!: wp_cmds split: sum.splits)

lemma GetWorkerById_spec:
  "wp (GetWorkerById R i)
    (\<lambda>x w'. V w (SchedulerWorkerState i) \<noteq> None \<and> x = read_worker (V w) i \<and>
       agree_off {SchedulerWorkerLock i} (V w) (V w'))
    (\<lambda>e w'. agree_off {SchedulerWorkerLock i} (V w) (V w'))
    w"
  by (auto simp: GetWorkerById_def Let_def wp_eqs agree_off_def read_worker_def simp del: not_None_eq
    intro!: wp_locked wp_getWorkerFromKey wp_cmds)

lemma wp_pipeHGetAll:
  assumes "\<And>cmds w'. map fst cmds = ks \<Longrightarrow> \<forall>(k, res) \<in> set cmds. map_of res = hashOf (V w k) \<Longrightarrow>
      V w' = V w \<Longrightarrow> locks w' = locks w \<Longrightarrow> Q cmds w'"
    and "\<And>e w'. V w' = V w \<Longrightarrow> locks w' = locks w \<Longrightarrow> E e w'"
  shows "wp (pipeHGetAll R ks) Q E w"
  using assms
proof (induction ks arbitrary: Q w)
  case Nil
  then show ?case by (simp add: wp_eqs)
next
  case (Cons k ks)
  show ?case
    by (auto simp: wp_eqs intro!: wp_HGetAll Cons.IH Cons.prems)
qed

lemma wp_collectWorkers:
  assumes "\<forall>(k, res) \<in> set cmds. map_of res = hashOf (v k)"
    and "\<And>w'. agree_off {SchedulerWorkerIndex} (V w) (V w') \<Longrightarrow> Q (acc @ live_workers v (map fst cmds)) w'"
  shows "wp (collectWorkers R cmds acc) Q E w"
  using assms
proof (induction cmds arbitrary: acc w)
  case Nil
  then show ?case by (simp add: wp_eqs live_workers_def)
next
  case (Cons c cmds)
  obtain k res where c: "c = (k, res)" by force
  have res: "map_of res = hashOf (v k)" and IH: "\<forall>(k, res) \<in> set cmds. map_of res = hashOf (v k)"
    using Cons.prems(1) c by auto
  have "hashOf (v k) = Map.empty \<longleftrightarrow> res = []" using res by (metis map_of_eq_empty_iff)
  then show ?case
    using Cons.prems(2)
    by (auto simp: c wp_eqs live_workers_def res agree_off_def intro!: wp_SRem Cons.IH [OF IH])
qed

lemma getWorkers_unlocked_spec:
  "wp (getWorkers R False)
    (\<lambda>ws w'. \<exists>ks. distinct ks \<and> set ks = setOf (V w SchedulerWorkerIndex) \<and> ws = live_workers (V w) ks \<and>
       agree_off {SchedulerWorkerIndex} (V w) (V w'))
    (\<lambda>e w'. V w' = V w)
    w"
  by (auto simp: getWorkers_def getWorkersFromKeys_def wp_eqs
    intro!: wp_SMembers wp_pipeHGetAll wp_collectWorkers [where v = "V w"])

text \<open>
  The locked read never fails: a worker whose lock is taken, or whose hash cannot be read, is left
  out. What it returns are workers of the index, in the order of the keys.
\<close>

lemma wp_getWorkersLocked:
  assumes "\<forall>i \<in> set is. plain i" and "\<And>i. V w (SchedulerWorkerState i) = v (SchedulerWorkerState i)"
    and "\<And>js w'. subseq js is \<Longrightarrow> agree_off (SchedulerWorkerLock ` set is) (V w) (V w') \<Longrightarrow>
       Q (acc @ map (read_worker v) js) w'"
  shows "wp (getWorkersLocked R (map SchedulerWorkerState is) acc) Q E w"
  using assms
proof (induction "is" arbitrary: acc w)
  case Nil
  then show ?case using Nil(3) [of "[]" w] by (simp add: wp_eqs)
next
  case (Cons i "is")
  have rest: "wp (getWorkersLocked R (map SchedulerWorkerState is) (acc @ map (read_worker v) js0)) Q E w1"
    if 1: "agree_off {SchedulerWorkerLock i} (V w) (V w1)" and js0: "js0 = [] \<or> js0 = [i]" for w1 js0
  proof (rule Cons.IH)
    fix js w2
    assume "subseq js is" and 2: "agree_off (SchedulerWorkerLock ` set is) (V w1) (V w2)"
    then have "subseq (js0 @ js) (i # is)" using js0 by auto
    moreover have "agree_off (SchedulerWorkerLock ` set (i # is)) (V w) (V w2)"
      using 1 2 by (auto simp: agree_off_def)
    ultimately show "Q ((acc @ map (read_worker v) js0) @ map (read_worker v) js) w2"
      using Cons.prems(3) [of "js0 @ js" w2] by simp
  qed (use Cons.prems 1 in \<open>auto simp: agree_off_def\<close>)
  have rd: "read_worker (V w) i = read_worker v i"
    using Cons.prems(2) by (rule read_worker_cong)
  have i: "Split CHR '':'' (SchedulerWorkerState i) ! 3 = i" "\<not> length (Split CHR '':'' (SchedulerWorkerState i)) \<le> 3"
    using Cons.prems(1) by (simp_all add: nth_Split_SchedulerWorkerState length_Split_SchedulerWorkerState)
  have skip: "wp (getWorkersLocked R (map SchedulerWorkerState is) acc) Q E w1"
    and add: "wp (getWorkersLocked R (map SchedulerWorkerState is) (acc @ [read_worker v i])) Q E w1"
    if "agree_off {SchedulerWorkerLock i} (V w) (V w1)" for w1
    using rest [OF that, of "[]"] rest [OF that, of "[i]"] by simp_all
  show ?case
    by (auto simp: Let_def wp_eqs i rd intro!: wp_Acquire wp_getWorkerFromKey wp_Release skip add)
qed

lemma GetAllWorkers_spec:
  assumes "setOf (V w SchedulerWorkerIndex) = SchedulerWorkerState ` I" and "\<forall>i \<in> I. plain i"
  shows "wp (GetAllWorkers R)
    (\<lambda>ws w'. (\<exists>is. distinct is \<and> set is \<subseteq> I \<and> ws = map (read_worker (V w)) is) \<and>
       agree_off (range SchedulerWorkerLock) (V w) (V w'))
    (\<lambda>e w'. V w' = V w)
    w"
  unfolding GetAllWorkers_def getWorkers_def wp_eqs
proof (rule wp_SMembers, goal_cases)
  case (1 ks w1)
  note ks = 1(2,3) and w1 = 1(4)
  obtain "is" where "is": "ks = map SchedulerWorkerState is" "set is \<subseteq> I"
    using subset_image_list [of ks SchedulerWorkerState I] assms(1) ks(1) by auto
  have post: "(\<exists>is. distinct is \<and> set is \<subseteq> I \<and> [] @ map (read_worker (V w)) js = map (read_worker (V w)) is) \<and>
      agree_off (range SchedulerWorkerLock) (V w) (V w2)"
    if "subseq js is" "agree_off (SchedulerWorkerLock ` set is) (V w1) (V w2)" for js w2
  proof
    have "distinct js" "set js \<subseteq> I"
      using subseq_distinct [OF that(1)] subseq_set [OF that(1)] ks(2) "is" by (auto simp: distinct_map)
    then show "\<exists>is. distinct is \<and> set is \<subseteq> I \<and> [] @ map (read_worker (V w)) js = map (read_worker (V w)) is"
      by auto
    show "agree_off (range SchedulerWorkerLock) (V w) (V w2)"
      using that(2) unfolding w1 by (rule agree_off_mono) auto
  qed
  show ?case
    unfolding "is"(1) by (simp, rule wp_getWorkersLocked [where v = "V w"]) (use "is" assms(2) w1 post in auto)
qed simp

end

section \<open>On a server that answers\<close>

lemma Worker_ToSlice_not_Nil [simp]: "Worker_ToSlice x \<noteq> []"
  by (simp add: Worker_ToSlice_def)

context redis_up
begin

lemma up_getWorkerFromKey:
  assumes "isHash (V w (SchedulerWorkerState i))"
    and "\<And>w'. V w' = V w \<Longrightarrow> locks w' = locks w \<Longrightarrow> Q (read_worker (V w) i) w'"
  shows "wp (getWorkerFromKey R (SchedulerWorkerState i)) Q E w"
  unfolding getWorkerFromKey_def wp_eqs
  by (rule up_HGetAll) (simp_all add: assms flip: read_worker_def)

text \<open>When it fails, \<open>UpdateWorkerCapacity\<close> leaves everything but the lock as it was.\<close>

lemma UpdateWorkerCapacity_atomic:
  assumes "isHash (V w (SchedulerWorkerState (w_Id wk)))"
  shows "wp (UpdateWorkerCapacity R wk r t)
    (\<lambda>_ w'. w_ResourceVersion (read_worker (V w) (w_Id wk)) = w_ResourceVersion wk \<and>
       (\<exists>x. applyCapacity (read_worker (V w) (w_Id wk)) r t = Inr x \<and>
          read_worker (V w') (w_Id wk) = bumpVersion x) \<and>
       isHash (V w' (SchedulerWorkerState (w_Id wk))) \<and>
       agree_off {SchedulerWorkerState (w_Id wk), SchedulerWorkerLock (w_Id wk)} (V w) (V w'))
    (\<lambda>e w'. agree_off {SchedulerWorkerLock (w_Id wk)} (V w) (V w'))
    w"
  using assms
  by (auto simp: UpdateWorkerCapacity_def Let_def wp_eqs agree_off_def read_worker_def applyCapacity_stored
    intro!: wp_locked up_getWorkerFromKey up_HSet split: sum.splits)

lemma UpdateWorkerStatus_atomic:
  assumes "isHash (V w (SchedulerWorkerState i))"
  shows "wp (UpdateWorkerStatus R i st)
    (\<lambda>_ w'. read_worker (V w') i = (bumpVersion (read_worker (V w) i))\<lparr>w_Status := st\<rparr> \<and>
       isHash (V w' (SchedulerWorkerState i)) \<and>
       agree_off {SchedulerWorkerState i, SchedulerWorkerLock i} (V w) (V w'))
    (\<lambda>e w'. agree_off {SchedulerWorkerLock i} (V w) (V w'))
    w"
proof -
  have "0 < WorkerStateTtlS * second" by (simp add: WorkerStateTtlS_def second_def)
  then show ?thesis using assms
    by (auto simp: UpdateWorkerStatus_def Let_def wp_eqs agree_off_def read_worker_def bumpVersion_def
      intro!: wp_locked up_getWorkerFromKey up_HSet up_Expire)
qed

text \<open>With the lock free, a current version and enough capacity, scheduling succeeds.\<close>

lemma ScheduleContainerRequest_up:
  assumes "isHash (V w (SchedulerWorkerState (w_Id wk)))" and "isList (V w (SchedulerWorkerRequests (w_Id wk)))"
    and "V w (SchedulerWorkerLock (w_Id wk)) = None"
    and "w_ResourceVersion (read_worker (V w) (w_Id wk)) = w_ResourceVersion wk"
    and "applyCapacity (read_worker (V w) (w_Id wk)) r RemoveCapacity = Inr x" and "marshal J r = Inr j"
  shows "wp (ScheduleContainerRequest R J wk r)
    (\<lambda>_ w'. read_worker (V w') (w_Id wk) = bumpVersion x \<and>
       listOf (V w' (SchedulerWorkerRequests (w_Id wk))) = listOf (V w (SchedulerWorkerRequests (w_Id wk))) @ [j] \<and>
       agree_off {SchedulerWorkerState (w_Id wk), SchedulerWorkerRequests (w_Id wk)} (V w) (V w'))
    (\<lambda>_ _. False) w"
  unfolding ScheduleContainerRequest_def UpdateWorkerCapacity_def Let_def wp_eqs assms(6) sum.case
  apply (rule up_locked [OF assms(3)])
  apply (unfold wp_eqs)
  apply (rule up_getWorkerFromKey)
   apply (simp add: assms(1))
  using assms
  apply (auto simp: agree_off_def read_worker_def applyCapacity_stored wp_eqs intro!: up_HSet up_RPush)
  done

lemma GetNextContainerRequest_up:
  assumes "isList (V w (SchedulerWorkerRequests i))"
    and "\<And>j js. listOf (V w (SchedulerWorkerRequests i)) = j # js \<Longrightarrow> unmarshal J j = Inr (f j)"
  shows "wp (GetNextContainerRequest R J i)
    (\<lambda>res w'. (case listOf (V w (SchedulerWorkerRequests i)) of
         [] \<Rightarrow> res = None \<and> V w' = V w
       | j # js \<Rightarrow> res = Some (f j) \<and> V w' = (V w)(SchedulerWorkerRequests i := putList js)))
    (\<lambda>_ _. False) w"
  using assms
  by (cases "listOf (V w (SchedulerWorkerRequests i))")
    (auto simp: GetNextContainerRequest_def wp_eqs intro!: up_LLen up_LPop)

text \<open>With every worker lock free, the locked read returns every worker of the index.\<close>

lemma up_getWorkersLocked:
  assumes "\<forall>i \<in> set is. plain i \<and> isHash (v (SchedulerWorkerState i)) \<and> v (SchedulerWorkerLock i) = None"
    and "V w = v" and "\<And>w'. V w' = v \<Longrightarrow> Q (acc @ map (read_worker v) is) w'"
  shows "wp (getWorkersLocked R (map SchedulerWorkerState is) acc) Q E w"
  using assms
proof (induction "is" arbitrary: acc w)
  case Nil
  then show ?case by (simp add: wp_eqs)
next
  case (Cons i "is")
  have i: "Split CHR '':'' (SchedulerWorkerState i) ! 3 = i" "\<not> length (Split CHR '':'' (SchedulerWorkerState i)) \<le> 3"
    using Cons.prems(1) by (simp_all add: nth_Split_SchedulerWorkerState length_Split_SchedulerWorkerState)
  have free: "V w (SchedulerWorkerLock i) = None" and hash: "isHash (V w (SchedulerWorkerState i))"
    using Cons.prems(1,2) by simp_all
  have restored: "v(SchedulerWorkerLock i := None) = v"
    using free Cons.prems(2) by (simp add: fun_upd_idem)
  have rest: "wp (getWorkersLocked R (map SchedulerWorkerState is) (acc @ [read_worker v i])) Q E w1" if "V w1 = v" for w1
    by (rule Cons.IH) (use Cons.prems that in auto)
  show ?case
    unfolding list.map getWorkersLocked.simps Let_def if_not_P [OF i(2)] i(1) wp_eqs
  proof (rule up_Acquire [OF free], goal_cases)
    case (1 tok w1)
    show ?case
      unfolding sum.case wp_eqs
    proof (rule up_getWorkerFromKey, goal_cases)
      case 1
      then show ?case using hash \<open>V w1 = _\<close> by simp
    next
      case (2 w2)
      have "locks w2 (SchedulerWorkerLock i) = Some tok" "V w2 (SchedulerWorkerLock i) = Some (RStr tok)"
        using 1 2 by simp_all
      then show ?case
        unfolding wp_eqs
        by (rule up_Release) (use 1 2 Cons.prems(2) in \<open>simp add: restored rest\<close>)
    qed
  qed
qed

lemma GetAllWorkers_up:
  assumes "setOf (V w SchedulerWorkerIndex) = SchedulerWorkerState ` I" and "isSet (V w SchedulerWorkerIndex)"
    and "\<forall>i \<in> I. plain i \<and> isHash (V w (SchedulerWorkerState i)) \<and> V w (SchedulerWorkerLock i) = None"
    and "\<And>is w'. set is = I \<Longrightarrow> distinct is \<Longrightarrow> V w' = V w \<Longrightarrow> Q (map (read_worker (V w)) is) w'"
  shows "wp (GetAllWorkers R) Q E w"
  unfolding GetAllWorkers_def getWorkers_def wp_eqs
proof (rule up_SMembers [OF assms(2)], goal_cases)
  case (1 ks w1)
  then obtain "is" where "is": "ks = map SchedulerWorkerState is" "set is \<subseteq> I"
    using subset_image_list [of ks SchedulerWorkerState I] assms(1) by auto
  have "set is = I"
  proof
    show "I \<subseteq> set is"
    proof
      fix i assume "i \<in> I"
      then have "SchedulerWorkerState i \<in> set ks" using 1(1) assms(1) by simp
      then show "i \<in> set is" by (auto simp: "is"(1))
    qed
  qed (rule "is"(2))
  moreover have "distinct is" using 1(2) "is"(1) by (simp add: distinct_map)
  ultimately show ?case
    unfolding "is"(1) by (simp, intro up_getWorkersLocked [where v = "V w"]) (use assms(3,4) 1(3) in auto)
qed

end

section \<open>A worked example\<close>

text \<open>A worker with two free GPUs on the reference server, and a request for one of them.\<close>

definition ex_worker :: worker where
  "ex_worker = (zero_worker ''w1'')\<lparr>w_Status := WorkerStatusAvailable, w_TotalCpu := 4000, w_TotalMemory := 8000,
     w_FreeCpu := 4000, w_FreeMemory := 8000, w_Gpu := ''T4'', w_TotalGpuCount := 2, w_FreeGpuCount := 2\<rparr>"

definition ex_request :: ContainerRequest where
  "ex_request = zero_ContainerRequest\<lparr>r_ContainerId := ''c1'', r_Cpu := 1000, r_Memory := 500, r_Gpu := ''T4'', r_GpuCount := 1\<rparr>"

definition ex_json :: json_codec where
  "ex_json = \<lparr>marshal = (\<lambda>_. Inr ''{}''), unmarshal = (\<lambda>_. Inr ex_request)\<rparr>"

definition ex_world :: "mem world" where
  "ex_world = \<lparr>rdb = [SchedulerWorkerState ''w1'' \<mapsto> MHash (Worker_ToSlice ex_worker)], locks = Map.empty\<rparr>"

lemma ex_keys: "mem_view (rdb ex_world) (SchedulerWorkerState ''w1'') = Some (RHash (map_of (Worker_ToSlice ex_worker)))"
  "mem_view (rdb ex_world) (SchedulerWorkerRequests ''w1'') = None"
  "mem_view (rdb ex_world) (SchedulerWorkerLock ''w1'') = None"
  by (simp_all add: ex_world_def mem_view_def)

lemma ex_worker_wf: "wf_worker ex_worker" "w_ActiveContainers ex_worker = []" "w_Id ex_worker = ''w1''"
  by (simp_all add: ex_worker_def zero_worker_def wf_worker_def in_i64_def in_i32_def)

lemma ex_read: "read_worker (mem_view (rdb ex_world)) ''w1'' = ex_worker"
  by (simp add: read_worker_def ex_keys Worker_ToStruct_ToSlice ex_worker_wf)

lemma ex_apply: "applyCapacity ex_worker ex_request RemoveCapacity =
   Inr (ex_worker\<lparr>w_FreeCpu := 3000, w_FreeMemory := 7500, w_FreeGpuCount := 1\<rparr>)"
  by (simp add: ex_worker_def ex_request_def applyCapacity_def i64_def)

lemma ex_schedule: "\<exists>w'. ScheduleContainerRequest mem_client ex_json ex_worker ex_request ex_world = (Inr (), w')"
proof -
  have "wp (ScheduleContainerRequest mem_client ex_json ex_worker ex_request) (\<lambda>_ _. True) (\<lambda>_ _. False) ex_world"
    by (rule wp_mono [OF mem.ScheduleContainerRequest_up])
      (simp_all add: ex_worker_wf ex_keys ex_read ex_apply ex_json_def)
  then show ?thesis by (cases "ScheduleContainerRequest mem_client ex_json ex_worker ex_request ex_world") (auto simp: wp_def split: sum.splits)
qed

end
