(* ===== verification/Worker_Capacity.thy ===== *)
theory Worker_Capacity
  imports Worker_Repo
begin

text \<open>
  Several schedulers and the worker itself change the capacity of one worker through
  \<open>ScheduleContainerRequest\<close> and \<open>UpdateWorkerCapacity\<close> of \<open>pkg/repository/worker_redis.go\<close>, each with
  a copy of the worker that it read at some earlier time. \<open>cap_step\<close> is one such operation, executed
  while its Redis lock is held, with any copy, current or stale, and any outcome; \<open>held\<close> is the list
  of the requests whose resources are reserved. The lemmas are about every interleaving of such
  operations: CPU and memory are conserved and never over-committed, and the resource version
  identifies the value of the worker, so that a check made on a copy is still good when the
  operation with that copy succeeds. The second part is an instance of the locale \<open>versioned\<close>.
\<close>

section \<open>Versions\<close>

text \<open>A cell whose every write increases a version number: equal versions mean equal values.\<close>

locale versioned =
  fixes ver :: "'a \<Rightarrow> int" and wr :: "'a \<Rightarrow> 'a \<Rightarrow> bool"
  assumes wr_ver: "wr x y \<Longrightarrow> x = y \<or> ver x < ver y"
begin

lemma versions_mono: "wr\<^sup>*\<^sup>* x y \<Longrightarrow> ver x \<le> ver y"
  by (induction rule: rtranclp_induct) (auto dest: wr_ver)

lemma same_version: "wr\<^sup>*\<^sup>* x y \<Longrightarrow> ver x = ver y \<Longrightarrow> x = y"
proof (induction rule: rtranclp_induct)
  case (step y z)
  have "ver x \<le> ver y" using step.hyps(1) by (rule versions_mono)
  then show ?case using wr_ver [OF step.hyps(2)] step.IH step.prems by auto
qed simp

end

text \<open>The writes of a worker's hash, while the version does not wrap around.\<close>

definition worker_write :: "worker \<Rightarrow> worker \<Rightarrow> bool" where
  "worker_write x y \<longleftrightarrow> x = y \<or> w_ResourceVersion x < 2 ^ 63 - 1 \<and> w_ResourceVersion y = w_ResourceVersion x + 1"

interpretation worker_cell: versioned w_ResourceVersion worker_write
  by unfold_locales (auto simp: worker_write_def)

section \<open>Interleaved operations on one worker\<close>

type_synonym 's cap_state = "'s world \<times> ContainerRequest list"

inductive cap_step :: "'s redis_client \<Rightarrow> ('s \<Rightarrow> keyspace) \<Rightarrow> json_codec \<Rightarrow> string \<Rightarrow> 's cap_state \<Rightarrow> 's cap_state \<Rightarrow> bool"
  for R :: "'s redis_client" and view :: "'s \<Rightarrow> keyspace" and J :: json_codec and i :: string
where
  reserve: "ScheduleContainerRequest R J snap r w = (res, w') \<Longrightarrow> w_Id snap = i \<Longrightarrow>
      0 \<le> r_Cpu r \<Longrightarrow> in_i64 (r_Cpu r) \<Longrightarrow> 0 \<le> r_Memory r \<Longrightarrow> in_i64 (r_Memory r) \<Longrightarrow>
      cap_step R view J i (w, held) (w', if isl res then held else r # held)"
| release: "UpdateWorkerCapacity R snap r AddCapacity w = (res, w') \<Longrightarrow> w_Id snap = i \<Longrightarrow> r \<in> set held \<Longrightarrow>
      cap_step R view J i (w, held) (w', if isl res then held else remove1 r held)"
| status: "UpdateWorkerStatus R i st w = (res, w') \<Longrightarrow> cap_step R view J i (w, held) (w', held)"
| dequeue: "GetNextContainerRequest R J i w = (res, w') \<Longrightarrow> cap_step R view J i (w, held) (w', held)"
| elsewhere: "view (rdb w') (SchedulerWorkerState i) = view (rdb w) (SchedulerWorkerState i) \<Longrightarrow>
      isList (view (rdb w') (SchedulerWorkerRequests i)) \<Longrightarrow> cap_step R view J i (w, held) (w', held)"

text \<open>The ledger: what is free and what is reserved add up to the total.\<close>

definition cap_ok :: "('s \<Rightarrow> keyspace) \<Rightarrow> string \<Rightarrow> 's cap_state \<Rightarrow> bool" where
  "cap_ok view i st \<longleftrightarrow>
     (let v = view (rdb (fst st)); x = read_worker v i; held = snd st
      in isHash (v (SchedulerWorkerState i)) \<and> isList (v (SchedulerWorkerRequests i)) \<and>
         (\<forall>r \<in> set held. 0 \<le> r_Cpu r \<and> 0 \<le> r_Memory r) \<and>
         0 \<le> w_FreeCpu x \<and> 0 \<le> w_FreeMemory x \<and>
         w_FreeCpu x + (\<Sum>r\<leftarrow>held. r_Cpu r) = w_TotalCpu x \<and>
         w_FreeMemory x + (\<Sum>r\<leftarrow>held. r_Memory r) = w_TotalMemory x \<and>
         w_FreeGpuCount x + (\<Sum>r\<leftarrow>held. if r_Gpu r \<noteq> [] then r_GpuCount r else 0) = w_TotalGpuCount x)"

lemma reserve_exact:
  assumes "applyCapacity x r RemoveCapacity = Inr y"
    and "0 \<le> r_Cpu r" "in_i64 (r_Cpu r)" "0 \<le> r_Memory r" "in_i64 (r_Memory r)"
    and "0 \<le> w_FreeCpu x" "0 \<le> w_FreeMemory x" "wf_worker x"
  shows "w_FreeCpu y = w_FreeCpu x - r_Cpu r \<and> 0 \<le> w_FreeCpu y \<and>
         w_FreeMemory y = w_FreeMemory x - r_Memory r \<and> 0 \<le> w_FreeMemory y \<and>
         w_FreeGpuCount y = w_FreeGpuCount x - (if r_Gpu r \<noteq> [] then r_GpuCount r else 0)"
proof -
  have "i64 (w_FreeCpu x - r_Cpu r) = w_FreeCpu x - r_Cpu r" "i64 (w_FreeMemory x - r_Memory r) = w_FreeMemory x - r_Memory r"
    using assms by (auto intro!: i64_id simp: in_i64_def wf_worker_def)
  then show ?thesis using assms(1) by (auto simp: applyCapacity_def Let_def split: if_splits)
qed

lemma release_exact:
  assumes "applyCapacity x r AddCapacity = Inr y"
    and "0 \<le> r_Cpu r" "0 \<le> r_Memory r" "0 \<le> w_FreeCpu x" "0 \<le> w_FreeMemory x"
    and "w_FreeCpu x + r_Cpu r \<le> w_TotalCpu x" "w_FreeMemory x + r_Memory r \<le> w_TotalMemory x" "wf_worker x"
  shows "w_FreeCpu y = w_FreeCpu x + r_Cpu r \<and> w_FreeMemory y = w_FreeMemory x + r_Memory r \<and>
         w_FreeGpuCount y = w_FreeGpuCount x + (if r_Gpu r \<noteq> [] then r_GpuCount r else 0)"
proof -
  have "i64 (w_FreeCpu x + r_Cpu r) = w_FreeCpu x + r_Cpu r" "i64 (w_FreeMemory x + r_Memory r) = w_FreeMemory x + r_Memory r"
    using assms by (auto intro!: i64_id simp: in_i64_def wf_worker_def)
  then show ?thesis using assms(1) by (auto simp: applyCapacity_def)
qed

lemma sum_list_remove1_le:
  fixes f :: "'a \<Rightarrow> int"
  assumes "r \<in> set xs" and "\<forall>x \<in> set xs. 0 \<le> f x"
  shows "f r \<le> (\<Sum>x\<leftarrow>xs. f x)"
proof -
  have "0 \<le> (\<Sum>x\<leftarrow>ys. f x)" if "\<forall>x \<in> set ys. 0 \<le> f x" for ys
    using that by (induction ys) auto
  with assms show ?thesis by (induction xs) fastforce+
qed

lemma sum_list_remove1:
  fixes f :: "'a \<Rightarrow> 'b :: ab_group_add"
  shows "r \<in> set xs \<Longrightarrow> (\<Sum>x\<leftarrow>remove1 r xs. f x) = (\<Sum>x\<leftarrow>xs. f x) - f r"
  by (induction xs) auto

lemma cap_ok_cong:
  assumes "cap_ok view i (w, held)" and "isList (view (rdb w') (SchedulerWorkerRequests i))"
    and "view (rdb w') (SchedulerWorkerState i) = view (rdb w) (SchedulerWorkerState i)"
  shows "cap_ok view i (w', held)"
  using assms read_worker_cong [of "view (rdb w')" i "view (rdb w)"] by (simp add: cap_ok_def Let_def)

lemma cap_ok_keep:
  assumes "cap_ok view i (w, held)" and "agree_off {SchedulerWorkerLock i} (view (rdb w)) (view (rdb w'))"
  shows "cap_ok view i (w', held)"
  using assms(1) by (rule cap_ok_cong) (use assms in \<open>simp_all add: cap_ok_def Let_def agree_off_def\<close>)

lemma cap_ok_types:
  assumes "cap_ok view i (w, held)"
  shows "isHash (view (rdb w) (SchedulerWorkerState i))" "isList (view (rdb w) (SchedulerWorkerRequests i))"
  using assms by (simp_all add: cap_ok_def Let_def)

context redis_up
begin

lemma cap_ok_reserve:
  assumes "cap_ok view i (w, held)" and "w_Id snap = i"
    and "0 \<le> r_Cpu r" "in_i64 (r_Cpu r)" "0 \<le> r_Memory r" "in_i64 (r_Memory r)"
  shows "wp (ScheduleContainerRequest R J snap r)
    (\<lambda>_ w'. cap_ok view i (w', r # held)) (\<lambda>_ w'. cap_ok view i (w', held)) w"
proof -
  note h = cap_ok_types [OF assms(1), folded assms(2)]
  have ok: "cap_ok view i (w2, r # held)"
    if "applyCapacity (read_worker (V w) i) r RemoveCapacity = Inr x" "read_worker (V w2) i = bumpVersion x"
      "isHash (V w2 (SchedulerWorkerState i))" "isList (V w2 (SchedulerWorkerRequests i))" for w2 x
    using reserve_exact [OF that(1) assms(3-6)] applyCapacity_frame [OF that(1)] assms(1) that(2-4) assms(3,5)
    by (auto simp: cap_ok_def Let_def)
  show ?thesis
    unfolding ScheduleContainerRequest_def wp_eqs
    using assms(1)
    by (auto simp: agree_off_def assms(2) wp_eqs h(2) [unfolded assms(2)]
      intro!: wp_mono [OF UpdateWorkerCapacity_atomic [OF h(1)]] up_RPush cap_ok_keep [OF assms(1)] ok
      split: sum.splits)
qed

lemma cap_ok_release:
  assumes "cap_ok view i (w, held)" and "w_Id snap = i" and "r \<in> set held"
  shows "wp (UpdateWorkerCapacity R snap r AddCapacity)
    (\<lambda>_ w'. cap_ok view i (w', remove1 r held)) (\<lambda>_ w'. cap_ok view i (w', held)) w"
proof -
  note h = cap_ok_types [OF assms(1), folded assms(2)]
  have nonneg: "\<forall>r \<in> set held. 0 \<le> r_Cpu r" "\<forall>r \<in> set held. 0 \<le> r_Memory r"
    using assms(1) by (simp_all add: cap_ok_def Let_def)
  note le = sum_list_remove1_le [OF assms(3) nonneg(1)] sum_list_remove1_le [OF assms(3) nonneg(2)]
  have ok: "cap_ok view i (w2, remove1 r held)"
    if "applyCapacity (read_worker (V w) i) r AddCapacity = Inr x" "read_worker (V w2) i = bumpVersion x"
      "isHash (V w2 (SchedulerWorkerState i))" "isList (V w2 (SchedulerWorkerRequests i))" for w2 x
  proof -
    have "w_FreeCpu x = w_FreeCpu (read_worker (V w) i) + r_Cpu r \<and>
        w_FreeMemory x = w_FreeMemory (read_worker (V w) i) + r_Memory r \<and>
        w_FreeGpuCount x = w_FreeGpuCount (read_worker (V w) i) + (if r_Gpu r \<noteq> [] then r_GpuCount r else 0)"
      by (rule release_exact [OF that(1)]) (use assms(1,3) le in \<open>auto simp: cap_ok_def Let_def\<close>)
    then show ?thesis
      using applyCapacity_frame [OF that(1)] assms that(2-4)
      by (auto simp: cap_ok_def Let_def sum_list_remove1 dest: notin_set_remove1 [rotated])
  qed
  show ?thesis
    by (rule wp_mono [OF UpdateWorkerCapacity_atomic [OF h(1)]])
      (use h(2) in \<open>auto simp: agree_off_def assms(2) intro!: cap_ok_keep [OF assms(1)] ok\<close>)
qed

lemma cap_ok_status:
  assumes "cap_ok view i (w, held)"
  shows "wp (UpdateWorkerStatus R i st) (\<lambda>_ w'. cap_ok view i (w', held)) (\<lambda>_ w'. cap_ok view i (w', held)) w"
proof (rule wp_mono [OF UpdateWorkerStatus_atomic [OF cap_ok_types(1) [OF assms]]], goal_cases)
  case (1 a w')
  then show ?case using assms by (simp add: cap_ok_def Let_def agree_off_def)
next
  case (2 e w')
  with assms show ?case by (rule cap_ok_keep)
qed

lemma cap_ok_dequeue:
  assumes "cap_ok view i (w, held)"
  shows "wp (GetNextContainerRequest R J i) (\<lambda>_ w'. cap_ok view i (w', held)) (\<lambda>_ w'. cap_ok view i (w', held)) w"
  using cap_ok_types(2) [OF assms]
  by (auto simp: GetNextContainerRequest_def wp_eqs intro!: up_LLen up_LPop cap_ok_cong [OF assms] split: sum.splits)

lemma cap_step_ok: "cap_step R view J i s s' \<Longrightarrow> cap_ok view i s \<Longrightarrow> cap_ok view i s'"
proof (induction rule: cap_step.induct)
  case (reserve snap r w res w' held)
  note spec = cap_ok_reserve [OF reserve.prems reserve.hyps(2-6), of J]
  show ?case using wp_Inl [OF spec] wp_Inr [OF spec] reserve.hyps(1) by (cases res) auto
next
  case (release snap r w res w' held)
  note spec = cap_ok_release [OF release.prems release.hyps(2,3)]
  show ?case using wp_Inl [OF spec] wp_Inr [OF spec] release.hyps(1) by (cases res) auto
next
  case (status st w res w' held)
  note spec = cap_ok_status [OF status.prems, of st]
  show ?case using wp_Inl [OF spec] wp_Inr [OF spec] status.hyps by (cases res) auto
next
  case (dequeue w res w' held)
  note spec = cap_ok_dequeue [OF dequeue.prems, of J]
  show ?case using wp_Inl [OF spec] wp_Inr [OF spec] dequeue.hyps by (cases res) auto
next
  case (elsewhere w' w held)
  show ?case by (rule cap_ok_cong [OF elsewhere.prems elsewhere.hyps(2,1)])
qed

lemma cap_steps_ok: "(cap_step R view J i)\<^sup>*\<^sup>* s s' \<Longrightarrow> cap_ok view i s \<Longrightarrow> cap_ok view i s'"
  by (induction rule: rtranclp_induct) (auto intro: cap_step_ok)

text \<open>Each step is a write of the worker's cell, as long as the version has room.\<close>

lemma bump_write:
  "w_ResourceVersion x < 2 ^ 63 - 1 \<Longrightarrow> wf_worker x \<Longrightarrow> w_ResourceVersion y = i64 (w_ResourceVersion x + 1) \<Longrightarrow>
     worker_write x y"
  by (simp add: worker_write_def wf_worker_def in_i64_def i64_id)

lemma read_keep:
  "agree_off {SchedulerWorkerLock j} (V w) (V w') \<Longrightarrow> worker_write (read_worker (V w) i) (read_worker (V w') i)"
  by (simp add: worker_write_def read_worker_agree [of "{SchedulerWorkerLock j}" "V w" "V w'"])

lemma capacity_write:
  assumes "isHash (V w (SchedulerWorkerState (w_Id snap)))"
    and "w_ResourceVersion (read_worker (V w) (w_Id snap)) < 2 ^ 63 - 1"
  shows "wp (UpdateWorkerCapacity R snap r t)
    (\<lambda>_ w'. worker_write (read_worker (V w) (w_Id snap)) (read_worker (V w') (w_Id snap)) \<and>
       agree_off {SchedulerWorkerState (w_Id snap), SchedulerWorkerLock (w_Id snap)} (V w) (V w'))
    (\<lambda>_ w'. worker_write (read_worker (V w) (w_Id snap)) (read_worker (V w') (w_Id snap))) w"
proof (rule wp_mono [OF UpdateWorkerCapacity_atomic [OF assms(1)]], goal_cases)
  case (1 a w')
  then show ?case by (auto intro!: bump_write [OF assms(2)] dest: applyCapacity_frame(3))
next
  case (2 e w')
  then show ?case by (rule read_keep)
qed

lemma schedule_write:
  assumes "isHash (V w (SchedulerWorkerState (w_Id snap)))" "isList (V w (SchedulerWorkerRequests (w_Id snap)))"
    and "w_ResourceVersion (read_worker (V w) (w_Id snap)) < 2 ^ 63 - 1"
  shows "wp (ScheduleContainerRequest R J snap r)
    (\<lambda>_ w'. worker_write (read_worker (V w) (w_Id snap)) (read_worker (V w') (w_Id snap)))
    (\<lambda>_ w'. worker_write (read_worker (V w) (w_Id snap)) (read_worker (V w') (w_Id snap))) w"
  unfolding ScheduleContainerRequest_def wp_eqs
  by (auto simp: wp_eqs worker_write_def [of x x for x] agree_off_def assms(2)
    intro!: wp_mono [OF capacity_write [OF assms(1,3)]] up_RPush split: sum.splits)

lemma status_write:
  assumes "isHash (V w (SchedulerWorkerState i))" and "w_ResourceVersion (read_worker (V w) i) < 2 ^ 63 - 1"
  shows "wp (UpdateWorkerStatus R i st)
    (\<lambda>_ w'. worker_write (read_worker (V w) i) (read_worker (V w') i))
    (\<lambda>_ w'. worker_write (read_worker (V w) i) (read_worker (V w') i)) w"
proof (rule wp_mono [OF UpdateWorkerStatus_atomic [OF assms(1)]], goal_cases)
  case (1 a w')
  then show ?case by (auto intro!: bump_write [OF assms(2)])
next
  case (2 e w')
  then show ?case by (rule read_keep)
qed

lemma dequeue_write:
  "wp (GetNextContainerRequest R J i)
    (\<lambda>_ w'. worker_write (read_worker (V w) i) (read_worker (V w') i))
    (\<lambda>_ w'. worker_write (read_worker (V w) i) (read_worker (V w') i)) w"
proof (rule wp_mono [OF GetNextContainerRequest_spec], goal_cases)
  case (1 a w')
  then show ?case by (auto simp: worker_write_def split: option.splits)
next
  case (2 e w')
  then show ?case by (simp add: worker_write_def read_worker_agree [OF 2])
qed

lemma cap_step_write:
  assumes "cap_step R view J i s s'" and "cap_ok view i s" and "w_ResourceVersion (read_worker (V (fst s)) i) < 2 ^ 63 - 1"
  shows "worker_write (read_worker (V (fst s)) i) (read_worker (V (fst s')) i)"
  using assms
proof (induction rule: cap_step.induct)
  case (reserve snap r w res w' held)
  note spec = schedule_write [of w snap J r, unfolded reserve.hyps(2), OF cap_ok_types [OF reserve.prems(1)]]
  show ?case
    using wp_Inl [OF spec] wp_Inr [OF spec] reserve.hyps(1) reserve.prems(2) by (cases res) auto
next
  case (release snap r w res w' held)
  note spec = capacity_write [of w snap r AddCapacity, unfolded release.hyps(2), OF cap_ok_types(1) [OF release.prems(1)]]
  show ?case using wp_Inl [OF spec] wp_Inr [OF spec] release.hyps(1) release.prems(2) by (cases res) auto
next
  case (status st w res w' held)
  note spec = status_write [OF cap_ok_types(1) [OF status.prems(1)], of st]
  show ?case using wp_Inl [OF spec] wp_Inr [OF spec] status.hyps status.prems(2) by (cases res) auto
next
  case (dequeue w res w' held)
  show ?case
    using wp_Inl [OF dequeue_write [of J i w]] wp_Inr [OF dequeue_write [of J i w]] dequeue.hyps by (cases res) auto
next
  case (elsewhere w' w held)
  then show ?case by (simp add: worker_write_def read_worker_def)
qed

lemma cap_steps_write:
  assumes "(cap_step R view J i ^^ n) s s'" and "cap_ok view i s"
    and "w_ResourceVersion (read_worker (V (fst s)) i) + int n < 2 ^ 63"
  shows "worker_write\<^sup>*\<^sup>* (read_worker (V (fst s)) i) (read_worker (V (fst s')) i) \<and>
     w_ResourceVersion (read_worker (V (fst s')) i) \<le> w_ResourceVersion (read_worker (V (fst s)) i) + int n"
  using assms
proof (induction n arbitrary: s')
  case (Suc n)
  then obtain s1 where s1: "(cap_step R view J i ^^ n) s s1" "cap_step R view J i s1 s'" by auto
  have IH: "worker_write\<^sup>*\<^sup>* (read_worker (V (fst s)) i) (read_worker (V (fst s1)) i)"
    "w_ResourceVersion (read_worker (V (fst s1)) i) \<le> w_ResourceVersion (read_worker (V (fst s)) i) + int n"
    using Suc.IH [OF s1(1)] Suc.prems by auto
  have "cap_ok view i s1" using cap_steps_ok [OF relpowp_imp_rtranclp [OF s1(1)] Suc.prems(2)] .
  then have "worker_write (read_worker (V (fst s1)) i) (read_worker (V (fst s')) i)"
    by (rule cap_step_write [OF s1(2)]) (use IH(2) Suc.prems(3) in simp)
  moreover from this have "w_ResourceVersion (read_worker (V (fst s')) i) \<le> w_ResourceVersion (read_worker (V (fst s1)) i) + 1"
    by (auto simp: worker_write_def)
  ultimately show ?case using IH by (auto intro: rtranclp.rtrancl_into_rtrancl)
qed simp

lemma snapshot_current:
  assumes "(cap_step R view J i ^^ n) s (w, held)" and "cap_ok view i s"
    and "w_ResourceVersion (read_worker (V (fst s)) i) + int n < 2 ^ 63"
    and "snap = (read_worker (V (fst s)) i)\<lparr>w_Id := i\<rparr>"
    and "ScheduleContainerRequest R J snap r w = (Inr (), w')"
  shows "read_worker (V w) i = read_worker (V (fst s)) i"
proof -
  have "w_ResourceVersion (read_worker (V w) i) = w_ResourceVersion (read_worker (V (fst s)) i)"
    using wp_Inr [OF ScheduleContainerRequest_spec assms(5)] by (simp add: assms(4))
  then show ?thesis
    using cap_steps_write [OF assms(1-3)] worker_cell.same_version by fastforce
qed

end

lemma ex_cap_ok: "cap_ok mem_view ''w1'' (ex_world, [])"
  by (simp add: cap_ok_def ex_keys ex_read) (simp add: ex_worker_def)

lemma ex_cap_step:
  "\<exists>w'. cap_step mem_client mem_view ex_json ''w1'' (ex_world, []) (w', [ex_request])"
proof -
  obtain w' where w': "ScheduleContainerRequest mem_client ex_json ex_worker ex_request ex_world = (Inr (), w')"
    using ex_schedule by blast
  have "cap_step mem_client mem_view ex_json ''w1'' (ex_world, []) (w', if isl (Inr () :: goerror + unit) then [] else [ex_request])"
    by (rule cap_step.reserve [OF w']) (simp_all add: ex_worker_wf ex_request_def in_i64_def)
  then show ?thesis by auto
qed

section \<open>Properties\<close>

text \<open>
  C3. No interleaving of scheduling, releasing, status changes and dequeuing on a worker, by any number of
  schedulers holding current or stale copies of it, over-commits its CPU or memory: what is free stays
  non-negative, and what is free and what is reserved add up to the total (GPUs: modulo \<open>2 ^ 32\<close>).
\<close>

theorem capacity_never_overcommitted:
  assumes "redis_up R view" and "cap_ok view i s" and "(cap_step R view J i)\<^sup>*\<^sup>* s (w, held)"
  shows "let x = read_worker (view (rdb w)) i
    in 0 \<le> w_FreeCpu x \<and> w_FreeCpu x + (\<Sum>r\<leftarrow>held. r_Cpu r) = w_TotalCpu x \<and>
       0 \<le> w_FreeMemory x \<and> w_FreeMemory x + (\<Sum>r\<leftarrow>held. r_Memory r) = w_TotalMemory x \<and>
       w_FreeGpuCount x + (\<Sum>r\<leftarrow>held. if r_Gpu r \<noteq> [] then r_GpuCount r else 0) = w_TotalGpuCount x"
  using redis_up.cap_steps_ok [OF assms(1,3,2)] by (simp add: cap_ok_def Let_def)

theorem capacity_never_overcommitted_witness:
  "\<exists>w. (cap_step mem_client mem_view ex_json ''w1'')\<^sup>*\<^sup>* (ex_world, []) (w, [ex_request]) \<and>
     (let x = read_worker (mem_view (rdb w)) ''w1'' in 0 \<le> w_FreeCpu x \<and> w_FreeCpu x + 1000 = w_TotalCpu x)"
proof -
  obtain w where w: "(cap_step mem_client mem_view ex_json ''w1'')\<^sup>*\<^sup>* (ex_world, []) (w, [ex_request])"
    using ex_cap_step by blast
  then show ?thesis
    using capacity_never_overcommitted [OF mem.redis_up_axioms ex_cap_ok w] by (auto simp: Let_def ex_request_def)
qed

text \<open>
  C18. A scheduler that reads a worker, checks that the requested GPUs are free on its copy, and later
  schedules with that copy, takes exactly these GPUs when it succeeds, whatever the others did in between:
  the resource version makes the check on the copy a check on the current value.
\<close>

theorem gpu_check_on_copy_is_enough:
  assumes "redis_up R view" and "cap_ok view i s" and "(cap_step R view J i ^^ n) s (w, held)"
    and "w_ResourceVersion (read_worker (view (rdb (fst s))) i) + int n < 2 ^ 63"
    and "snap = (read_worker (view (rdb (fst s))) i)\<lparr>w_Id := i\<rparr>"
    and "r_Gpu r \<noteq> []" and "r_GpuCount r \<le> w_FreeGpuCount snap"
    and "ScheduleContainerRequest R J snap r w = (Inr (), w')"
  shows "unat (w_FreeGpuCount (read_worker (view (rdb w')) i)) + unat (r_GpuCount r) =
     unat (w_FreeGpuCount (read_worker (view (rdb w)) i))"
proof -
  have redis: "redis R view" using assms(1) by (simp add: redis_up_def)
  have cur: "read_worker (view (rdb w)) i = read_worker (view (rdb (fst s))) i"
    by (rule redis_up.snapshot_current [OF assms(1,3,2,4,5,8)])
  obtain x where x: "applyCapacity (read_worker (view (rdb w)) i) r RemoveCapacity = Inr x"
      "read_worker (view (rdb w')) i = bumpVersion x"
    using wp_Inr [OF redis.ScheduleContainerRequest_spec [OF redis] assms(8)] by (auto simp: assms(5))
  then have "w_FreeGpuCount (read_worker (view (rdb w')) i) = w_FreeGpuCount (read_worker (view (rdb w)) i) - r_GpuCount r"
    using assms(6) by (auto simp: applyCapacity_def Let_def split: if_splits)
  moreover have "r_GpuCount r \<le> w_FreeGpuCount (read_worker (view (rdb w)) i)"
    using assms(5,7) cur by simp
  ultimately show ?thesis by (simp add: unat_sub word_le_nat_alt)
qed

theorem gpu_check_on_copy_is_enough_witness:
  "\<exists>w'. ScheduleContainerRequest mem_client ex_json ex_worker ex_request ex_world = (Inr (), w') \<and>
     unat (w_FreeGpuCount (read_worker (mem_view (rdb w')) ''w1'')) + 1 = 2"
proof -
  obtain w' where w': "ScheduleContainerRequest mem_client ex_json ex_worker ex_request ex_world = (Inr (), w')"
    using ex_schedule by blast
  have "unat (w_FreeGpuCount (read_worker (mem_view (rdb w')) ''w1'')) + unat (r_GpuCount ex_request) =
      unat (w_FreeGpuCount (read_worker (mem_view (rdb ex_world)) ''w1''))"
    by (rule gpu_check_on_copy_is_enough [OF mem.redis_up_axioms ex_cap_ok, where n = 0 and snap = ex_worker, OF _ _ _ _ _ w'])
      (simp_all add: ex_read, simp_all add: ex_worker_def ex_request_def zero_worker_def)
  with w' show ?thesis by (simp add: ex_read) (simp add: ex_worker_def ex_request_def)
qed

end
