(* ===== verification/Container_Repo.thy ===== *)
theory Container_Repo
  imports Redis Redis_Keys Sched_Types Worker_Repo
begin

text \<open>
  \<open>pkg/repository/container_redis.go\<close>: the container repository. The state of a container is a hash
  under \<open>SchedulerContainerState\<close>; sets index the keys of these hashes by stub, by workspace and by
  worker. The time \<open>now\<close> of \<open>time.Now().Unix()\<close> is an argument of the operations that read the clock,
  and the events of the polling loop in \<open>GetWorkerAddress\<close> are a list. The lemmas give the effect of
  the operations on \<open>read_cstate\<close>, and that the quota of a workspace is respected.
\<close>

section \<open>Constants\<close>

definition ContainerExitCodeTtlS :: int where
  "ContainerExitCodeTtlS = 300"

definition ContainerStateTtlSWhilePending :: int where
  "ContainerStateTtlSWhilePending = 600"

definition ContainerStateTtlS :: int where
  "ContainerStateTtlS = 120"

definition StubStateHealthy :: string where
  "StubStateHealthy = ''healthy''"

definition ContainerRequestStatusFailed :: string where
  "ContainerRequestStatusFailed = ''failed''"

definition ContainerRequestStatusTTL :: int where
  "ContainerRequestStatusTTL = 10 * 60 * second"

definition unhealthyStateTTL :: int where
  "unhealthyStateTTL = 10 * 60 * second"

section \<open>State of a container\<close>

definition GetContainerState :: "'s redis_client \<Rightarrow> string \<Rightarrow> ('s world, ContainerState) io" where
  "GetContainerState R containerId =
     locked R (SchedulerContainerLock containerId) 10 2
       (let stateKey = SchedulerContainerState containerId
        in bindE (attempt (HGetAll R stateKey)) (\<lambda>r.
           case r of
             Inl e \<Rightarrow> if e \<noteq> RedisNil then throwE (Errorf ''failed to get container state'' e)
                      else throwE (ErrContainerStateNotFound containerId)
           | Inr res \<Rightarrow>
               if length res = 0 then throwE (ErrContainerStateNotFound containerId)
               else returnE (ContainerState_ToStruct (map_of res) zero_ContainerState)))"

text \<open>\<open>SetContainerState\<close> writes every field but \<open>started_at\<close>.\<close>

definition SetContainerState_slice :: "string \<Rightarrow> ContainerState \<Rightarrow> (string \<times> string) list" where
  "SetContainerState_slice containerId state =
     [(''container_id'', containerId), (''status'', cs_Status state),
      (''scheduled_at'', itoa (cs_ScheduledAt state)), (''stub_id'', cs_StubId state),
      (''workspace_id'', cs_WorkspaceId state), (''gpu'', cs_Gpu state),
      (''gpu_count'', utoa (unat (cs_GpuCount state))), (''cpu'', itoa (cs_Cpu state)),
      (''memory'', itoa (cs_Memory state))]"

definition SetContainerState :: "'s redis_client \<Rightarrow> string \<Rightarrow> ContainerState \<Rightarrow> ('s world, unit) io" where
  "SetContainerState R containerId state =
     locked R (SchedulerContainerLock containerId) 10 0
       (let stateKey = SchedulerContainerState containerId
        in thenE (wrapE ''failed to set container state'' (HSet R stateKey (SetContainerState_slice containerId state)))
          (thenE (wrapE ''failed to set container state ttl''
                    (Expire R stateKey (ContainerStateTtlSWhilePending * second)))
          (thenE (wrapE ''failed to add container state key to index''
                    (SAdd R (SchedulerContainerIndex (cs_StubId state)) stateKey))
                 (wrapE ''failed to add container state key to workspace index''
                    (SAdd R (SchedulerContainerWorkspaceIndex (cs_WorkspaceId state)) stateKey)))))"

definition SetContainerExitCode :: "'s redis_client \<Rightarrow> string \<Rightarrow> int \<Rightarrow> ('s world, unit) io" where
  "SetContainerExitCode R containerId exitCode =
     wrapE ''failed to set exit code''
       (SetKey R (SchedulerContainerExitCode containerId) (itoa exitCode) (ContainerExitCodeTtlS * second))"

text \<open>\<open>Cmd.Int()\<close>: the reply as an integer, or the error of the command or of \<open>strconv.Atoi\<close>.\<close>

definition cmdInt :: "('s, string) io \<Rightarrow> ('s, int) io" where
  "cmdInt m = bindE m (\<lambda>x. liftOpt (ErrNew ''strconv.Atoi: invalid syntax'') (ParseInt x 64))"

definition GetContainerExitCode :: "'s redis_client \<Rightarrow> string \<Rightarrow> ('s world, int) io" where
  "GetContainerExitCode R containerId = cmdInt (Get R (SchedulerContainerExitCode containerId))"

definition UpdateContainerStatus :: "'s redis_client \<Rightarrow> int \<Rightarrow> string \<Rightarrow> string \<Rightarrow> int \<Rightarrow> ('s world, unit) io" where
  "UpdateContainerStatus R now containerId status expirySeconds =
     (if status \<notin> set [ContainerStatusPending, ContainerStatusRunning, ContainerStatusStopping]
      then throwE (ErrNew ''invalid status'')
      else locked R (SchedulerContainerLock containerId) 10 0
        (let stateKey = SchedulerContainerState containerId
         in bindE (HGetAll R stateKey) (\<lambda>res.
            let state = ContainerState_ToStruct (map_of res) zero_ContainerState;
                state' = (if status = ContainerStatusRunning \<and> cs_Status state \<noteq> ContainerStatusRunning
                          then state\<lparr>cs_StartedAt := now\<rparr> else state)
            in thenE (wrapE ''failed to update container state status''
                       (HSet R stateKey (ContainerState_ToSlice (state'\<lparr>cs_Status := status\<rparr>))))
                     (wrapE ''failed to set container state ttl''
                       (Expire R stateKey (i64 (expirySeconds * second)))))))"

definition UpdateAssignedContainerGPU :: "'s redis_client \<Rightarrow> string \<Rightarrow> string \<Rightarrow> ('s world, unit) io" where
  "UpdateAssignedContainerGPU R containerId gpuType =
     locked R (SchedulerContainerLock containerId) 10 0
       (let stateKey = SchedulerContainerState containerId
        in bindE (HGetAll R stateKey) (\<lambda>res.
           let state = ContainerState_ToStruct (map_of res) zero_ContainerState
           in wrapE ''failed to update container state gpu''
                (HSet R stateKey (ContainerState_ToSlice (state\<lparr>cs_Gpu := gpuType\<rparr>)))))"

definition DeleteContainerState :: "'s redis_client \<Rightarrow> string \<Rightarrow> ('s world, unit) io" where
  "DeleteContainerState R containerId =
     locked R (SchedulerContainerLock containerId) 10 0
       (thenE (wrapE ''failed to delete container state'' (Del R (SchedulerContainerState containerId)))
       (thenE (wrapE ''failed to delete container addr'' (Del R (SchedulerContainerAddress containerId)))
       (thenE (wrapE ''failed to delete container addrMap'' (Del R (SchedulerContainerAddressMap containerId)))
              (wrapE ''failed to delete worker addr'' (Del R (SchedulerWorkerAddress containerId))))))"

section \<open>Addresses\<close>

definition SetContainerAddress :: "'s redis_client \<Rightarrow> string \<Rightarrow> string \<Rightarrow> ('s world, unit) io" where
  "SetContainerAddress R containerId addr = SetKey R (SchedulerContainerAddress containerId) addr 0"

definition GetContainerAddress :: "'s redis_client \<Rightarrow> string \<Rightarrow> ('s world, string) io" where
  "GetContainerAddress R containerId = Get R (SchedulerContainerAddress containerId)"

text \<open>The JSON of an address map is a parameter: \<open>mar\<close> and \<open>unm\<close> are \<open>json.Marshal\<close> and \<open>json.Unmarshal\<close>.\<close>

definition SetContainerAddressMap :: "'s redis_client \<Rightarrow> ('m \<Rightarrow> goerror + string) \<Rightarrow> string \<Rightarrow> 'm \<Rightarrow>
    ('s world, unit) io" where
  "SetContainerAddressMap R mar containerId addressMap =
     bindE (wrapE ''failed to marshal addressMap for container'' (liftSum (mar addressMap))) (\<lambda>data.
       wrapE ''failed to set container addressMap for container''
         (SetKey R (SchedulerContainerAddressMap containerId) data 0))"

definition GetContainerAddressMap :: "'s redis_client \<Rightarrow> (string \<Rightarrow> goerror + 'm) \<Rightarrow> string \<Rightarrow>
    ('s world, 'm option) io" where
  "GetContainerAddressMap R unm containerId =
     bindE (attempt (Get R (SchedulerContainerAddressMap containerId))) (\<lambda>r.
       case r of
         Inl e \<Rightarrow> if e = RedisNil then returnE None
                  else throwE (Errorf ''failed to get container addressMap for container'' e)
       | Inr data \<Rightarrow>
           bindE (wrapE ''failed to unmarshal addressMap for container'' (liftSum (unm data)))
             (\<lambda>m. returnE (Some m)))"

definition SetWorkerAddress :: "'s redis_client \<Rightarrow> string \<Rightarrow> string \<Rightarrow> ('s world, unit) io" where
  "SetWorkerAddress R containerId addr = SetKey R (SchedulerWorkerAddress containerId) addr 0"

definition SetContainerRequestStatus :: "'s redis_client \<Rightarrow> string \<Rightarrow> string \<Rightarrow> ('s world, unit) io" where
  "SetContainerRequestStatus R containerId status =
     SetKey R (SchedulerContainerRequestStatus containerId) status ContainerRequestStatusTTL"

definition GetContainerRequestStatus :: "'s redis_client \<Rightarrow> string \<Rightarrow> ('s world, string) io" where
  "GetContainerRequestStatus R containerId = Get R (SchedulerContainerRequestStatus containerId)"

text \<open>
  What the \<open>select\<close> of the polling loop receives: a tick, before which the rest of the system changed
  the world by \<open>env\<close>, or the end of the context. The five-minute deadline ends the list.
\<close>

datatype 's poll_event = PollTick "'s world \<Rightarrow> 's world" | PollCancelled

fun GetWorkerAddress :: "'s redis_client \<Rightarrow> string \<Rightarrow> 's poll_event list \<Rightarrow> ('s world, string) io" where
  "GetWorkerAddress R containerId [] = throwE (ErrNew ''failed to schedule container'')"
| "GetWorkerAddress R containerId (PollCancelled # _) =
     throwE (ErrNew ''context cancelled while trying to get worker addr'')"
| "GetWorkerAddress R containerId (PollTick env # events) =
     (\<lambda>w. bindE (attempt (Get R (SchedulerWorkerAddress containerId))) (\<lambda>r.
        case r of
          Inr hostname \<Rightarrow> returnE hostname
        | Inl _ \<Rightarrow>
            bindE (attempt (GetContainerRequestStatus R containerId)) (\<lambda>st.
              if st = Inr ContainerRequestStatusFailed then throwE (ErrNew ''failed to schedule container'')
              else GetWorkerAddress R containerId events)) (env w))"

section \<open>Indexes\<close>

fun listContainerStateByIndex :: "'s redis_client \<Rightarrow> string \<Rightarrow> string list \<Rightarrow> ContainerState list \<Rightarrow>
    ('s world, ContainerState list) io" where
  "listContainerStateByIndex R indexKey [] containerStates = returnE containerStates"
| "listContainerStateByIndex R indexKey (key # keys) containerStates =
     bindE (attempt (Exists R key)) (\<lambda>exists.
       case exists of
         Inl _ \<Rightarrow> listContainerStateByIndex R indexKey keys containerStates
       | Inr False \<Rightarrow>
           bindE (attempt (Exists R (SchedulerContainerExitCode (last_part key)))) (\<lambda>exitCodeKeyExists.
             case exitCodeKeyExists of
               Inl _ \<Rightarrow> listContainerStateByIndex R indexKey keys containerStates
             | Inr True \<Rightarrow> listContainerStateByIndex R indexKey keys containerStates
             | Inr False \<Rightarrow>
                 thenE (attempt (SRem R indexKey key))
                       (listContainerStateByIndex R indexKey keys containerStates))
       | Inr True \<Rightarrow>
           bindE (attempt (HGetAll R key)) (\<lambda>r.
             case r of
               Inl _ \<Rightarrow> listContainerStateByIndex R indexKey keys containerStates
             | Inr res \<Rightarrow>
                 let state = ContainerState_ToStruct (map_of res) zero_ContainerState
                 in if cs_ContainerId state = [] then listContainerStateByIndex R indexKey keys containerStates
                    else listContainerStateByIndex R indexKey keys (containerStates @ [state])))"

definition containersByIndex :: "'s redis_client \<Rightarrow> string \<Rightarrow> ('s world, ContainerState list) io" where
  "containersByIndex R indexKey =
     bindE (wrapE ''failed to retrieve container state keys'' (SMembers R indexKey)) (\<lambda>keys.
       listContainerStateByIndex R indexKey keys [])"

definition GetActiveContainersByStubId :: "'s redis_client \<Rightarrow> string \<Rightarrow> ('s world, ContainerState list) io" where
  "GetActiveContainersByStubId R stubId = containersByIndex R (SchedulerContainerIndex stubId)"

definition GetActiveContainersByWorkspaceId :: "'s redis_client \<Rightarrow> string \<Rightarrow> ('s world, ContainerState list) io" where
  "GetActiveContainersByWorkspaceId R workspaceId = containersByIndex R (SchedulerContainerWorkspaceIndex workspaceId)"

definition GetActiveContainersByWorkerId :: "'s redis_client \<Rightarrow> string \<Rightarrow> ('s world, ContainerState list) io" where
  "GetActiveContainersByWorkerId R workerId = containersByIndex R (SchedulerContainerWorkerIndex workerId)"

fun collectFailed :: "'s redis_client \<Rightarrow> string list \<Rightarrow> string list \<Rightarrow> ('s world, string list) io" where
  "collectFailed R [] failedContainerIds = returnE failedContainerIds"
| "collectFailed R (key # keys) failedContainerIds =
     (let containerId = last_part key
      in bindE (attempt (cmdInt (Get R (SchedulerContainerExitCode containerId)))) (\<lambda>r.
         case r of
           Inl e \<Rightarrow> if e \<noteq> RedisNil then throwE (Errorf ''failed to get value for key'' e)
                    else collectFailed R keys failedContainerIds
         | Inr exitCode \<Rightarrow>
             collectFailed R keys
               (if IsFailed exitCode then failedContainerIds @ [containerId] else failedContainerIds)))"

definition GetFailedContainersByStubId :: "'s redis_client \<Rightarrow> string \<Rightarrow> ('s world, string list) io" where
  "GetFailedContainersByStubId R stubId =
     bindE (wrapE ''failed to retrieve container state keys'' (SMembers R (SchedulerContainerIndex stubId)))
       (\<lambda>keys. collectFailed R keys [])"

section \<open>Quota\<close>

text \<open>
  The lock of the quota is taken with \<open>redislock.Obtain\<close> directly. When it is not obtained the code goes
  on without it, and the deferred \<open>Release\<close> of the missing lock does nothing.
\<close>

definition sumActive :: "(ContainerState \<Rightarrow> int) \<Rightarrow> ContainerState list \<Rightarrow> int" where
  "sumActive f containers =
     fold (\<lambda>c total. if cs_Status c = ContainerStatusStopping then total else i64 (total + f c)) containers 0"

definition checkQuota :: "ConcurrencyLimit \<Rightarrow> ContainerRequest \<Rightarrow> ContainerState list \<Rightarrow> goerror option" where
  "checkQuota quota request containers =
     (if i64 (sumActive (\<lambda>c. uint (cs_GpuCount c)) containers + uint (r_GpuCount request)) > uint (cl_GPULimit quota)
      then Some (ThrottledByConcurrencyLimitError ''gpu quota exceeded'')
      else if i64 (sumActive cs_Cpu containers + r_Cpu request) > uint (cl_CPUMillicoreLimit quota)
      then Some (ThrottledByConcurrencyLimitError ''cpu quota exceeded'')
      else None)"

definition pendingState :: "int \<Rightarrow> ContainerRequest \<Rightarrow> ContainerState" where
  "pendingState now request =
     \<lparr>cs_ContainerId = r_ContainerId request, cs_StubId = r_StubId request, cs_Status = ContainerStatusPending,
      cs_ScheduledAt = now, cs_WorkspaceId = r_WorkspaceId request, cs_Gpu = r_Gpu request,
      cs_GpuCount = r_GpuCount request, cs_Cpu = r_Cpu request, cs_Memory = r_Memory request, cs_StartedAt = 0\<rparr>"

definition SetContainerStateWithConcurrencyLimit :: "'s redis_client \<Rightarrow> int \<Rightarrow> ConcurrencyLimit option \<Rightarrow>
    ContainerRequest \<Rightarrow> ('s world, unit) io" where
  "SetContainerStateWithConcurrencyLimit R now quota request =
     (let lockKey = WorkspaceConcurrencyLimitLock (r_WorkspaceId request);
          body = thenE
            (case quota of
               None \<Rightarrow> returnE ()
             | Some q \<Rightarrow>
                 bindE (GetActiveContainersByWorkspaceId R (r_WorkspaceId request)) (\<lambda>containers.
                   case checkQuota q request containers of Some e \<Rightarrow> throwE e | None \<Rightarrow> returnE ()))
            (SetContainerState R (r_ContainerId request) (pendingState now request))
      in bindE (attempt (onR (cObtain R lockKey (10 * second) 10))) (\<lambda>lock.
         case lock of
           Inl e \<Rightarrow> if e \<noteq> ErrNotObtained then throwE e else body
         | Inr tok \<Rightarrow> deferring (onR (cReleaseLock R lockKey tok)) body))"

section \<open>Stubs and builds\<close>

definition GetStubState :: "'s redis_client \<Rightarrow> string \<Rightarrow> ('s world, string) io" where
  "GetStubState R stubId =
     bindE (attempt (Get R (SchedulerStubState stubId))) (\<lambda>r.
       case r of
         Inl e \<Rightarrow> if e = RedisNil then returnE StubStateHealthy else throwE e
       | Inr state \<Rightarrow> returnE state)"

definition SetStubState :: "'s redis_client \<Rightarrow> string \<Rightarrow> string \<Rightarrow> ('s world, unit) io" where
  "SetStubState R stubId state = SetKey R (SchedulerStubState stubId) state unhealthyStateTTL"

definition DeleteStubState :: "'s redis_client \<Rightarrow> string \<Rightarrow> ('s world, unit) io" where
  "DeleteStubState R stubId = Del R (SchedulerStubState stubId)"

definition SetBuildContainerTTL :: "'s redis_client \<Rightarrow> string \<Rightarrow> int \<Rightarrow> ('s world, unit) io" where
  "SetBuildContainerTTL R containerId ttl = SetKey R (ImageBuildContainerTTL containerId) ''1'' ttl"

definition HasBuildContainerTTL :: "'s redis_client \<Rightarrow> string \<Rightarrow> ('s world, bool) io" where
  "HasBuildContainerTTL R containerId =
     bindE (attempt (Exists R (ImageBuildContainerTTL containerId))) (\<lambda>r. returnE (r = Inr True))"

section \<open>Abstraction\<close>

definition cstate_at :: "keyspace \<Rightarrow> string \<Rightarrow> ContainerState" where
  "cstate_at v k = ContainerState_ToStruct (hashOf (v k)) zero_ContainerState"

definition read_cstate :: "keyspace \<Rightarrow> string \<Rightarrow> ContainerState" where
  "read_cstate v i = cstate_at v (SchedulerContainerState i)"

text \<open>The states that a listing of an index finds.\<close>

definition active_keys :: "keyspace \<Rightarrow> string list \<Rightarrow> string list" where
  "active_keys v ks = filter (\<lambda>k. v k \<noteq> None \<and> cs_ContainerId (cstate_at v k) \<noteq> []) ks"

text \<open>The state after \<open>UpdateContainerStatus\<close>: the start time is set by the first transition to running.\<close>

definition statusUpdated :: "int \<Rightarrow> string \<Rightarrow> ContainerState \<Rightarrow> ContainerState" where
  "statusUpdated now status s =
     s\<lparr>cs_Status := status, cs_StartedAt :=
        (if status = ContainerStatusRunning \<and> cs_Status s \<noteq> ContainerStatusRunning then now else cs_StartedAt s)\<rparr>"

lemma container_keys_distinct [simp]:
  "SchedulerContainerState i \<noteq> SchedulerContainerLock j" "SchedulerContainerLock j \<noteq> SchedulerContainerState i"
  "SchedulerContainerState i \<noteq> SchedulerContainerIndex j" "SchedulerContainerIndex j \<noteq> SchedulerContainerState i"
  "SchedulerContainerState i \<noteq> SchedulerContainerWorkspaceIndex j" "SchedulerContainerWorkspaceIndex j \<noteq> SchedulerContainerState i"
  "SchedulerContainerState i \<noteq> WorkspaceConcurrencyLimitLock j" "WorkspaceConcurrencyLimitLock j \<noteq> SchedulerContainerState i"
  "SchedulerContainerIndex i \<noteq> SchedulerContainerWorkspaceIndex j" "SchedulerContainerWorkspaceIndex j \<noteq> SchedulerContainerIndex i"
  "SchedulerContainerIndex i \<noteq> SchedulerContainerLock j" "SchedulerContainerLock j \<noteq> SchedulerContainerIndex i"
  "SchedulerContainerIndex i \<noteq> WorkspaceConcurrencyLimitLock j" "WorkspaceConcurrencyLimitLock j \<noteq> SchedulerContainerIndex i"
  "SchedulerContainerWorkspaceIndex i \<noteq> SchedulerContainerLock j" "SchedulerContainerLock j \<noteq> SchedulerContainerWorkspaceIndex i"
  "SchedulerContainerWorkspaceIndex i \<noteq> WorkspaceConcurrencyLimitLock j" "WorkspaceConcurrencyLimitLock j \<noteq> SchedulerContainerWorkspaceIndex i"
  "SchedulerContainerLock i \<noteq> WorkspaceConcurrencyLimitLock j" "WorkspaceConcurrencyLimitLock j \<noteq> SchedulerContainerLock i"
  by (simp_all add: key_eqs)

lemma container_keys_distinct2 [simp]:
  "SchedulerContainerState i \<noteq> SchedulerContainerAddress j" "SchedulerContainerAddress j \<noteq> SchedulerContainerState i"
  "SchedulerContainerState i \<noteq> SchedulerContainerAddressMap j" "SchedulerContainerAddressMap j \<noteq> SchedulerContainerState i"
  "SchedulerContainerState i \<noteq> SchedulerWorkerAddress j" "SchedulerWorkerAddress j \<noteq> SchedulerContainerState i"
  "SchedulerContainerAddress i \<noteq> SchedulerContainerAddressMap j" "SchedulerContainerAddressMap j \<noteq> SchedulerContainerAddress i"
  "SchedulerContainerAddress i \<noteq> SchedulerWorkerAddress j" "SchedulerWorkerAddress j \<noteq> SchedulerContainerAddress i"
  "SchedulerContainerAddressMap i \<noteq> SchedulerWorkerAddress j" "SchedulerWorkerAddress j \<noteq> SchedulerContainerAddressMap i"
  "SchedulerContainerAddress i \<noteq> SchedulerContainerLock j" "SchedulerContainerLock j \<noteq> SchedulerContainerAddress i"
  "SchedulerContainerAddressMap i \<noteq> SchedulerContainerLock j" "SchedulerContainerLock j \<noteq> SchedulerContainerAddressMap i"
  "SchedulerWorkerAddress i \<noteq> SchedulerContainerLock j" "SchedulerContainerLock j \<noteq> SchedulerWorkerAddress i"
  by (simp_all add: key_eqs)

lemma wf_cstate_at [simp]: "wf_ContainerState (cstate_at v k)"
  by (simp add: cstate_at_def wf_ContainerState_ToStruct)

lemma wf_ContainerState_ToStruct_zero [simp]: "wf_ContainerState (ContainerState_ToStruct h zero_ContainerState)"
  by (simp add: wf_ContainerState_ToStruct)

lemma wf_ContainerState_upd [simp]:
  "wf_ContainerState (s\<lparr>cs_Status := st\<rparr>) = wf_ContainerState s"
  "wf_ContainerState (s\<lparr>cs_Gpu := g\<rparr>) = wf_ContainerState s"
  "wf_ContainerState s \<Longrightarrow> in_i64 t \<Longrightarrow> wf_ContainerState (s\<lparr>cs_StartedAt := t\<rparr>)"
  by (simp_all add: wf_ContainerState_def)

lemma ContainerState_ToStruct_stored [simp]:
  "wf_ContainerState x \<Longrightarrow>
     ContainerState_ToStruct (h ++ map_of (rev (ContainerState_ToSlice x))) s0 = x"
  by (rule ContainerState_roundtrip [OF holds_hset]) simp_all

lemma SetContainerState_slice_stored [simp]:
  assumes "wf_ContainerState x"
  shows "ContainerState_ToStruct (h ++ map_of (rev (SetContainerState_slice i x))) zero_ContainerState =
     x\<lparr>cs_ContainerId := i, cs_StartedAt := cs_StartedAt (ContainerState_ToStruct h zero_ContainerState)\<rparr>"
proof -
  have "holds (SetContainerState_slice i x) (h ++ map_of (rev (SetContainerState_slice i x)))"
    by (rule holds_hset) (simp add: SetContainerState_slice_def)
  moreover have "(h ++ map_of (rev (SetContainerState_slice i x))) ''started_at'' = h ''started_at''"
    by (simp add: SetContainerState_slice_def map_add_def)
  ultimately show ?thesis
    using assms
    by (simp add: SetContainerState_slice_def ContainerState_ToStruct_def wf_ContainerState_def set_Some
      set_int_def [of _ _ "''started_at''"])
qed

lemma slices_not_Nil [simp]: "ContainerState_ToSlice x \<noteq> []" "SetContainerState_slice i x \<noteq> []"
  by (simp_all add: ContainerState_ToSlice_def SetContainerState_slice_def)

section \<open>Effect of the operations\<close>

context redis
begin

lemma GetContainerState_spec:
  "wp (GetContainerState R i)
    (\<lambda>st w'. V w (SchedulerContainerState i) \<noteq> None \<and> st = read_cstate (V w) i \<and>
       agree_off {SchedulerContainerLock i} (V w) (V w'))
    (\<lambda>e w'. agree_off {SchedulerContainerLock i} (V w) (V w'))
    w"
  by (cases "V w (SchedulerContainerState i)")
    (auto simp: GetContainerState_def Let_def wp_eqs agree_off_def read_cstate_def cstate_at_def
      intro!: wp_locked wp_cmds)

lemma SetContainerState_spec:
  assumes "wf_ContainerState x"
  shows "wp (SetContainerState R i x)
    (\<lambda>_ w'. read_cstate (V w') i =
         x\<lparr>cs_ContainerId := i, cs_StartedAt := cs_StartedAt (read_cstate (V w) i)\<rparr> \<and>
       V w' (SchedulerContainerState i) \<noteq> None \<and>
       setOf (V w' (SchedulerContainerIndex (cs_StubId x))) =
         insert (SchedulerContainerState i) (setOf (V w (SchedulerContainerIndex (cs_StubId x)))) \<and>
       setOf (V w' (SchedulerContainerWorkspaceIndex (cs_WorkspaceId x))) =
         insert (SchedulerContainerState i) (setOf (V w (SchedulerContainerWorkspaceIndex (cs_WorkspaceId x)))) \<and>
       agree_off {SchedulerContainerState i, SchedulerContainerIndex (cs_StubId x),
         SchedulerContainerWorkspaceIndex (cs_WorkspaceId x), SchedulerContainerLock i} (V w) (V w'))
    (\<lambda>e w'. agree_off {SchedulerContainerState i, SchedulerContainerIndex (cs_StubId x),
         SchedulerContainerWorkspaceIndex (cs_WorkspaceId x), SchedulerContainerLock i} (V w) (V w'))
    w"
proof -
  have "0 < ContainerStateTtlSWhilePending * second" by (simp add: ContainerStateTtlSWhilePending_def second_def)
  then show ?thesis
    using assms
    by (auto simp: SetContainerState_def Let_def wp_eqs agree_off_def read_cstate_def cstate_at_def
      intro!: wp_locked wp_cmds wp_Expire_pos)
qed

lemma UpdateContainerStatus_spec:
  assumes "in_i64 now"
  shows "wp (UpdateContainerStatus R now i status expiry)
    (\<lambda>_ w'. status \<in> {ContainerStatusPending, ContainerStatusRunning, ContainerStatusStopping} \<and>
       (if 0 < i64 (expiry * second) then read_cstate (V w') i = statusUpdated now status (read_cstate (V w) i)
        else V w' (SchedulerContainerState i) = None) \<and>
       agree_off {SchedulerContainerState i, SchedulerContainerLock i} (V w) (V w'))
    (\<lambda>e w'. agree_off {SchedulerContainerState i, SchedulerContainerLock i} (V w) (V w') \<and>
       (status \<notin> {ContainerStatusPending, ContainerStatusRunning, ContainerStatusStopping} \<longrightarrow> w' = w))
    w"
  using assms
  by (auto simp: UpdateContainerStatus_def Let_def wp_eqs agree_off_def read_cstate_def cstate_at_def statusUpdated_def
    intro!: wp_locked wp_cmds wp_Expire)

lemma UpdateAssignedContainerGPU_spec:
  "wp (UpdateAssignedContainerGPU R i g)
    (\<lambda>_ w'. read_cstate (V w') i = (read_cstate (V w) i)\<lparr>cs_Gpu := g\<rparr> \<and>
       agree_off {SchedulerContainerState i, SchedulerContainerLock i} (V w) (V w'))
    (\<lambda>e w'. agree_off {SchedulerContainerState i, SchedulerContainerLock i} (V w) (V w'))
    w"
  by (auto simp: UpdateAssignedContainerGPU_def Let_def wp_eqs agree_off_def read_cstate_def cstate_at_def
    intro!: wp_locked wp_cmds)

lemma DeleteContainerState_spec:
  "wp (DeleteContainerState R i)
    (\<lambda>_ w'. V w' (SchedulerContainerState i) = None \<and> V w' (SchedulerContainerAddress i) = None \<and>
       V w' (SchedulerContainerAddressMap i) = None \<and> V w' (SchedulerWorkerAddress i) = None \<and>
       agree_off {SchedulerContainerState i, SchedulerContainerAddress i, SchedulerContainerAddressMap i,
         SchedulerWorkerAddress i, SchedulerContainerLock i} (V w) (V w'))
    (\<lambda>e w'. agree_off {SchedulerContainerState i, SchedulerContainerAddress i, SchedulerContainerAddressMap i,
         SchedulerWorkerAddress i, SchedulerContainerLock i} (V w) (V w'))
    w"
  by (auto simp: DeleteContainerState_def wp_eqs agree_off_def intro!: wp_locked wp_cmds)

end

section \<open>Listing an index\<close>

definition active_states :: "keyspace \<Rightarrow> string list \<Rightarrow> ContainerState list" where
  "active_states v ks = map (cstate_at v) (active_keys v ks)"

text \<open>A listing of the index \<open>idx\<close> may remove keys without a state from it, and changes nothing else.\<close>

definition pruned :: "keyspace \<Rightarrow> string \<Rightarrow> keyspace \<Rightarrow> keyspace \<Rightarrow> bool" where
  "pruned v idx u u' \<longleftrightarrow>
     agree_off {idx} v u' \<and> isSet (u' idx) \<and> setOf (u' idx) \<subseteq> setOf (u idx) \<and>
     (\<forall>k \<in> setOf (u idx) - setOf (u' idx). v k = None)"

lemma pruned_trans: "pruned v idx u1 u2 \<Longrightarrow> pruned v idx u2 u3 \<Longrightarrow> pruned v idx u1 u3"
  by (auto simp: pruned_def)

lemma pruned_refl: "agree_off {idx} v u \<Longrightarrow> isSet (u idx) \<Longrightarrow> pruned v idx u u"
  by (simp add: pruned_def)

lemma pruned_del:
  "agree_off {idx} v u \<Longrightarrow> v k = None \<Longrightarrow> pruned v idx u (u(idx := putSet (setOf (u idx) - {k})))"
  by (auto simp: pruned_def agree_off_def)

context redis_up
begin

lemma up_listContainerStateByIndex:
  assumes "\<forall>k \<in> set ks. isHash (v k) \<and> k \<noteq> idx" and "agree_off {idx} v (V w)" and "isSet (V w idx)"
    and "\<And>w'. pruned v idx (V w) (V w') \<Longrightarrow> locks w' = locks w \<Longrightarrow> Q (acc @ active_states v ks) w'"
  shows "wp (listContainerStateByIndex R idx ks acc) Q E w"
  using assms
proof (induction ks arbitrary: acc w)
  case Nil
  then show ?case by (simp add: wp_eqs active_states_def active_keys_def pruned_refl)
next
  case (Cons k ks)
  have k: "isHash (V w k)" "k \<noteq> idx" "V w k = v k" using Cons.prems(1,2) by (auto simp: agree_off_def)
  have next_ks: "wp (listContainerStateByIndex R idx ks acc') Q E w1"
    if "pruned v idx (V w) (V w1)" "locks w1 = locks w"
      "acc' @ active_states v ks = acc @ active_states v (k # ks)" for w1 acc'
  proof (rule Cons.IH)
    show "Q (acc' @ active_states v ks) w'" if "pruned v idx (V w1) (V w')" "locks w' = locks w1" for w'
      using Cons.prems(4) [OF pruned_trans [OF \<open>pruned v idx (V w) (V w1)\<close> that(1)]] that(2)
        \<open>locks w1 = locks w\<close> \<open>acc' @ active_states v ks = acc @ active_states v (k # ks)\<close> by simp
  qed (use Cons.prems(1) that(1) in \<open>auto simp: pruned_def\<close>)
  have same: "pruned v idx (V w) (V w)" using Cons.prems(2,3) by (rule pruned_refl)
  show ?case
  proof (cases "v k")
    case None
    then have st: "active_states v (k # ks) = active_states v ks" by (simp add: active_states_def active_keys_def)
    then show ?thesis
      using None k Cons.prems(2,3) same
      by (cases "V w (SchedulerContainerExitCode (last_part k))")
        (auto simp: wp_eqs pruned_del intro!: up_Exists up_SRem next_ks)
  next
    case (Some y)
    have st: "active_states v (k # ks) =
        (if cs_ContainerId (cstate_at v k) = [] then active_states v ks else cstate_at v k # active_states v ks)"
      using Some by (simp add: active_states_def active_keys_def)
    show ?thesis
      using Some k same
      by (auto simp: wp_eqs Let_def st cstate_at_def intro!: up_Exists up_HGetAll next_ks)
  qed
qed

lemma up_containersByIndex:
  assumes "\<forall>k \<in> setOf (V w idx). isHash (V w k) \<and> k \<noteq> idx" and "isSet (V w idx)"
    and "\<And>ks w'. set ks = setOf (V w idx) \<Longrightarrow> distinct ks \<Longrightarrow> pruned (V w) idx (V w) (V w') \<Longrightarrow>
      locks w' = locks w \<Longrightarrow> Q (active_states (V w) ks) w'"
  shows "wp (containersByIndex R idx) Q E w"
  unfolding containersByIndex_def wp_eqs
  by (rule up_SMembers [OF assms(2)], rule up_listContainerStateByIndex [where v = "V w"])
    (use assms in auto)

lemma SetContainerState_up:
  assumes "wf_ContainerState x" and "isHash (V w (SchedulerContainerState i))"
    and "isSet (V w (SchedulerContainerIndex (cs_StubId x)))" "isSet (V w (SchedulerContainerWorkspaceIndex (cs_WorkspaceId x)))"
    and "V w (SchedulerContainerLock i) = None"
    and "\<And>w'. read_cstate (V w') i = x\<lparr>cs_ContainerId := i, cs_StartedAt := cs_StartedAt (read_cstate (V w) i)\<rparr> \<Longrightarrow>
       V w' (SchedulerContainerState i) \<noteq> None \<Longrightarrow> isHash (V w' (SchedulerContainerState i)) \<Longrightarrow>
       V w' (SchedulerContainerIndex (cs_StubId x)) =
         Some (RSet (insert (SchedulerContainerState i) (setOf (V w (SchedulerContainerIndex (cs_StubId x)))))) \<Longrightarrow>
       V w' (SchedulerContainerWorkspaceIndex (cs_WorkspaceId x)) =
         Some (RSet (insert (SchedulerContainerState i) (setOf (V w (SchedulerContainerWorkspaceIndex (cs_WorkspaceId x)))))) \<Longrightarrow>
       agree_off {SchedulerContainerState i, SchedulerContainerIndex (cs_StubId x),
         SchedulerContainerWorkspaceIndex (cs_WorkspaceId x)} (V w) (V w') \<Longrightarrow> Q () w'"
  shows "wp (SetContainerState R i x) Q E w"
proof -
  have ttl: "0 < ContainerStateTtlSWhilePending * second" by (simp add: ContainerStateTtlSWhilePending_def second_def)
  show ?thesis
    unfolding SetContainerState_def Let_def
    apply (rule up_locked [OF assms(5)])
    apply (unfold wp_eqs)
    using assms(1-5) ttl
    apply (auto simp: agree_off_def read_cstate_def cstate_at_def intro!: up_cmds assms(6))
    done
qed

end

end
