(* ===== verification/Workspace_Quota.thy ===== *)
theory Workspace_Quota
  imports Container_Repo
begin

text \<open>
  The concurrency limit of a workspace: \<open>SetContainerStateWithConcurrencyLimit\<close> of
  \<open>pkg/repository/container_redis.go\<close> decides whether a request may start from the containers in the
  workspace's index. \<open>usage\<close> is what these containers use, as a sum over the keyspace; the lemmas
  show that the listing computes it, that the check compares it with the limit without overflow, and
  that a request that passes leaves the workspace within its limit.
\<close>

section \<open>The quota of a workspace\<close>

text \<open>What the active containers of a workspace use, as a sum over its index.\<close>

definition counted :: "keyspace \<Rightarrow> string \<Rightarrow> bool" where
  "counted v k \<longleftrightarrow> v k \<noteq> None \<and> cs_ContainerId (cstate_at v k) \<noteq> [] \<and> cs_Status (cstate_at v k) \<noteq> ContainerStatusStopping"

definition usage :: "(ContainerState \<Rightarrow> int) \<Rightarrow> keyspace \<Rightarrow> string \<Rightarrow> int" where
  "usage f v ws = (\<Sum>k | k \<in> setOf (v (SchedulerContainerWorkspaceIndex ws)) \<and> counted v k. f (cstate_at v k))"

definition gpus :: "ContainerState \<Rightarrow> int" where
  "gpus c = uint (cs_GpuCount c)"

definition within_quota :: "ConcurrencyLimit \<Rightarrow> keyspace \<Rightarrow> string \<Rightarrow> bool" where
  "within_quota q v ws \<longleftrightarrow> usage gpus v ws \<le> uint (cl_GPULimit q) \<and> usage cs_Cpu v ws \<le> uint (cl_CPUMillicoreLimit q)"

lemma gpus_eq: "gpus = (\<lambda>c. uint (cs_GpuCount c))"
  by (simp add: fun_eq_iff gpus_def)

lemma gpus_nonneg [simp]: "0 \<le> gpus c"
  by (simp add: gpus_def)

definition ws_ok :: "keyspace \<Rightarrow> string \<Rightarrow> bool" where
  "ws_ok v ws \<longleftrightarrow> isSet (v (SchedulerContainerWorkspaceIndex ws)) \<and>
     finite (setOf (v (SchedulerContainerWorkspaceIndex ws))) \<and>
     (\<forall>k \<in> setOf (v (SchedulerContainerWorkspaceIndex ws)). (\<exists>i. k = SchedulerContainerState i) \<and> isHash (v k))"

lemma sumActive_exact:
  assumes "\<forall>c \<in> set cs. 0 \<le> f c" and "(\<Sum>c\<leftarrow>filter (\<lambda>c. cs_Status c \<noteq> ContainerStatusStopping) cs. f c) < 2 ^ 63"
  shows "sumActive f cs = (\<Sum>c\<leftarrow>filter (\<lambda>c. cs_Status c \<noteq> ContainerStatusStopping) cs. f c)"
proof -
  let ?s = "\<lambda>cs. \<Sum>c\<leftarrow>filter (\<lambda>c. cs_Status c \<noteq> ContainerStatusStopping) cs. f c"
  have nonneg: "0 \<le> ?s cs" if "\<forall>c \<in> set cs. 0 \<le> f c" for cs
    using that by (induction cs) auto
  have "fold (\<lambda>c total. if cs_Status c = ContainerStatusStopping then total else i64 (total + f c)) cs acc = acc + ?s cs"
    if "\<forall>c \<in> set cs. 0 \<le> f c" "0 \<le> acc" "acc + ?s cs < 2 ^ 63" for acc
    using that
  proof (induction cs arbitrary: acc)
    case (Cons c cs)
    then have "i64 (acc + f c) = acc + f c" if "cs_Status c \<noteq> ContainerStatusStopping"
      using that nonneg [of cs] by (intro i64_id) (auto simp: in_i64_def)
    with Cons show ?case by (auto simp: algebra_simps)
  qed simp
  from this [of 0] assms show ?thesis by (simp add: sumActive_def)
qed

lemma sum_active_states:
  assumes "distinct ks" and "set ks = setOf (v (SchedulerContainerWorkspaceIndex ws))"
  shows "(\<Sum>c\<leftarrow>filter (\<lambda>c. cs_Status c \<noteq> ContainerStatusStopping) (active_states v ks). f c) = usage f v ws"
proof -
  have "filter (\<lambda>c. cs_Status c \<noteq> ContainerStatusStopping) (active_states v ks) =
      map (cstate_at v) (filter (counted v) ks)"
    by (induction ks) (auto simp: active_states_def active_keys_def counted_def)
  then show ?thesis
    using assms sum_list_distinct_conv_sum_set [of "filter (counted v) ks" "\<lambda>k. f (cstate_at v k)"]
    by (simp add: usage_def o_def)
qed

lemma cstate_at_cong: "v' k = v k \<Longrightarrow> cstate_at v' k = cstate_at v k"
  by (simp add: cstate_at_def)

lemma counted_cong: "v' k = v k \<Longrightarrow> counted v' k = counted v k"
  by (simp add: counted_def cstate_at_def)

lemma usage_cong:
  assumes "v' (SchedulerContainerWorkspaceIndex ws) = v (SchedulerContainerWorkspaceIndex ws)"
    and "\<And>k. k \<in> setOf (v (SchedulerContainerWorkspaceIndex ws)) \<Longrightarrow> v' k = v k"
  shows "usage f v' ws = usage f v ws"
  unfolding usage_def assms(1)
  by (rule sum.cong) (auto simp: cstate_at_cong [OF assms(2)] counted_cong [OF assms(2)])

lemma usage_pruned:
  assumes "pruned v (SchedulerContainerWorkspaceIndex ws) v v'" and "ws_ok v ws"
  shows "usage f v' ws = usage f v ws"
proof -
  let ?I = "\<lambda>v. setOf (v (SchedulerContainerWorkspaceIndex ws))"
  have same: "v' k = v k" if k: "k \<in> ?I v" for k
  proof -
    obtain i where "k = SchedulerContainerState i" using k assms(2) unfolding ws_ok_def by blast
    then show ?thesis using assms(1) unfolding pruned_def by (simp add: agree_off_def)
  qed
  have "?I v' \<subseteq> ?I v" and "\<forall>k \<in> ?I v - ?I v'. v k = None"
    using assms(1) unfolding pruned_def by blast+
  moreover have cnt: "counted v' k = counted v k" "cstate_at v' k = cstate_at v k" if "k \<in> ?I v" for k
    using counted_cong [of v' k v] cstate_at_cong [of v' k v] same [OF that] by simp_all
  ultimately have "{k. k \<in> ?I v' \<and> counted v' k} = {k. k \<in> ?I v \<and> counted v k}"
    unfolding counted_def [of v] by blast
  then show ?thesis
    unfolding usage_def by (rule sum.cong) (simp add: cnt)
qed

lemma usage_insert:
  assumes "ws_ok v ws" and "SchedulerContainerState i \<notin> setOf (v (SchedulerContainerWorkspaceIndex ws))"
    and "setOf (v' (SchedulerContainerWorkspaceIndex ws)) =
       insert (SchedulerContainerState i) (setOf (v (SchedulerContainerWorkspaceIndex ws)))"
    and "counted v' (SchedulerContainerState i)"
    and "\<And>j. j \<noteq> i \<Longrightarrow> v' (SchedulerContainerState j) = v (SchedulerContainerState j)"
  shows "usage f v' ws = usage f v ws + f (cstate_at v' (SchedulerContainerState i))"
proof -
  let ?S = "\<lambda>v. {k. k \<in> setOf (v (SchedulerContainerWorkspaceIndex ws)) \<and> counted v k}"
  have same: "v' k = v k" if k: "k \<in> setOf (v (SchedulerContainerWorkspaceIndex ws))" for k
  proof -
    obtain j where j: "k = SchedulerContainerState j" using k assms(1) unfolding ws_ok_def by blast
    with k assms(2) have "j \<noteq> i" by auto
    then show ?thesis unfolding j by (rule assms(5))
  qed
  have cnt: "counted v' k = counted v k" "cstate_at v' k = cstate_at v k"
    if "k \<in> setOf (v (SchedulerContainerWorkspaceIndex ws))" for k
    using counted_cong [of v' k v] cstate_at_cong [of v' k v] same [OF that] by simp_all
  have "?S v' = insert (SchedulerContainerState i) (?S v)"
    using assms(3,4) cnt(1) by blast
  moreover have "finite (?S v)" "SchedulerContainerState i \<notin> ?S v" using assms(1,2) by (auto simp: ws_ok_def)
  moreover have "(\<Sum>k \<in> ?S v. f (cstate_at v' k)) = (\<Sum>k \<in> ?S v. f (cstate_at v k))"
    by (rule sum.cong) (simp_all add: cnt)
  ultimately show ?thesis by (simp add: usage_def)
qed

lemma ws_ok_pruned:
  assumes "pruned v (SchedulerContainerWorkspaceIndex ws) v v'" and "ws_ok v ws"
  shows "ws_ok v' ws"
proof -
  have "v' (SchedulerContainerState i) = v (SchedulerContainerState i)" for i
    using assms(1) by (simp add: pruned_def agree_off_def)
  moreover have "setOf (v' (SchedulerContainerWorkspaceIndex ws)) \<subseteq> setOf (v (SchedulerContainerWorkspaceIndex ws))"
    using assms(1) by (simp add: pruned_def)
  moreover have "isSet (v' (SchedulerContainerWorkspaceIndex ws))" using assms(1) by (simp add: pruned_def)
  ultimately show ?thesis
    using assms(2) unfolding ws_ok_def by (metis finite_subset subsetD)
qed

text \<open>A pending state stored for a new container adds its resources to the usage.\<close>

lemma usage_after_set:
  assumes "ws_ok v (cs_WorkspaceId x)" and "i \<noteq> []" and "cs_Status x \<noteq> ContainerStatusStopping"
    and "SchedulerContainerState i \<notin> setOf (v (SchedulerContainerWorkspaceIndex (cs_WorkspaceId x)))"
    and "read_cstate v' i = x\<lparr>cs_ContainerId := i, cs_StartedAt := t\<rparr>" and "v' (SchedulerContainerState i) \<noteq> None"
    and "setOf (v' (SchedulerContainerWorkspaceIndex (cs_WorkspaceId x))) =
       insert (SchedulerContainerState i) (setOf (v (SchedulerContainerWorkspaceIndex (cs_WorkspaceId x))))"
    and "agree_off {SchedulerContainerState i, SchedulerContainerIndex s,
         SchedulerContainerWorkspaceIndex (cs_WorkspaceId x), SchedulerContainerLock i} v v'"
  shows "usage f v' (cs_WorkspaceId x) = usage f v (cs_WorkspaceId x) + f (x\<lparr>cs_ContainerId := i, cs_StartedAt := t\<rparr>)"
proof -
  have "counted v' (SchedulerContainerState i)"
    using assms(2,3,5,6) by (simp add: counted_def flip: read_cstate_def)
  moreover have "v' (SchedulerContainerState j) = v (SchedulerContainerState j)" if "j \<noteq> i" for j
    using assms(8) that by (simp add: agree_off_def)
  ultimately show ?thesis
    using usage_insert [of v "cs_WorkspaceId x" i v' f] assms(1,4,5,7) by (simp add: read_cstate_def)
qed

lemma checkQuota_usage:
  assumes "distinct ks" "set ks = setOf (v (SchedulerContainerWorkspaceIndex ws))"
    and "\<forall>k \<in> set ks. 0 \<le> cs_Cpu (cstate_at v k)" and "0 \<le> r_Cpu r"
    and "usage gpus v ws + uint (r_GpuCount r) < 2 ^ 63" "usage cs_Cpu v ws + r_Cpu r < 2 ^ 63"
  shows "checkQuota q r (active_states v ks) =
     (if usage gpus v ws + uint (r_GpuCount r) > uint (cl_GPULimit q)
      then Some (ThrottledByConcurrencyLimitError ''gpu quota exceeded'')
      else if usage cs_Cpu v ws + r_Cpu r > uint (cl_CPUMillicoreLimit q)
      then Some (ThrottledByConcurrencyLimitError ''cpu quota exceeded'')
      else None)"
proof -
  note sums = sum_active_states [of ks v ws, OF assms(1,2)]
  have nn: "\<forall>c \<in> set (active_states v ks). 0 \<le> cs_Cpu c"
    using assms(3) by (auto simp: active_states_def active_keys_def)
  have pos: "0 \<le> usage f v ws" if "\<And>k. k \<in> set ks \<Longrightarrow> 0 \<le> f (cstate_at v k)" for f
    using that assms(2) by (auto simp: usage_def intro!: sum_nonneg)
  have pos_gpu: "0 \<le> usage gpus v ws" by (rule pos) simp
  have "usage gpus v ws < 2 ^ 63"
    using assms(5) uint_ge_0 [of "r_GpuCount r"] by linarith
  then have "sumActive gpus (active_states v ks) = usage gpus v ws"
    using sumActive_exact [of "active_states v ks" gpus] sums by simp
  moreover have "sumActive cs_Cpu (active_states v ks) = usage cs_Cpu v ws"
    using sumActive_exact [OF nn] assms(4,6) sums by simp
  moreover have "i64 (usage gpus v ws + uint (r_GpuCount r)) = usage gpus v ws + uint (r_GpuCount r)"
    using assms(5) add_nonneg_nonneg [OF pos_gpu uint_ge_0 [of "r_GpuCount r"]]
    by (intro i64_id) (simp add: in_i64_def)
  moreover have "i64 (usage cs_Cpu v ws + r_Cpu r) = usage cs_Cpu v ws + r_Cpu r"
    using assms(3,4,6) pos [of cs_Cpu] by (intro i64_id) (simp add: in_i64_def)
  ultimately show ?thesis by (simp add: checkQuota_def flip: gpus_eq)
qed

text \<open>
  What the quota check relies on: a well-formed index of the workspace in which the container is new,
  a valid request, and sums that fit in 64 bits.
\<close>

definition quota_pre :: "keyspace \<Rightarrow> ContainerRequest \<Rightarrow> bool" where
  "quota_pre v r \<longleftrightarrow>
     ws_ok v (r_WorkspaceId r) \<and> in_i64 (r_Cpu r) \<and> in_i64 (r_Memory r) \<and> 0 \<le> r_Cpu r \<and> r_ContainerId r \<noteq> [] \<and>
     SchedulerContainerState (r_ContainerId r) \<notin> setOf (v (SchedulerContainerWorkspaceIndex (r_WorkspaceId r))) \<and>
     (\<forall>k \<in> setOf (v (SchedulerContainerWorkspaceIndex (r_WorkspaceId r))). 0 \<le> cs_Cpu (cstate_at v k)) \<and>
     usage gpus v (r_WorkspaceId r) + uint (r_GpuCount r) < 2 ^ 63 \<and>
     usage cs_Cpu v (r_WorkspaceId r) + r_Cpu r < 2 ^ 63"

lemma agree_off_index:
  assumes "agree_off {WorkspaceConcurrencyLimitLock x} v v'" and "ws_ok v ws"
  shows "v' (SchedulerContainerWorkspaceIndex ws) = v (SchedulerContainerWorkspaceIndex ws)"
    and "k \<in> setOf (v (SchedulerContainerWorkspaceIndex ws)) \<Longrightarrow> v' k = v k"
    and "ws_ok v' ws" and "usage f v' ws = usage f v ws"
proof -
  show idx: "v' (SchedulerContainerWorkspaceIndex ws) = v (SchedulerContainerWorkspaceIndex ws)"
    using assms(1) by (simp add: agree_off_def)
  show mem: "v' k = v k" if k: "k \<in> setOf (v (SchedulerContainerWorkspaceIndex ws))" for k
  proof -
    obtain i where "k = SchedulerContainerState i" using k assms(2) unfolding ws_ok_def by blast
    then show ?thesis using assms(1) by (simp add: agree_off_def)
  qed
  show "ws_ok v' ws" using assms(2) mem unfolding ws_ok_def idx by simp
  show "usage f v' ws = usage f v ws" using idx mem by (rule usage_cong)
qed

lemma quota_pre_lock:
  assumes "agree_off {WorkspaceConcurrencyLimitLock x} v v'" and "quota_pre v r"
  shows "quota_pre v' r"
proof -
  have ok: "ws_ok v (r_WorkspaceId r)" using assms(2) by (simp add: quota_pre_def)
  note same = agree_off_index [OF assms(1) ok]
  have "cstate_at v' k = cstate_at v k" if "k \<in> setOf (v (SchedulerContainerWorkspaceIndex (r_WorkspaceId r)))" for k
    using same(2) [OF that] by (rule cstate_at_cong)
  with same assms(2) show ?thesis unfolding quota_pre_def by simp
qed

context redis_up
begin

text \<open>
  The check and the write, after the lock: the check decides by the usage, and the write adds the
  request to it.
\<close>

lemma quota_listing:
  assumes "quota_pre (V w) r"
    and "\<And>w1. pruned (V w) (SchedulerContainerWorkspaceIndex (r_WorkspaceId r)) (V w) (V w1) \<Longrightarrow> locks w1 = locks w \<Longrightarrow>
       (if usage gpus (V w) (r_WorkspaceId r) + uint (r_GpuCount r) > uint (cl_GPULimit q)
        then E (ThrottledByConcurrencyLimitError ''gpu quota exceeded'') w1
        else if usage cs_Cpu (V w) (r_WorkspaceId r) + r_Cpu r > uint (cl_CPUMillicoreLimit q)
        then E (ThrottledByConcurrencyLimitError ''cpu quota exceeded'') w1
        else Q () w1)"
  shows "wp (bindE (GetActiveContainersByWorkspaceId R (r_WorkspaceId r)) (\<lambda>containers.
             case checkQuota q r containers of Some e \<Rightarrow> throwE e | None \<Rightarrow> returnE ())) Q E w"
proof -
  have pre: "ws_ok (V w) (r_WorkspaceId r)" "0 \<le> r_Cpu r"
    "\<forall>k \<in> setOf (V w (SchedulerContainerWorkspaceIndex (r_WorkspaceId r))). 0 \<le> cs_Cpu (cstate_at (V w) k)"
    "usage gpus (V w) (r_WorkspaceId r) + uint (r_GpuCount r) < 2 ^ 63" "usage cs_Cpu (V w) (r_WorkspaceId r) + r_Cpu r < 2 ^ 63"
    using assms(1) unfolding quota_pre_def by blast+
  show ?thesis
    unfolding wp_eqs GetActiveContainersByWorkspaceId_def
  proof (rule up_containersByIndex, goal_cases)
    case (3 ks w1)
    then show ?case
      using checkQuota_usage [of ks "V w" "r_WorkspaceId r" r q] pre(2-5) assms(2) [OF 3(3,4)]
      by (auto simp: wp_eqs split: if_splits)
  qed (use pre(1) in \<open>auto simp: ws_ok_def\<close>)
qed

lemma usage_after_pending:
  assumes "quota_pre (V w) r" and "pruned (V w) (SchedulerContainerWorkspaceIndex (r_WorkspaceId r)) (V w) (V w1)" and "in_i64 now"
    and "\<not> usage gpus (V w) (r_WorkspaceId r) + uint (r_GpuCount r) > uint (cl_GPULimit q)"
    and "\<not> usage cs_Cpu (V w) (r_WorkspaceId r) + r_Cpu r > uint (cl_CPUMillicoreLimit q)"
  shows "wp (SetContainerState R (r_ContainerId r) (pendingState now r))
      (\<lambda>_ w'. within_quota q (V w') (r_WorkspaceId r) \<and>
         setOf (V w' (SchedulerContainerWorkspaceIndex (r_WorkspaceId r))) \<subseteq> range SchedulerContainerState)
      (\<lambda>_ _. True) w1"
proof -
  let ?ws = "r_WorkspaceId r" and ?x = "pendingState now r" and ?i = "r_ContainerId r"
  have ws: "cs_WorkspaceId ?x = ?ws" and st: "cs_Status ?x \<noteq> ContainerStatusStopping"
    by (simp_all add: pendingState_def status_defs)
  have pre: "ws_ok (V w) ?ws" "in_i64 (r_Cpu r)" "in_i64 (r_Memory r)" "?i \<noteq> []"
    "SchedulerContainerState ?i \<notin> setOf (V w (SchedulerContainerWorkspaceIndex ?ws))"
    using assms(1) unfolding quota_pre_def by blast+
  have wf: "wf_ContainerState ?x"
    using pre(2,3) assms(3) by (simp add: wf_ContainerState_def pendingState_def in_i64_def)
  have ok1: "ws_ok (V w1) ?ws" by (rule ws_ok_pruned [OF assms(2) pre(1)])
  have fresh: "SchedulerContainerState ?i \<notin> setOf (V w1 (SchedulerContainerWorkspaceIndex ?ws))"
    using assms(2) pre(5) by (auto simp: pruned_def)
  show ?thesis
  proof (rule wp_mono [OF SetContainerState_spec [OF wf]], goal_cases)
    case (1 a w2)
    note post = 1 [unfolded ws]
    have "usage f (V w2) ?ws = usage f (V w1) ?ws +
        f (?x\<lparr>cs_ContainerId := ?i, cs_StartedAt := cs_StartedAt (read_cstate (V w1) ?i)\<rparr>)" for f
      by (rule usage_after_set [of "V w1" ?x, unfolded ws, OF ok1 pre(4) st fresh]) (use post in blast)+
    then have "usage gpus (V w2) ?ws = usage gpus (V w) ?ws + uint (r_GpuCount r)"
      and "usage cs_Cpu (V w2) ?ws = usage cs_Cpu (V w) ?ws + r_Cpu r"
      by (simp_all add: pendingState_def gpus_def usage_pruned [OF assms(2) pre(1)])
    moreover have "setOf (V w2 (SchedulerContainerWorkspaceIndex ?ws)) \<subseteq> range SchedulerContainerState"
      using post ok1 by (auto simp: ws_ok_def)
    ultimately show ?case using assms(4,5) by (simp add: within_quota_def)
  qed simp
qed

lemma within_quota_lock:
  assumes "within_quota q (V w1) ws" "setOf (V w1 (SchedulerContainerWorkspaceIndex ws)) \<subseteq> range SchedulerContainerState"
    and "agree_off {WorkspaceConcurrencyLimitLock x} (V w1) (V w2)"
  shows "within_quota q (V w2) ws"
proof -
  have "V w2 (SchedulerContainerWorkspaceIndex ws) = V w1 (SchedulerContainerWorkspaceIndex ws)"
    using assms(3) by (simp add: agree_off_def)
  moreover have "V w2 k = V w1 k" if "k \<in> setOf (V w1 (SchedulerContainerWorkspaceIndex ws))" for k
    using that assms(2,3) by (auto simp: agree_off_def)
  ultimately show ?thesis using assms(1) usage_cong [of "V w2" ws "V w1"] by (simp add: within_quota_def)
qed

lemma SetContainerStateWithConcurrencyLimit_quota:
  assumes "quota_pre (V w) r" and "in_i64 now"
  shows "wp (SetContainerStateWithConcurrencyLimit R now (Some q) r)
      (\<lambda>_ w'. within_quota q (V w') (r_WorkspaceId r)) (\<lambda>_ _. True) w"
proof -
  let ?ws = "r_WorkspaceId r"
  let ?post = "\<lambda>w'. within_quota q (V w') ?ws \<and>
      setOf (V w' (SchedulerContainerWorkspaceIndex ?ws)) \<subseteq> range SchedulerContainerState"
  have body: "wp (thenE (case Some q of None \<Rightarrow> returnE ()
         | Some q \<Rightarrow> bindE (GetActiveContainersByWorkspaceId R ?ws) (\<lambda>containers.
             case checkQuota q r containers of Some e \<Rightarrow> throwE e | None \<Rightarrow> returnE ()))
         (SetContainerState R (r_ContainerId r) (pendingState now r))) (\<lambda>_. ?post) (\<lambda>_ _. True) w1"
    if "agree_off {WorkspaceConcurrencyLimitLock ?ws} (V w) (V w1)" for w1
    unfolding option.case wp_thenE
    by (rule quota_listing [OF quota_pre_lock [OF that assms(1)]])
      (auto intro!: usage_after_pending [OF quota_pre_lock [OF that assms(1)] _ assms(2)])
  show ?thesis
    unfolding SetContainerStateWithConcurrencyLimit_def Let_def wp_bindE wp_attempt
  proof (rule wp_Obtain, goal_cases)
    case (1 tok w1)
    then have "agree_off {WorkspaceConcurrencyLimitLock ?ws} (V w) (V w1)" by simp
    from body [OF this] show ?case
      unfolding sum.case wp_deferring
    proof (rule wp_mono, goal_cases)
      case (1 a w2)
      then show ?case by (intro wp_ReleaseLock) (blast intro: within_quota_lock)+
    qed (auto intro!: wp_ReleaseLock)
  next
    case (2 e w1)
    then show ?case using wp_mono [OF body [OF 2(1)]] by (auto simp: wp_throwE)
  qed
qed

text \<open>With the locks free, the outcome is decided by the usage alone.\<close>

lemma quota_decides:
  assumes "quota_pre (V w) r" and "in_i64 now"
    and "V w (WorkspaceConcurrencyLimitLock (r_WorkspaceId r)) = None" "V w (SchedulerContainerLock (r_ContainerId r)) = None"
    and "isHash (V w (SchedulerContainerState (r_ContainerId r)))" "isSet (V w (SchedulerContainerIndex (r_StubId r)))"
  shows "fst (SetContainerStateWithConcurrencyLimit R now (Some q) r w) =
     (if usage gpus (V w) (r_WorkspaceId r) + uint (r_GpuCount r) > uint (cl_GPULimit q)
      then Inl (ThrottledByConcurrencyLimitError ''gpu quota exceeded'')
      else if usage cs_Cpu (V w) (r_WorkspaceId r) + r_Cpu r > uint (cl_CPUMillicoreLimit q)
      then Inl (ThrottledByConcurrencyLimitError ''cpu quota exceeded'')
      else Inr ())" (is "_ = ?res")
proof -
  let ?ws = "r_WorkspaceId r" and ?i = "r_ContainerId r"
  let ?Q = "\<lambda>a w'. Inr a = ?res" and ?E = "\<lambda>e w'. Inl e = ?res"
  have "wp (SetContainerStateWithConcurrencyLimit R now (Some q) r) ?Q ?E w"
    unfolding SetContainerStateWithConcurrencyLimit_def Let_def wp_bindE wp_attempt
  proof (rule up_Obtain [OF assms(3)], goal_cases)
    case (1 tok w1)
    then have lock: "agree_off {WorkspaceConcurrencyLimitLock ?ws} (V w) (V w1)" by simp
    note pre1 = quota_pre_lock [OF lock assms(1)]
    have ok: "ws_ok (V w) ?ws" using assms(1) by (simp add: quota_pre_def)
    have same: "usage f (V w1) ?ws = usage f (V w) ?ws" for f by (rule agree_off_index(4) [OF lock ok])
    have set: "wp (SetContainerState R ?i (pendingState now r)) (\<lambda>a s'. wp (onR (cReleaseLock R (WorkspaceConcurrencyLimitLock ?ws) tok)) (\<lambda>_ _. P) (\<lambda>_ _. P) s') E' w2"
      if P and pr: "pruned (V w1) (SchedulerContainerWorkspaceIndex ?ws) (V w1) (V w2)" for w2 P E'
    proof (rule SetContainerState_up)
      have "agree_off {SchedulerContainerWorkspaceIndex ?ws, WorkspaceConcurrencyLimitLock ?ws} (V w) (V w2)"
        using lock pr by (auto simp: pruned_def agree_off_def)
      then show "isHash (V w2 (SchedulerContainerState ?i))" "isSet (V w2 (SchedulerContainerIndex (cs_StubId (pendingState now r))))"
        "V w2 (SchedulerContainerLock ?i) = None"
        using assms(4-6) by (simp_all add: agree_off_def pendingState_def)
      show "isSet (V w2 (SchedulerContainerWorkspaceIndex (cs_WorkspaceId (pendingState now r))))"
        using pr by (simp add: pruned_def pendingState_def)
      show "wf_ContainerState (pendingState now r)"
        using assms(1,2) by (simp add: wf_ContainerState_def pendingState_def quota_pre_def in_i64_def)
    qed (use that(1) in \<open>auto intro: wp_ReleaseLock\<close>)
    show ?case
      unfolding sum.case option.case wp_deferring wp_thenE
      by (rule quota_listing [OF pre1]) (auto simp: same intro!: wp_ReleaseLock set)
  qed
  then show ?thesis by (rule wp_fst)
qed

end

section \<open>Properties\<close>

definition ex_quota :: ConcurrencyLimit where
  "ex_quota = \<lparr>cl_ExternalId = ''q'', cl_WorkspaceId = 1, cl_GPULimit = 2, cl_CPUMillicoreLimit = 8000\<rparr>"

definition ex_empty :: "mem world" where
  "ex_empty = \<lparr>rdb = Map.empty, locks = Map.empty\<rparr>"

lemma ex_empty_view [simp]: "mem_view (rdb ex_empty) k = None"
  by (simp add: ex_empty_def)

lemma ex_quota_pre: "quota_pre (mem_view (rdb ex_empty)) ex_request" "usage f (mem_view (rdb ex_empty)) ws = 0"
  by (simp_all add: quota_pre_def ws_ok_def usage_def ex_request_def in_i64_def)

lemma ex_quota_ok:
  "fst (SetContainerStateWithConcurrencyLimit mem_client 0 (Some ex_quota) ex_request ex_empty) = Inr ()"
  by (subst mem.quota_decides) (simp_all add: ex_quota_pre in_i64_def, simp add: ex_quota_def ex_request_def)



text \<open>
  C17. With the locks free, the outcome of the quota check is decided by what the workspace uses: the request is
  throttled exactly when its GPUs, or else its CPU, do not fit into what is left of the limit.
\<close>

theorem quota_decision:
  assumes "redis_up R view" and "quota_pre (view (rdb w)) r" and "in_i64 now"
    and "view (rdb w) (WorkspaceConcurrencyLimitLock (r_WorkspaceId r)) = None"
    and "view (rdb w) (SchedulerContainerLock (r_ContainerId r)) = None"
    and "isHash (view (rdb w) (SchedulerContainerState (r_ContainerId r)))"
    and "isSet (view (rdb w) (SchedulerContainerIndex (r_StubId r)))"
  shows "fst (SetContainerStateWithConcurrencyLimit R now (Some q) r w) =
     (if usage gpus (view (rdb w)) (r_WorkspaceId r) + uint (r_GpuCount r) > uint (cl_GPULimit q)
      then Inl (ThrottledByConcurrencyLimitError ''gpu quota exceeded'')
      else if usage cs_Cpu (view (rdb w)) (r_WorkspaceId r) + r_Cpu r > uint (cl_CPUMillicoreLimit q)
      then Inl (ThrottledByConcurrencyLimitError ''cpu quota exceeded'')
      else Inr ())"
  by (rule redis_up.quota_decides [OF assms])

theorem quota_decision_witness:
  "fst (SetContainerStateWithConcurrencyLimit mem_client 0 (Some (ex_quota\<lparr>cl_GPULimit := 0\<rparr>)) ex_request ex_empty) =
     Inl (ThrottledByConcurrencyLimitError ''gpu quota exceeded'')"
  by (subst quota_decision [where view = mem_view and w = ex_empty and r = ex_request, OF mem.redis_up_axioms ex_quota_pre(1)])
    (simp_all add: ex_quota_pre in_i64_def, simp add: ex_quota_def ex_request_def)

end
