(* ===== verification/Go_Sort.thy ===== *)
theory Go_Sort
  imports Main "HOL-Library.Multiset"
begin

text \<open>
  \<open>sort.Slice\<close> and \<open>slices.SortFunc\<close> of the Go library, as an interface: the result is a permutation of
  the argument that is ordered by the comparison, elements that compare equal being in any order. The
  scheduler takes the sorting function as an argument. \<open>go_isort\<close>, the insertion sort that the Go
  library runs on short slices, interprets the locale.
\<close>

definition weak_order :: "('a \<Rightarrow> 'a \<Rightarrow> bool) \<Rightarrow> bool" where
  "weak_order lt \<longleftrightarrow> (\<forall>x y. lt x y \<longrightarrow> \<not> lt y x) \<and>
     (\<forall>x y z. \<not> lt x y \<longrightarrow> \<not> lt y z \<longrightarrow> \<not> lt x z)"

fun go_insert :: "('a \<Rightarrow> 'a \<Rightarrow> bool) \<Rightarrow> 'a \<Rightarrow> 'a list \<Rightarrow> 'a list" where
  "go_insert lt x [] = [x]"
| "go_insert lt x (y # ys) = (if lt x y then x # y # ys else y # go_insert lt x ys)"

definition go_isort :: "('a \<Rightarrow> 'a \<Rightarrow> bool) \<Rightarrow> 'a list \<Rightarrow> 'a list" where
  "go_isort lt xs = fold (go_insert lt) xs []"

locale go_sort =
  fixes sortSlice :: "('a \<Rightarrow> 'a \<Rightarrow> bool) \<Rightarrow> 'a list \<Rightarrow> 'a list"
  assumes mset_sortSlice: "weak_order lt \<Longrightarrow> mset (sortSlice lt xs) = mset xs"
    and sorted_sortSlice: "weak_order lt \<Longrightarrow> sorted_wrt (\<lambda>x y. \<not> lt y x) (sortSlice lt xs)"
begin

lemma set_sortSlice: "weak_order lt \<Longrightarrow> set (sortSlice lt xs) = set xs"
  by (metis mset_sortSlice set_mset_mset)

lemma sortSlice_Nil: "weak_order lt \<Longrightarrow> sortSlice lt xs = [] \<longleftrightarrow> xs = []"
  by (metis mset_sortSlice mset_zero_iff)

lemma length_sortSlice: "weak_order lt \<Longrightarrow> length (sortSlice lt xs) = length xs"
  by (metis mset_sortSlice size_mset)

text \<open>The first element is not beaten by any other.\<close>

lemma hd_sortSlice:
  assumes "weak_order lt" and "xs \<noteq> []"
  shows "hd (sortSlice lt xs) \<in> set xs" and "x \<in> set xs \<Longrightarrow> \<not> lt x (hd (sortSlice lt xs))"
proof -
  obtain y ys where y: "sortSlice lt xs = y # ys"
    using sortSlice_Nil [OF assms(1)] assms(2) by (cases "sortSlice lt xs") auto
  have mem: "set xs = insert y (set ys)" using set_sortSlice [OF assms(1), of xs] y by simp
  then show "hd (sortSlice lt xs) \<in> set xs" by (simp add: y)
  show "\<not> lt x (hd (sortSlice lt xs))" if "x \<in> set xs"
  proof (cases "x = y")
    case True
    have "\<not> lt y y" using assms(1) unfolding weak_order_def by blast
    with True show ?thesis by (simp add: y)
  next
    case False
    then have "x \<in> set ys" using that mem by simp
    then show ?thesis using sorted_sortSlice [OF assms(1), of xs] by (simp add: y)
  qed
qed

end

lemma mset_go_insert [simp]: "mset (go_insert lt x ys) = add_mset x (mset ys)"
  by (induction ys) auto

lemma set_go_insert [simp]: "set (go_insert lt x ys) = insert x (set ys)"
  by (metis mset_go_insert set_mset_add_mset_insert set_mset_mset)

lemma sorted_go_insert:
  assumes "weak_order lt" and "sorted_wrt (\<lambda>x y. \<not> lt y x) ys"
  shows "sorted_wrt (\<lambda>x y. \<not> lt y x) (go_insert lt x ys)"
  using assms(2)
proof (induction ys)
  case (Cons y ys)
  show ?case
  proof (cases "lt x y")
    case True
    then have "\<not> lt y x" using assms(1) unfolding weak_order_def by blast
    moreover have "\<not> lt z x" if "z \<in> set ys" for z
    proof -
      have "\<not> lt z y" using that Cons.prems by simp
      with \<open>\<not> lt y x\<close> show ?thesis using assms(1) unfolding weak_order_def by blast
    qed
    ultimately show ?thesis using Cons.prems True by simp
  next
    case False
    with Cons show ?thesis by auto
  qed
qed simp

lemma mset_go_isort: "mset (go_isort lt xs) = mset xs"
proof -
  have "mset (fold (go_insert lt) xs acc) = mset acc + mset xs" for acc
    by (induction xs arbitrary: acc) auto
  then show ?thesis by (simp add: go_isort_def)
qed

lemma sorted_go_isort:
  assumes "weak_order lt"
  shows "sorted_wrt (\<lambda>x y. \<not> lt y x) (go_isort lt xs)"
proof -
  have "sorted_wrt (\<lambda>x y. \<not> lt y x) acc \<Longrightarrow> sorted_wrt (\<lambda>x y. \<not> lt y x) (fold (go_insert lt) xs acc)" for acc
    by (induction xs arbitrary: acc) (auto intro: sorted_go_insert [OF assms])
  then show ?thesis by (simp add: go_isort_def)
qed

interpretation isort: go_sort go_isort
  by unfold_locales (simp_all add: mset_go_isort sorted_go_isort)

text \<open>Comparing by an integer key, larger keys first.\<close>

lemma weak_order_key [simp]: "weak_order (\<lambda>x y. (f x :: int) > f y)"
  by (auto simp: weak_order_def)

end
