(* ===== verification/Worker_Select.thy ===== *)
theory Worker_Select
  imports Worker_Repo Go_Sort
begin

text \<open>
  The choice of a worker for a request, from \<open>pkg/scheduler/scheduler.go\<close>: the three filters, the score,
  and \<open>selectWorker\<close>, which sorts the scored workers by \<open>sort.Slice\<close> and takes the first. The sorting
  function is an argument \<open>srt\<close>, specified by the locale \<open>go_sort\<close>. The lemmas characterise the filters
  by one predicate \<open>suitable\<close> and show that the chosen worker is a suitable one with the highest score.
\<close>

section \<open>Filters\<close>

definition filterWorkersByPoolSelector :: "worker list \<Rightarrow> ContainerRequest \<Rightarrow> worker list" where
  "filterWorkersByPoolSelector workers request =
     filter (\<lambda>worker. (r_PoolSelector request \<noteq> [] \<and> w_PoolName worker = r_PoolSelector request) \<or>
                      (r_PoolSelector request = [] \<and> \<not> w_RequiresPoolSelector worker)) workers"

definition gpuRequestsMap :: "ContainerRequest \<Rightarrow> (string \<rightharpoonup> nat)" where
  "gpuRequestsMap request =
     (if GPU_ANY \<in> set (r_GpuRequest request) then GPUTypesToMap AllGPUTypes
      else index_map 0 (r_GpuRequest request) Map.empty)"

text \<open>One iteration of the loop of \<open>filterWorkersByResources\<close>; \<open>None\<close> is \<open>continue\<close>.\<close>

definition resourceFit :: "ContainerRequest \<Rightarrow> worker \<Rightarrow> worker option" where
  "resourceFit request worker =
     (let requiresGPU = RequiresGPU request;
          isGpuWorker = (w_Gpu worker \<noteq> [])
      in if w_FreeCpu worker < r_Cpu request \<or> w_FreeMemory worker < r_Memory request then None
         else if w_Status worker = WorkerStatusDisabled then None
         else if (requiresGPU \<and> \<not> isGpuWorker) \<or> (\<not> requiresGPU \<and> isGpuWorker) then None
         else if requiresGPU then
           (case gpuRequestsMap request (w_Gpu worker) of
              None \<Rightarrow> None
            | Some priorityModifier \<Rightarrow>
                if w_FreeGpuCount worker < r_GpuCount request then None
                else Some (worker\<lparr>w_Priority := i32 (w_Priority worker - i32 (int priorityModifier))\<rparr>))
         else Some worker)"

definition filterWorkersByResources :: "worker list \<Rightarrow> ContainerRequest \<Rightarrow> worker list" where
  "filterWorkersByResources workers request = List.map_filter (resourceFit request) workers"

definition ContainerRuntimeGvisor :: string where
  "ContainerRuntimeGvisor = ''gvisor''"

definition filterWorkersByFlags :: "worker list \<Rightarrow> ContainerRequest \<Rightarrow> worker list" where
  "filterWorkersByFlags workers request =
     filter (\<lambda>worker. \<not> (\<not> r_Preemptable request \<and> w_Preemptable worker) \<and>
                      \<not> (r_DockerEnabled request \<and> w_Runtime worker \<noteq> ContainerRuntimeGvisor)) workers"

section \<open>Selection\<close>

definition scoreAvailableWorker :: int where
  "scoreAvailableWorker = 10"

definition scoreWorker :: "worker \<Rightarrow> int" where
  "scoreWorker worker =
     i32 ((if w_Status worker = WorkerStatusAvailable then i32 (0 + scoreAvailableWorker) else 0) + w_Priority worker)"

definition selectFrom :: "((worker \<times> int \<Rightarrow> worker \<times> int \<Rightarrow> bool) \<Rightarrow> (worker \<times> int) list \<Rightarrow> (worker \<times> int) list) \<Rightarrow>
    ContainerRequest \<Rightarrow> worker list \<Rightarrow> goerror + worker" where
  "selectFrom srt request workers =
     (let filteredWorkers = filterWorkersByFlags
            (filterWorkersByResources (filterWorkersByPoolSelector workers request) request) request
      in if length filteredWorkers = 0 then Inl ErrNoSuitableWorkerFound
         else let scoredWorkers = map (\<lambda>worker. (worker, scoreWorker worker)) filteredWorkers
              in Inr (fst (srt (\<lambda>a b. snd a > snd b) scoredWorkers ! 0)))"

definition selectWorker :: "'s redis_client \<Rightarrow>
    ((worker \<times> int \<Rightarrow> worker \<times> int \<Rightarrow> bool) \<Rightarrow> (worker \<times> int) list \<Rightarrow> (worker \<times> int) list) \<Rightarrow>
    ContainerRequest \<Rightarrow> ('s world, worker) io" where
  "selectWorker R srt request =
     bindE (GetAllWorkers R) (\<lambda>workers. liftSum (selectFrom srt request workers))"

section \<open>Lemmas\<close>

text \<open>What the filters check of a worker.\<close>

definition suitable :: "ContainerRequest \<Rightarrow> worker \<Rightarrow> bool" where
  "suitable r w \<longleftrightarrow>
     r_Cpu r \<le> w_FreeCpu w \<and> r_Memory r \<le> w_FreeMemory w \<and> w_Status w \<noteq> WorkerStatusDisabled \<and>
     (if r_PoolSelector r = [] then \<not> w_RequiresPoolSelector w else w_PoolName w = r_PoolSelector r) \<and>
     (if RequiresGPU r then w_Gpu w \<in> dom (gpuRequestsMap r) \<and> w_Gpu w \<noteq> [] \<and> r_GpuCount r \<le> w_FreeGpuCount w
      else w_Gpu w = []) \<and>
     (w_Preemptable w \<longrightarrow> r_Preemptable r) \<and> (r_DockerEnabled r \<longrightarrow> w_Runtime w = ContainerRuntimeGvisor)"

text \<open>The priority after the filters: a GPU type later in the request's list costs its position.\<close>

definition adjusted :: "ContainerRequest \<Rightarrow> worker \<Rightarrow> worker" where
  "adjusted r w =
     (if RequiresGPU r then w\<lparr>w_Priority := i32 (w_Priority w - i32 (int (the (gpuRequestsMap r (w_Gpu w)))))\<rparr> else w)"

lemma adjusted_sel [simp]:
  "w_Id (adjusted r w) = w_Id w" "w_Status (adjusted r w) = w_Status w" "w_Gpu (adjusted r w) = w_Gpu w"
  "w_FreeCpu (adjusted r w) = w_FreeCpu w" "w_FreeMemory (adjusted r w) = w_FreeMemory w"
  "w_FreeGpuCount (adjusted r w) = w_FreeGpuCount w" "w_PoolName (adjusted r w) = w_PoolName w"
  "w_Preemptable (adjusted r w) = w_Preemptable w" "w_Runtime (adjusted r w) = w_Runtime w"
  "w_ResourceVersion (adjusted r w) = w_ResourceVersion w"
  "w_RequiresPoolSelector (adjusted r w) = w_RequiresPoolSelector w"
  by (simp_all add: adjusted_def)

definition fits :: "ContainerRequest \<Rightarrow> worker \<Rightarrow> bool" where
  "fits r w \<longleftrightarrow>
     r_Cpu r \<le> w_FreeCpu w \<and> r_Memory r \<le> w_FreeMemory w \<and> w_Status w \<noteq> WorkerStatusDisabled \<and>
     (if RequiresGPU r then w_Gpu w \<in> dom (gpuRequestsMap r) \<and> w_Gpu w \<noteq> [] \<and> r_GpuCount r \<le> w_FreeGpuCount w
      else w_Gpu w = [])"

lemma resourceFit_fits: "resourceFit r w = (if fits r w then Some (adjusted r w) else None)"
  by (auto simp: resourceFit_def adjusted_def fits_def Let_def not_less not_le split: option.splits)

lemma filterWorkersByResources_fits: "filterWorkersByResources ws r = map (adjusted r) (filter (fits r) ws)"
  by (induction ws) (simp_all add: filterWorkersByResources_def List.map_filter_def resourceFit_fits)

lemma filters_suitable:
  "filterWorkersByFlags (filterWorkersByResources (filterWorkersByPoolSelector ws r) r) r =
     map (adjusted r) (filter (suitable r) ws)"
  unfolding filterWorkersByFlags_def filterWorkersByPoolSelector_def filterWorkersByResources_fits filter_map filter_filter
  by (intro arg_cong [where f = "map (adjusted r)"] filter_cong refl) (auto simp: suitable_def fits_def)

lemma suitable_adjusted [simp]: "suitable r (adjusted r w) = suitable r w"
  by (simp add: suitable_def)

context go_sort
begin

lemma hd_by_score:
  assumes "xs \<noteq> []"
  shows "sortSlice (\<lambda>a b. (f a :: int) > f b) xs ! 0 \<in> set xs"
    and "y \<in> set xs \<Longrightarrow> f y \<le> f (sortSlice (\<lambda>a b. f a > f b) xs ! 0)"
proof -
  have "sortSlice (\<lambda>a b. f a > f b) xs \<noteq> []" using assms sortSlice_Nil [OF weak_order_key] by blast
  then have "sortSlice (\<lambda>a b. f a > f b) xs ! 0 = hd (sortSlice (\<lambda>a b. f a > f b) xs)" by (simp add: hd_conv_nth)
  then show "sortSlice (\<lambda>a b. f a > f b) xs ! 0 \<in> set xs"
    and "y \<in> set xs \<Longrightarrow> f y \<le> f (sortSlice (\<lambda>a b. f a > f b) xs ! 0)"
    using hd_sortSlice [OF weak_order_key [of f] assms] by (auto simp: not_less)
qed

end

text \<open>The selection from a list of workers, for every sorting function that meets its contract.\<close>

lemma selectFrom_Inr:
  assumes "go_sort srt" and "selectFrom srt r ws = Inr w'"
  shows "\<exists>w \<in> set ws. w' = adjusted r w \<and> suitable r w \<and>
     (\<forall>x \<in> set ws. suitable r x \<longrightarrow> scoreWorker (adjusted r x) \<le> scoreWorker w')"
proof -
  let ?xs = "map (\<lambda>w. (w, scoreWorker w)) (map (adjusted r) (filter (suitable r) ws))"
  let ?p = "srt (\<lambda>a b. snd a > snd b) ?xs ! 0"
  have ne: "?xs \<noteq> []" and w': "w' = fst ?p"
    using assms(2) by (auto simp: selectFrom_def filters_suitable Let_def split: if_splits)
  have "?p \<in> set ?xs" and best: "\<And>y. y \<in> set ?xs \<Longrightarrow> snd y \<le> snd ?p"
    using go_sort.hd_by_score [OF assms(1) ne, where f = snd] by blast+
  then obtain w where "w \<in> set ws" "suitable r w" "?p = (adjusted r w, scoreWorker (adjusted r w))" by auto
  moreover have "scoreWorker (adjusted r x) \<le> scoreWorker w'" if "x \<in> set ws" "suitable r x" for x
    using best [of "(adjusted r x, scoreWorker (adjusted r x))"] that calculation(3) w' by auto
  ultimately show ?thesis using w' by auto
qed

lemma selectFrom_Inl:
  "selectFrom srt r ws = Inl e \<longleftrightarrow> e = ErrNoSuitableWorkerFound \<and> (\<forall>w \<in> set ws. \<not> suitable r w)"
  by (auto simp: selectFrom_def filters_suitable Let_def filter_empty_conv)

lemma selectWorker_optimal:
  assumes "redis_up R view" and "go_sort srt"
    and "setOf (view (rdb w) SchedulerWorkerIndex) = SchedulerWorkerState ` I" and "isSet (view (rdb w) SchedulerWorkerIndex)"
    and "\<forall>i \<in> I. plain i \<and> isHash (view (rdb w) (SchedulerWorkerState i)) \<and> view (rdb w) (SchedulerWorkerLock i) = None"
  shows "wp (selectWorker R srt r)
      (\<lambda>x _. \<exists>i \<in> I. x = adjusted r (read_worker (view (rdb w)) i) \<and> suitable r (read_worker (view (rdb w)) i) \<and>
         (\<forall>j \<in> I. suitable r (read_worker (view (rdb w)) j) \<longrightarrow>
            scoreWorker (adjusted r (read_worker (view (rdb w)) j)) \<le> scoreWorker x))
      (\<lambda>e _. e = ErrNoSuitableWorkerFound \<and> (\<forall>i \<in> I. \<not> suitable r (read_worker (view (rdb w)) i))) w"
  unfolding selectWorker_def wp_eqs
proof (rule redis_up.GetAllWorkers_up [OF assms(1,3,4,5)], goal_cases)
  case (1 "is" w1)
  let ?ws = "map (read_worker (view (rdb w))) is"
  show ?case
  proof (cases "selectFrom srt r ?ws")
    case (Inl e)
    with selectFrom_Inl [of srt r ?ws e] 1(1) show ?thesis by auto
  next
    case (Inr x)
    with selectFrom_Inr [OF assms(2) Inr] 1(1) show ?thesis by auto
  qed
qed

text \<open>A worker with free GPUs in the index of the reference server, and a request for one of them.\<close>

definition ex_pool :: "mem world" where
  "ex_pool = \<lparr>rdb = [SchedulerWorkerIndex \<mapsto> MSet [SchedulerWorkerState ''w1''],
                     SchedulerWorkerState ''w1'' \<mapsto> MHash (Worker_ToSlice ex_worker)], locks = Map.empty\<rparr>"

definition ex_gpu_request :: ContainerRequest where
  "ex_gpu_request = ex_request\<lparr>r_GpuRequest := [''T4'']\<rparr>"

lemma ex_pool_keys:
  "mem_view (rdb ex_pool) SchedulerWorkerIndex = Some (RSet {SchedulerWorkerState ''w1''})"
  "mem_view (rdb ex_pool) (SchedulerWorkerState ''w1'') = Some (RHash (map_of (Worker_ToSlice ex_worker)))"
  "mem_view (rdb ex_pool) (SchedulerWorkerLock ''w1'') = None"
  by (simp_all add: ex_pool_def mem_view_def)

lemma ex_pool_read: "read_worker (mem_view (rdb ex_pool)) ''w1'' = ex_worker"
  by (simp add: read_worker_def ex_pool_keys Worker_ToStruct_ToSlice ex_worker_wf)

lemma ex_suitable: "suitable ex_gpu_request ex_worker"
  by (simp add: suitable_def ex_gpu_request_def ex_request_def ex_worker_def zero_ContainerRequest_def zero_worker_def
    RequiresGPU_def gpuRequestsMap_def GPU_ANY_def status_defs)

lemma ex_plain: "plain ''w1''"
  by (simp add: plain_def)

lemma ex_select: "fst (selectWorker mem_client go_isort ex_gpu_request ex_pool) = Inr (adjusted ex_gpu_request ex_worker)"
  by (rule wp_fst, rule wp_mono [OF selectWorker_optimal [OF mem.redis_up_axioms isort.go_sort_axioms, where I = "{''w1''}"]])
    (auto simp: ex_pool_keys ex_pool_read ex_suitable ex_plain)

section \<open>Properties\<close>

text \<open>
  C5. Whatever sorting function is used, a worker that \<open>selectWorker\<close> returns is in the index, has the
  free CPU, memory and GPUs of the right type that the request asks for, is not cordoned, and
  matches the pool selector, preemptibility and runtime of the request; only its priority is changed.
\<close>

theorem selected_worker_is_suitable:
  assumes "redis R view" and "go_sort srt"
    and "setOf (view (rdb w) SchedulerWorkerIndex) = SchedulerWorkerState ` I" and "\<forall>i \<in> I. plain i"
    and "selectWorker R srt r w = (Inr x, w')"
  shows "\<exists>i \<in> I. suitable r (read_worker (view (rdb w)) i) \<and> x = adjusted r (read_worker (view (rdb w)) i)"
proof -
  have "wp (selectWorker R srt r)
      (\<lambda>x _. \<exists>i \<in> I. suitable r (read_worker (view (rdb w)) i) \<and> x = adjusted r (read_worker (view (rdb w)) i))
      (\<lambda>_ _. True) w"
    unfolding selectWorker_def wp_eqs
  proof (rule wp_mono [OF redis.GetAllWorkers_spec [OF assms(1,3,4)]], goal_cases)
    case (1 ws w1)
    then show ?case
      using selectFrom_Inr [OF assms(2), of r ws] by (auto split: sum.splits) blast
  qed simp
  from wp_Inr [OF this assms(5)] show ?thesis .
qed

theorem selected_worker_is_suitable_witness:
  "\<exists>x w'. selectWorker mem_client go_isort ex_gpu_request ex_pool = (Inr x, w') \<and> 1 \<le> w_FreeGpuCount x"
proof -
  obtain w' where w': "selectWorker mem_client go_isort ex_gpu_request ex_pool = (Inr (adjusted ex_gpu_request ex_worker), w')"
    using ex_select by (metis prod.collapse)
  have "\<exists>i \<in> {''w1''}. suitable ex_gpu_request (read_worker (mem_view (rdb ex_pool)) i) \<and>
      adjusted ex_gpu_request ex_worker = adjusted ex_gpu_request (read_worker (mem_view (rdb ex_pool)) i)"
    by (rule selected_worker_is_suitable [OF mem.redis_axioms isort.go_sort_axioms _ _ w'])
      (simp_all add: ex_pool_keys ex_plain)
  with w' show ?thesis
    by (auto simp: ex_pool_read) (simp add: ex_worker_def)
qed

text \<open>
  C6. With the worker locks free, \<open>selectWorker\<close> fails exactly when no worker of the index is suitable, and
  otherwise returns one whose score is at least that of every suitable worker.
\<close>

theorem selection_is_optimal:
  assumes "redis_up R view" and "go_sort srt"
    and "setOf (view (rdb w) SchedulerWorkerIndex) = SchedulerWorkerState ` I" and "isSet (view (rdb w) SchedulerWorkerIndex)"
    and "\<forall>i \<in> I. plain i \<and> isHash (view (rdb w) (SchedulerWorkerState i)) \<and> view (rdb w) (SchedulerWorkerLock i) = None"
  shows "if \<exists>i \<in> I. suitable r (read_worker (view (rdb w)) i)
    then \<exists>i \<in> I. fst (selectWorker R srt r w) = Inr (adjusted r (read_worker (view (rdb w)) i)) \<and>
        suitable r (read_worker (view (rdb w)) i) \<and>
        (\<forall>j \<in> I. suitable r (read_worker (view (rdb w)) j) \<longrightarrow>
           scoreWorker (adjusted r (read_worker (view (rdb w)) j)) \<le> scoreWorker (adjusted r (read_worker (view (rdb w)) i)))
    else fst (selectWorker R srt r w) = Inl ErrNoSuitableWorkerFound"
  using selectWorker_optimal [OF assms, of r]
  by (cases "selectWorker R srt r w"; cases "fst (selectWorker R srt r w)") (auto simp: wp_def)

theorem selection_is_optimal_witness:
  "fst (selectWorker mem_client go_isort ex_gpu_request ex_pool) = Inr (adjusted ex_gpu_request ex_worker)"
  using selection_is_optimal [OF mem.redis_up_axioms isort.go_sort_axioms, where w = ex_pool and I = "{''w1''}" and r = ex_gpu_request]
  by (simp add: ex_pool_keys ex_pool_read ex_suitable ex_plain)

end
