(* ===== verification/State_Repos.thy ===== *)
theory State_Repos
  imports Worker_Repo
begin

text \<open>
  Two small repositories: \<open>pkg/repository/workspace_redis.go\<close> caches the concurrency limit of a workspace
  and authorised tokens, and \<open>pkg/repository/worker_pool_redis.go\<close> keeps the state of the worker pools
  and their locks. The JSON of a token is a parameter, as for requests.
\<close>

section \<open>Workspaces\<close>

definition cachedTokenTTLS :: int where
  "cachedTokenTTLS = 600"

definition cachedConcurrencyLimitTtl :: int where
  "cachedConcurrencyLimitTtl = 600"

definition GetConcurrencyLimitByWorkspaceId :: "'s redis_client \<Rightarrow> string \<Rightarrow> ('s world, ConcurrencyLimit option) io" where
  "GetConcurrencyLimitByWorkspaceId R workspaceId =
     bindE (HGetAll R (WorkspaceConcurrencyLimit workspaceId)) (\<lambda>res.
       if length res = 0 then returnE None
       else returnE (Some (ConcurrencyLimit_ToStruct (map_of res) zero_ConcurrencyLimit)))"

definition SetConcurrencyLimitByWorkspaceId :: "'s redis_client \<Rightarrow> string \<Rightarrow> ConcurrencyLimit \<Rightarrow> ('s world, unit) io" where
  "SetConcurrencyLimitByWorkspaceId R workspaceId limit =
     (let key = WorkspaceConcurrencyLimit workspaceId
      in thenE (HSet R key (ConcurrencyLimit_ToSlice limit))
               (Expire R key (cachedConcurrencyLimitTtl * second)))"

text \<open>\<open>AuthInfo\<close>: the two pointers may be nil after \<open>json.Unmarshal\<close>.\<close>

record ('t, 'w) AuthInfo =
  ai_Workspace :: "'w option"
  ai_Token :: "'t option"

definition AuthorizeToken :: "'s redis_client \<Rightarrow> (string \<Rightarrow> goerror + ('t, 'w) AuthInfo) \<Rightarrow> string \<Rightarrow>
    ('s world, 't \<times> 'w) io" where
  "AuthorizeToken R unm token =
     bindE (Get R (WorkspaceAuthorizedToken token)) (\<lambda>res.
       if res = [] then throwE (ErrNew ''token not found'')
       else bindE (liftSum (unm res)) (\<lambda>info.
         case (ai_Token info, ai_Workspace info) of
           (Some t, Some w) \<Rightarrow> returnE (t, w)
         | _ \<Rightarrow> throwE (ErrNew ''token not found'')))"

definition RevokeToken :: "'s redis_client \<Rightarrow> string \<Rightarrow> ('s world, unit) io" where
  "RevokeToken R tokenKey = Del R (WorkspaceAuthorizedToken tokenKey)"

definition SetAuthorizationToken :: "'s redis_client \<Rightarrow> (('t, 'w) AuthInfo \<Rightarrow> goerror + string) \<Rightarrow> ('t \<Rightarrow> string) \<Rightarrow>
    't \<Rightarrow> 'w \<Rightarrow> ('s world, unit) io" where
  "SetAuthorizationToken R mar key token workspace =
     bindE (liftSum (mar \<lparr>ai_Workspace = Some workspace, ai_Token = Some token\<rparr>)) (\<lambda>bytes.
       SetKey R (WorkspaceAuthorizedToken (key token)) bytes (cachedTokenTTLS * second))"

section \<open>Worker pools\<close>

definition GetWorkerPoolState :: "'s redis_client \<Rightarrow> string \<Rightarrow> ('s world, worker_pool_state) io" where
  "GetWorkerPoolState R poolName =
     bindE (attempt (HGetAll R (WorkerPoolState poolName))) (\<lambda>r.
       case r of
         Inl e \<Rightarrow> if e \<noteq> RedisNil then throwE (Errorf ''failed to get worker pool state'' e)
                  else throwE (ErrWorkerPoolStateNotFound poolName)
       | Inr res \<Rightarrow>
           if length res = 0 then throwE (ErrWorkerPoolStateNotFound poolName)
           else returnE (WorkerPoolState_ToStruct (map_of res) zero_WorkerPoolState))"

definition SetWorkerPoolStateLock :: "'s redis_client \<Rightarrow> string \<Rightarrow> ('s world, unit) io" where
  "SetWorkerPoolStateLock R poolName = Acquire R (WorkerPoolStateLock poolName) 10 0"

definition RemoveWorkerPoolStateLock :: "'s redis_client \<Rightarrow> string \<Rightarrow> ('s world, unit) io" where
  "RemoveWorkerPoolStateLock R poolName = Release R (WorkerPoolStateLock poolName)"

definition SetWorkerPoolState_slice :: "worker_pool_state \<Rightarrow> (string \<times> string) list" where
  "SetWorkerPoolState_slice state =
     [(''status'', ps_Status state), (''scheduling_latency'', itoa (ps_SchedulingLatency state)),
      (''free_gpu'', utoa (unat (ps_FreeGpu state))), (''free_cpu'', itoa (ps_FreeCpu state)),
      (''free_memory'', itoa (ps_FreeMemory state)), (''pending_workers'', itoa (ps_PendingWorkers state)),
      (''available_workers'', itoa (ps_AvailableWorkers state)),
      (''pending_containers'', itoa (ps_PendingContainers state)),
      (''running_containers'', itoa (ps_RunningContainers state)),
      (''registered_machines'', itoa (ps_RegisteredMachines state)),
      (''pending_machines'', itoa (ps_PendingMachines state))]"

definition SetWorkerPoolState :: "'s redis_client \<Rightarrow> string \<Rightarrow> worker_pool_state \<Rightarrow> ('s world, unit) io" where
  "SetWorkerPoolState R poolName state = HSet R (WorkerPoolState poolName) (SetWorkerPoolState_slice state)"

definition SetWorkerPoolSizerLock :: "'s redis_client \<Rightarrow> string \<Rightarrow> ('s world, unit) io" where
  "SetWorkerPoolSizerLock R poolName = Acquire R (WorkerPoolSizerLock poolName) 3 0"

definition RemoveWorkerPoolSizerLock :: "'s redis_client \<Rightarrow> string \<Rightarrow> ('s world, unit) io" where
  "RemoveWorkerPoolSizerLock R poolName = Release R (WorkerPoolSizerLock poolName)"

definition SetWorkerCleanerLock :: "'s redis_client \<Rightarrow> string \<Rightarrow> ('s world, unit) io" where
  "SetWorkerCleanerLock R poolName = Acquire R (WorkerPoolCleanerLock poolName) 10 3"

definition RemoveWorkerCleanerLock :: "'s redis_client \<Rightarrow> string \<Rightarrow> ('s world, unit) io" where
  "RemoveWorkerCleanerLock R poolName = Release R (WorkerPoolCleanerLock poolName)"

section \<open>Lemmas\<close>

lemma ConcurrencyLimit_stored [simp]:
  "ConcurrencyLimit_ToStruct (h ++ map_of (rev (ConcurrencyLimit_ToSlice l))) l0 = l"
  by (rule ConcurrencyLimit_roundtrip [OF holds_hset]) simp_all

lemma ConcurrencyLimit_ToSlice_not_Nil [simp]: "ConcurrencyLimit_ToSlice l \<noteq> []"
  by (simp add: ConcurrencyLimit_ToSlice_def)

lemma SetWorkerPoolState_slice_not_Nil [simp]: "SetWorkerPoolState_slice x \<noteq> []"
  by (simp add: SetWorkerPoolState_slice_def)

text \<open>The ready machines are not among the stored fields: a reader sees the value of an earlier writer, or 0.\<close>

lemma WorkerPoolState_stored [simp]:
  assumes "wf_WorkerPoolState x"
  shows "WorkerPoolState_ToStruct (h ++ map_of (rev (SetWorkerPoolState_slice x))) zero_WorkerPoolState =
     x\<lparr>ps_ReadyMachines := ps_ReadyMachines (WorkerPoolState_ToStruct h zero_WorkerPoolState)\<rparr>"
proof -
  have "holds (SetWorkerPoolState_slice x) (h ++ map_of (rev (SetWorkerPoolState_slice x)))"
    by (rule holds_hset) (simp add: SetWorkerPoolState_slice_def)
  moreover have "(h ++ map_of (rev (SetWorkerPoolState_slice x))) ''ready_machines'' = h ''ready_machines''"
    by (simp add: SetWorkerPoolState_slice_def map_add_def)
  ultimately show ?thesis
    using assms
    by (simp add: SetWorkerPoolState_slice_def WorkerPoolState_ToStruct_def wf_WorkerPoolState_def set_Some
      set_int_def [of _ _ "''ready_machines''"])
qed

context redis_up
begin

lemma up_GetConcurrencyLimit:
  assumes "isHash (V w (WorkspaceConcurrencyLimit ws))"
    and "\<And>w'. V w' = V w \<Longrightarrow> locks w' = locks w \<Longrightarrow>
       Q (if hashOf (V w (WorkspaceConcurrencyLimit ws)) = Map.empty then None
          else Some (ConcurrencyLimit_ToStruct (hashOf (V w (WorkspaceConcurrencyLimit ws))) zero_ConcurrencyLimit)) w'"
  shows "wp (GetConcurrencyLimitByWorkspaceId R ws) Q E w"
  unfolding GetConcurrencyLimitByWorkspaceId_def wp_eqs
proof (rule up_HGetAll [OF assms(1)], goal_cases)
  case (1 res w')
  then show ?case using assms(2) [of w'] by (cases "res = []") (simp_all flip: 1(1))
qed

lemma up_SetConcurrencyLimit:
  assumes "isHash (V w (WorkspaceConcurrencyLimit ws))"
    and "\<And>w'. V w' = (V w)(WorkspaceConcurrencyLimit ws \<mapsto>
         RHash (hashOf (V w (WorkspaceConcurrencyLimit ws)) ++ map_of (rev (ConcurrencyLimit_ToSlice l)))) \<Longrightarrow>
       locks w' = locks w \<Longrightarrow> Q () w'"
  shows "wp (SetConcurrencyLimitByWorkspaceId R ws l) Q E w"
proof -
  have "0 < cachedConcurrencyLimitTtl * second" by (simp add: cachedConcurrencyLimitTtl_def second_def)
  then show ?thesis
    using assms by (auto simp: SetConcurrencyLimitByWorkspaceId_def Let_def wp_eqs intro!: up_HSet up_Expire)
qed

lemma limit_cached:
  assumes "isHash (V w (WorkspaceConcurrencyLimit ws))"
  shows "wp (thenE (SetConcurrencyLimitByWorkspaceId R ws l) (GetConcurrencyLimitByWorkspaceId R ws))
     (\<lambda>x _. Inr x = Inr (Some l)) (\<lambda>e _. Inl e = Inr (Some l)) w"
  unfolding wp_eqs
  by (rule up_SetConcurrencyLimit [OF assms], rule up_GetConcurrencyLimit) simp_all

lemma pool_state_stored:
  assumes "isHash (V w (WorkerPoolState p))" and "wf_WorkerPoolState x"
  shows "wp (thenE (SetWorkerPoolState R p x) (GetWorkerPoolState R p))
     (\<lambda>y _. y = x\<lparr>ps_ReadyMachines := ps_ReadyMachines (WorkerPoolState_ToStruct (hashOf (V w (WorkerPoolState p))) zero_WorkerPoolState)\<rparr>)
     (\<lambda>_ _. False) w"
  unfolding wp_eqs SetWorkerPoolState_def GetWorkerPoolState_def
proof (rule up_HSet, goal_cases)
  case (3 w1)
  show ?case
  proof (rule up_HGetAll, goal_cases)
    case (2 res w2)
    have res: "map_of res = hashOf (V w (WorkerPoolState p)) ++ map_of (rev (SetWorkerPoolState_slice x))"
      using 2(1) 3(1) by simp
    then have "res \<noteq> []" using hset_not_empty [OF SetWorkerPoolState_slice_not_Nil] by (metis map_of.simps(1))
    then show ?case using assms(2) by (simp add: wp_eqs res)
  qed (use 3 in simp)
qed (use assms in simp_all)

end

section \<open>Properties\<close>

text \<open>
  A concurrency limit that the scheduler caches for a workspace is read back unchanged, whatever was
  cached before.
\<close>

theorem limit_cache_roundtrip:
  assumes "redis_up R view" and "isHash (view (rdb w) (WorkspaceConcurrencyLimit ws))"
  shows "fst (thenE (SetConcurrencyLimitByWorkspaceId R ws l) (GetConcurrencyLimitByWorkspaceId R ws) w) = Inr (Some l)"
  by (rule wp_fst [OF redis_up.limit_cached [OF assms]])

theorem limit_cache_roundtrip_witness:
  "fst (thenE (SetConcurrencyLimitByWorkspaceId mem_client ''ws'' zero_ConcurrencyLimit)
     (GetConcurrencyLimitByWorkspaceId mem_client ''ws'') \<lparr>rdb = Map.empty, locks = Map.empty\<rparr>) =
     Inr (Some zero_ConcurrencyLimit)"
  by (rule limit_cache_roundtrip [OF mem.redis_up_axioms]) (simp add: mem_view_def)

text \<open>
  A pool state that is stored and read back keeps every field but the number of ready machines, which the
  repository does not store: a reader of a new pool sees no ready machine.
\<close>

theorem pool_state_loses_ready_machines:
  assumes "redis_up R view" and "view (rdb w) (WorkerPoolState p) = None" and "wf_WorkerPoolState x"
  shows "fst (thenE (SetWorkerPoolState R p x) (GetWorkerPoolState R p) w) = Inr (x\<lparr>ps_ReadyMachines := 0\<rparr>)"
proof (rule wp_fst, rule wp_mono [OF redis_up.pool_state_stored [OF assms(1) _ assms(3)]])
  show "Inr y = (Inr (x\<lparr>ps_ReadyMachines := 0\<rparr>) :: goerror + worker_pool_state)"
    if "y = x\<lparr>ps_ReadyMachines := ps_ReadyMachines
          (WorkerPoolState_ToStruct (hashOf (view (rdb w) (WorkerPoolState p))) zero_WorkerPoolState)\<rparr>" for y
    using that assms(2) by (simp add: WorkerPoolState_ToStruct_def zero_WorkerPoolState_def)
qed (use assms(2) in simp_all)

theorem pool_state_loses_ready_machines_witness:
  "fst (thenE (SetWorkerPoolState mem_client ''p'' (zero_WorkerPoolState\<lparr>ps_ReadyMachines := 3\<rparr>))
     (GetWorkerPoolState mem_client ''p'') \<lparr>rdb = Map.empty, locks = Map.empty\<rparr>) = Inr zero_WorkerPoolState"
proof -
  have "zero_WorkerPoolState\<lparr>ps_ReadyMachines := 3, ps_ReadyMachines := 0\<rparr> = zero_WorkerPoolState"
    by (simp add: zero_WorkerPoolState_def)
  with pool_state_loses_ready_machines [OF mem.redis_up_axioms, of "\<lparr>rdb = Map.empty, locks = Map.empty\<rparr>" "''p''"
      "zero_WorkerPoolState\<lparr>ps_ReadyMachines := 3\<rparr>"]
  show ?thesis by (simp add: mem_view_def wf_WorkerPoolState_def zero_WorkerPoolState_def in_i64_def)
qed

end
