(* ===== verification/Pool_Manager.thy ===== *)
theory Pool_Manager
  imports Worker_Select State_Repos "HOL-Library.AList"
begin

text \<open>
  Worker pools as the scheduler sees them: the interface \<open>WorkerPoolController\<close> of \<open>pkg/scheduler/pool.go\<close> as a
  record of operations, the \<open>SafeMap\<close> of \<open>pkg/common/safemap.go\<close>, the \<open>WorkerPoolManager\<close> of
  \<open>pkg/scheduler/pool_manager.go\<close>, and the choice of the controllers for a request, \<open>getControllers\<close> and
  \<open>filterControllersByFlags\<close> of \<open>pkg/scheduler/scheduler.go\<close>.

  A Go map is an association list without duplicate keys; the order of the list is the arbitrary order in
  which \<open>range\<close> visits the entries. Sorting is an argument, specified by the locale \<open>go_sort\<close>.
\<close>

section \<open>Controllers and pools\<close>

record WorkerPoolCapacity =
  pc_FreeCpu :: int
  pc_FreeMemory :: int
  pc_FreeGpu :: "64 word"
  pc_PendingCpu :: int
  pc_PendingMemory :: int
  pc_PendingGpu :: "64 word"

record 's controller =
  ct_Name :: string
  ct_IsPreemptable :: bool
  ct_RequiresPoolSelector :: bool
  ct_ContainerRuntime :: string
  ct_Mode :: string
  ct_State :: "('s world, worker_pool_state) io"
  ct_FreeCapacity :: "('s world, WorkerPoolCapacity) io"
  ct_AddWorker :: "int \<Rightarrow> int \<Rightarrow> 32 word \<Rightarrow> ('s world, worker) io"
  ct_AddWorkerToMachine :: "int \<Rightarrow> int \<Rightarrow> string \<Rightarrow> 32 word \<Rightarrow> string \<Rightarrow> ('s world, worker option) io"

definition PoolModeLocal :: string where
  "PoolModeLocal = ''local''"

definition PoolModeExternal :: string where
  "PoolModeExternal = ''external''"

record sizing_config =
  js_DefaultWorkerCPU :: string
  js_DefaultWorkerMemory :: string
  js_DefaultWorkerGpuType :: string
  js_DefaultWorkerGpuCount :: string
  js_MinFreeCPU :: string
  js_MinFreeMemory :: string
  js_MinFreeGPU :: string

text \<open>The fields of \<open>types.WorkerPoolConfig\<close> that the scheduler reads.\<close>

record WorkerPoolConfig =
  wc_GPUType :: string
  wc_ContainerRuntime :: string
  wc_Mode :: string
  wc_Provider :: "string option"
  wc_PoolSizing :: sizing_config
  wc_RequiresPoolSelector :: bool
  wc_Priority :: int
  wc_Preemptable :: bool

record 's WorkerPool =
  wp_Name :: string
  wp_Config :: WorkerPoolConfig
  wp_Controller :: "'s controller"

section \<open>\<open>SafeMap\<close>\<close>

type_synonym 'v SafeMap = "(string \<times> 'v) list"

definition NewSafeMap :: "'v SafeMap" where
  "NewSafeMap = []"

definition SafeMap_Set :: "string \<Rightarrow> 'v \<Rightarrow> 'v SafeMap \<Rightarrow> 'v SafeMap" where
  "SafeMap_Set key v m = AList.update key v m"

definition SafeMap_Get :: "string \<Rightarrow> 'v SafeMap \<Rightarrow> 'v option" where
  "SafeMap_Get key m = map_of m key"

definition SafeMap_Delete :: "string \<Rightarrow> 'v SafeMap \<Rightarrow> 'v SafeMap" where
  "SafeMap_Delete key m = AList.delete key m"

definition SafeMap_Len :: "'v SafeMap \<Rightarrow> nat" where
  "SafeMap_Len m = length m"

text \<open>The variables that the callback assigns are passed along; it returns whether to go on.\<close>

fun SafeMap_Range :: "(string \<Rightarrow> 'v \<Rightarrow> 'a \<Rightarrow> ('s, bool \<times> 'a) io) \<Rightarrow> 'v SafeMap \<Rightarrow> 'a \<Rightarrow> ('s, 'a) io" where
  "SafeMap_Range f [] a = returnE a"
| "SafeMap_Range f ((k, v) # m) a =
     bindE (f k v a) (\<lambda>(goOn, a'). if \<not> goOn then returnE a' else SafeMap_Range f m a')"

section \<open>\<open>WorkerPoolManager\<close>\<close>

record 's WorkerPoolManager =
  pm_poolMap :: "'s WorkerPool SafeMap"
  pm_failoverEnabled :: bool

definition NewWorkerPoolManager :: "bool \<Rightarrow> 's WorkerPoolManager" where
  "NewWorkerPoolManager failoverEnabled = \<lparr>pm_poolMap = NewSafeMap, pm_failoverEnabled = failoverEnabled\<rparr>"

definition isPoolHealthy :: "'s WorkerPoolManager \<Rightarrow> 's WorkerPool \<Rightarrow> ('s world, bool) io" where
  "isPoolHealthy m pool =
     (if pm_failoverEnabled m then
        bindE (attempt (ct_State (wp_Controller pool))) (\<lambda>st.
          case st of
            Inl _ \<Rightarrow> returnE False
          | Inr state \<Rightarrow> returnE (ps_Status state \<noteq> WorkerPoolStatusDegraded))
      else returnE True)"

definition GetPool :: "'s WorkerPoolManager \<Rightarrow> string \<Rightarrow> 's WorkerPool option" where
  "GetPool m name = SafeMap_Get name (pm_poolMap m)"

definition filterPool :: "'s WorkerPoolManager \<Rightarrow> string \<Rightarrow> string \<Rightarrow> 's WorkerPool \<Rightarrow> 's WorkerPool list \<Rightarrow>
    ('s world, bool \<times> 's WorkerPool list) io" where
  "filterPool m gpu key pool pools =
     (if wc_GPUType (wp_Config pool) \<noteq> gpu \<and> gpu \<noteq> GPU_ANY then returnE (True, pools)
      else if gpu = GPU_ANY \<and> wc_GPUType (wp_Config pool) = [] then returnE (True, pools)
      else bindE (isPoolHealthy m pool) (\<lambda>healthy.
             if \<not> healthy then returnE (True, pools) else returnE (True, pools @ [pool])))"

type_synonym 'a sorter = "('a \<Rightarrow> 'a \<Rightarrow> bool) \<Rightarrow> 'a list \<Rightarrow> 'a list"

definition higherPriority :: "'s WorkerPool \<Rightarrow> 's WorkerPool \<Rightarrow> bool" where
  "higherPriority a b \<longleftrightarrow> wc_Priority (wp_Config b) < wc_Priority (wp_Config a)"

definition GetPoolByFilters :: "'s WorkerPool sorter \<Rightarrow> 's WorkerPoolManager \<Rightarrow> string \<Rightarrow> ('s world, 's WorkerPool list) io" where
  "GetPoolByFilters srt m gpu =
     bindE (SafeMap_Range (filterPool m gpu) (pm_poolMap m) []) (\<lambda>pools. returnE (srt higherPriority pools))"

definition matchGPU :: "'s WorkerPoolManager \<Rightarrow> string \<Rightarrow> string \<Rightarrow> 's WorkerPool \<Rightarrow> 's WorkerPool option \<Rightarrow>
    ('s world, bool \<times> 's WorkerPool option) io" where
  "matchGPU m gpuType key pool found =
     (if wc_GPUType (wp_Config pool) \<noteq> gpuType then returnE (True, found)
      else bindE (isPoolHealthy m pool) (\<lambda>healthy.
             if \<not> healthy then returnE (True, found) else returnE (False, Some pool)))"

definition GetPoolByGPU :: "'s WorkerPoolManager \<Rightarrow> string \<Rightarrow> ('s world, 's WorkerPool option) io" where
  "GetPoolByGPU m gpuType = SafeMap_Range (matchGPU m gpuType) (pm_poolMap m) None"

definition SetPool :: "'s WorkerPoolManager \<Rightarrow> string \<Rightarrow> WorkerPoolConfig \<Rightarrow> 's controller \<Rightarrow> 's WorkerPoolManager" where
  "SetPool m name config controller =
     m\<lparr>pm_poolMap := SafeMap_Set name \<lparr>wp_Name = name, wp_Config = config, wp_Controller = controller\<rparr> (pm_poolMap m)\<rparr>"

section \<open>Controllers for a request\<close>

definition filterControllersByFlags :: "'s controller list \<Rightarrow> ContainerRequest \<Rightarrow> 's controller list" where
  "filterControllersByFlags controllers request =
     filter (\<lambda>controller.
       \<not> (\<not> r_Preemptable request \<and> ct_IsPreemptable controller) \<and>
       \<not> ((r_PoolSelector request \<noteq> [] \<and> ct_Name controller \<noteq> r_PoolSelector request) \<or>
          (r_PoolSelector request = [] \<and> ct_RequiresPoolSelector controller)) \<and>
       \<not> (r_DockerEnabled request \<and> ct_ContainerRuntime controller \<noteq> ''gvisor'')) controllers"

fun controllersByGPU :: "'s WorkerPool sorter \<Rightarrow> 's WorkerPoolManager \<Rightarrow> string list \<Rightarrow> 's controller list \<Rightarrow>
    ('s world, 's controller list) io" where
  "controllersByGPU srt m [] controllers = returnE controllers"
| "controllersByGPU srt m (gpu # gpus) controllers =
     bindE (GetPoolByFilters srt m gpu) (\<lambda>pools.
       if gpu = GPU_ANY then returnE (controllers @ map wp_Controller pools)
       else controllersByGPU srt m gpus (controllers @ map wp_Controller pools))"

definition errNoController :: goerror where
  "errNoController = ErrNew ''no controller found for request''"

definition getControllers :: "'s WorkerPool sorter \<Rightarrow> 's WorkerPoolManager \<Rightarrow> ContainerRequest \<Rightarrow> ('s world, 's controller list) io" where
  "getControllers srt m request =
     bindE (if r_PoolSelector request \<noteq> [] then
              (case GetPool m (r_PoolSelector request) of
                 None \<Rightarrow> throwE errNoController
               | Some pool \<Rightarrow> returnE [wp_Controller pool])
            else if \<not> RequiresGPU request then
              bindE (GetPoolByFilters srt m []) (\<lambda>pools. returnE (map wp_Controller pools))
            else controllersByGPU srt m (r_GpuRequest request) [])
       (\<lambda>controllers.
          let controllers' = filterControllersByFlags controllers request
          in if length controllers' = 0 then throwE errNoController else returnE controllers')"

section \<open>Lemmas\<close>

lemma SafeMap_Get_Set [simp]: "SafeMap_Get k (SafeMap_Set k' v m) = (if k = k' then Some v else SafeMap_Get k m)"
  by (simp add: SafeMap_Get_def SafeMap_Set_def update_conv)

lemma SafeMap_Get_Delete [simp]: "SafeMap_Get k (SafeMap_Delete k' m) = (if k = k' then None else SafeMap_Get k m)"
  by (simp add: SafeMap_Get_def SafeMap_Delete_def delete_conv)

lemma SafeMap_distinct [simp]:
  "distinct (map fst m) \<Longrightarrow> distinct (map fst (SafeMap_Set k v m))"
  "distinct (map fst m) \<Longrightarrow> distinct (map fst (SafeMap_Delete k m))"
  by (simp_all add: SafeMap_Set_def SafeMap_Delete_def distinct_update distinct_delete)

text \<open>A pool matches a GPU filter; a pool may be used, given which pools are healthy.\<close>

definition matches :: "string \<Rightarrow> 's WorkerPool \<Rightarrow> bool" where
  "matches gpu pool \<longleftrightarrow>
     (if gpu = GPU_ANY then wc_GPUType (wp_Config pool) \<noteq> [] else wc_GPUType (wp_Config pool) = gpu)"

definition usable :: "('s WorkerPool \<Rightarrow> bool) \<Rightarrow> 's WorkerPoolManager \<Rightarrow> string \<Rightarrow> 's WorkerPool \<Rightarrow> bool" where
  "usable healthy m gpu pool \<longleftrightarrow> matches gpu pool \<and> (pm_failoverEnabled m \<longrightarrow> healthy pool)"

lemma weak_order_higherPriority: "weak_order higherPriority"
  by (auto simp: weak_order_def higherPriority_def)

lemma filterPool_matches:
  "filterPool m gpu k pool acc =
     (if matches gpu pool then bindE (isPoolHealthy m pool) (\<lambda>h. returnE (True, if h then acc @ [pool] else acc))
      else returnE (True, acc))"
  by (auto simp: filterPool_def matches_def intro!: arg_cong2 [where f = bindE])

lemma wp_filterPool_frame:
  assumes "\<And>ps w'. ps = acc \<or> matches gpu pool \<and> ps = acc @ [pool] \<Longrightarrow> Q (True, ps) w'"
  shows "wp (filterPool m gpu k pool acc) Q E w"
  using assms
  by (auto simp: filterPool_matches isPoolHealthy_def wp_eqs wp_def [of "ct_State _"]
      split: sum.splits prod.splits)

lemma wp_Range_filterPool:
  assumes "\<And>ps w'. set ps \<subseteq> set acc \<union> {p \<in> snd ` set pools. matches gpu p} \<Longrightarrow> Q ps w'"
  shows "wp (SafeMap_Range (filterPool m gpu) pools acc) Q E w"
  using assms
proof (induction pools arbitrary: acc w)
  case Nil
  then show ?case by (simp add: wp_eqs)
next
  case (Cons np pools)
  obtain n p where np: "np = (n, p)" by force
  show ?case
    unfolding np SafeMap_Range.simps wp_eqs
  proof (rule wp_filterPool_frame, goal_cases)
    case (1 acc' w1)
    have "wp (SafeMap_Range (filterPool m gpu) pools acc') Q E w1"
      by (rule Cons.IH, rule Cons.prems) (use 1 np in auto)
    then show ?case by (simp add: wp_eqs)
  qed
qed

text \<open>
  With the health of each pool fixed by an invariant that reading a state keeps, the loop collects exactly the
  usable pools.
\<close>

definition steady :: "('s world \<Rightarrow> bool) \<Rightarrow> ('s WorkerPool \<Rightarrow> bool) \<Rightarrow> 's WorkerPool \<Rightarrow> bool" where
  "steady I healthy pool \<longleftrightarrow>
     (\<forall>w. I w \<longrightarrow> wp (ct_State (wp_Controller pool))
        (\<lambda>s w'. I w' \<and> healthy pool = (ps_Status s \<noteq> WorkerPoolStatusDegraded)) (\<lambda>_ w'. I w' \<and> \<not> healthy pool) w)"

lemma wp_isPoolHealthy:
  assumes "steady I healthy pool" and "I w"
    and "\<And>w'. I w' \<Longrightarrow> Q (pm_failoverEnabled m \<longrightarrow> healthy pool) w'"
  shows "wp (isPoolHealthy m pool) Q E w"
proof -
  have *: "wp (ct_State (wp_Controller pool))
        (\<lambda>s w'. I w' \<and> healthy pool = (ps_Status s \<noteq> WorkerPoolStatusDegraded)) (\<lambda>_ w'. I w' \<and> \<not> healthy pool) w"
    using assms(1,2) by (simp add: steady_def)
  show ?thesis
  proof (cases "pm_failoverEnabled m")
    case True
    show ?thesis
      unfolding isPoolHealthy_def if_P [OF True] wp_eqs
      by (rule wp_mono [OF *]) (use assms(3) True in \<open>auto simp: wp_eqs\<close>)
  qed (use assms in \<open>simp add: isPoolHealthy_def wp_eqs\<close>)
qed

lemma wp_filterPool:
  assumes "steady I healthy pool" and "I w"
    and "\<And>w'. I w' \<Longrightarrow> Q (True, acc @ filter (usable healthy m gpu) [pool]) w'"
  shows "wp (filterPool m gpu k pool acc) Q E w"
  unfolding filterPool_matches
proof (cases "matches gpu pool")
  case True
  then show "wp (if matches gpu pool then bindE (isPoolHealthy m pool) (\<lambda>h. returnE (True, if h then acc @ [pool] else acc))
      else returnE (True, acc)) Q E w"
    using assms(3) by (auto simp: wp_eqs usable_def intro!: wp_isPoolHealthy [where I = I, OF assms(1,2)])
qed (use assms(2) assms(3) [of w] in \<open>simp add: usable_def wp_eqs\<close>)

lemma wp_Range_usable:
  assumes "\<forall>(n, pool) \<in> set pools. steady I healthy pool" and "I w"
    and "\<And>w'. I w' \<Longrightarrow> Q (acc @ filter (usable healthy m gpu) (map snd pools)) w'"
  shows "wp (SafeMap_Range (filterPool m gpu) pools acc) Q E w"
  using assms
proof (induction pools arbitrary: acc w)
  case Nil
  then show ?case by (simp add: wp_eqs)
next
  case (Cons np pools)
  obtain n p where np: "np = (n, p)" by force
  have "steady I healthy p" using Cons.prems(1) np by simp
  then show ?case
    unfolding np SafeMap_Range.simps wp_eqs
    by (rule wp_filterPool [where I = I, OF _ Cons.prems(2)]) (use Cons.prems in \<open>auto simp: wp_eqs np intro!: Cons.IH\<close>)
qed

text \<open>What \<open>getControllers\<close> promises of each controller.\<close>

definition serves :: "'s WorkerPoolManager \<Rightarrow> ContainerRequest \<Rightarrow> 's controller \<Rightarrow> bool" where
  "serves m r c \<longleftrightarrow>
     (ct_IsPreemptable c \<longrightarrow> r_Preemptable r) \<and> (r_DockerEnabled r \<longrightarrow> ct_ContainerRuntime c = ''gvisor'') \<and>
     (\<exists>(n, pool) \<in> set (pm_poolMap m). c = wp_Controller pool \<and>
        (if r_PoolSelector r \<noteq> [] then n = r_PoolSelector r \<and> ct_Name c = r_PoolSelector r
         else \<not> ct_RequiresPoolSelector c \<and>
           (if RequiresGPU r then \<exists>gpu \<in> set (r_GpuRequest r). matches gpu pool else wc_GPUType (wp_Config pool) = [])))"

lemma GPU_ANY_not_Nil [simp]: "GPU_ANY \<noteq> []" "[] \<noteq> GPU_ANY"
  by (simp_all add: GPU_ANY_def)

lemma matches_Nil: "matches [] pool \<longleftrightarrow> wc_GPUType (wp_Config pool) = []"
  by (simp add: matches_def)

lemma wp_GetPoolByFilters:
  assumes "go_sort srt"
    and "\<And>ps w'. set ps \<subseteq> {p \<in> snd ` set (pm_poolMap m). matches gpu p} \<Longrightarrow> Q ps w'"
  shows "wp (GetPoolByFilters srt m gpu) Q E w"
  unfolding GetPoolByFilters_def wp_eqs
  by (rule wp_Range_filterPool, rule assms(2)) (simp add: go_sort.set_sortSlice [OF assms(1) weak_order_higherPriority])

lemma wp_controllersByGPU:
  assumes "go_sort srt"
    and "\<And>cs' w'. set cs' \<subseteq> set cs \<union> wp_Controller ` {p \<in> snd ` set (pm_poolMap m). \<exists>gpu \<in> set gpus. matches gpu p} \<Longrightarrow> Q cs' w'"
  shows "wp (controllersByGPU srt m gpus cs) Q E w"
  using assms(2)
proof (induction gpus arbitrary: cs w)
  case Nil
  then show ?case by (simp add: wp_eqs)
next
  case (Cons gpu gpus)
  show ?case
    unfolding controllersByGPU.simps wp_eqs
  proof (rule wp_GetPoolByFilters [OF assms(1)], goal_cases)
    case (1 ps w1)
    have "Q (cs @ map wp_Controller ps) w1" by (rule Cons.prems) (use 1 in fastforce)
    moreover have "wp (controllersByGPU srt m gpus (cs @ map wp_Controller ps)) Q E w1"
      by (rule Cons.IH, rule Cons.prems) (use 1 in fastforce)
    ultimately show ?case by simp
  qed
qed

lemma filterControllers_serves:
  assumes "c \<in> set (filterControllersByFlags cs r)" and "(n, pool) \<in> set (pm_poolMap m)" and "c = wp_Controller pool"
    and "r_PoolSelector r \<noteq> [] \<Longrightarrow> n = r_PoolSelector r"
    and "r_PoolSelector r = [] \<Longrightarrow>
      (if RequiresGPU r then \<exists>gpu \<in> set (r_GpuRequest r). matches gpu pool else wc_GPUType (wp_Config pool) = [])"
  shows "serves m r c"
  using assms unfolding serves_def filterControllersByFlags_def by (auto intro!: bexI [of _ "(n, pool)"])

lemma filterControllers_from_pools:
  assumes "c \<in> set (filterControllersByFlags cs r)" and "set cs \<subseteq> wp_Controller ` {p \<in> snd ` set (pm_poolMap m). P p}"
    and "r_PoolSelector r = []"
    and "\<And>pool. P pool \<Longrightarrow>
      (if RequiresGPU r then \<exists>gpu \<in> set (r_GpuRequest r). matches gpu pool else wc_GPUType (wp_Config pool) = [])"
  shows "serves m r c"
proof -
  have "c \<in> set cs" using assms(1) by (simp add: filterControllersByFlags_def)
  then obtain n pool where "(n, pool) \<in> set (pm_poolMap m)" "c = wp_Controller pool" "P pool" using assms(2) by auto
  then show ?thesis by (intro filterControllers_serves [OF assms(1)]) (use assms(3,4) in auto)
qed

lemma wp_getControllers:
  assumes "go_sort srt"
  shows "wp (getControllers srt m r) (\<lambda>cs _. cs \<noteq> [] \<and> (\<forall>c \<in> set cs. serves m r c)) (\<lambda>e _. e = errNoController) w"
proof (cases "r_PoolSelector r = []")
  case sel: True
  show ?thesis
  proof (cases "RequiresGPU r")
    case True
    with sel show ?thesis
      by (auto simp: getControllers_def Let_def wp_eqs intro!: wp_controllersByGPU [OF assms]
          elim!: filterControllers_from_pools [where P = "\<lambda>p. \<exists>gpu \<in> set (r_GpuRequest r). matches gpu p"])
  next
    case False
    have "serves m r c" if "set ps \<subseteq> {p \<in> snd ` set (pm_poolMap m). matches [] p}"
        "c \<in> set (filterControllersByFlags (map wp_Controller ps) r)" for ps c
      by (rule filterControllers_from_pools [where P = "matches []", OF that(2)])
        (use that(1) sel False in \<open>auto simp: matches_Nil\<close>)
    with sel False show ?thesis
      by (auto simp: getControllers_def Let_def wp_eqs intro!: wp_GetPoolByFilters [OF assms])
  qed
next
  case False
  show ?thesis
  proof (cases "GetPool m (r_PoolSelector r)")
    case None
    then show ?thesis using False by (simp add: getControllers_def wp_eqs)
  next
    case (Some pool)
    then have "(r_PoolSelector r, pool) \<in> set (pm_poolMap m)"
      by (simp add: GetPool_def SafeMap_Get_def map_of_SomeD)
    with Some False show ?thesis
      by (auto simp: getControllers_def wp_eqs Let_def filterControllersByFlags_def
          intro: filterControllers_serves [of _ "[wp_Controller pool]"])
  qed
qed

text \<open>The controllers of both modes read the state of their pool from the repository.\<close>

definition pool_healthy :: "keyspace \<Rightarrow> 's WorkerPool \<Rightarrow> bool" where
  "pool_healthy v pool \<longleftrightarrow>
     hashOf (v (WorkerPoolState (wp_Name pool))) \<noteq> Map.empty \<and>
     set_string (hashOf (v (WorkerPoolState (wp_Name pool)))) ''status'' [] \<noteq> WorkerPoolStatusDegraded"

context redis_up
begin

lemma up_GetWorkerPoolState:
  assumes "isHash (V w (WorkerPoolState p))"
    and "\<And>w'. hashOf (V w (WorkerPoolState p)) \<noteq> Map.empty \<Longrightarrow> V w' = V w \<Longrightarrow>
       Q (WorkerPoolState_ToStruct (hashOf (V w (WorkerPoolState p))) zero_WorkerPoolState) w'"
    and "\<And>w'. hashOf (V w (WorkerPoolState p)) = Map.empty \<Longrightarrow> V w' = V w \<Longrightarrow> E (ErrWorkerPoolStateNotFound p) w'"
  shows "wp (GetWorkerPoolState R p) Q E w"
  unfolding GetWorkerPoolState_def wp_eqs
proof (rule up_HGetAll [OF assms(1)], goal_cases)
  case (1 res w1)
  then show ?case
    using assms(2) [of w1] assms(3) [of w1] by (cases "res = []") (auto simp: wp_eqs simp flip: 1(1))
qed

lemma steady_pool:
  assumes "ct_State (wp_Controller pool) = GetWorkerPoolState R (wp_Name pool)" and "isHash (v (WorkerPoolState (wp_Name pool)))"
  shows "steady (\<lambda>w. V w = v) (pool_healthy v) pool"
  unfolding steady_def assms(1)
  by (intro allI impI up_GetWorkerPoolState)
    (use assms(2) in \<open>simp_all add: pool_healthy_def WorkerPoolState_ToStruct_def zero_WorkerPoolState_def\<close>)

lemma up_GetPoolByFilters:
  assumes "\<forall>(n, pool) \<in> set (pm_poolMap m). ct_State (wp_Controller pool) = GetWorkerPoolState R (wp_Name pool) \<and>
       isHash (V w (WorkerPoolState (wp_Name pool)))"
  shows "wp (GetPoolByFilters srt m gpu)
     (\<lambda>ps w'. ps = srt higherPriority (filter (usable (pool_healthy (V w)) m gpu) (map snd (pm_poolMap m))) \<and> V w' = V w)
     (\<lambda>_ _. False) w"
  unfolding GetPoolByFilters_def wp_eqs
  by (rule wp_Range_usable [where I = "\<lambda>w'. V w' = V w" and healthy = "pool_healthy (V w)"])
    (use assms in \<open>auto intro!: steady_pool\<close>)

end

section \<open>Properties\<close>

text \<open>
  For pools whose controllers read their state from the repository, \<open>GetPoolByFilters\<close> returns each pool that has
  the GPU type (any GPU type for the filter \<open>any\<close>) exactly once, without those that are degraded or have no
  state when failover is enabled, by descending priority. It changes nothing in Redis.
\<close>

theorem pools_by_gpu_type:
  assumes "redis_up R view" and "go_sort srt"
    and "\<forall>(n, pool) \<in> set (pm_poolMap m). ct_State (wp_Controller pool) = GetWorkerPoolState R (wp_Name pool) \<and>
       isHash (view (rdb w) (WorkerPoolState (wp_Name pool)))"
  shows "\<exists>ps w'. GetPoolByFilters srt m gpu w = (Inr ps, w') \<and>
     mset ps = {# pool \<in># mset (map snd (pm_poolMap m)).
       (if gpu = GPU_ANY then wc_GPUType (wp_Config pool) \<noteq> [] else wc_GPUType (wp_Config pool) = gpu) \<and>
       (pm_failoverEnabled m \<longrightarrow> pool_healthy (view (rdb w)) pool) #} \<and>
     sorted_wrt (\<lambda>a b. wc_Priority (wp_Config b) \<le> wc_Priority (wp_Config a)) ps \<and> view (rdb w') = view (rdb w)"
proof -
  obtain w' where w': "view (rdb w') = view (rdb w)" "GetPoolByFilters srt m gpu w =
      (Inr (srt higherPriority (filter (usable (pool_healthy (view (rdb w))) m gpu) (map snd (pm_poolMap m)))), w')"
    using wp_success [OF redis_up.up_GetPoolByFilters [OF assms(1,3)]] by blast
  show ?thesis
    using go_sort.sorted_sortSlice [OF assms(2) weak_order_higherPriority] w'
    by (auto simp: go_sort.mset_sortSlice [OF assms(2) weak_order_higherPriority] usable_def matches_def higherPriority_def not_less
        cong: filter_mset_cong)
qed

text \<open>
  C32. Every controller that \<open>getControllers\<close> returns can serve the request: it is the controller of the selected pool,
  or else of a pool that needs no selector and has a GPU type the request asks for (none for a request
  without GPU); a preemptable pool is only used for a preemptable request and a Docker request goes to gVisor.
  The only error is that no controller was found.
\<close>

theorem controllers_serve_request:
  assumes "go_sort srt"
  shows "case getControllers srt m r w of
     (Inr cs, _) \<Rightarrow> cs \<noteq> [] \<and> (\<forall>c \<in> set cs. serves m r c)
   | (Inl e, _) \<Rightarrow> e = errNoController"
  using wp_getControllers [OF assms] by (auto simp: wp_def split: prod.splits sum.splits)

section \<open>A worked example\<close>

definition ex_pool_config :: "string \<Rightarrow> int \<Rightarrow> WorkerPoolConfig" where
  "ex_pool_config gpu prio =
     \<lparr>wc_GPUType = gpu, wc_ContainerRuntime = ''runc'', wc_Mode = PoolModeLocal, wc_Provider = None,
      wc_PoolSizing = \<lparr>js_DefaultWorkerCPU = ''1000m'', js_DefaultWorkerMemory = ''1Gi'', js_DefaultWorkerGpuType = gpu,
        js_DefaultWorkerGpuCount = ''1'', js_MinFreeCPU = ''0'', js_MinFreeMemory = ''0'', js_MinFreeGPU = ''0''\<rparr>,
      wc_RequiresPoolSelector = False, wc_Priority = prio, wc_Preemptable = False\<rparr>"

definition ex_controller :: "string \<Rightarrow> mem controller" where
  "ex_controller name =
     \<lparr>ct_Name = name, ct_IsPreemptable = False, ct_RequiresPoolSelector = False, ct_ContainerRuntime = ''runc'',
      ct_Mode = PoolModeLocal, ct_State = GetWorkerPoolState mem_client name,
      ct_FreeCapacity = throwE (ErrNew ''unused''), ct_AddWorker = (\<lambda>_ _ _. throwE (ErrNew ''no machine'')),
      ct_AddWorkerToMachine = (\<lambda>_ _ _ _ _. returnE None)\<rparr>"

definition ex_manager :: "mem WorkerPoolManager" where
  "ex_manager = SetPool (SetPool (NewWorkerPoolManager True) ''t4'' (ex_pool_config ''T4'' 5) (ex_controller ''t4''))
     ''cpu'' (ex_pool_config [] 1) (ex_controller ''cpu'')"

definition ex_pool_world :: "mem world" where
  "ex_pool_world = \<lparr>rdb = [WorkerPoolState ''t4'' \<mapsto> MHash [(''status'', WorkerPoolStatusHealthy)],
     WorkerPoolState ''cpu'' \<mapsto> MHash [(''status'', WorkerPoolStatusDegraded)]], locks = Map.empty\<rparr>"

lemma ex_manager_pools: "pm_poolMap ex_manager =
   [(''t4'', \<lparr>wp_Name = ''t4'', wp_Config = ex_pool_config ''T4'' 5, wp_Controller = ex_controller ''t4''\<rparr>),
    (''cpu'', \<lparr>wp_Name = ''cpu'', wp_Config = ex_pool_config [] 1, wp_Controller = ex_controller ''cpu''\<rparr>)]"
  "pm_failoverEnabled ex_manager"
  by (simp_all add: ex_manager_def SetPool_def NewWorkerPoolManager_def SafeMap_Set_def NewSafeMap_def)

lemma ex_pool_view: "mem_view (rdb ex_pool_world) (WorkerPoolState ''t4'') = Some (RHash [''status'' \<mapsto> WorkerPoolStatusHealthy])"
  "mem_view (rdb ex_pool_world) (WorkerPoolState ''cpu'') = Some (RHash [''status'' \<mapsto> WorkerPoolStatusDegraded])"
  by (simp_all add: ex_pool_world_def mem_view_def key_eqs)

theorem pools_by_gpu_type_witness:
  "\<exists>w'. GetPoolByFilters go_isort ex_manager ''T4'' ex_pool_world =
     (Inr [\<lparr>wp_Name = ''t4'', wp_Config = ex_pool_config ''T4'' 5, wp_Controller = ex_controller ''t4''\<rparr>], w')"
proof -
  have "\<forall>(n, pool) \<in> set (pm_poolMap ex_manager). ct_State (wp_Controller pool) = GetWorkerPoolState mem_client (wp_Name pool) \<and>
       isHash (mem_view (rdb ex_pool_world) (WorkerPoolState (wp_Name pool)))"
    by (simp add: ex_manager_pools ex_pool_view ex_controller_def)
  from pools_by_gpu_type [OF mem.redis_up_axioms isort.go_sort_axioms this, of "''T4''"]
  show ?thesis
    by (auto simp: ex_manager_pools ex_pool_view ex_pool_config_def pool_healthy_def set_string_def GPU_ANY_def
        WorkerPoolStatusHealthy_def WorkerPoolStatusDegraded_def)
qed

theorem controllers_serve_request_witness:
  "case getControllers go_isort ex_manager (zero_ContainerRequest\<lparr>r_GpuRequest := [''T4'']\<rparr>) ex_pool_world of
     (Inr cs, _) \<Rightarrow> cs \<noteq> [] \<and> (\<forall>c \<in> set cs. serves ex_manager (zero_ContainerRequest\<lparr>r_GpuRequest := [''T4'']\<rparr>) c)
   | (Inl e, _) \<Rightarrow> e = errNoController"
  by (rule controllers_serve_request [OF isort.go_sort_axioms])

end
