(* ===== verification/Provider_Repo.thy ===== *)
theory Provider_Repo
  imports Worker_Repo
begin

text \<open>
  \<open>pkg/repository/provider_redis.go\<close> and the machine types of \<open>pkg/types/provider.go\<close>: the machines of the
  external pools. A machine is a hash under \<open>ProviderMachineState\<close> in the index of its pool, with its
  metrics in a second hash. \<open>now\<close> is the time of \<open>time.Now().Unix()\<close>. The floating-point metrics,
  which no operation computes with, are kept in the decimal form in which they are stored.
\<close>

section \<open>Types\<close>

definition MachineStatusRegistered :: string where
  "MachineStatusRegistered = ''registered''"

definition MachineStatusPending :: string where
  "MachineStatusPending = ''pending''"

definition MachineStatusReady :: string where
  "MachineStatusReady = ''ready''"

definition MachinePendingExpirationS :: int where
  "MachinePendingExpirationS = 3600"

definition MachineKeepaliveExpirationS :: int where
  "MachineKeepaliveExpirationS = 300"

record machine_state =
  m_MachineId :: string
  m_PoolName :: string
  m_Status :: string
  m_HostName :: string
  m_Token :: string
  m_Cpu :: int
  m_Memory :: int
  m_Gpu :: string
  m_GpuCount :: "32 word"
  m_RegistrationToken :: string
  m_PrivateIP :: string
  m_Created :: string
  m_LastWorkerSeen :: string
  m_LastKeepalive :: string
  m_AutoConsolidate :: bool
  m_AgentVersion :: string

definition zero_machine :: machine_state where
  "zero_machine =
     \<lparr>m_MachineId = [], m_PoolName = [], m_Status = [], m_HostName = [], m_Token = [], m_Cpu = 0, m_Memory = 0,
      m_Gpu = [], m_GpuCount = 0, m_RegistrationToken = [], m_PrivateIP = [], m_Created = [],
      m_LastWorkerSeen = [], m_LastKeepalive = [], m_AutoConsolidate = False, m_AgentVersion = []\<rparr>"

definition Machine_ToSlice :: "machine_state \<Rightarrow> (string \<times> string) list" where
  "Machine_ToSlice m =
     [(''machine_id'', m_MachineId m), (''pool_name'', m_PoolName m), (''status'', m_Status m),
      (''hostname'', m_HostName m), (''token'', m_Token m), (''cpu'', itoa (m_Cpu m)),
      (''memory'', itoa (m_Memory m)), (''gpu'', m_Gpu m), (''gpu_count'', utoa (unat (m_GpuCount m))),
      (''registration_token'', m_RegistrationToken m), (''private_ip'', m_PrivateIP m),
      (''created'', m_Created m), (''last_worker_seen'', m_LastWorkerSeen m),
      (''last_keepalive'', m_LastKeepalive m), (''auto_consolidate'', btoa (m_AutoConsolidate m)),
      (''agent_version'', m_AgentVersion m)]"

definition Machine_ToStruct :: "hash \<Rightarrow> machine_state \<Rightarrow> machine_state" where
  "Machine_ToStruct h m =
     \<lparr>m_MachineId = set_string h ''machine_id'' (m_MachineId m),
      m_PoolName = set_string h ''pool_name'' (m_PoolName m),
      m_Status = set_string h ''status'' (m_Status m),
      m_HostName = set_string h ''hostname'' (m_HostName m),
      m_Token = set_string h ''token'' (m_Token m),
      m_Cpu = set_int 64 h ''cpu'' (m_Cpu m),
      m_Memory = set_int 64 h ''memory'' (m_Memory m),
      m_Gpu = set_string h ''gpu'' (m_Gpu m),
      m_GpuCount = set_uint32 h ''gpu_count'' (m_GpuCount m),
      m_RegistrationToken = set_string h ''registration_token'' (m_RegistrationToken m),
      m_PrivateIP = set_string h ''private_ip'' (m_PrivateIP m),
      m_Created = set_string h ''created'' (m_Created m),
      m_LastWorkerSeen = set_string h ''last_worker_seen'' (m_LastWorkerSeen m),
      m_LastKeepalive = set_string h ''last_keepalive'' (m_LastKeepalive m),
      m_AutoConsolidate = set_bool h ''auto_consolidate'' (m_AutoConsolidate m),
      m_AgentVersion = set_string h ''agent_version'' (m_AgentVersion m)\<rparr>"

record machine_metrics =
  mm_TotalCpuAvailable :: int
  mm_TotalMemoryAvailable :: int
  mm_TotalDiskSpaceBytes :: int
  mm_CpuUtilizationPct :: string
  mm_MemoryUtilizationPct :: string
  mm_TotalDiskFreeBytes :: int
  mm_WorkerCount :: int
  mm_ContainerCount :: int
  mm_FreeGpuCount :: int
  mm_CacheUsagePct :: string
  mm_CacheCapacity :: int
  mm_CacheMemoryUsage :: int
  mm_CacheCpuUsage :: string

definition zero_metrics :: machine_metrics where
  "zero_metrics =
     \<lparr>mm_TotalCpuAvailable = 0, mm_TotalMemoryAvailable = 0, mm_TotalDiskSpaceBytes = 0,
      mm_CpuUtilizationPct = ''0'', mm_MemoryUtilizationPct = ''0'', mm_TotalDiskFreeBytes = 0,
      mm_WorkerCount = 0, mm_ContainerCount = 0, mm_FreeGpuCount = 0, mm_CacheUsagePct = ''0'',
      mm_CacheCapacity = 0, mm_CacheMemoryUsage = 0, mm_CacheCpuUsage = ''0''\<rparr>"

definition Metrics_ToSlice :: "machine_metrics \<Rightarrow> (string \<times> string) list" where
  "Metrics_ToSlice m =
     [(''total_cpu_available'', itoa (mm_TotalCpuAvailable m)),
      (''total_memory_available'', itoa (mm_TotalMemoryAvailable m)),
      (''total_disk_space_bytes'', itoa (mm_TotalDiskSpaceBytes m)),
      (''cpu_utilization_pct'', mm_CpuUtilizationPct m),
      (''memory_utilization_pct'', mm_MemoryUtilizationPct m),
      (''total_disk_free_bytes'', itoa (mm_TotalDiskFreeBytes m)),
      (''worker_count'', itoa (mm_WorkerCount m)), (''container_count'', itoa (mm_ContainerCount m)),
      (''free_gpu_count'', itoa (mm_FreeGpuCount m)), (''cache_usage_pct'', mm_CacheUsagePct m),
      (''cache_capacity'', itoa (mm_CacheCapacity m)),
      (''cache_memory_usage'', itoa (mm_CacheMemoryUsage m)), (''cache_cpu_usage'', mm_CacheCpuUsage m)]"

definition Metrics_ToStruct :: "hash \<Rightarrow> machine_metrics \<Rightarrow> machine_metrics" where
  "Metrics_ToStruct h m =
     \<lparr>mm_TotalCpuAvailable = set_int 64 h ''total_cpu_available'' (mm_TotalCpuAvailable m),
      mm_TotalMemoryAvailable = set_int 64 h ''total_memory_available'' (mm_TotalMemoryAvailable m),
      mm_TotalDiskSpaceBytes = set_int 64 h ''total_disk_space_bytes'' (mm_TotalDiskSpaceBytes m),
      mm_CpuUtilizationPct = set_string h ''cpu_utilization_pct'' (mm_CpuUtilizationPct m),
      mm_MemoryUtilizationPct = set_string h ''memory_utilization_pct'' (mm_MemoryUtilizationPct m),
      mm_TotalDiskFreeBytes = set_int 64 h ''total_disk_free_bytes'' (mm_TotalDiskFreeBytes m),
      mm_WorkerCount = set_int 64 h ''worker_count'' (mm_WorkerCount m),
      mm_ContainerCount = set_int 64 h ''container_count'' (mm_ContainerCount m),
      mm_FreeGpuCount = set_int 64 h ''free_gpu_count'' (mm_FreeGpuCount m),
      mm_CacheUsagePct = set_string h ''cache_usage_pct'' (mm_CacheUsagePct m),
      mm_CacheCapacity = set_int 64 h ''cache_capacity'' (mm_CacheCapacity m),
      mm_CacheMemoryUsage = set_int 64 h ''cache_memory_usage'' (mm_CacheMemoryUsage m),
      mm_CacheCpuUsage = set_string h ''cache_cpu_usage'' (mm_CacheCpuUsage m)\<rparr>"

record provider_machine =
  pm_State :: machine_state
  pm_Metrics :: "machine_metrics option"

section \<open>Operations\<close>

definition getMachineMetrics :: "'s redis_client \<Rightarrow> string \<Rightarrow> string \<Rightarrow> string \<Rightarrow> ('s world, machine_metrics) io" where
  "getMachineMetrics R providerName poolName machineId =
     (let key = ProviderMachineMetrics providerName poolName machineId
      in bindE (wrapE ''error checking machine metrics existence for key'' (Exists R key)) (\<lambda>exists.
         if \<not> exists then throwE (ErrNew ''machine metrics not found'')
         else bindE (wrapE ''failed to get machine metrics'' (HGetAll R key)) (\<lambda>res.
           returnE (Metrics_ToStruct (map_of res) zero_metrics))))"

definition getMachineStateFromKey :: "'s redis_client \<Rightarrow> string \<Rightarrow> ('s world, machine_state) io" where
  "getMachineStateFromKey R key =
     bindE (wrapE ''error checking machine state existence for key'' (Exists R key)) (\<lambda>exists.
       if \<not> exists then throwE (ErrNew ''machine not found'')
       else bindE (wrapE ''failed to get machine state'' (HGetAll R key)) (\<lambda>res.
         returnE (Machine_ToStruct (map_of res) zero_machine)))"

definition withMetrics :: "machine_state \<Rightarrow> goerror + machine_metrics \<Rightarrow> provider_machine" where
  "withMetrics state metrics =
     \<lparr>pm_State = state, pm_Metrics = (case metrics of Inl _ \<Rightarrow> None | Inr m \<Rightarrow> Some m)\<rparr>"

definition GetMachine :: "'s redis_client \<Rightarrow> string \<Rightarrow> string \<Rightarrow> string \<Rightarrow> ('s world, provider_machine) io" where
  "GetMachine R providerName poolName machineId =
     bindE (attempt (HGetAll R (ProviderMachineState providerName poolName machineId))) (\<lambda>r.
       case r of
         Inl e \<Rightarrow> if e = RedisNil then throwE (ErrNew ''no machine state found'')
                  else throwE (Errorf ''failed to get machine state'' e)
       | Inr res \<Rightarrow>
           if length res = 0 then throwE (ErrNew ''machine state is invalid or empty'')
           else bindE (attempt (getMachineMetrics R providerName poolName machineId)) (\<lambda>metrics.
             returnE (withMetrics (Machine_ToStruct (map_of res) zero_machine) metrics)))"

definition RemoveMachine :: "'s redis_client \<Rightarrow> string \<Rightarrow> string \<Rightarrow> string \<Rightarrow> ('s world, unit) io" where
  "RemoveMachine R providerName poolName machineId =
     (let stateKey = ProviderMachineState providerName poolName machineId
      in thenE (wrapE ''failed to remove machine state key from index''
                 (SRem R (ProviderMachineIndex providerName poolName) stateKey))
               (Del R stateKey))"

fun collectMachines :: "'s redis_client \<Rightarrow> string \<Rightarrow> string \<Rightarrow> bool \<Rightarrow> string list \<Rightarrow> provider_machine list \<Rightarrow>
    ('s world, provider_machine list) io" where
  "collectMachines R providerName poolName useLock [] machines = returnE machines"
| "collectMachines R providerName poolName useLock (key # keys) machines =
     (let machineId = last_part key;
          lockKey = ProviderMachineLock providerName poolName machineId
      in bindE (if useLock then attempt (Acquire R lockKey 10 0) else returnE (Inr ())) (\<lambda>acq.
         case acq of
           Inl _ \<Rightarrow> collectMachines R providerName poolName useLock keys machines
         | Inr _ \<Rightarrow>
             bindE (attempt (getMachineStateFromKey R key)) (\<lambda>st.
               case st of
                 Inl _ \<Rightarrow>
                   thenE (attempt (RemoveMachine R providerName poolName machineId))
                   (thenE (if useLock then attempt (Release R lockKey) else returnE (Inr ()))
                     (collectMachines R providerName poolName useLock keys machines))
               | Inr machineState \<Rightarrow>
                   bindE (attempt (getMachineMetrics R providerName poolName machineId)) (\<lambda>metrics.
                   thenE (if useLock then attempt (Release R lockKey) else returnE (Inr ()))
                     (collectMachines R providerName poolName useLock keys
                        (machines @ [withMetrics machineState metrics]))))))"

definition ListAllMachines :: "'s redis_client \<Rightarrow> string \<Rightarrow> string \<Rightarrow> bool \<Rightarrow> ('s world, provider_machine list) io" where
  "ListAllMachines R providerName poolName useLock =
     bindE (wrapE ''failed to retrieve machine state keys'' (SMembers R (ProviderMachineIndex providerName poolName)))
       (\<lambda>keys. collectMachines R providerName poolName useLock keys [])"

text \<open>The polling loop: a tick after the rest of the system changed the world by \<open>env\<close>; the list ends with the deadline.\<close>

fun WaitForMachineRegistration :: "'s redis_client \<Rightarrow> string \<Rightarrow> string \<Rightarrow> string \<Rightarrow> ('s world \<Rightarrow> 's world) list \<Rightarrow>
    ('s world, machine_state) io" where
  "WaitForMachineRegistration R providerName poolName machineId [] =
     throwE (ErrNew ''timeout waiting for machine registration'')"
| "WaitForMachineRegistration R providerName poolName machineId (env # ticks) =
     (\<lambda>w. (let stateKey = ProviderMachineState providerName poolName machineId
       in thenE (wrapE ''error checking machine state existence'' (Exists R stateKey))
         (bindE (wrapE ''failed to get machine state'' (HGetAll R stateKey)) (\<lambda>res.
            if length res = 0 then throwE (ErrNew ''machine state is invalid or empty'')
            else let state = Machine_ToStruct (map_of res) zero_machine
                 in if m_Status state \<noteq> MachineStatusReady
                    then WaitForMachineRegistration R providerName poolName machineId ticks
                    else returnE state))) (env w))"

definition AddMachine :: "'s redis_client \<Rightarrow> int \<Rightarrow> string \<Rightarrow> string \<Rightarrow> string \<Rightarrow> machine_state \<Rightarrow> ('s world, unit) io" where
  "AddMachine R now providerName poolName machineId machineInfo =
     (let stateKey = ProviderMachineState providerName poolName machineId;
          info = machineInfo\<lparr>m_MachineId := machineId, m_Status := MachineStatusPending, m_Created := itoa now\<rparr>
      in thenE (wrapE ''failed to set machine state'' (HSet R stateKey (Machine_ToSlice info)))
        (thenE (wrapE ''failed to set machine state ttl'' (Expire R stateKey (MachinePendingExpirationS * second)))
               (wrapE ''failed to add machine state key to index''
                 (SAdd R (ProviderMachineIndex providerName poolName) stateKey))))"

definition SetMachineKeepAlive :: "'s redis_client \<Rightarrow> int \<Rightarrow> string \<Rightarrow> string \<Rightarrow> string \<Rightarrow> string \<Rightarrow> machine_metrics \<Rightarrow>
    ('s world, unit) io" where
  "SetMachineKeepAlive R now providerName poolName machineId agentVersion metrics =
     (let stateKey = ProviderMachineState providerName poolName machineId;
          metricsKey = ProviderMachineMetrics providerName poolName machineId
      in bindE (wrapE ''failed to get machine state'' (getMachineStateFromKey R stateKey)) (\<lambda>machineState.
         thenE (wrapE ''failed to set machine state'' (HSet R stateKey (Machine_ToSlice
                  (machineState\<lparr>m_LastKeepalive := itoa now, m_AgentVersion := agentVersion,
                                m_Status := MachineStatusReady\<rparr>))))
        (thenE (wrapE ''failed to set machine metrics'' (HSet R metricsKey (Metrics_ToSlice metrics)))
        (thenE (wrapE ''failed to set machine state ttl'' (Expire R stateKey (MachineKeepaliveExpirationS * second)))
               (wrapE ''failed to set machine metrics ttl''
                 (Expire R metricsKey (MachineKeepaliveExpirationS * second)))))))"

definition SetLastWorkerSeen :: "'s redis_client \<Rightarrow> int \<Rightarrow> string \<Rightarrow> string \<Rightarrow> string \<Rightarrow> ('s world, unit) io" where
  "SetLastWorkerSeen R now providerName poolName machineId =
     (let stateKey = ProviderMachineState providerName poolName machineId
      in bindE (wrapE ''failed to get machine state'' (getMachineStateFromKey R stateKey)) (\<lambda>machineInfo.
         wrapE ''failed to set machine state''
           (HSet R stateKey (Machine_ToSlice (machineInfo\<lparr>m_LastWorkerSeen := itoa now\<rparr>)))))"

definition registered :: "machine_state \<Rightarrow> machine_state \<Rightarrow> machine_state" where
  "registered machineInfo new =
     machineInfo\<lparr>m_HostName := m_HostName new, m_Token := m_Token new, m_Status := MachineStatusRegistered,
       m_Cpu := m_Cpu new, m_Memory := m_Memory new, m_GpuCount := m_GpuCount new, m_PrivateIP := m_PrivateIP new\<rparr>"

definition RegisterMachine :: "'s redis_client \<Rightarrow> int \<Rightarrow> string \<Rightarrow> string \<Rightarrow> string \<Rightarrow> machine_state \<Rightarrow> string \<Rightarrow>
    ('s world, unit) io" where
  "RegisterMachine R now providerName poolName machineId newMachineInfo poolGpuType =
     (let stateKey = ProviderMachineState providerName poolName machineId
      in bindE (attempt (getMachineStateFromKey R stateKey)) (\<lambda>got.
         bindE (case got of
                  Inr machineInfo \<Rightarrow> returnE machineInfo
                | Inl _ \<Rightarrow>
                    thenE (wrapE ''failed to add machine state key to index''
                             (SAdd R (ProviderMachineIndex providerName poolName) stateKey))
                      (returnE (zero_machine\<lparr>m_Gpu := poolGpuType, m_Created := itoa now,
                         m_LastKeepalive := itoa now, m_PoolName := poolName, m_MachineId := machineId\<rparr>)))
           (\<lambda>machineInfo.
              thenE (wrapE ''failed to set machine state''
                       (HSet R stateKey (Machine_ToSlice (registered machineInfo newMachineInfo))))
                    (wrapE ''failed to set machine state ttl''
                       (Expire R stateKey (MachineKeepaliveExpirationS * second))))))"

definition SetMachineLock :: "'s redis_client \<Rightarrow> string \<Rightarrow> string \<Rightarrow> string \<Rightarrow> ('s world, unit) io" where
  "SetMachineLock R providerName poolName machineId =
     Acquire R (ProviderMachineLock providerName poolName machineId) 300 0"

definition RemoveMachineLock :: "'s redis_client \<Rightarrow> string \<Rightarrow> string \<Rightarrow> string \<Rightarrow> ('s world, unit) io" where
  "RemoveMachineLock R providerName poolName machineId = Release R (ProviderMachineLock providerName poolName machineId)"

text \<open>
  The pools are a list in the order in which Go's map iteration visits them: name, provider, GPU type.
\<close>

definition noteAvailability :: "provider_machine \<Rightarrow> (string \<Rightarrow> bool option) \<Rightarrow> (string \<Rightarrow> bool option)" where
  "noteAvailability m availability =
     (case pm_Metrics m of
        None \<Rightarrow> availability
      | Some metrics \<Rightarrow> availability(m_Gpu (pm_State m) \<mapsto> (mm_FreeGpuCount metrics > 0)))"

fun GetGPUAvailability :: "'s redis_client \<Rightarrow> (string \<times> string option \<times> string) list \<Rightarrow> (string \<Rightarrow> bool option) \<Rightarrow>
    ('s world, string \<Rightarrow> bool option) io" where
  "GetGPUAvailability R [] gpuAvailability = returnE gpuAvailability"
| "GetGPUAvailability R ((poolName, provider, gpuType) # pools) gpuAvailability =
     (case provider of
        None \<Rightarrow> GetGPUAvailability R pools gpuAvailability
      | Some p \<Rightarrow>
          if gpuAvailability gpuType = Some True then GetGPUAvailability R pools gpuAvailability
          else bindE (ListAllMachines R p poolName False) (\<lambda>machines.
                 GetGPUAvailability R pools (fold noteAvailability machines (gpuAvailability(gpuType \<mapsto> False)))))"

definition noteCount :: "provider_machine \<Rightarrow> (string \<times> int) list \<Rightarrow> (string \<times> int) list" where
  "noteCount m counts =
     (case pm_Metrics m of
        None \<Rightarrow> counts
      | Some metrics \<Rightarrow> addGpuCount (m_Gpu (pm_State m)) (mm_FreeGpuCount metrics) counts)"

fun addGPUCounts :: "'s redis_client \<Rightarrow> (string \<times> string option \<times> string) list \<Rightarrow> (string \<times> int) list \<Rightarrow>
    ('s world, (string \<times> int) list) io" where
  "addGPUCounts R [] gpuCounts = returnE gpuCounts"
| "addGPUCounts R ((poolName, provider, gpuType) # pools) gpuCounts =
     (case provider of
        None \<Rightarrow> addGPUCounts R pools gpuCounts
      | Some p \<Rightarrow> bindE (ListAllMachines R p poolName False) (\<lambda>machines.
                    addGPUCounts R pools (fold noteCount machines gpuCounts)))"

definition GetGPUCounts :: "'s redis_client \<Rightarrow> (string \<times> string option \<times> string) list \<Rightarrow>
    ('s world, (string \<times> int) list) io" where
  "GetGPUCounts R pools = addGPUCounts R pools initGpuCounts"

section \<open>Abstraction\<close>

definition read_machine :: "keyspace \<Rightarrow> string \<Rightarrow> string \<Rightarrow> string \<Rightarrow> machine_state" where
  "read_machine v p o' m = Machine_ToStruct (hashOf (v (ProviderMachineState p o' m))) zero_machine"

definition read_metrics :: "keyspace \<Rightarrow> string \<Rightarrow> string \<Rightarrow> string \<Rightarrow> machine_metrics option" where
  "read_metrics v p o' m =
     (if v (ProviderMachineMetrics p o' m) = None then None
      else Some (Metrics_ToStruct (hashOf (v (ProviderMachineMetrics p o' m))) zero_metrics))"

definition machine_at :: "keyspace \<Rightarrow> string \<Rightarrow> string \<Rightarrow> string \<Rightarrow> provider_machine" where
  "machine_at v p o' m = \<lparr>pm_State = read_machine v p o' m, pm_Metrics = read_metrics v p o' m\<rparr>"

definition wf_machine :: "machine_state \<Rightarrow> bool" where
  "wf_machine m \<longleftrightarrow> in_i64 (m_Cpu m) \<and> in_i64 (m_Memory m)"

definition wf_metrics :: "machine_metrics \<Rightarrow> bool" where
  "wf_metrics m \<longleftrightarrow>
     in_i64 (mm_TotalCpuAvailable m) \<and> in_i64 (mm_TotalMemoryAvailable m) \<and> in_i64 (mm_TotalDiskSpaceBytes m) \<and>
     in_i64 (mm_TotalDiskFreeBytes m) \<and> in_i64 (mm_WorkerCount m) \<and> in_i64 (mm_ContainerCount m) \<and>
     in_i64 (mm_FreeGpuCount m) \<and> in_i64 (mm_CacheCapacity m) \<and> in_i64 (mm_CacheMemoryUsage m)"

lemma Machine_ToSlice_not_Nil [simp]: "Machine_ToSlice m \<noteq> []"
  by (simp add: Machine_ToSlice_def)

lemma Metrics_ToSlice_not_Nil [simp]: "Metrics_ToSlice m \<noteq> []"
  by (simp add: Metrics_ToSlice_def)

lemma Machine_stored [simp]:
  assumes "wf_machine x"
  shows "Machine_ToStruct (h ++ map_of (rev (Machine_ToSlice x))) m0 = x"
proof -
  have "holds (Machine_ToSlice x) (h ++ map_of (rev (Machine_ToSlice x)))"
    by (rule holds_hset) (simp add: Machine_ToSlice_def)
  then show ?thesis
    using assms by (simp add: Machine_ToSlice_def Machine_ToStruct_def wf_machine_def set_Some)
qed

lemma Machine_stored_new [simp]: "wf_machine x \<Longrightarrow> Machine_ToStruct (map_of (rev (Machine_ToSlice x))) m0 = x"
  using Machine_stored [of x Map.empty] by simp

lemma Metrics_stored [simp]:
  assumes "wf_metrics x"
  shows "Metrics_ToStruct (h ++ map_of (rev (Metrics_ToSlice x))) m0 = x"
proof -
  have "holds (Metrics_ToSlice x) (h ++ map_of (rev (Metrics_ToSlice x)))"
    by (rule holds_hset) (simp add: Metrics_ToSlice_def)
  then show ?thesis
    using assms by (simp add: Metrics_ToSlice_def Metrics_ToStruct_def wf_metrics_def set_Some)
qed

lemma Metrics_stored_new [simp]: "wf_metrics x \<Longrightarrow> Metrics_ToStruct (map_of (rev (Metrics_ToSlice x))) m0 = x"
  using Metrics_stored [of x Map.empty] by simp

lemma wf_Machine_ToStruct [simp]: "wf_machine (Machine_ToStruct h zero_machine)"
  by (simp add: wf_machine_def Machine_ToStruct_def zero_machine_def set_int64_range in_i64_def [of 0])

lemma wf_machine_simps [simp]:
  "wf_machine (m\<lparr>m_MachineId := i\<rparr>) = wf_machine m" "wf_machine (m\<lparr>m_Status := s\<rparr>) = wf_machine m"
  "wf_machine (m\<lparr>m_Created := s\<rparr>) = wf_machine m" "wf_machine (m\<lparr>m_LastKeepalive := s\<rparr>) = wf_machine m"
  "wf_machine (m\<lparr>m_AgentVersion := s\<rparr>) = wf_machine m" "wf_machine (m\<lparr>m_LastWorkerSeen := s\<rparr>) = wf_machine m"
  "wf_machine n \<Longrightarrow> wf_machine (registered m n)"
  by (simp_all add: wf_machine_def registered_def)

text \<open>A machine called \<open>machine_index\<close> would share its key with the index of its pool.\<close>

lemma last_ne: "last xs \<noteq> last ys \<Longrightarrow> xs \<noteq> ys"
  by blast

lemma machine_keys [simp]:
  "ProviderMachineState p o' m = ProviderMachineIndex p o' \<longleftrightarrow> m = ''machine_index''"
  "ProviderMachineIndex p o' = ProviderMachineState p o' m \<longleftrightarrow> m = ''machine_index''"
  "ProviderMachineState p o' m = ProviderMachineState p o' n \<longleftrightarrow> m = n"
  "ProviderMachineMetrics p o' m \<noteq> ProviderMachineState p o' m"
  "ProviderMachineState p o' m \<noteq> ProviderMachineMetrics p o' m"
  "ProviderMachineMetrics p o' m \<noteq> ProviderMachineIndex p o'"
  "ProviderMachineIndex p o' \<noteq> ProviderMachineMetrics p o' m"
  using last_ne [of "m @ '':metrics''" "''machine_index''"] by (auto simp: key_eqs)

lemma machine_metrics_keys:
  "plain n \<Longrightarrow> ProviderMachineMetrics p o' m \<noteq> ProviderMachineState p o' n"
  by (auto simp: key_eqs plain_def)

lemma last_part_machine: "plain m \<Longrightarrow> last_part (ProviderMachineState p o' m) = m"
  by (simp add: key_eqs last_part_def plain_def Split_append Split_no_sep)

section \<open>Effect of the operations\<close>

lemma expirations_pos [simp]: "0 < MachinePendingExpirationS * second" "0 < MachineKeepaliveExpirationS * second"
  by (simp_all add: MachinePendingExpirationS_def MachineKeepaliveExpirationS_def second_def)

context redis_up
begin

lemma up_getMachineStateFromKey:
  assumes "V w k = Some (RHash h)"
    and "\<And>w'. V w' = V w \<Longrightarrow> locks w' = locks w \<Longrightarrow> Q (Machine_ToStruct h zero_machine) w'"
  shows "wp (getMachineStateFromKey R k) Q E w"
  unfolding getMachineStateFromKey_def wp_eqs
  by (rule up_Exists) (use assms in \<open>auto simp: wp_eqs intro!: up_HGetAll\<close>)

lemma up_getMachineStateFromKey_missing:
  assumes "V w k = None"
    and "\<And>w'. V w' = V w \<Longrightarrow> locks w' = locks w \<Longrightarrow> E (ErrNew ''machine not found'') w'"
  shows "wp (getMachineStateFromKey R k) Q E w"
  unfolding getMachineStateFromKey_def wp_eqs
  by (rule up_Exists) (use assms in \<open>simp add: wp_eqs\<close>)

lemma up_getMachineMetrics:
  assumes "isHash (V w (ProviderMachineMetrics p o' m))"
    and "\<And>x w'. read_metrics (V w) p o' m = Some x \<Longrightarrow> V w' = V w \<Longrightarrow> locks w' = locks w \<Longrightarrow> Q x w'"
    and "\<And>e w'. read_metrics (V w) p o' m = None \<Longrightarrow> V w' = V w \<Longrightarrow> locks w' = locks w \<Longrightarrow> E e w'"
  shows "wp (getMachineMetrics R p o' m) Q E w"
  unfolding getMachineMetrics_def Let_def wp_eqs
proof (rule up_Exists, goal_cases)
  case (1 w1)
  then show ?case
    using assms
    by (cases "V w (ProviderMachineMetrics p o' m)") (auto simp: wp_eqs read_metrics_def intro!: up_HGetAll)
qed

lemma up_AddMachine:
  assumes "isHash (V w (ProviderMachineState p o' m))" and "isSet (V w (ProviderMachineIndex p o'))"
    and "m \<noteq> ''machine_index''"
    and "\<And>w'. V w' = (V w)(ProviderMachineState p o' m \<mapsto> RHash (hashOf (V w (ProviderMachineState p o' m)) ++
             map_of (rev (Machine_ToSlice (info\<lparr>m_MachineId := m, m_Status := MachineStatusPending, m_Created := itoa t\<rparr>)))),
           ProviderMachineIndex p o' \<mapsto> RSet (insert (ProviderMachineState p o' m) (setOf (V w (ProviderMachineIndex p o'))))) \<Longrightarrow>
         Q () w'"
  shows "wp (AddMachine R t p o' m info) Q E w"
  using assms by (auto simp: AddMachine_def Let_def wp_eqs intro!: up_cmds)

lemma up_RegisterMachine:
  assumes "V w (ProviderMachineState p o' m) = Some (RHash h)"
    and "\<And>w'. V w' = (V w)(ProviderMachineState p o' m \<mapsto>
           RHash (h ++ map_of (rev (Machine_ToSlice (registered (Machine_ToStruct h zero_machine) new))))) \<Longrightarrow> Q () w'"
  shows "wp (RegisterMachine R t p o' m new g) Q E w"
  unfolding RegisterMachine_def Let_def wp_eqs
  by (rule up_getMachineStateFromKey [OF assms(1)]) (use assms in \<open>auto simp: wp_eqs intro!: up_cmds\<close>)

lemma up_RegisterMachine_new:
  assumes "V w (ProviderMachineState p o' m) = None" and "isSet (V w (ProviderMachineIndex p o'))"
    and "m \<noteq> ''machine_index''"
    and "\<And>w'. V w' = (V w)(ProviderMachineIndex p o' \<mapsto> RSet (insert (ProviderMachineState p o' m) (setOf (V w (ProviderMachineIndex p o')))),
         ProviderMachineState p o' m \<mapsto>
           RHash (map_of (rev (Machine_ToSlice (registered
             (zero_machine\<lparr>m_Gpu := g, m_Created := itoa t, m_LastKeepalive := itoa t, m_PoolName := o', m_MachineId := m\<rparr>) new))))) \<Longrightarrow>
       Q () w'"
  shows "wp (RegisterMachine R t p o' m new g) Q E w"
  unfolding RegisterMachine_def Let_def wp_eqs
  by (rule up_getMachineStateFromKey_missing [OF assms(1)]) (use assms in \<open>auto simp: wp_eqs intro!: up_cmds\<close>)

lemma up_SetMachineKeepAlive:
  assumes "V w (ProviderMachineState p o' m) = Some (RHash h)" and "isHash (V w (ProviderMachineMetrics p o' m))"
    and "\<And>w'. V w' = (V w)(ProviderMachineState p o' m \<mapsto> RHash (h ++ map_of (rev (Machine_ToSlice
             ((Machine_ToStruct h zero_machine)\<lparr>m_LastKeepalive := itoa t, m_AgentVersion := a, m_Status := MachineStatusReady\<rparr>)))),
           ProviderMachineMetrics p o' m \<mapsto> RHash (hashOf (V w (ProviderMachineMetrics p o' m)) ++ map_of (rev (Metrics_ToSlice x)))) \<Longrightarrow>
         Q () w'"
  shows "wp (SetMachineKeepAlive R t p o' m a x) Q E w"
  unfolding SetMachineKeepAlive_def Let_def wp_eqs
  by (rule up_getMachineStateFromKey [OF assms(1)]) (use assms in \<open>auto simp: wp_eqs intro!: up_cmds\<close>)

lemma up_GetMachine:
  assumes "V w (ProviderMachineState p o' m) = Some (RHash h)" and "h \<noteq> Map.empty"
    and "isHash (V w (ProviderMachineMetrics p o' m))"
    and "\<And>w'. V w' = V w \<Longrightarrow> Q (machine_at (V w) p o' m) w'"
  shows "wp (GetMachine R p o' m) Q E w"
  unfolding GetMachine_def wp_eqs
proof (rule up_HGetAll, goal_cases)
  case (2 res w1)
  then have "length res \<noteq> 0" using assms(1,2) by auto
  then show ?case
    using 2 assms
    by (auto simp: wp_eqs machine_at_def read_machine_def withMetrics_def intro!: up_getMachineMetrics)
qed (use assms in simp)

text \<open>
  Without the locks, \<open>ListAllMachines\<close> returns the machines of the index whose state is stored, each with its
  metrics, and removes the others from the index; it changes nothing else.
\<close>

lemma up_collectMachines:
  assumes "\<forall>m \<in> set ms. plain m \<and> m \<noteq> ''machine_index'' \<and> isHash (v (ProviderMachineState p o' m)) \<and>
       isHash (v (ProviderMachineMetrics p o' m))"
    and "agree_off {ProviderMachineIndex p o'} v (V w)" and "isSet (V w (ProviderMachineIndex p o'))"
    and "\<And>w'. agree_off {ProviderMachineIndex p o'} v (V w') \<Longrightarrow> isSet (V w' (ProviderMachineIndex p o')) \<Longrightarrow>
       setOf (V w' (ProviderMachineIndex p o')) = setOf (V w (ProviderMachineIndex p o')) -
         ProviderMachineState p o' ` {m \<in> set ms. v (ProviderMachineState p o' m) = None} \<Longrightarrow>
       Q (acc @ map (machine_at v p o') (filter (\<lambda>m. v (ProviderMachineState p o' m) \<noteq> None) ms)) w'"
  shows "wp (collectMachines R p o' False (map (ProviderMachineState p o') ms) acc) Q E w"
  using assms
proof (induction ms arbitrary: acc w)
  case Nil
  then show ?case by (simp add: wp_eqs)
next
  case (Cons m ms)
  let ?k = "ProviderMachineState p o' m" and ?i = "ProviderMachineIndex p o'"
  have m: "plain m" "m \<noteq> ''machine_index''" "isHash (v ?k)" "isHash (v (ProviderMachineMetrics p o' m))"
    using Cons.prems(1) by simp_all
  have same: "V w ?k = v ?k" "V w (ProviderMachineMetrics p o' m) = v (ProviderMachineMetrics p o' m)"
    using Cons.prems(2) m(2) by (simp_all add: agree_off_def)
  show ?case
  proof (cases "v ?k")
    case None
    have gone: "wp (collectMachines R p o' False (map (ProviderMachineState p o') ms) acc) Q E w1"
      if "V w1 = (V w)(?i := putSet (setOf (V w ?i) - {?k}), ?k := None)" for w1
    proof (rule Cons.IH, goal_cases)
      case 1
      then show ?case using Cons.prems(1) by simp
    next
      case 2
      then show ?case using that Cons.prems(2) None m(2) by (auto simp: agree_off_def)
    next
      case 3
      then show ?case using that m(2) by simp
    next
      case (4 w2)
      have stale: "{n \<in> set (m # ms). v (ProviderMachineState p o' n) = None} =
              insert m {n \<in> set ms. v (ProviderMachineState p o' n) = None}"
        using None by auto
      have "setOf (V w1 ?i) = setOf (V w ?i) - {?k}" using that m(2) by simp
      from Cons.prems(4) [OF 4(1,2), unfolded stale image_insert 4(3) this] None
      show ?case by (simp flip: Diff_insert2)
    qed
    show ?thesis
      using m same None Cons.prems(3)
      by (auto simp: last_part_machine RemoveMachine_def Let_def wp_eqs
          intro!: up_getMachineStateFromKey_missing up_SRem up_Del gone)
  next
    case (Some x)
    then obtain h where h: "v ?k = Some (RHash h)" using m(3) by (cases x) simp_all
    have found: "wp (collectMachines R p o' False (map (ProviderMachineState p o') ms) (acc @ [machine_at v p o' m])) Q E w1"
      if "V w1 = V w" for w1
    proof (rule Cons.IH, goal_cases)
      case (4 w2)
      have stale: "{n \<in> set (m # ms). v (ProviderMachineState p o' n) = None} =
              {n \<in> set ms. v (ProviderMachineState p o' n) = None}"
        using h by auto
      from Cons.prems(4) [OF 4(1,2), unfolded stale 4(3) that] h
      show ?case by simp
    qed (use Cons.prems that in simp_all)
    have metrics: "read_metrics (V w1) p o' m = read_metrics v p o' m" if "V w1 = V w" for w1
      using same that by (simp add: read_metrics_def)
    show ?thesis
      using m same h found
      by (auto simp: last_part_machine Let_def wp_eqs withMetrics_def machine_at_def read_machine_def metrics
          intro!: up_getMachineStateFromKey up_getMachineMetrics)
  qed
qed

lemma up_ListAllMachines:
  assumes "isSet (V w (ProviderMachineIndex p o'))"
    and "setOf (V w (ProviderMachineIndex p o')) = ProviderMachineState p o' ` I"
    and "\<forall>m \<in> I. plain m \<and> m \<noteq> ''machine_index'' \<and> isHash (V w (ProviderMachineState p o' m)) \<and>
       isHash (V w (ProviderMachineMetrics p o' m))"
  shows "wp (ListAllMachines R p o' False)
     (\<lambda>res w'. \<exists>ms. distinct ms \<and> set ms = {m \<in> I. V w (ProviderMachineState p o' m) \<noteq> None} \<and>
        res = map (machine_at (V w) p o') ms \<and>
        setOf (V w' (ProviderMachineIndex p o')) = ProviderMachineState p o' ` set ms \<and>
        agree_off {ProviderMachineIndex p o'} (V w) (V w')) (\<lambda>_ _. False) w"
  unfolding ListAllMachines_def wp_eqs
proof (rule up_SMembers [OF assms(1)], goal_cases)
  case (1 ks w1)
  then obtain "is" where "is": "ks = map (ProviderMachineState p o') is" "set is \<subseteq> I"
    using subset_image_list [of ks "ProviderMachineState p o'" I] assms(2) by auto
  have inj: "inj_on (ProviderMachineState p o') A" for A by (simp add: inj_on_def)
  have "ProviderMachineState p o' ` set is = ProviderMachineState p o' ` I"
    using 1(1) assms(2) "is"(1) by (simp flip: set_map)
  then have I: "set is = I" using inj_on_image_eq_iff [OF inj [of UNIV]] by blast
  have d: "distinct is" using 1(2) "is"(1) by (simp add: distinct_map)
  show ?case
    unfolding "is"(1)
  proof (rule up_collectMachines [where v = "V w"], goal_cases)
    case (4 w2)
    let ?live = "filter (\<lambda>m. V w (ProviderMachineState p o' m) \<noteq> None) is"
    have "set ?live = {m \<in> I. V w (ProviderMachineState p o' m) \<noteq> None}" using I by auto
    moreover have "setOf (V w2 (ProviderMachineIndex p o')) = ProviderMachineState p o' ` set ?live"
      unfolding 4(3) 1(3) assms(2) I [symmetric] by (auto simp: image_iff)
    ultimately show ?case using 4(1) d by (intro exI [of _ ?live]) simp
  qed (use assms I 1(3) in simp_all)
qed

lemma machine_lifecycle_up:
  assumes "V w (ProviderMachineState p o' m) = None" and "isSet (V w (ProviderMachineIndex p o'))"
    and "isHash (V w (ProviderMachineMetrics p o' m))" and "m \<noteq> ''machine_index''"
    and "wf_machine info" and "wf_machine new" and "wf_metrics x"
  shows "wp (thenE (AddMachine R t1 p o' m info) (thenE (RegisterMachine R t2 p o' m new g)
       (thenE (SetMachineKeepAlive R t3 p o' m a x) (GetMachine R p o' m))))
     (\<lambda>y _. y = \<lparr>pm_State = (registered (info\<lparr>m_MachineId := m, m_Status := MachineStatusPending, m_Created := itoa t1\<rparr>) new)
          \<lparr>m_LastKeepalive := itoa t3, m_AgentVersion := a, m_Status := MachineStatusReady\<rparr>, pm_Metrics = Some x\<rparr>)
     (\<lambda>_ _. False) w"
  unfolding wp_eqs
proof (rule up_AddMachine, goal_cases)
  case (4 w1)
  then have s1: "V w1 (ProviderMachineState p o' m) = Some (RHash (hashOf (V w (ProviderMachineState p o' m)) ++
      map_of (rev (Machine_ToSlice (info\<lparr>m_MachineId := m, m_Status := MachineStatusPending, m_Created := itoa t1\<rparr>)))))"
    using assms(4) by simp
  show ?case
  proof (rule up_RegisterMachine [OF s1], goal_cases)
    case (1 w2)
    then have s2: "V w2 (ProviderMachineState p o' m) = Some (RHash (hashOf (V w2 (ProviderMachineState p o' m))))" by simp
    show ?case
    proof (rule up_SetMachineKeepAlive [OF s2], goal_cases)
      case (2 w3)
      then have s3: "V w3 (ProviderMachineState p o' m) = Some (RHash (hashOf (V w3 (ProviderMachineState p o' m))))" by simp
      show ?case
        by (rule up_GetMachine [OF s3]) (use 1 2 assms in \<open>simp_all add: machine_at_def read_machine_def read_metrics_def\<close>)
    qed (use 1 4 assms in simp)
  qed
qed (use assms in simp_all)

end

text \<open>What \<open>GetGPUAvailability\<close> makes of one pool.\<close>

lemma noteAvailability_other:
  "\<forall>m \<in> set ms. m_Gpu (pm_State m) = g \<longrightarrow> pm_Metrics m = None \<Longrightarrow> fold noteAvailability ms f g = f g"
  by (induction ms arbitrary: f) (auto simp: noteAvailability_def split: option.splits)

lemma GetGPUAvailability_one:
  "fst (ListAllMachines R p o' False w) = Inr ms \<Longrightarrow>
   fst (GetGPUAvailability R [(o', Some p, g)] Map.empty w) = Inr (fold noteAvailability ms [g \<mapsto> False])"
  by (cases "ListAllMachines R p o' False w") (simp add: bindE_def returnE_def)

section \<open>Properties\<close>



text \<open>
  Listing a pool without the locks returns each machine of the index whose state has not expired exactly once,
  with its metrics, and leaves exactly these machines in the index.
\<close>

theorem listing_prunes_expired_machines:
  assumes "redis_up R view" and "isSet (view (rdb w) (ProviderMachineIndex p o'))"
    and "setOf (view (rdb w) (ProviderMachineIndex p o')) = ProviderMachineState p o' ` I"
    and "\<forall>m \<in> I. plain m \<and> m \<noteq> ''machine_index'' \<and> isHash (view (rdb w) (ProviderMachineState p o' m)) \<and>
       isHash (view (rdb w) (ProviderMachineMetrics p o' m))"
  shows "\<exists>ms w'. ListAllMachines R p o' False w = (Inr (map (machine_at (view (rdb w)) p o') ms), w') \<and> distinct ms \<and>
     set ms = {m \<in> I. view (rdb w) (ProviderMachineState p o' m) \<noteq> None} \<and>
     setOf (view (rdb w') (ProviderMachineIndex p o')) = ProviderMachineState p o' ` set ms \<and>
     agree_off {ProviderMachineIndex p o'} (view (rdb w)) (view (rdb w'))"
  using wp_success [OF redis_up.up_ListAllMachines [OF assms]] by blast

theorem listing_prunes_expired_machines_witness:
  "\<exists>ms w'. ListAllMachines mem_client ''aws'' ''gpu'' False
       \<lparr>rdb = [ProviderMachineIndex ''aws'' ''gpu'' \<mapsto> MSet [ProviderMachineState ''aws'' ''gpu'' ''m1'']], locks = Map.empty\<rparr> =
       (Inr (map (machine_at [ProviderMachineIndex ''aws'' ''gpu'' \<mapsto> RSet {ProviderMachineState ''aws'' ''gpu'' ''m1''}] ''aws'' ''gpu'') ms), w') \<and>
     distinct ms \<and> set ms = {} \<and> setOf (mem_view (rdb w') (ProviderMachineIndex ''aws'' ''gpu'')) = {}"
proof -
  let ?w = "\<lparr>rdb = [ProviderMachineIndex ''aws'' ''gpu'' \<mapsto> MSet [ProviderMachineState ''aws'' ''gpu'' ''m1'']], locks = Map.empty\<rparr>"
  have v: "mem_view (rdb ?w) = [ProviderMachineIndex ''aws'' ''gpu'' \<mapsto> RSet {ProviderMachineState ''aws'' ''gpu'' ''m1''}]"
    by (simp add: mem_view_def fun_eq_iff)
  have a: "isSet (mem_view (rdb ?w) (ProviderMachineIndex ''aws'' ''gpu''))"
    "setOf (mem_view (rdb ?w) (ProviderMachineIndex ''aws'' ''gpu'')) = ProviderMachineState ''aws'' ''gpu'' ` {''m1''}"
    unfolding v by simp_all
  have b: "\<forall>m \<in> {''m1''}. plain m \<and> m \<noteq> ''machine_index'' \<and> isHash (mem_view (rdb ?w) (ProviderMachineState ''aws'' ''gpu'' m)) \<and>
       isHash (mem_view (rdb ?w) (ProviderMachineMetrics ''aws'' ''gpu'' m))"
    unfolding v by (simp add: plain_def)
  have c: "{m \<in> {''m1''}. mem_view (rdb ?w) (ProviderMachineState ''aws'' ''gpu'' m) \<noteq> None} = {}"
    unfolding v by simp
  obtain ms w' where
    "ListAllMachines mem_client ''aws'' ''gpu'' False ?w = (Inr (map (machine_at (mem_view (rdb ?w)) ''aws'' ''gpu'') ms), w')"
    "set ms = {}" "setOf (mem_view (rdb w') (ProviderMachineIndex ''aws'' ''gpu'')) = ProviderMachineState ''aws'' ''gpu'' ` set ms"
    using listing_prunes_expired_machines [where view = mem_view and w = ?w, OF mem.redis_up_axioms a b, unfolded c] by blast
  then show ?thesis unfolding v by (intro exI [of _ ms] exI [of _ w']) simp
qed

text \<open>
  Within a pool, the reported availability of a GPU type is that of the last listed machine of the type that has
  metrics: a machine with free GPUs is hidden by a full one that is listed after it.
\<close>

theorem availability_of_last_machine:
  assumes "fst (ListAllMachines R p o' False w) = Inr (ms @ m # ms')" and "pm_Metrics m = Some x"
    and "\<forall>m' \<in> set ms'. m_Gpu (pm_State m') = m_Gpu (pm_State m) \<longrightarrow> pm_Metrics m' = None"
  shows "\<exists>f. fst (GetGPUAvailability R [(o', Some p, g)] Map.empty w) = Inr f \<and>
     f (m_Gpu (pm_State m)) = Some (mm_FreeGpuCount x > 0)"
  using GetGPUAvailability_one [OF assms(1)] noteAvailability_other [OF assms(3)] assms(2)
  by (simp add: noteAvailability_def)

text \<open>Two machines of one pool, the second of them full.\<close>

definition ex_two_machines :: "unit redis_client" where
  "ex_two_machines =
     \<lparr>cHSet = (\<lambda>_ _. returnE ()),
      cHGetAll = (\<lambda>k. returnE (
         if k = ProviderMachineMetrics ''aws'' ''gpu'' ''m1'' then rev (Metrics_ToSlice (zero_metrics\<lparr>mm_FreeGpuCount := 2\<rparr>))
         else if k = ProviderMachineMetrics ''aws'' ''gpu'' ''m2'' then rev (Metrics_ToSlice zero_metrics)
         else rev (Machine_ToSlice (zero_machine\<lparr>m_Gpu := ''T4''\<rparr>)))),
      cSAdd = (\<lambda>_ _. returnE ()), cSRem = (\<lambda>_ _. returnE ()),
      cSMembers = (\<lambda>_. returnE [ProviderMachineState ''aws'' ''gpu'' ''m1'', ProviderMachineState ''aws'' ''gpu'' ''m2'']),
      cDel = (\<lambda>_. returnE ()), cExists = (\<lambda>_. returnE True), cExpire = (\<lambda>_ _. returnE ()), cGet = (\<lambda>_. returnE []),
      cSet = (\<lambda>_ _ _. returnE ()), cRPush = (\<lambda>_ _. returnE ()), cLPop = (\<lambda>_. returnE []), cLLen = (\<lambda>_. returnE 0),
      cZAdd = (\<lambda>_ _ _. returnE ()), cZPopMin = (\<lambda>_. returnE []), cZCard = (\<lambda>_. returnE 0),
      cObtain = (\<lambda>_ _ _. returnE []), cRetrieveLock = (\<lambda>_ _. returnE ()), cReleaseLock = (\<lambda>_ _. returnE ())\<rparr>"

lemma ex_two_machines_list:
  "fst (ListAllMachines ex_two_machines ''aws'' ''gpu'' False w) =
     Inr [\<lparr>pm_State = zero_machine\<lparr>m_Gpu := ''T4''\<rparr>, pm_Metrics = Some (zero_metrics\<lparr>mm_FreeGpuCount := 2\<rparr>)\<rparr>,
          \<lparr>pm_State = zero_machine\<lparr>m_Gpu := ''T4''\<rparr>, pm_Metrics = Some zero_metrics\<rparr>]"
proof -
  have wf: "wf_machine (zero_machine\<lparr>m_Gpu := ''T4''\<rparr>)" "wf_metrics zero_metrics" "wf_metrics (zero_metrics\<lparr>mm_FreeGpuCount := 2\<rparr>)"
    by (simp_all add: wf_machine_def wf_metrics_def zero_machine_def zero_metrics_def in_i64_def)
  have plain: "plain ''m1''" "plain ''m2''" by (simp_all add: plain_def)
  have ne: "ProviderMachineMetrics ''aws'' ''gpu'' ''m2'' \<noteq> ProviderMachineMetrics ''aws'' ''gpu'' ''m1''"
    by (simp add: key_eqs)
  have st: "ProviderMachineState ''aws'' ''gpu'' m \<noteq> ProviderMachineMetrics ''aws'' ''gpu'' n" if "plain m" for m n
    using machine_metrics_keys [OF that] by metis
  show ?thesis
    by (simp add: plain ne st wf ListAllMachines_def getMachineStateFromKey_def getMachineMetrics_def Let_def wrapE_def attempt_def bindE_def thenE_def
      returnE_def withMetrics_def SMembers_def Exists_def HGetAll_def onR_def ex_two_machines_def last_part_machine)
qed

theorem availability_of_last_machine_witness:
  "\<exists>f. fst (GetGPUAvailability ex_two_machines [(''gpu'', Some ''aws'', ''T4'')] Map.empty \<lparr>rdb = (), locks = Map.empty\<rparr>) = Inr f \<and>
     f ''T4'' = Some False"
proof -
  let ?m1 = "\<lparr>pm_State = zero_machine\<lparr>m_Gpu := ''T4''\<rparr>, pm_Metrics = Some (zero_metrics\<lparr>mm_FreeGpuCount := 2\<rparr>)\<rparr>"
    and ?m2 = "\<lparr>pm_State = zero_machine\<lparr>m_Gpu := ''T4''\<rparr>, pm_Metrics = Some zero_metrics\<rparr>"
  have "fst (ListAllMachines ex_two_machines ''aws'' ''gpu'' False \<lparr>rdb = (), locks = Map.empty\<rparr>) = Inr ([?m1] @ ?m2 # [])"
    unfolding ex_two_machines_list by simp
  from availability_of_last_machine [OF this, of zero_metrics "''T4''"]
  have "\<exists>f. fst (GetGPUAvailability ex_two_machines [(''gpu'', Some ''aws'', ''T4'')] Map.empty \<lparr>rdb = (), locks = Map.empty\<rparr>) = Inr f \<and>
     f ''T4'' = Some (0 < mm_FreeGpuCount zero_metrics)"
    by (simp del: GetGPUAvailability.simps)
  moreover have "\<not> 0 < mm_FreeGpuCount zero_metrics" by (simp add: zero_metrics_def)
  ultimately show ?thesis by (simp del: GetGPUAvailability.simps)
qed

end
