(* ===== verification/Pool_Sizing.thy ===== *)
theory Pool_Sizing
  imports Pool_Manager Provider_Repo
begin

text \<open>
  The size of a pool: the quantities of the configuration (\<open>pkg/scheduler/utils.go\<close>), the free capacity of a pool
  (\<open>freePoolCapacity\<close> of \<open>pkg/scheduler/pool.go\<close>) and the sizer that keeps a buffer of free workers
  (\<open>pkg/scheduler/pool_sizing.go\<close>). A tick of the sizer is a function; its ticker is the caller.
\<close>

section \<open>Quantities\<close>

text \<open>Integer division of Go truncates towards zero.\<close>

definition go_div :: "int \<Rightarrow> int \<Rightarrow> int" where
  "go_div a b = sgn a * sgn b * (\<bar>a\<bar> div \<bar>b\<bar>)"

definition parse_error :: goerror where
  "parse_error = ErrNew ''invalid syntax''"

definition ParseCPU :: "string \<Rightarrow> goerror + int" where
  "ParseCPU cpu =
     (case ParseInt (TrimSuffix cpu ''m'') 64 of
        None \<Rightarrow> Inl parse_error
      | Some cpuValue \<Rightarrow> if cpuValue < 0 then Inl (ErrNew ''invalid cpu value'') else Inr cpuValue)"

definition ParseGpuCount :: "string \<Rightarrow> goerror + int" where
  "ParseGpuCount gpuCount =
     (case ParseInt gpuCount 64 of
        None \<Rightarrow> Inl parse_error
      | Some v \<Rightarrow> if v < 0 then Inl (ErrNew ''invalid gpu_count value'') else Inr v)"

definition is_digit :: "char \<Rightarrow> bool" where
  "is_digit c \<longleftrightarrow> c \<in> set ''0123456789''"

definition ParseMemory :: "string \<Rightarrow> goerror + int" where
  "ParseMemory memStr =
     (let unit = dropWhile is_digit memStr;
          valueStr = TrimSuffix memStr unit
      in case ParseInt valueStr 64 of
           None \<Rightarrow> Inl parse_error
         | Some val \<Rightarrow>
             if unit = ''Ki'' then Inr (go_div (i64 (val * 1024)) (1024 * 1024))
             else if unit = ''Mi'' then Inr val
             else if unit = ''Gi'' then Inr (i64 (val * 1024))
             else if unit = '''' then Inr val
             else Inl (ErrNew ''invalid memory unit''))"

definition ParseGPU :: "string \<Rightarrow> goerror + 64 word" where
  "ParseGPU gpu =
     (case ParseInt gpu 64 of
        None \<Rightarrow> Inl parse_error
      | Some gpuValue \<Rightarrow> if gpuValue < 0 then Inl (ErrNew ''invalid gpu value'') else Inr (of_int gpuValue))"

definition ParseGPUType :: "string \<Rightarrow> goerror + string" where
  "ParseGPUType gpu =
     (if gpu \<in> set [''A100-40'', ''A100-80'', ''A10G'', ''L4'', ''T4'', ''H100'', ''A6000'', ''RTX4090'', ''L40S'']
      then Inr gpu else Inl (ErrNew ''invalid gpu type''))"

section \<open>Free capacity\<close>

definition addCapacity :: "worker \<Rightarrow> WorkerPoolCapacity \<Rightarrow> WorkerPoolCapacity" where
  "addCapacity worker c =
     (if w_Status worker = WorkerStatusDisabled then c
      else if w_Status worker = WorkerStatusPending then
        c\<lparr>pc_PendingCpu := i64 (pc_PendingCpu c + w_FreeCpu worker),
          pc_PendingMemory := i64 (pc_PendingMemory c + w_FreeMemory worker),
          pc_PendingGpu := (if w_Gpu worker \<noteq> [] \<and> w_FreeCpu worker > 0 \<and> w_FreeMemory worker > 0
             then pc_PendingGpu c + ucast (w_TotalGpuCount worker) else pc_PendingGpu c)\<rparr>
      else
        c\<lparr>pc_FreeCpu := i64 (pc_FreeCpu c + w_FreeCpu worker),
          pc_FreeMemory := i64 (pc_FreeMemory c + w_FreeMemory worker),
          pc_FreeGpu := (if w_Gpu worker \<noteq> [] \<and> w_FreeCpu worker > 0 \<and> w_FreeMemory worker > 0
             then pc_FreeGpu c + ucast (w_FreeGpuCount worker) else pc_FreeGpu c)\<rparr>)"

definition zero_capacity :: WorkerPoolCapacity where
  "zero_capacity = \<lparr>pc_FreeCpu = 0, pc_FreeMemory = 0, pc_FreeGpu = 0, pc_PendingCpu = 0, pc_PendingMemory = 0, pc_PendingGpu = 0\<rparr>"

definition freePoolCapacity :: "'s redis_client \<Rightarrow> string \<Rightarrow> ('s world, WorkerPoolCapacity) io" where
  "freePoolCapacity R name =
     bindE (GetAllWorkersInPool R name) (\<lambda>workers. returnE (fold addCapacity workers zero_capacity))"

section \<open>The sizer\<close>

definition shouldAddWorker :: "WorkerPoolCapacity \<Rightarrow> WorkerPoolSizingConfig \<Rightarrow> bool" where
  "shouldAddWorker freeCapacity config \<longleftrightarrow>
     i64 (pc_FreeCpu freeCapacity + pc_PendingCpu freeCapacity) < sz_MinFreeCpu config \<or>
     i64 (pc_FreeMemory freeCapacity + pc_PendingMemory freeCapacity) < sz_MinFreeMemory config \<or>
     (sz_MinFreeGpu config > 0 \<and> pc_FreeGpu freeCapacity + pc_PendingGpu freeCapacity < sz_MinFreeGpu config)"

definition orDefault :: "goerror + 'a \<Rightarrow> 'a \<Rightarrow> 'a" where
  "orDefault r d = (case r of Inl _ \<Rightarrow> d | Inr a \<Rightarrow> a)"

definition parsePoolSizingConfig :: "sizing_config \<Rightarrow> WorkerPoolSizingConfig" where
  "parsePoolSizingConfig config =
     (let c = NewWorkerPoolSizingConfig;
          c = c\<lparr>sz_MinFreeCpu := orDefault (ParseCPU (js_MinFreeCPU config)) (sz_MinFreeCpu c)\<rparr>;
          c = c\<lparr>sz_MinFreeMemory := orDefault (ParseMemory (js_MinFreeMemory config)) (sz_MinFreeMemory c)\<rparr>;
          c = c\<lparr>sz_MinFreeGpu := orDefault (ParseGPU (js_MinFreeGPU config)) (sz_MinFreeGpu c)\<rparr>;
          c = c\<lparr>sz_DefaultWorkerCpu := orDefault (ParseCPU (js_DefaultWorkerCPU config)) (sz_DefaultWorkerCpu c)\<rparr>;
          c = c\<lparr>sz_DefaultWorkerMemory := orDefault (ParseMemory (js_DefaultWorkerMemory config)) (sz_DefaultWorkerMemory c)\<rparr>;
          gpuType = orDefault (ParseGPUType (js_DefaultWorkerGpuType config)) [];
          c = (case ParseGPUType (js_DefaultWorkerGpuType config) of Inl _ \<Rightarrow> c | Inr g \<Rightarrow> c\<lparr>sz_DefaultWorkerGpuType := g\<rparr>);
          c = (case ParseGpuCount (js_DefaultWorkerGpuCount config) of
                 Inl _ \<Rightarrow> c | Inr n \<Rightarrow> c\<lparr>sz_DefaultWorkerGpuCount := of_int n\<rparr>)
      in if sz_DefaultWorkerGpuCount c \<le> 0 \<and> gpuType \<noteq> [] then c\<lparr>sz_DefaultWorkerGpuCount := 1\<rparr> else c)"

record 's WorkerPoolSizer =
  zr_controller :: "'s controller"
  zr_workerPoolConfig :: WorkerPoolConfig
  zr_workerPoolSizingConfig :: WorkerPoolSizingConfig

definition NewWorkerPoolSizer :: "'s controller \<Rightarrow> WorkerPoolConfig \<Rightarrow> 's WorkerPoolSizer" where
  "NewWorkerPoolSizer controller workerPoolConfig =
     \<lparr>zr_controller = controller, zr_workerPoolConfig = workerPoolConfig,
      zr_workerPoolSizingConfig = parsePoolSizingConfig (wc_PoolSizing workerPoolConfig)\<rparr>"

definition addWorkerIfNeeded :: "'s WorkerPoolSizer \<Rightarrow> WorkerPoolCapacity \<Rightarrow> ('s world, worker option) io" where
  "addWorkerIfNeeded s freeCapacity =
     (let c = zr_workerPoolSizingConfig s
      in if \<not> shouldAddWorker freeCapacity c then returnE None
         else bindE (ct_AddWorker (zr_controller s) (sz_DefaultWorkerCpu c) (sz_DefaultWorkerMemory c) (sz_DefaultWorkerGpuCount c))
                (\<lambda>worker. returnE (Some worker)))"

fun occupyMachines :: "'s WorkerPoolSizer \<Rightarrow> provider_machine list \<Rightarrow> ('s world, unit) io" where
  "occupyMachines s [] = returnE ()"
| "occupyMachines s (m # ms) =
     (let c = zr_workerPoolSizingConfig s
      in if m_AutoConsolidate (pm_State m) then occupyMachines s ms
         else thenE (attempt (ct_AddWorkerToMachine (zr_controller s) (sz_DefaultWorkerCpu c) (sz_DefaultWorkerMemory c)
                       (sz_DefaultWorkerGpuType c) (sz_DefaultWorkerGpuCount c) (m_MachineId (pm_State m))))
                (occupyMachines s ms))"

text \<open>A pool in external mode has a provider; the source dereferences it without a check, which panics.\<close>

definition occupyAvailableMachines :: "'s redis_client \<Rightarrow> 's WorkerPoolSizer \<Rightarrow> ('s world, unit) io" where
  "occupyAvailableMachines R s =
     (let name = ct_Name (zr_controller s)
      in thenE (SetWorkerPoolSizerLock R name)
           (deferring (RemoveWorkerPoolSizerLock R name)
             (case wc_Provider (zr_workerPoolConfig s) of
                None \<Rightarrow> throwE (Panic ''nil pointer dereference'')
              | Some provider \<Rightarrow> bindE (ListAllMachines R provider name True) (occupyMachines s))))"

text \<open>The body of the loop of \<open>Start\<close>; the previous state is only used for log messages.\<close>

definition sizerTick :: "'s redis_client \<Rightarrow> 's WorkerPoolSizer \<Rightarrow> ('s world, unit) io" where
  "sizerTick R s =
     bindE (attempt (ct_State (zr_controller s))) (\<lambda>st.
       case st of
         Inl _ \<Rightarrow> returnE ()
       | Inr nextState \<Rightarrow>
           if ps_Status nextState = WorkerPoolStatusDegraded then returnE ()
           else bindE (attempt (ct_FreeCapacity (zr_controller s))) (\<lambda>fc.
             case fc of
               Inl _ \<Rightarrow> returnE ()
             | Inr freeCapacity \<Rightarrow>
                 thenE (attempt (addWorkerIfNeeded s freeCapacity))
                   (if wc_Mode (zr_workerPoolConfig s) = PoolModeExternal
                    then bindE (attempt (occupyAvailableMachines R s)) (\<lambda>r. case r of Inl (Panic m) \<Rightarrow> throwE (Panic m) | _ \<Rightarrow> returnE ())
                    else returnE ())))"

section \<open>Lemmas\<close>

lemma is_digit_utoa: "\<forall>c \<in> set (utoa n). is_digit c"
proof (induction n rule: utoa.induct)
  case (1 n)
  have d: "is_digit (digit d)" if "d < 10" for d
    using less_10_cases [OF that] by (auto simp: digit_def is_digit_def)
  show ?case
  proof (cases "n < 10")
    case True
    then show ?thesis by (subst utoa.simps) (simp add: d)
  next
    case False
    then show ?thesis by (subst utoa.simps) (use 1 d [of "n mod 10"] in auto)
  qed
qed

lemma dropWhile_utoa: "(\<And>c. c \<in> set u \<Longrightarrow> \<not> is_digit c) \<Longrightarrow> dropWhile is_digit (utoa n @ u) = u"
  using is_digit_utoa [of n] by (cases u) (auto simp: dropWhile_append)

lemma ParseInt_utoa: "n < 2 ^ 63 \<Longrightarrow> ParseInt (utoa n) 64 = Some (int n)"
  using ParseInt_itoa_64 [of "int n"] by (simp add: itoa_def in_i64_def)

lemma ParseMemory_utoa:
  assumes "n < 2 ^ 63"
  shows "ParseMemory (utoa n @ ''Ki'') = Inr (go_div (i64 (int n * 1024)) (1024 * 1024))"
    "ParseMemory (utoa n @ ''Mi'') = Inr (int n)"
    "ParseMemory (utoa n @ ''Gi'') = Inr (i64 (int n * 1024))"
    "ParseMemory (utoa n) = Inr (int n)"
proof -
  have u: "dropWhile is_digit (utoa n @ ''Ki'') = ''Ki''" "dropWhile is_digit (utoa n @ ''Mi'') = ''Mi''"
    "dropWhile is_digit (utoa n @ ''Gi'') = ''Gi''"
    by (rule dropWhile_utoa, auto simp: is_digit_def)+
  have e: "dropWhile is_digit (utoa n) = []" using dropWhile_utoa [of "[]" n] by simp
  have t: "TrimSuffix s [] = s" for s by (simp add: TrimSuffix_def HasSuffix_def)
  show "ParseMemory (utoa n @ ''Ki'') = Inr (go_div (i64 (int n * 1024)) (1024 * 1024))"
    "ParseMemory (utoa n @ ''Mi'') = Inr (int n)"
    "ParseMemory (utoa n @ ''Gi'') = Inr (i64 (int n * 1024))"
    "ParseMemory (utoa n) = Inr (int n)"
    by (simp_all add: ParseMemory_def u Let_def ParseInt_utoa [OF assms] e t)
qed

lemma ParseCPU_itoa: "0 \<le> n \<Longrightarrow> in_i64 n \<Longrightarrow> ParseCPU (itoa n @ ''m'') = Inr n"
  by (simp add: ParseCPU_def ParseInt_itoa_64)

lemma parsePoolSizingConfig_sel:
  "sz_MinFreeCpu (parsePoolSizingConfig c) = orDefault (ParseCPU (js_MinFreeCPU c)) 0"
  "sz_DefaultWorkerCpu (parsePoolSizingConfig c) = orDefault (ParseCPU (js_DefaultWorkerCPU c)) 1000"
  "sz_DefaultWorkerGpuType (parsePoolSizingConfig c) = orDefault (ParseGPUType (js_DefaultWorkerGpuType c)) []"
  "sz_DefaultWorkerGpuCount (parsePoolSizingConfig c) =
     (let n = (case ParseGpuCount (js_DefaultWorkerGpuCount c) of Inl _ \<Rightarrow> 0 | Inr n \<Rightarrow> of_int n)
      in if n \<le> 0 \<and> orDefault (ParseGPUType (js_DefaultWorkerGpuType c)) [] \<noteq> [] then 1 else n)"
  unfolding parsePoolSizingConfig_def NewWorkerPoolSizingConfig_def Let_def
  by (cases "ParseGPUType (js_DefaultWorkerGpuType c)"; cases "ParseGpuCount (js_DefaultWorkerGpuCount c)";
      simp add: orDefault_def)+

text \<open>The capacity of a pool is the sum over its workers that are not disabled.\<close>

definition enabled :: "worker \<Rightarrow> bool" where
  "enabled w \<longleftrightarrow> w_Status w \<noteq> WorkerStatusDisabled"

definition gpus_offered :: "worker \<Rightarrow> 64 word" where
  "gpus_offered w =
     (if enabled w \<and> w_Gpu w \<noteq> [] \<and> w_FreeCpu w > 0 \<and> w_FreeMemory w > 0
      then ucast (if w_Status w = WorkerStatusPending then w_TotalGpuCount w else w_FreeGpuCount w) else 0)"

lemma fold_addCapacity:
  "i64 (pc_FreeCpu (fold addCapacity ws c) + pc_PendingCpu (fold addCapacity ws c)) =
     i64 (pc_FreeCpu c + pc_PendingCpu c + (\<Sum>w \<leftarrow> filter enabled ws. w_FreeCpu w))" (is ?cpu)
  "i64 (pc_FreeMemory (fold addCapacity ws c) + pc_PendingMemory (fold addCapacity ws c)) =
     i64 (pc_FreeMemory c + pc_PendingMemory c + (\<Sum>w \<leftarrow> filter enabled ws. w_FreeMemory w))" (is ?mem)
  "pc_FreeGpu (fold addCapacity ws c) + pc_PendingGpu (fold addCapacity ws c) =
     pc_FreeGpu c + pc_PendingGpu c + (\<Sum>w \<leftarrow> ws. gpus_offered w)" (is ?gpu)
proof -
  have step: "i64 (pc_FreeCpu (addCapacity w c) + pc_PendingCpu (addCapacity w c) + x) =
      i64 (pc_FreeCpu c + pc_PendingCpu c + ((if enabled w then w_FreeCpu w else 0) + x))"
    "i64 (pc_FreeMemory (addCapacity w c) + pc_PendingMemory (addCapacity w c) + x) =
      i64 (pc_FreeMemory c + pc_PendingMemory c + ((if enabled w then w_FreeMemory w else 0) + x))"
    "pc_FreeGpu (addCapacity w c) + pc_PendingGpu (addCapacity w c) = pc_FreeGpu c + pc_PendingGpu c + gpus_offered w" for w c x
    using i64_i64_add(1) [of "pc_FreeCpu c + w_FreeCpu w" "pc_PendingCpu c + x"]
      i64_i64_add(1) [of "pc_PendingCpu c + w_FreeCpu w" "pc_FreeCpu c + x"]
      i64_i64_add(1) [of "pc_FreeMemory c + w_FreeMemory w" "pc_PendingMemory c + x"]
      i64_i64_add(1) [of "pc_PendingMemory c + w_FreeMemory w" "pc_FreeMemory c + x"]
    by (simp_all add: addCapacity_def enabled_def gpus_offered_def algebra_simps)
  show ?cpu by (induction ws arbitrary: c) (simp_all add: step)
  show ?mem by (induction ws arbitrary: c) (simp_all add: step)
  show ?gpu by (induction ws arbitrary: c) (simp_all add: step add.assoc)
qed

lemma shouldAddWorker_totals:
  "shouldAddWorker (fold addCapacity ws zero_capacity) config \<longleftrightarrow>
     i64 (\<Sum>w \<leftarrow> filter enabled ws. w_FreeCpu w) < sz_MinFreeCpu config \<or>
     i64 (\<Sum>w \<leftarrow> filter enabled ws. w_FreeMemory w) < sz_MinFreeMemory config \<or>
     (sz_MinFreeGpu config > 0 \<and> (\<Sum>w \<leftarrow> ws. gpus_offered w) < sz_MinFreeGpu config)"
  unfolding shouldAddWorker_def fold_addCapacity by (simp add: zero_capacity_def)

section \<open>Properties\<close>

text \<open>
  A CPU quantity in millicores and a memory quantity in mebibytes are parsed as the number they print. A memory
  quantity in gibibytes is multiplied with 1024 and keeps its value up to \<open>2 ^ 53 - 1\<close>; from there on the
  product wraps around.
\<close>

theorem quantities_parse:
  assumes "n < 2 ^ 63"
  shows "ParseCPU (utoa n @ ''m'') = Inr (int n) \<and> ParseMemory (utoa n @ ''Mi'') = Inr (int n) \<and>
     ParseMemory (utoa n) = Inr (int n) \<and>
     (ParseMemory (utoa n @ ''Gi'') = Inr (int n * 1024) \<longleftrightarrow> n < 2 ^ 53)"
proof -
  have "itoa (int n) = utoa n" by (simp add: itoa_def)
  then have "ParseCPU (utoa n @ ''m'') = Inr (int n)"
    using ParseCPU_itoa [of "int n"] assms by (simp add: in_i64_def)
  moreover have "i64 (int n * 1024) = int n * 1024 \<longleftrightarrow> n < 2 ^ 53"
  proof
    assume "i64 (int n * 1024) = int n * 1024"
    then have "int n * 1024 < 2 ^ 63" using in_i64_i64 [of "int n * 1024"] by (simp add: in_i64_def)
    then show "n < 2 ^ 53" by simp
  next
    assume "n < 2 ^ 53"
    then show "i64 (int n * 1024) = int n * 1024" by (intro i64_id) (simp add: in_i64_def)
  qed
  ultimately show ?thesis by (simp add: ParseMemory_utoa [OF assms])
qed

theorem quantities_parse_witness:
  "ParseCPU ''1500m'' = Inr 1500 \<and> ParseMemory ''1500Mi'' = Inr 1500 \<and> ParseMemory ''1500Gi'' = Inr 1536000"
proof -
  have "utoa 1500 = ''1500''" by (simp add: utoa.simps digit_def)
  with quantities_parse [of 1500] show ?thesis by simp
qed



text \<open>
  A sizing configuration that was parsed never asks for GPU workers without GPUs: when a valid GPU type is set, the
  default worker has at least one GPU. CPU minima and defaults are never negative.
\<close>

theorem sizing_config_sane:
  "(sz_DefaultWorkerGpuType (parsePoolSizingConfig config) \<noteq> [] \<longrightarrow> 1 \<le> sz_DefaultWorkerGpuCount (parsePoolSizingConfig config)) \<and>
   0 \<le> sz_MinFreeCpu (parsePoolSizingConfig config) \<and> 0 \<le> sz_DefaultWorkerCpu (parsePoolSizingConfig config)"
proof -
  have cpu: "0 \<le> orDefault (ParseCPU s) d" if "0 \<le> d" for s d
    using that by (auto simp: orDefault_def ParseCPU_def split: option.splits)
  have one: "(1 :: 32 word) \<le> x" if "x \<noteq> 0" for x
    using that by (simp add: word_le_nat_alt unat_gt_0 Suc_le_eq)
  show ?thesis
    unfolding parsePoolSizingConfig_sel Let_def by (simp add: cpu one)
qed

theorem sizing_config_sane_witness:
  "1 \<le> sz_DefaultWorkerGpuCount (parsePoolSizingConfig (js_DefaultWorkerGpuCount_update (\<lambda>_. ''0'') (wc_PoolSizing (ex_pool_config ''T4'' 1))))"
proof -
  have "sz_DefaultWorkerGpuType (parsePoolSizingConfig (js_DefaultWorkerGpuCount_update (\<lambda>_. ''0'') (wc_PoolSizing (ex_pool_config ''T4'' 1)))) = ''T4''"
    by (simp add: parsePoolSizingConfig_sel ex_pool_config_def ParseGPUType_def orDefault_def)
  with sizing_config_sane [of "js_DefaultWorkerGpuCount_update (\<lambda>_. ''0'') (wc_PoolSizing (ex_pool_config ''T4'' 1))"]
  show ?thesis by simp
qed

end
