(* ===== verification/Pool_Jobs.thy ===== *)
theory Pool_Jobs
  imports Pool_Sizing
begin

text \<open>
  The Kubernetes jobs that the pool controllers create for a worker (\<open>createWorkerJob\<close>, \<open>getWorkerEnvironment\<close>,
  \<open>getWorkerVolumes\<close> and \<open>getWorkerVolumeMounts\<close> of \<open>pkg/scheduler/pool_local.go\<close> and
  \<open>pool_external.go\<close>), with the worker record that goes with each job. The Kubernetes types are reduced to the
  fields that the code sets. Quantities are strings; parsing them is Kubernetes' and the fraction of the shared
  memory is floating-point, so both are arguments, and so is the JSON of the configuration.
\<close>

section \<open>Configuration and job types\<close>

text \<open>The fields of \<open>types.AppConfig\<close> that the controllers read.\<close>

record app_config =
  ac_Namespace :: string
  ac_ImageRegistry :: string
  ac_ExternalImageRegistry :: string
  ac_ImageName :: string
  ac_ImageTag :: string
  ac_ImagePullSecrets :: "string list"
  ac_ServiceAccountName :: string
  ac_HostNetwork :: bool
  ac_JobResourcesEnforced :: bool
  ac_UseGatewayServiceHostname :: bool
  ac_DefaultWorkerCPURequest :: int
  ac_DefaultWorkerMemoryRequest :: int
  ac_ImagePVCName :: string
  ac_TmpSizeLimit :: string
  ac_CRIUStorageMode :: string
  ac_CleanupPendingWorkerAgeLimit :: int
  ac_PrometheusPort :: int
  ac_ScrapeWorkers :: bool
  ac_GatewayHost :: string
  ac_GRPCPort :: int
  ac_HTTPPort :: int
  ac_GRPCExternalHost :: string
  ac_HTTPExternalHost :: string
  ac_DefaultLocality :: string
  ac_TailscaleHostName :: string
  ac_TailscaleUser :: string

datatype env_value = EnvValue string | EnvFieldRef string

datatype volume_source =
    HostPath string
  | EmptyDirMemory string
  | EmptyDir string
  | SecretVolume string
  | PersistentVolumeClaim string
  | NoSource

text \<open>The fields of a pool configuration that only the jobs use.\<close>

record job_spec =
  sp_Runtime :: string
  sp_ConfigGroup :: string
  sp_NodeSelector :: "(string \<times> string) list"
  sp_Env :: "(string \<times> env_value) list"
  sp_Volumes :: "(string \<times> string) list"
  sp_VolumeMounts :: "(string \<times> string) list"
  sp_SharedMemoryLimitPct :: string
  sp_TmpSizeLimit :: string
  sp_CRIUEnabled :: bool
  sp_CheckpointPath :: string
  sp_StoragePath :: string

record job =
  j_Name :: string
  j_Namespace :: string
  j_Labels :: "(string \<times> string) list"
  j_Image :: string
  j_Requests :: "(string \<times> string) list"
  j_Limits :: "(string \<times> string) list"
  j_Ports :: "(string \<times> int) list"
  j_Env :: "(string \<times> env_value) list"
  j_VolumeMounts :: "(string \<times> string) list"
  j_Volumes :: "(string \<times> volume_source) list"
  j_ImagePullSecrets :: "string list"
  j_ServiceAccountName :: string
  j_HostNetwork :: bool
  j_NodeSelector :: "(string \<times> string) list"
  j_ClusterFirstWithHostNet :: bool
  j_RuntimeClassName :: "string option"
  j_TTLSecondsAfterFinished :: int

definition Beta9WorkerLabelKey :: string where
  "Beta9WorkerLabelKey = ''run.beam.cloud/role''"

definition Beta9WorkerLabelValue :: string where
  "Beta9WorkerLabelValue = ''worker''"

definition Beta9WorkerJobPrefix :: string where
  "Beta9WorkerJobPrefix = ''worker''"

definition Beta9MachineLabelIDKey :: string where
  "Beta9MachineLabelIDKey = ''run.beam.cloud/machine-id''"

definition Beta9WorkerLabelIDKey :: string where
  "Beta9WorkerLabelIDKey = ''run.beam.cloud/worker-id''"

definition Beta9WorkerLabelPoolNameKey :: string where
  "Beta9WorkerLabelPoolNameKey = ''run.beam.cloud/worker-pool-name''"

definition PrometheusPortKey :: string where
  "PrometheusPortKey = ''prometheus.io/port''"

definition PrometheusScrapeKey :: string where
  "PrometheusScrapeKey = ''prometheus.io/scrape''"

definition tmpVolumeName :: string where "tmpVolumeName = ''beta9-tmp''"

definition logVolumeName :: string where "logVolumeName = ''beta9-logs''"

definition imagesVolumeName :: string where "imagesVolumeName = ''beta9-images''"

definition storageVolumeName :: string where "storageVolumeName = ''beta9-storage''"

definition checkpointVolumeName :: string where "checkpointVolumeName = ''beta9-checkpoints''"

definition defaultWorkerLogPath :: string where "defaultWorkerLogPath = ''/var/log/worker''"

definition defaultImagesPath :: string where "defaultImagesPath = ''/images''"

definition defaultCheckpointPath :: string where "defaultCheckpointPath = ''/checkpoints''"

definition defaultStoragePath :: string where "defaultStoragePath = ''/storage''"

definition externalWorkerNamespace :: string where "externalWorkerNamespace = ''default''"

definition CheckpointStorageModeLocal :: string where "CheckpointStorageModeLocal = ''local''"

text \<open>\<open>resource.ParseQuantity\<close> is the argument \<open>parseQuantity\<close>.\<close>

definition parseTmpSizeLimit :: "(string \<Rightarrow> string option) \<Rightarrow> string \<Rightarrow> string \<Rightarrow> string" where
  "parseTmpSizeLimit parseQuantity workerPoolTmpSizeLimit globalWorkerTmpSizeLimit =
     (let limitToUse = (if workerPoolTmpSizeLimit = [] then globalWorkerTmpSizeLimit else workerPoolTmpSizeLimit)
      in case parseQuantity limitToUse of None \<Rightarrow> ''128Gi'' | Some tmpSizeLimit \<Rightarrow> tmpSizeLimit)"

text \<open>The functions the jobs need from outside: quantities, shared memory, the JSON of the configuration.\<close>

record job_lib =
  jl_parseQuantity :: "string \<Rightarrow> string option"
  jl_calculateMemoryQuantity :: "string \<Rightarrow> int \<Rightarrow> string"
  jl_configJson :: "goerror + string"
  jl_remoteConfig :: "goerror + (goerror + string)"

section \<open>Local pools\<close>

definition localEnvironment :: "app_config \<Rightarrow> WorkerPoolConfig \<Rightarrow> job_spec \<Rightarrow> job_lib \<Rightarrow> string \<Rightarrow> string \<Rightarrow> int \<Rightarrow> int \<Rightarrow>
    string \<Rightarrow> 32 word \<Rightarrow> string \<Rightarrow> (string \<times> env_value) list" where
  "localEnvironment cfg pc sp lib name workerId cpu memory gpuType gpuCount token =
     [(''WORKER_ID'', EnvValue workerId), (''WORKER_POOL_NAME'', EnvValue name),
      (''BLOBCACHE_LOCALITY'', EnvValue (sp_ConfigGroup sp)), (''WORKER_TOKEN'', EnvValue token),
      (''CPU_LIMIT'', EnvValue (itoa cpu)), (''MEMORY_LIMIT'', EnvValue (itoa memory)),
      (''GPU_TYPE'', EnvValue gpuType), (''GPU_COUNT'', EnvValue (itoa (uint gpuCount))),
      (''POD_IP'', EnvFieldRef ''status.podIP''), (''POD_NAMESPACE'', EnvValue (ac_Namespace cfg)),
      (''NETWORK_PREFIX'', EnvFieldRef ''spec.nodeName''), (''PREEMPTABLE'', EnvValue (btoa (wc_Preemptable pc)))] @
     (if ac_UseGatewayServiceHostname cfg then
        [(''BETA9_GATEWAY_HOST'', EnvValue (ac_GatewayHost cfg)), (''BETA9_GATEWAY_PORT'', EnvValue (itoa (ac_GRPCPort cfg))),
         (''BETA9_GATEWAY_HOST_HTTP'', EnvValue (ac_GatewayHost cfg)), (''BETA9_GATEWAY_PORT_HTTP'', EnvValue (itoa (ac_HTTPPort cfg)))]
      else
        [(''BETA9_GATEWAY_HOST'', EnvValue (ac_GRPCExternalHost cfg)), (''BETA9_GATEWAY_PORT'', EnvValue ''443''),
         (''BETA9_GATEWAY_HOST_HTTP'', EnvValue (ac_HTTPExternalHost cfg)), (''BETA9_GATEWAY_PORT_HTTP'', EnvValue ''443'')]) @
     (if length (sp_Env sp) > 0 then sp_Env sp else []) @
     (case jl_configJson lib of Inl _ \<Rightarrow> [] | Inr configJson \<Rightarrow> [(''CONFIG_JSON'', EnvValue configJson)])"

definition checkpointVolumes :: "app_config \<Rightarrow> job_spec \<Rightarrow> (string \<times> volume_source) list" where
  "checkpointVolumes cfg sp =
     (if sp_CRIUEnabled sp \<and> ac_CRIUStorageMode cfg = CheckpointStorageModeLocal
      then [(checkpointVolumeName, HostPath (if sp_CheckpointPath sp \<noteq> [] then sp_CheckpointPath sp else defaultCheckpointPath))]
      else [])"

definition localVolumes :: "app_config \<Rightarrow> job_spec \<Rightarrow> job_lib \<Rightarrow> int \<Rightarrow> (string \<times> volume_source) list" where
  "localVolumes cfg sp lib workerMemory =
     (let sharedMemoryLimit = jl_calculateMemoryQuantity lib (sp_SharedMemoryLimitPct sp) workerMemory;
          tmpSizeLimit = parseTmpSizeLimit (jl_parseQuantity lib) (sp_TmpSizeLimit sp) (ac_TmpSizeLimit cfg)
      in [(logVolumeName, HostPath defaultWorkerLogPath), (''dshm'', EmptyDirMemory sharedMemoryLimit),
          (tmpVolumeName, EmptyDir tmpSizeLimit)] @
         map (\<lambda>(n, secret). (n, if secret \<noteq> [] then SecretVolume secret else NoSource)) (sp_Volumes sp) @
         checkpointVolumes cfg sp @
         [(imagesVolumeName, if ac_ImagePVCName cfg \<noteq> [] then PersistentVolumeClaim (ac_ImagePVCName cfg)
            else HostPath defaultImagesPath)])"

definition checkpointMounts :: "app_config \<Rightarrow> job_spec \<Rightarrow> (string \<times> string) list" where
  "checkpointMounts cfg sp =
     (if sp_CRIUEnabled sp \<and> ac_CRIUStorageMode cfg = CheckpointStorageModeLocal
      then [(checkpointVolumeName, defaultCheckpointPath)] else [])"

definition localVolumeMounts :: "app_config \<Rightarrow> job_spec \<Rightarrow> (string \<times> string) list" where
  "localVolumeMounts cfg sp =
     [(tmpVolumeName, ''/tmp''), (imagesVolumeName, defaultImagesPath), (logVolumeName, defaultWorkerLogPath),
      (''dshm'', ''/dev/shm'')] @ sp_VolumeMounts sp @ checkpointMounts cfg sp"

text \<open>The request for one resource: the amount asked for when it is above the default, the default otherwise.\<close>

definition atLeastDefault :: "int \<Rightarrow> int \<Rightarrow> int" where
  "atLeastDefault x d = (if x > 0 \<and> x > d then x else d)"

definition newWorker :: "app_config \<Rightarrow> WorkerPoolConfig \<Rightarrow> string \<Rightarrow> int \<Rightarrow> int \<Rightarrow> string \<Rightarrow> 32 word \<Rightarrow> worker" where
  "newWorker cfg pc workerId workerCpu workerMemory workerGpuType workerGpuCount =
     \<lparr>w_Id = workerId, w_Status = WorkerStatusPending, w_TotalCpu = workerCpu, w_TotalMemory = workerMemory,
      w_TotalGpuCount = workerGpuCount, w_FreeCpu = workerCpu, w_FreeMemory = workerMemory,
      w_FreeGpuCount = workerGpuCount, w_Gpu = workerGpuType, w_PoolName = [], w_MachineId = [],
      w_ResourceVersion = 0, w_RequiresPoolSelector = False, w_Priority = wc_Priority pc,
      w_Preemptable = wc_Preemptable pc, w_BuildVersion = ac_ImageTag cfg, w_ActiveContainers = [],
      w_Runtime = wc_ContainerRuntime pc\<rparr>"

definition localWorkerJob :: "app_config \<Rightarrow> WorkerPoolConfig \<Rightarrow> job_spec \<Rightarrow> job_lib \<Rightarrow> string \<Rightarrow> string \<Rightarrow> int \<Rightarrow> int \<Rightarrow>
    string \<Rightarrow> 32 word \<Rightarrow> string \<Rightarrow> job \<times> worker" where
  "localWorkerJob cfg pc sp lib name workerId cpu memory gpuType gpuCount token =
     (let labels = [(''app'', Beta9WorkerLabelValue), (Beta9WorkerLabelKey, Beta9WorkerLabelValue),
            (Beta9WorkerLabelPoolNameKey, name), (Beta9WorkerLabelIDKey, workerId),
            (PrometheusPortKey, itoa (ac_PrometheusPort cfg)), (PrometheusScrapeKey, btoa (ac_ScrapeWorkers cfg))];
          workerCpu = atLeastDefault cpu (ac_DefaultWorkerCPURequest cfg);
          workerMemory = atLeastDefault memory (ac_DefaultWorkerMemoryRequest cfg);
          resourceRequests = [(''cpu'', itoa workerCpu @ ''m''), (''memory'', itoa workerMemory @ ''Mi'')] @
            (if gpuType \<noteq> [] then [(''nvidia.com/gpu'', itoa (uint gpuCount))] else [])
      in (\<lparr>j_Name = Beta9WorkerJobPrefix @ ''-'' @ name @ ''-'' @ workerId, j_Namespace = ac_Namespace cfg, j_Labels = labels,
           j_Image = ac_ImageRegistry cfg @ ''/'' @ ac_ImageName cfg @ '':'' @ ac_ImageTag cfg,
           j_Requests = (if ac_JobResourcesEnforced cfg then resourceRequests else []),
           j_Limits = (if ac_JobResourcesEnforced cfg then resourceRequests else []),
           j_Ports = [(''metrics'', i32 (ac_PrometheusPort cfg))],
           j_Env = localEnvironment cfg pc sp lib name workerId workerCpu workerMemory gpuType gpuCount token,
           j_VolumeMounts = localVolumeMounts cfg sp, j_Volumes = localVolumes cfg sp lib workerMemory,
           j_ImagePullSecrets = ac_ImagePullSecrets cfg, j_ServiceAccountName = ac_ServiceAccountName cfg,
           j_HostNetwork = ac_HostNetwork cfg, j_NodeSelector = sp_NodeSelector sp,
           j_ClusterFirstWithHostNet = ac_HostNetwork cfg,
           j_RuntimeClassName = (if sp_Runtime sp \<noteq> [] then Some (sp_Runtime sp) else None),
           j_TTLSecondsAfterFinished = 30\<rparr>,
          newWorker cfg pc workerId workerCpu workerMemory gpuType gpuCount))"

section \<open>External pools\<close>

definition externalEnvironment :: "app_config \<Rightarrow> WorkerPoolConfig \<Rightarrow> job_spec \<Rightarrow> job_lib \<Rightarrow> string \<Rightarrow> string \<Rightarrow> string \<Rightarrow> int \<Rightarrow> int \<Rightarrow>
    string \<Rightarrow> 32 word \<Rightarrow> string \<Rightarrow> goerror + (string \<times> env_value) list" where
  "externalEnvironment cfg pc sp lib name workerId machineId cpu memory gpuType gpuCount token =
     (let podHostname = (if ac_TailscaleUser cfg \<noteq> []
            then ''machine-'' @ machineId @ ''.'' @ ac_TailscaleUser cfg @ ''.'' @ ac_TailscaleHostName cfg
            else ''machine-'' @ machineId @ ''.'' @ ac_TailscaleHostName cfg);
          locality = (if sp_ConfigGroup sp = [] then ac_DefaultLocality cfg else sp_ConfigGroup sp);
          envVars =
            [(''WORKER_ID'', EnvValue workerId), (''WORKER_POOL_NAME'', EnvValue name),
             (''BLOBCACHE_LOCALITY'', EnvValue locality), (''WORKER_TOKEN'', EnvValue token),
             (''CPU_LIMIT'', EnvValue (itoa cpu)), (''MEMORY_LIMIT'', EnvValue (itoa memory)),
             (''GPU_TYPE'', EnvValue gpuType), (''GPU_COUNT'', EnvValue (itoa (uint gpuCount))),
             (''POD_NAMESPACE'', EnvValue (ac_Namespace cfg)), (''BETA9_GATEWAY_HOST'', EnvValue (ac_GRPCExternalHost cfg)),
             (''BETA9_GATEWAY_PORT'', EnvValue ''443''), (''BETA9_GATEWAY_HOST_HTTP'', EnvValue (ac_HTTPExternalHost cfg)),
             (''BETA9_GATEWAY_PORT_HTTP'', EnvValue ''443''), (''POD_HOSTNAME'', EnvValue podHostname),
             (''TS_DEBUG_DISABLE_PORTLIST'', EnvValue ''true''), (''NETWORK_PREFIX'', EnvValue machineId),
             (''PREEMPTABLE'', EnvValue (btoa (wc_Preemptable pc)))]
      in case jl_remoteConfig lib of
           Inl e \<Rightarrow> Inl e
         | Inr remote \<Rightarrow>
             Inr (envVars @ (case remote of Inl _ \<Rightarrow> [] | Inr configJson \<Rightarrow> [(''CONFIG_JSON'', EnvValue configJson)])))"

definition externalVolumes :: "app_config \<Rightarrow> job_spec \<Rightarrow> job_lib \<Rightarrow> int \<Rightarrow> (string \<times> volume_source) list" where
  "externalVolumes cfg sp lib workerMemory =
     (let sharedMemoryLimit = jl_calculateMemoryQuantity lib (sp_SharedMemoryLimitPct sp) workerMemory;
          tmpSizeLimit = parseTmpSizeLimit (jl_parseQuantity lib) (sp_TmpSizeLimit sp) (ac_TmpSizeLimit cfg)
      in [(logVolumeName, HostPath defaultWorkerLogPath), (''dshm'', EmptyDirMemory sharedMemoryLimit),
          (tmpVolumeName, EmptyDir tmpSizeLimit), (imagesVolumeName, HostPath defaultImagesPath)] @
         checkpointVolumes cfg sp @
         (if sp_StoragePath sp \<noteq> [] then [(storageVolumeName, HostPath (sp_StoragePath sp))] else []))"

definition externalVolumeMounts :: "app_config \<Rightarrow> job_spec \<Rightarrow> (string \<times> string) list" where
  "externalVolumeMounts cfg sp =
     [(tmpVolumeName, ''/tmp''), (imagesVolumeName, ''/images''), (logVolumeName, defaultWorkerLogPath),
      (''dshm'', ''/dev/shm'')] @ checkpointMounts cfg sp @
     (if sp_StoragePath sp \<noteq> [] then [(storageVolumeName, defaultStoragePath)] else [])"

definition externalWorkerJob :: "app_config \<Rightarrow> WorkerPoolConfig \<Rightarrow> job_spec \<Rightarrow> job_lib \<Rightarrow> string \<Rightarrow> string \<Rightarrow> string \<Rightarrow> int \<Rightarrow> int \<Rightarrow>
    string \<Rightarrow> 32 word \<Rightarrow> string \<Rightarrow> goerror + job \<times> worker" where
  "externalWorkerJob cfg pc sp lib name workerId machineId cpu memory gpuType gpuCount token =
     (let labels = [(''app'', Beta9WorkerLabelValue), (Beta9WorkerLabelKey, Beta9WorkerLabelValue),
            (Beta9WorkerLabelPoolNameKey, name), (Beta9WorkerLabelIDKey, workerId),
            (Beta9MachineLabelIDKey, machineId), (PrometheusScrapeKey, btoa (ac_ScrapeWorkers cfg))];
          workerGpuType = wc_GPUType pc;
          imageRegistry = (if ac_ExternalImageRegistry cfg \<noteq> [] then ac_ExternalImageRegistry cfg else ac_ImageRegistry cfg);
          resources = (if workerGpuType \<noteq> [] then [(''nvidia.com/gpu'', itoa (uint gpuCount))] else [])
      in case externalEnvironment cfg pc sp lib name workerId machineId cpu memory workerGpuType gpuCount token of
           Inl e \<Rightarrow> Inl e
         | Inr env \<Rightarrow>
             Inr (\<lparr>j_Name = Beta9WorkerJobPrefix @ ''-'' @ name @ ''-'' @ workerId, j_Namespace = ac_Namespace cfg, j_Labels = labels,
                   j_Image = imageRegistry @ ''/'' @ ac_ImageName cfg @ '':'' @ ac_ImageTag cfg,
                   j_Requests = resources, j_Limits = resources, j_Ports = [], j_Env = env,
                   j_VolumeMounts = externalVolumeMounts cfg sp, j_Volumes = externalVolumes cfg sp lib memory,
                   j_ImagePullSecrets = ac_ImagePullSecrets cfg, j_ServiceAccountName = [],
                   j_HostNetwork = True, j_NodeSelector = sp_NodeSelector sp, j_ClusterFirstWithHostNet = True,
                   j_RuntimeClassName = (if sp_Runtime sp \<noteq> [] then Some (sp_Runtime sp) else None),
                   j_TTLSecondsAfterFinished = 30\<rparr>,
                  newWorker cfg pc workerId cpu memory workerGpuType gpuCount))"

section \<open>Lemmas\<close>

text \<open>Every mount of a job has its volume.\<close>

lemma atLeastDefault_ge: "x \<le> atLeastDefault x d \<or> x \<le> 0" "d \<le> atLeastDefault x d" "0 \<le> d \<Longrightarrow> x \<le> atLeastDefault x d"
  by (auto simp: atLeastDefault_def)

lemma in_i64_atLeastDefault: "in_i64 x \<Longrightarrow> in_i64 d \<Longrightarrow> in_i64 (atLeastDefault x d)"
  by (simp add: atLeastDefault_def)

lemma wf_newWorker: "in_i64 c \<Longrightarrow> in_i64 m \<Longrightarrow> in_i32 (wc_Priority pc) \<Longrightarrow> wf_worker (newWorker cfg pc i c m g n)"
  by (simp add: newWorker_def wf_worker_def in_i64_def)

lemma localWorkerJob_worker:
  "snd (localWorkerJob cfg pc sp lib name workerId cpu memory gpuType gpuCount token) =
     newWorker cfg pc workerId (atLeastDefault cpu (ac_DefaultWorkerCPURequest cfg))
       (atLeastDefault memory (ac_DefaultWorkerMemoryRequest cfg)) gpuType gpuCount"
  by (simp add: localWorkerJob_def Let_def)

section \<open>Properties\<close>

text \<open>
  C37. In the jobs of both kinds of pools every volume mount that the code adds refers to a volume of the job: the mounts
  of the pool specification apart, no mount dangles.
\<close>

theorem mounts_have_volumes:
  "fst ` set (localVolumeMounts cfg sp) \<subseteq> fst ` set (localVolumes cfg sp lib mem) \<union> fst ` set (sp_VolumeMounts sp) \<and>
   fst ` set (externalVolumeMounts cfg sp) \<subseteq> fst ` set (externalVolumes cfg sp lib mem)"
  by (auto simp: localVolumeMounts_def localVolumes_def externalVolumeMounts_def externalVolumes_def Let_def
      checkpointMounts_def checkpointVolumes_def)

text \<open>
  A pool without a configuration group: an external worker gets the default locality of the blob cache, a local
  worker gets the empty locality, although the code computes the default there too.
\<close>

theorem locality_of_pool_without_group:
  assumes "sp_ConfigGroup sp = []"
  shows "map_of (localEnvironment cfg pc sp lib name i cpu mem g n tok) ''BLOBCACHE_LOCALITY'' = Some (EnvValue []) \<and>
     (\<forall>env. externalEnvironment cfg pc sp lib name i m cpu mem g n tok = Inr env \<longrightarrow>
        map_of env ''BLOBCACHE_LOCALITY'' = Some (EnvValue (ac_DefaultLocality cfg)))"
  using assms by (auto simp: localEnvironment_def externalEnvironment_def Let_def split: sum.splits)

definition ex_app_config :: app_config where
  "ex_app_config =
     \<lparr>ac_Namespace = ''beta9'', ac_ImageRegistry = ''registry'', ac_ExternalImageRegistry = [], ac_ImageName = ''worker'',
      ac_ImageTag = ''v1'', ac_ImagePullSecrets = [], ac_ServiceAccountName = ''default'', ac_HostNetwork = False,
      ac_JobResourcesEnforced = True, ac_UseGatewayServiceHostname = True, ac_DefaultWorkerCPURequest = 2000,
      ac_DefaultWorkerMemoryRequest = 1024, ac_ImagePVCName = [], ac_TmpSizeLimit = ''30Gi'', ac_CRIUStorageMode = ''local'',
      ac_CleanupPendingWorkerAgeLimit = 600000000000, ac_PrometheusPort = 9090, ac_ScrapeWorkers = True,
      ac_GatewayHost = ''gateway'', ac_GRPCPort = 1993, ac_HTTPPort = 1994, ac_GRPCExternalHost = ''grpc.example'',
      ac_HTTPExternalHost = ''http.example'', ac_DefaultLocality = ''us'', ac_TailscaleHostName = ''ts'', ac_TailscaleUser = []\<rparr>"

definition ex_job_spec :: job_spec where
  "ex_job_spec =
     \<lparr>sp_Runtime = ''nvidia'', sp_ConfigGroup = [], sp_NodeSelector = [], sp_Env = [], sp_Volumes = [], sp_VolumeMounts = [],
      sp_SharedMemoryLimitPct = ''50%'', sp_TmpSizeLimit = [], sp_CRIUEnabled = True, sp_CheckpointPath = [], sp_StoragePath = []\<rparr>"

definition ex_job_lib :: job_lib where
  "ex_job_lib =
     \<lparr>jl_parseQuantity = Some, jl_calculateMemoryQuantity = (\<lambda>_ m. itoa (m div 2) @ ''Mi''), jl_configJson = Inr ''{}'',
      jl_remoteConfig = Inr (Inr ''{}'')\<rparr>"

theorem locality_of_pool_without_group_witness:
  "map_of (localEnvironment ex_app_config (ex_pool_config [] 1) ex_job_spec ex_job_lib ''cpu'' ''w1'' 2000 1024 [] 0 ''tok'')
     ''BLOBCACHE_LOCALITY'' = Some (EnvValue [])"
  using locality_of_pool_without_group [of ex_job_spec ex_app_config "ex_pool_config [] 1" ex_job_lib "''cpu''" "''w1''" 2000 1024 "[]" 0 "''tok''"]
  by (simp add: ex_job_spec_def)

end
