(* ===== verification/Pool_Controllers.thy ===== *)
theory Pool_Controllers
  imports Pool_Jobs
begin

text \<open>
  The two implementations of \<open>WorkerPoolController\<close>: \<open>LocalKubernetesWorkerPoolController\<close>
  (\<open>pkg/scheduler/pool_local.go\<close>) and \<open>ExternalWorkerPoolController\<close> (\<open>pkg/scheduler/pool_external.go\<close>), as values of
  the record \<open>controller\<close>. The backend database, Kubernetes and the machine provider are a record of operations
  \<open>services\<close>; what is assumed of them is that they do not write the scheduler's keys (\<open>quiet\<close>). The random worker
  id is an argument, and so is the workspace that the controller has cached.
\<close>

section \<open>Services\<close>

record 's services =
  sv_GetAdminWorkspace :: "('s world, string) io"
  sv_CreateToken :: "string \<Rightarrow> string \<Rightarrow> bool \<Rightarrow> ('s world, string) io"
  sv_CreateJob :: "job \<Rightarrow> ('s world, unit) io"
  sv_ProxiedClient :: "string \<Rightarrow> string \<Rightarrow> ('s world, job \<Rightarrow> ('s world, unit) io) io"
  sv_ProvisionMachine :: "string \<Rightarrow> string \<Rightarrow> int \<Rightarrow> int \<Rightarrow> string \<Rightarrow> 32 word \<Rightarrow> ('s world, string) io"

record pool_options =
  po_Name :: string
  po_Config :: app_config
  po_Pool :: WorkerPoolConfig
  po_JobSpec :: job_spec
  po_Lib :: job_lib
  po_Provider :: string

definition TokenTypeWorker :: string where "TokenTypeWorker = ''worker''"

definition TokenTypeMachine :: string where "TokenTypeMachine = ''machine''"

text \<open>\<open>if wpc.workspace == nil { ... }\<close>: the id of the workspace the tokens belong to.\<close>

definition poolWorkspace :: "'s services \<Rightarrow> string \<Rightarrow> string option \<Rightarrow> ('s world, string) io" where
  "poolWorkspace S name cached =
     (case cached of
        Some ws \<Rightarrow> returnE ws
      | None \<Rightarrow> bindE (attempt (sv_GetAdminWorkspace S)) (\<lambda>r. case r of
            Inl _ \<Rightarrow> throwE (ErrNew (''workspace not configured for pool: '' @ name))
          | Inr ws \<Rightarrow> returnE ws))"

section \<open>Local controller\<close>

definition addWorkerWithId :: "'s redis_client \<Rightarrow> 's services \<Rightarrow> pool_options \<Rightarrow> string option \<Rightarrow> string \<Rightarrow> int \<Rightarrow> int \<Rightarrow>
    string \<Rightarrow> 32 word \<Rightarrow> ('s world, worker) io" where
  "addWorkerWithId R S o' cached workerId cpu memory gpuType gpuCount =
     bindE (poolWorkspace S (po_Name o') cached) (\<lambda>workspace.
     bindE (sv_CreateToken S workspace TokenTypeWorker True) (\<lambda>token.
       let (job, worker) = localWorkerJob (po_Config o') (po_Pool o') (po_JobSpec o') (po_Lib o') (po_Name o') workerId cpu memory gpuType gpuCount token
       in thenE (sv_CreateJob S job)
            (AddWorker R (ac_CleanupPendingWorkerAgeLimit (po_Config o'))
               (worker\<lparr>w_PoolName := po_Name o', w_RequiresPoolSelector := wc_RequiresPoolSelector (po_Pool o')\<rparr>))))"

definition LocalAddWorker :: "'s redis_client \<Rightarrow> 's services \<Rightarrow> pool_options \<Rightarrow> string option \<Rightarrow> string \<Rightarrow> int \<Rightarrow> int \<Rightarrow> 32 word \<Rightarrow>
    ('s world, worker) io" where
  "LocalAddWorker R S o' cached workerId cpu memory gpuCount =
     addWorkerWithId R S o' cached workerId cpu memory (wc_GPUType (po_Pool o')) gpuCount"

definition LocalController :: "'s redis_client \<Rightarrow> 's services \<Rightarrow> pool_options \<Rightarrow> string option \<Rightarrow> string \<Rightarrow> 's controller" where
  "LocalController R S o' cached workerId =
     \<lparr>ct_Name = po_Name o', ct_IsPreemptable = wc_Preemptable (po_Pool o'),
      ct_RequiresPoolSelector = wc_RequiresPoolSelector (po_Pool o'),
      ct_ContainerRuntime = wc_ContainerRuntime (po_Pool o'), ct_Mode = wc_Mode (po_Pool o'),
      ct_State = GetWorkerPoolState R (po_Name o'), ct_FreeCapacity = freePoolCapacity R (po_Name o'),
      ct_AddWorker = LocalAddWorker R S o' cached workerId,
      ct_AddWorkerToMachine = (\<lambda>_ _ _ _ _. throwE (ErrNew ''unimplemented''))\<rparr>"

section \<open>External controller\<close>

definition createWorkerOnMachine :: "'s redis_client \<Rightarrow> 's services \<Rightarrow> pool_options \<Rightarrow> string option \<Rightarrow> string \<Rightarrow> string \<Rightarrow> machine_state \<Rightarrow>
    int \<Rightarrow> int \<Rightarrow> string \<Rightarrow> 32 word \<Rightarrow> ('s world, worker) io" where
  "createWorkerOnMachine R S o' cached workerId machineId machineState cpu memory gpuType gpuCount =
     bindE (poolWorkspace S (po_Name o') cached) (\<lambda>workspace.
     bindE (sv_ProxiedClient S (m_HostName machineState) (m_Token machineState)) (\<lambda>createJob.
     bindE (sv_CreateToken S workspace TokenTypeWorker True) (\<lambda>token.
     bindE (liftSum (externalWorkerJob (po_Config o') (po_Pool o') (po_JobSpec o') (po_Lib o') (po_Name o') workerId machineId cpu memory gpuType gpuCount token))
       (\<lambda>(job, worker).
          thenE (createJob job)
            (AddWorker R (ac_CleanupPendingWorkerAgeLimit (po_Config o'))
               (worker\<lparr>w_PoolName := po_Name o', w_MachineId := machineId,
                  w_RequiresPoolSelector := wc_RequiresPoolSelector (po_Pool o')\<rparr>))))))"

record remaining_capacity =
  rc_Cpu :: int
  rc_Memory :: int
  rc_GpuCount :: "32 word"

definition takeTotals :: "worker \<Rightarrow> remaining_capacity \<Rightarrow> remaining_capacity" where
  "takeTotals worker c =
     c\<lparr>rc_Cpu := i64 (rc_Cpu c - w_TotalCpu worker), rc_Memory := i64 (rc_Memory c - w_TotalMemory worker),
       rc_GpuCount := rc_GpuCount c - w_TotalGpuCount worker\<rparr>"

definition remainingCapacity :: "machine_state \<Rightarrow> worker list \<Rightarrow> remaining_capacity" where
  "remainingCapacity m workers =
     fold takeTotals workers \<lparr>rc_Cpu = m_Cpu m, rc_Memory = m_Memory m, rc_GpuCount = m_GpuCount m\<rparr>"

definition machineFits :: "machine_state \<Rightarrow> worker list \<Rightarrow> int \<Rightarrow> int \<Rightarrow> string \<Rightarrow> 32 word \<Rightarrow> bool" where
  "machineFits m workers cpu memory gpuType gpuCount \<longleftrightarrow>
     rc_Cpu (remainingCapacity m workers) \<ge> cpu \<and> rc_Memory (remainingCapacity m workers) \<ge> memory \<and>
     m_Gpu m = gpuType \<and> rc_GpuCount (remainingCapacity m workers) \<ge> gpuCount"

definition grantedResources :: "machine_state \<Rightarrow> int \<Rightarrow> int \<Rightarrow> 32 word \<Rightarrow> int \<times> int \<times> 32 word" where
  "grantedResources m cpu memory gpuCount =
     (if m_GpuCount m = 1 then (m_Cpu m, m_Memory m, m_GpuCount m) else (cpu, memory, gpuCount))"

definition attemptToAssignWorkerToMachine :: "'s redis_client \<Rightarrow> 's services \<Rightarrow> pool_options \<Rightarrow> string option \<Rightarrow> string \<Rightarrow> int \<Rightarrow> int \<Rightarrow>
    string \<Rightarrow> 32 word \<Rightarrow> provider_machine \<Rightarrow> ('s world, worker option) io" where
  "attemptToAssignWorkerToMachine R S o' cached workerId cpu memory gpuType gpuCount machine =
     (let m = pm_State machine
      in thenE (SetMachineLock R (po_Provider o') (po_Name o') (m_MachineId m))
           (deferring (RemoveMachineLock R (po_Provider o') (po_Name o') (m_MachineId m))
             (bindE (GetAllWorkersOnMachine R (m_MachineId m)) (\<lambda>workers.
                if m_Status m \<noteq> MachineStatusReady then returnE None
                else if machineFits m workers cpu memory gpuType gpuCount then
                  (case grantedResources m cpu memory gpuCount of (cpu', memory', gpuCount') \<Rightarrow>
                     bindE (createWorkerOnMachine R S o' cached workerId (m_MachineId m) m cpu' memory' gpuType gpuCount')
                       (\<lambda>worker. returnE (Some worker)))
                else returnE None))))"

fun assignToMachines :: "'s redis_client \<Rightarrow> 's services \<Rightarrow> pool_options \<Rightarrow> string option \<Rightarrow> string \<Rightarrow> int \<Rightarrow> int \<Rightarrow> 32 word \<Rightarrow>
    provider_machine list \<Rightarrow> ('s world, worker option) io" where
  "assignToMachines R S o' cached workerId cpu memory gpuCount [] = returnE None"
| "assignToMachines R S o' cached workerId cpu memory gpuCount (machine # machines) =
     bindE (attempt (attemptToAssignWorkerToMachine R S o' cached workerId cpu memory (wc_GPUType (po_Pool o')) gpuCount machine)) (\<lambda>r.
       case r of
         Inr (Some worker) \<Rightarrow> returnE (Some worker)
       | _ \<Rightarrow> assignToMachines R S o' cached workerId cpu memory gpuCount machines)"

text \<open>\<open>ticks\<close> are the ticks of \<open>WaitForMachineRegistration\<close>.\<close>

definition ExternalAddWorker :: "'s redis_client \<Rightarrow> 's services \<Rightarrow> pool_options \<Rightarrow> ('s world \<Rightarrow> 's world) list \<Rightarrow> string option \<Rightarrow> string \<Rightarrow>
    int \<Rightarrow> int \<Rightarrow> 32 word \<Rightarrow> ('s world, worker) io" where
  "ExternalAddWorker R S o' ticks cached workerId cpu memory gpuCount =
     bindE (ListAllMachines R (po_Provider o') (po_Name o') True) (\<lambda>machines.
     bindE (assignToMachines R S o' cached workerId cpu memory gpuCount machines) (\<lambda>assigned.
       case assigned of
         Some worker \<Rightarrow> returnE worker
       | None \<Rightarrow>
           bindE (sv_GetAdminWorkspace S) (\<lambda>adminWorkspace.
           bindE (sv_CreateToken S adminWorkspace TokenTypeMachine False) (\<lambda>token.
           bindE (sv_ProvisionMachine S (po_Name o') token cpu memory (wc_GPUType (po_Pool o')) gpuCount) (\<lambda>machineId.
             thenE (SetMachineLock R (po_Provider o') (po_Name o') machineId)
               (deferring (RemoveMachineLock R (po_Provider o') (po_Name o') machineId)
                 (bindE (WaitForMachineRegistration R (po_Provider o') (po_Name o') machineId ticks) (\<lambda>machineState.
                    createWorkerOnMachine R S o' cached workerId machineId machineState cpu memory
                      (wc_GPUType (po_Pool o')) gpuCount))))))))"

definition ExternalAddWorkerToMachine :: "'s redis_client \<Rightarrow> 's services \<Rightarrow> pool_options \<Rightarrow> string option \<Rightarrow> string \<Rightarrow> int \<Rightarrow> int \<Rightarrow> string \<Rightarrow>
    32 word \<Rightarrow> string \<Rightarrow> ('s world, worker option) io" where
  "ExternalAddWorkerToMachine R S o' cached workerId cpu memory gpuType gpuCount machineId =
     bindE (GetMachine R (po_Provider o') (po_Name o') machineId) (\<lambda>machine.
       attemptToAssignWorkerToMachine R S o' cached workerId cpu memory gpuType gpuCount machine)"

definition ExternalController :: "'s redis_client \<Rightarrow> 's services \<Rightarrow> pool_options \<Rightarrow> ('s world \<Rightarrow> 's world) list \<Rightarrow> string option \<Rightarrow> string \<Rightarrow>
    's controller" where
  "ExternalController R S o' ticks cached workerId =
     \<lparr>ct_Name = po_Name o', ct_IsPreemptable = wc_Preemptable (po_Pool o'),
      ct_RequiresPoolSelector = wc_RequiresPoolSelector (po_Pool o'),
      ct_ContainerRuntime = wc_ContainerRuntime (po_Pool o'), ct_Mode = wc_Mode (po_Pool o'),
      ct_State = GetWorkerPoolState R (po_Name o'), ct_FreeCapacity = freePoolCapacity R (po_Name o'),
      ct_AddWorker = ExternalAddWorker R S o' ticks cached workerId,
      ct_AddWorkerToMachine = ExternalAddWorkerToMachine R S o' cached workerId\<rparr>"

section \<open>Capacity of a machine\<close>

lemma i64_diff_i64: "i64 (i64 x - y) = i64 (x - y)"
  using i64_i64_add(1) [of x "- y"] by simp

lemma fold_takeTotals:
  "in_i64 (rc_Cpu c) \<Longrightarrow> rc_Cpu (fold takeTotals ws c) = i64 (rc_Cpu c - (\<Sum>w \<leftarrow> ws. w_TotalCpu w))"
  "in_i64 (rc_Memory c) \<Longrightarrow> rc_Memory (fold takeTotals ws c) = i64 (rc_Memory c - (\<Sum>w \<leftarrow> ws. w_TotalMemory w))"
  "rc_GpuCount (fold takeTotals ws c) = rc_GpuCount c - (\<Sum>w \<leftarrow> ws. w_TotalGpuCount w)"
  by (induction ws arbitrary: c) (simp_all add: takeTotals_def i64_id i64_diff_i64 diff_diff_eq)

lemma remainingCapacity_eq:
  "in_i64 (m_Cpu m) \<Longrightarrow> rc_Cpu (remainingCapacity m ws) = i64 (m_Cpu m - (\<Sum>w \<leftarrow> ws. w_TotalCpu w))"
  "in_i64 (m_Memory m) \<Longrightarrow> rc_Memory (remainingCapacity m ws) = i64 (m_Memory m - (\<Sum>w \<leftarrow> ws. w_TotalMemory w))"
  "rc_GpuCount (remainingCapacity m ws) = m_GpuCount m - (\<Sum>w \<leftarrow> ws. w_TotalGpuCount w)"
  by (simp_all add: remainingCapacity_def fold_takeTotals)

lemma word_remaining:
  fixes t n :: "32 word"
  assumes "s \<le> unat t" and "n \<le> t - of_nat s"
  shows "s + unat n \<le> unat t"
proof -
  have "unat t < 2 ^ 32" using unsigned_less [of t, where 'a = nat] by simp
  then have "unat (of_nat s :: 32 word) = s" using assms(1) by (simp add: unsigned_of_nat take_bit_nat_eq_self)
  moreover from this have "(of_nat s :: 32 word) \<le> t" using assms(1) by (simp add: word_le_nat_alt)
  ultimately have "unat (t - of_nat s) = unat t - s" by (simp add: unat_sub)
  then show ?thesis using assms by (simp add: word_le_nat_alt)
qed

lemma of_nat_sum_gpus: "(\<Sum>w \<leftarrow> ws. w_TotalGpuCount w) = of_nat (\<Sum>w \<leftarrow> ws. unat (w_TotalGpuCount w))"
  by (induction ws) simp_all

text \<open>The workers of a machine, as read through the index, and what they have been given.\<close>

definition workers_on :: "keyspace \<Rightarrow> string list \<Rightarrow> string \<Rightarrow> worker list" where
  "workers_on v ks machineId = filter (\<lambda>w. w_MachineId w = machineId) (live_workers v ks)"

definition given :: "worker list \<Rightarrow> int \<times> int \<times> nat" where
  "given ws = (\<Sum>w \<leftarrow> ws. w_TotalCpu w, \<Sum>w \<leftarrow> ws. w_TotalMemory w, \<Sum>w \<leftarrow> ws. unat (w_TotalGpuCount w))"

lemma live_workers_agree:
  "agree_off K v v' \<Longrightarrow> set ks \<inter> K = {} \<Longrightarrow> live_workers v' ks = live_workers v ks"
  by (induction ks) (auto simp: live_workers_def agree_off_def)

lemma machine_lock_not_worker: "ProviderMachineLock p o' m \<noteq> SchedulerWorkerState i" "ProviderMachineLock p o' m \<noteq> SchedulerWorkerIndex"
  "SchedulerWorkerState i \<noteq> ProviderMachineLock p o' m" "SchedulerWorkerIndex \<noteq> ProviderMachineLock p o' m"
  by (simp_all add: key_eqs)

context redis
begin

lemma wp_AddWorker_result:
  assumes "\<And>w'. Q (wk\<lparr>w_ResourceVersion := 0\<rparr>) w'" and "\<And>e w'. E e w'"
  shows "wp (AddWorker R age wk) Q E w"
  by (auto simp: AddWorker_def Let_def wp_eqs intro!: wp_locked wp_cmds wp_Expire assms)

lemma wp_any: "(\<And>a w'. Q a w') \<Longrightarrow> (\<And>e w'. E e w') \<Longrightarrow> wp m Q E w"
  by (simp add: wp_def split: prod.splits sum.splits)

lemma wp_GetAllWorkersOnMachine:
  assumes "setOf (V w SchedulerWorkerIndex) = SchedulerWorkerState ` I"
    and "\<And>ks w'. distinct ks \<Longrightarrow> set ks = SchedulerWorkerState ` I \<Longrightarrow> Q (workers_on (V w) ks mid) w'" and "\<And>e w'. E e w'"
  shows "wp (GetAllWorkersOnMachine R mid) Q E w"
  unfolding GetAllWorkersOnMachine_def wp_eqs
  by (rule wp_mono [OF getWorkers_unlocked_spec]) (use assms in \<open>auto simp: workers_on_def\<close>)

lemma createWorkerOnMachine_result:
  "wp (createWorkerOnMachine R S o' cached i mid m cpu memory g n)
     (\<lambda>wk _. w_TotalCpu wk = cpu \<and> w_TotalMemory wk = memory \<and> w_TotalGpuCount wk = n \<and> w_MachineId wk = mid)
     (\<lambda>_ _. True) w"
  unfolding createWorkerOnMachine_def wp_eqs
  by (auto simp: wp_eqs externalWorkerJob_def newWorker_def Let_def intro!: wp_any wp_AddWorker_result wp_liftSum split: sum.splits)

lemma attemptToAssign_fits:
  assumes "setOf (V w SchedulerWorkerIndex) = SchedulerWorkerState ` I"
  shows "wp (attemptToAssignWorkerToMachine R S o' cached i cpu memory g n machine)
     (\<lambda>res _. \<forall>wk. res = Some wk \<longrightarrow> (\<exists>ks. distinct ks \<and> set ks = SchedulerWorkerState ` I \<and>
        machineFits (pm_State machine) (workers_on (V w) ks (m_MachineId (pm_State machine))) cpu memory g n \<and>
        (w_TotalCpu wk, w_TotalMemory wk, w_TotalGpuCount wk) = grantedResources (pm_State machine) cpu memory n))
     (\<lambda>_ _. True) w"
  unfolding attemptToAssignWorkerToMachine_def Let_def SetMachineLock_def wp_eqs
proof (rule wp_Acquire, goal_cases)
  case (1 tok w1)
  let ?l = "ProviderMachineLock (po_Provider o') (po_Name o') (m_MachineId (pm_State machine))"
  have idx: "setOf (V w1 SchedulerWorkerIndex) = SchedulerWorkerState ` I"
    using 1 assms by (simp add: machine_lock_not_worker)
  have ag: "agree_off {?l} (V w) (V w1)" using 1 by simp
  have same: "workers_on (V w1) ks mid = workers_on (V w) ks mid" if "set ks = SchedulerWorkerState ` I" for ks mid
  proof -
    have "set ks \<inter> {?l} = {}" using that by (auto simp: machine_lock_not_worker)
    then show ?thesis by (simp add: workers_on_def live_workers_agree [OF ag])
  qed
  obtain c m k where g: "grantedResources (pm_State machine) cpu memory n = (c, m, k)" by (cases "grantedResources (pm_State machine) cpu memory n")
  show ?case
  proof (rule wp_GetAllWorkersOnMachine [OF idx], goal_cases)
    case (1 ks w2)
    show ?case
    proof (cases "m_Status (pm_State machine) = MachineStatusReady \<and>
        machineFits (pm_State machine) (workers_on (V w) ks (m_MachineId (pm_State machine))) cpu memory g n")
      case True
      then show ?thesis
        unfolding same [OF 1(2)] g prod.case RemoveMachineLock_def wp_eqs
        by (simp add: wp_eqs, intro wp_mono [OF createWorkerOnMachine_result] wp_Release) (use 1 in auto)
    next
      case False
      then show ?thesis
        unfolding same [OF 1(2)] RemoveMachineLock_def wp_eqs by (auto simp: wp_eqs intro!: wp_Release)
    qed
  qed (auto simp: RemoveMachineLock_def intro!: wp_Release)
qed simp

end

section \<open>A new local worker\<close>

text \<open>Services that answer and leave Redis alone.\<close>

definition quiet :: "('s \<Rightarrow> keyspace) \<Rightarrow> ('s world, 'a) io \<Rightarrow> bool" where
  "quiet view m \<longleftrightarrow> (\<forall>w. wp m (\<lambda>_ w'. view (rdb w') = view (rdb w) \<and> locks w' = locks w) (\<lambda>_ _. False) w)"

definition services_up :: "('s \<Rightarrow> keyspace) \<Rightarrow> 's services \<Rightarrow> bool" where
  "services_up view S \<longleftrightarrow> quiet view (sv_GetAdminWorkspace S) \<and> (\<forall>ws t b. quiet view (sv_CreateToken S ws t b)) \<and>
     (\<forall>j. quiet view (sv_CreateJob S j)) \<and>
     (\<forall>h t w. wp (sv_ProxiedClient S h t) (\<lambda>create w'. (\<forall>j. quiet view (create j)) \<and> view (rdb w') = view (rdb w) \<and> locks w' = locks w)
        (\<lambda>_ _. False) w)"

lemma wp_quiet:
  assumes "quiet view m" and "\<And>a w'. view (rdb w') = view (rdb w) \<Longrightarrow> locks w' = locks w \<Longrightarrow> Q a w'"
  shows "wp m Q E w"
  by (rule wp_mono [OF assms(1) [unfolded quiet_def, rule_format, of w]]) (use assms(2) in auto)

lemma wp_poolWorkspace:
  assumes "quiet view (sv_GetAdminWorkspace S)"
    and "\<And>ws w'. view (rdb w') = view (rdb w) \<Longrightarrow> locks w' = locks w \<Longrightarrow> Q ws w'"
  shows "wp (poolWorkspace S name cached) Q E w"
  unfolding poolWorkspace_def
  by (cases cached) (auto simp: wp_eqs assms(2) intro!: wp_quiet [OF assms(1)])

text \<open>The worker that \<open>LocalAddWorker\<close> adds.\<close>

definition localWorker :: "pool_options \<Rightarrow> string \<Rightarrow> int \<Rightarrow> int \<Rightarrow> 32 word \<Rightarrow> worker" where
  "localWorker o' i cpu memory n =
     (newWorker (po_Config o') (po_Pool o') i (atLeastDefault cpu (ac_DefaultWorkerCPURequest (po_Config o')))
        (atLeastDefault memory (ac_DefaultWorkerMemoryRequest (po_Config o'))) (wc_GPUType (po_Pool o')) n)
       \<lparr>w_PoolName := po_Name o', w_RequiresPoolSelector := wc_RequiresPoolSelector (po_Pool o')\<rparr>"

lemma localWorker_sel [simp]:
  "w_Id (localWorker o' i c m n) = i" "w_ResourceVersion (localWorker o' i c m n) = 0"
  "w_ActiveContainers (localWorker o' i c m n) = []" "w_FreeGpuCount (localWorker o' i c m n) = n"
  "w_Gpu (localWorker o' i c m n) = wc_GPUType (po_Pool o')" "w_Status (localWorker o' i c m n) = WorkerStatusPending"
  "w_FreeCpu (localWorker o' i c m n) = atLeastDefault c (ac_DefaultWorkerCPURequest (po_Config o'))"
  "w_FreeMemory (localWorker o' i c m n) = atLeastDefault m (ac_DefaultWorkerMemoryRequest (po_Config o'))"
  "w_PoolName (localWorker o' i c m n) = po_Name o'" "w_Preemptable (localWorker o' i c m n) = wc_Preemptable (po_Pool o')"
  "w_RequiresPoolSelector (localWorker o' i c m n) = wc_RequiresPoolSelector (po_Pool o')"
  "w_Runtime (localWorker o' i c m n) = wc_ContainerRuntime (po_Pool o')"
  by (simp_all add: localWorker_def newWorker_def)

lemma localWorker_version [simp]: "(localWorker o' i c m n)\<lparr>w_ResourceVersion := 0\<rparr> = localWorker o' i c m n"
  by (simp add: localWorker_def newWorker_def)

definition wf_pool :: "pool_options \<Rightarrow> bool" where
  "wf_pool o' \<longleftrightarrow> in_i64 (ac_DefaultWorkerCPURequest (po_Config o')) \<and> in_i64 (ac_DefaultWorkerMemoryRequest (po_Config o')) \<and>
     0 \<le> ac_DefaultWorkerCPURequest (po_Config o') \<and> 0 \<le> ac_DefaultWorkerMemoryRequest (po_Config o') \<and>
     in_i32 (wc_Priority (po_Pool o')) \<and> 0 < ac_CleanupPendingWorkerAgeLimit (po_Config o')"

lemma wf_localWorker: "wf_pool o' \<Longrightarrow> in_i64 c \<Longrightarrow> in_i64 m \<Longrightarrow> wf_worker (localWorker o' i c m n)"
  by (simp add: localWorker_def wf_pool_def wf_worker_def newWorker_def in_i64_atLeastDefault in_i64_def [of 0])

context redis_up
begin

lemma up_AddWorker:
  assumes "V w (SchedulerWorkerLock (w_Id wk)) = None" and "isHash (V w (SchedulerWorkerState (w_Id wk)))"
    and "isSet (V w SchedulerWorkerIndex)" and "0 < age"
    and "\<And>w'. V w' = (V w)(SchedulerWorkerIndex \<mapsto> RSet (insert (SchedulerWorkerState (w_Id wk)) (setOf (V w SchedulerWorkerIndex))),
        SchedulerWorkerState (w_Id wk) \<mapsto> RHash (hashOf (V w (SchedulerWorkerState (w_Id wk))) ++
          map_of (rev (Worker_ToSlice (wk\<lparr>w_ResourceVersion := 0\<rparr>)))),
        SchedulerWorkerLock (w_Id wk) := None) \<Longrightarrow> Q (wk\<lparr>w_ResourceVersion := 0\<rparr>) w'"
  shows "wp (AddWorker R age wk) Q E w"
  unfolding AddWorker_def
proof (rule up_locked [OF assms(1)], goal_cases)
  case (1 tok w1)
  have "Worker_ToSlice wk' \<noteq> []" for wk' by (simp add: Worker_ToSlice_def)
  with 1 assms show ?case
    by (auto simp: Let_def wp_eqs fun_upd_twist intro!: up_SAdd up_HSet up_Expire)
qed

lemma up_LocalAddWorker:
  assumes "services_up view S" and "V w (SchedulerWorkerLock i) = None" and "V w (SchedulerWorkerState i) = None"
    and "isSet (V w SchedulerWorkerIndex)" and "wf_pool o'"
    and "\<And>w'. V w' = (V w)(SchedulerWorkerIndex \<mapsto> RSet (insert (SchedulerWorkerState i) (setOf (V w SchedulerWorkerIndex))),
        SchedulerWorkerState i \<mapsto> RHash (map_of (rev (Worker_ToSlice (localWorker o' i cpu memory n)))),
        SchedulerWorkerLock i := None) \<Longrightarrow> Q (localWorker o' i cpu memory n) w'"
  shows "wp (LocalAddWorker R S o' cached i cpu memory n) Q E w"
proof -
  have add: "wp (AddWorker R (ac_CleanupPendingWorkerAgeLimit (po_Config o')) (localWorker o' i cpu memory n)) Q E w1"
    if "V w1 = V w" for w1
    using assms(6) by (intro up_AddWorker) (use assms that in \<open>simp_all add: wf_pool_def\<close>)
  have job: "localWorkerJob (po_Config o') (po_Pool o') (po_JobSpec o') (po_Lib o') (po_Name o') i cpu memory (wc_GPUType (po_Pool o')) n token =
      (j, wk) \<Longrightarrow> wk\<lparr>w_PoolName := po_Name o', w_RequiresPoolSelector := wc_RequiresPoolSelector (po_Pool o')\<rparr> = localWorker o' i cpu memory n"
    for token j wk
    by (auto simp: localWorkerJob_def Let_def localWorker_def)
  have s: "quiet view (sv_GetAdminWorkspace S)" "\<And>ws t b. quiet view (sv_CreateToken S ws t b)" "\<And>j. quiet view (sv_CreateJob S j)"
    using assms(1) by (simp_all add: services_up_def)
  show ?thesis
    unfolding LocalAddWorker_def addWorkerWithId_def
    by (auto simp: wp_eqs job split: prod.splits intro!: wp_poolWorkspace [OF s(1)] wp_quiet [OF s(2)] wp_quiet [OF s(3)] add)
qed

text \<open>A new worker takes the request it was made for.\<close>

lemma applyCapacity_localWorker:
  assumes "wf_pool o'" and "in_i64 c" and "in_i64 m" and "0 \<le> c" and "0 \<le> m"
    and "r_Cpu r = c" and "r_Memory r = m" and "r_GpuCount r = n"
  shows "\<exists>x. applyCapacity (localWorker o' i c m n) r RemoveCapacity = Inr x \<and>
     w_FreeCpu x = atLeastDefault c (ac_DefaultWorkerCPURequest (po_Config o')) - c \<and>
     w_FreeMemory x = atLeastDefault m (ac_DefaultWorkerMemoryRequest (po_Config o')) - m \<and>
     (r_Gpu r \<noteq> [] \<longrightarrow> w_FreeGpuCount x = 0)"
proof -
  let ?C = "atLeastDefault c (ac_DefaultWorkerCPURequest (po_Config o'))"
    and ?M = "atLeastDefault m (ac_DefaultWorkerMemoryRequest (po_Config o'))"
  have ge: "c \<le> ?C" "m \<le> ?M" using assms(1) by (simp_all add: wf_pool_def atLeastDefault_ge)
  have "in_i64 ?C" "in_i64 ?M" using assms by (simp_all add: wf_pool_def in_i64_atLeastDefault)
  then have "i64 (?C - c) = ?C - c" "i64 (?M - m) = ?M - m"
    using ge assms(4,5) by (auto intro!: i64_id simp: in_i64_def)
  then show ?thesis using ge assms(6-8) by (auto simp: applyCapacity_def Let_def)
qed

lemma new_worker_schedules:
  assumes "services_up view S" and "V w (SchedulerWorkerLock i) = None" and "V w (SchedulerWorkerState i) = None"
    and "V w (SchedulerWorkerRequests i) = None" and "isSet (V w SchedulerWorkerIndex)" and "wf_pool o'"
    and "in_i64 (r_Cpu r)" and "in_i64 (r_Memory r)" and "0 \<le> r_Cpu r" and "0 \<le> r_Memory r" and "marshal J r = Inr j"
  shows "wp (bindE (LocalAddWorker R S o' cached i (r_Cpu r) (r_Memory r) (r_GpuCount r)) (\<lambda>wk. ScheduleContainerRequest R J wk r))
     (\<lambda>_ w'. listOf (V w' (SchedulerWorkerRequests i)) = [j] \<and>
        setOf (V w' SchedulerWorkerIndex) = insert (SchedulerWorkerState i) (setOf (V w SchedulerWorkerIndex)) \<and>
        0 \<le> w_FreeCpu (read_worker (V w') i) \<and> 0 \<le> w_FreeMemory (read_worker (V w') i))
     (\<lambda>_ _. False) w"
  unfolding wp_bindE
proof (rule up_LocalAddWorker [OF assms(1-3,5,6)], goal_cases)
  case (1 w1)
  let ?wk = "localWorker o' i (r_Cpu r) (r_Memory r) (r_GpuCount r)"
  have wf: "wf_worker ?wk" by (rule wf_localWorker [OF assms(6-8)])
  have read: "read_worker (V w1) i = ?wk"
    using 1 Worker_ToStruct_stored [OF wf, of Map.empty] by (simp add: read_worker_def)
  obtain x where x: "applyCapacity ?wk r RemoveCapacity = Inr x"
    "w_FreeCpu x = atLeastDefault (r_Cpu r) (ac_DefaultWorkerCPURequest (po_Config o')) - r_Cpu r"
    "w_FreeMemory x = atLeastDefault (r_Memory r) (ac_DefaultWorkerMemoryRequest (po_Config o')) - r_Memory r"
    using applyCapacity_localWorker [OF assms(6-10) refl refl refl] by blast
  have "0 \<le> w_FreeCpu x" "0 \<le> w_FreeMemory x"
    using x assms(6) atLeastDefault_ge(3) by (simp_all add: wf_pool_def)
  then show ?case
    by (intro wp_mono [OF ScheduleContainerRequest_up [where wk = ?wk and x = x and j = j]])
      (use 1 read x(1) assms in \<open>simp_all add: agree_off_def\<close>)
qed

text \<open>On a machine without workers, a worker that fits is placed.\<close>

lemma place_on_empty_machine:
  assumes "services_up view S" and "V w SchedulerWorkerIndex = None" and "V w (SchedulerWorkerLock i) = None"
    and "V w (SchedulerWorkerState i) = None"
    and "V w (ProviderMachineLock (po_Provider o') (po_Name o') (m_MachineId (pm_State machine))) = None"
    and "m_Status (pm_State machine) = MachineStatusReady" and "machineFits (pm_State machine) [] cpu memory g n"
    and "0 < ac_CleanupPendingWorkerAgeLimit (po_Config o')" and "jl_remoteConfig (po_Lib o') = Inr rc"
  shows "wp (attemptToAssignWorkerToMachine R S o' cached i cpu memory g n machine) (\<lambda>res _. \<exists>wk. res = Some wk) (\<lambda>_ _. False) w"
  unfolding attemptToAssignWorkerToMachine_def Let_def SetMachineLock_def wp_eqs
proof (rule up_Acquire [OF assms(5)], goal_cases)
  case (1 tok w1)
  let ?l = "ProviderMachineLock (po_Provider o') (po_Name o') (m_MachineId (pm_State machine))"
  have keys: "?l \<noteq> SchedulerWorkerLock k" "?l \<noteq> SchedulerWorkerState k" "?l \<noteq> SchedulerWorkerIndex"
     "SchedulerWorkerLock k \<noteq> ?l" "SchedulerWorkerState k \<noteq> ?l" "SchedulerWorkerIndex \<noteq> ?l" for k
    by (simp_all add: key_eqs)
  have s: "quiet view (sv_GetAdminWorkspace S)" "\<And>ws t b. quiet view (sv_CreateToken S ws t b)"
    and client: "\<And>h t w. wp (sv_ProxiedClient S h t) (\<lambda>create w'. (\<forall>j. quiet view (create j)) \<and> V w' = V w \<and> locks w' = locks w)
        (\<lambda>_ _. False) w"
    using assms(1) by (simp_all add: services_up_def)
  have V1: "V w1 SchedulerWorkerIndex = None" "V w1 (SchedulerWorkerLock i) = None" "V w1 (SchedulerWorkerState i) = None"
    using 1 assms keys by simp_all
  have create: "wp (createWorkerOnMachine R S o' cached i (m_MachineId (pm_State machine)) (pm_State machine) cpu' memory' g n')
      (\<lambda>_ _. True) (\<lambda>_ _. False) w2" if w2: "V w2 = V w1" for cpu' memory' n' w2
  proof -
    have add: "wp (AddWorker R (ac_CleanupPendingWorkerAgeLimit (po_Config o')) wk) (\<lambda>_ _. True) (\<lambda>_ _. False) w3"
      if "V w3 = V w1" "w_Id wk = i" for w3 wk
      by (rule up_AddWorker) (use V1 that assms(8) in simp_all)
    show ?thesis
      unfolding createWorkerOnMachine_def wp_eqs
    proof (rule wp_poolWorkspace [OF s(1)], rule wp_mono [OF client], goal_cases)
      case (1 ws w3 mk w4)
      have "wp (mk j) (\<lambda>_ w5. wp (AddWorker R (ac_CleanupPendingWorkerAgeLimit (po_Config o')) wk) (\<lambda>_ _. True) (\<lambda>_ _. False) w5)
          (\<lambda>_ _. False) w5" if "V w5 = V w1" "w_Id wk = i" for j wk w5
        by (rule wp_quiet [where view = view]) (use 1 that add in auto)
      then show ?case
        using 1 w2 assms(9)
        by (auto simp: wp_eqs externalWorkerJob_def externalEnvironment_def newWorker_def Let_def intro!: wp_quiet [OF s(2)])
    qed simp
  qed
  have none: "getWorkersFromKeys R [] = returnE []"
    by (simp add: getWorkersFromKeys_def wrapE_def bindE_def returnE_def fun_eq_iff)
  show ?case
    unfolding GetAllWorkersOnMachine_def getWorkers_def wp_eqs
    by (rule up_SMembers)
      (use V1 assms(6,7) in \<open>auto simp: none wp_eqs RemoveMachineLock_def wp_Release intro!: wp_mono [OF create] wp_Release split: prod.splits\<close>)
qed

end

text \<open>
  A machine with exactly one GPU can be over-committed: a worker that asks for no GPU is given the whole machine,
  whatever the workers that are already on it have been given.
\<close>

lemma single_gpu_machine_overcommitted:
  assumes "m_GpuCount m = 1" and "machineFits m ws cpu memory g 0" and "grantedResources m cpu memory 0 = (c, mm, k)"
    and "0 < (\<Sum>w \<leftarrow> ws. w_TotalCpu w)"
  shows "(\<Sum>w \<leftarrow> ws. w_TotalCpu w) + c > m_Cpu m \<and> k = 1"
  using assms by (simp add: grantedResources_def)

section \<open>Properties\<close>

text \<open>
  C27. An external machine with other than one GPU is not over-committed: when a worker is placed on it, what the
  workers of the machine have been given, the new one included, is within the CPU, the memory and the GPUs of the
  machine, as long as the differences are in the range of the integers and the GPUs given before do not
  exceed the machine's.
\<close>

theorem machine_not_overcommitted:
  assumes "redis R view" and "setOf (view (rdb w) SchedulerWorkerIndex) = SchedulerWorkerState ` I"
    and "attemptToAssignWorkerToMachine R S o' cached i cpu memory g n machine w = (Inr (Some wk), w')"
    and "wf_machine (pm_State machine)" and "m_GpuCount (pm_State machine) \<noteq> 1"
    and range: "\<forall>ks. distinct ks \<and> set ks = SchedulerWorkerState ` I \<longrightarrow>
       (case given (workers_on (view (rdb w)) ks (m_MachineId (pm_State machine))) of (c, m, k) \<Rightarrow>
          in_i64 (m_Cpu (pm_State machine) - c) \<and> in_i64 (m_Memory (pm_State machine) - m) \<and> k \<le> unat (m_GpuCount (pm_State machine)))"
  shows "\<exists>ks. distinct ks \<and> set ks = SchedulerWorkerState ` I \<and>
     (case given (workers_on (view (rdb w)) ks (m_MachineId (pm_State machine)) @ [wk]) of (c, m, k) \<Rightarrow>
        c \<le> m_Cpu (pm_State machine) \<and> m \<le> m_Memory (pm_State machine) \<and> k \<le> unat (m_GpuCount (pm_State machine)))"
proof -
  obtain ks where ks: "distinct ks" "set ks = SchedulerWorkerState ` I"
    and fits: "machineFits (pm_State machine) (workers_on (view (rdb w)) ks (m_MachineId (pm_State machine))) cpu memory g n"
    and wk: "(w_TotalCpu wk, w_TotalMemory wk, w_TotalGpuCount wk) = grantedResources (pm_State machine) cpu memory n"
    using wp_Inr [OF redis.attemptToAssign_fits [OF assms(1,2)] assms(3)] by auto
  define m where "m = pm_State machine"
  define ws where "ws = workers_on (view (rdb w)) ks (m_MachineId (pm_State machine))"
  have r: "in_i64 (m_Cpu m - (\<Sum>w \<leftarrow> ws. w_TotalCpu w))" "in_i64 (m_Memory m - (\<Sum>w \<leftarrow> ws. w_TotalMemory w))"
    "(\<Sum>w \<leftarrow> ws. unat (w_TotalGpuCount w)) \<le> unat (m_GpuCount m)"
    using range ks by (auto simp: given_def m_def ws_def)
  have t: "w_TotalCpu wk = cpu" "w_TotalMemory wk = memory" "w_TotalGpuCount wk = n"
    using wk assms(5) by (simp_all add: grantedResources_def)
  have fits': "machineFits m ws cpu memory g n" and wf: "wf_machine m" using fits assms(4) unfolding m_def ws_def by simp_all
  have "cpu \<le> m_Cpu m - (\<Sum>w \<leftarrow> ws. w_TotalCpu w)" "memory \<le> m_Memory m - (\<Sum>w \<leftarrow> ws. w_TotalMemory w)"
    "n \<le> m_GpuCount m - of_nat (\<Sum>w \<leftarrow> ws. unat (w_TotalGpuCount w))"
    using fits' wf r by (simp_all add: machineFits_def remainingCapacity_eq wf_machine_def i64_id of_nat_sum_gpus)
  with word_remaining [OF r(3)] have "(case given (ws @ [wk]) of (c, mm, k) \<Rightarrow> c \<le> m_Cpu m \<and> mm \<le> m_Memory m \<and> k \<le> unat (m_GpuCount m))"
    by (simp add: given_def t)
  then show ?thesis using ks unfolding m_def ws_def by (intro exI [of _ ks]) simp
qed

text \<open>
  C31. When no existing worker fits, a local pool makes one that does: with services that answer and a new worker id,
  adding a worker for the resources of a request and then scheduling the request on it succeeds, the request is the
  only one in the queue of the new worker, the worker is in the index, and its free CPU and memory are not negative.
\<close>

theorem new_worker_takes_request:
  assumes "redis_up R view" and "services_up view S" and "view (rdb w) (SchedulerWorkerLock i) = None"
    and "view (rdb w) (SchedulerWorkerState i) = None" and "view (rdb w) (SchedulerWorkerRequests i) = None"
    and "isSet (view (rdb w) SchedulerWorkerIndex)" and "wf_pool o'"
    and "in_i64 (r_Cpu r)" and "in_i64 (r_Memory r)" and "0 \<le> r_Cpu r" and "0 \<le> r_Memory r" and "marshal J r = Inr j"
  shows "\<exists>w'. bindE (LocalAddWorker R S o' cached i (r_Cpu r) (r_Memory r) (r_GpuCount r)) (\<lambda>wk. ScheduleContainerRequest R J wk r) w = (Inr (), w') \<and>
     listOf (view (rdb w') (SchedulerWorkerRequests i)) = [j] \<and>
     setOf (view (rdb w') SchedulerWorkerIndex) = insert (SchedulerWorkerState i) (setOf (view (rdb w) SchedulerWorkerIndex)) \<and>
     0 \<le> w_FreeCpu (read_worker (view (rdb w')) i) \<and> 0 \<le> w_FreeMemory (read_worker (view (rdb w')) i)"
  using wp_success [OF redis_up.new_worker_schedules [OF assms]] by auto

section \<open>A worked example\<close>

definition ex_services :: "mem services" where
  "ex_services =
     \<lparr>sv_GetAdminWorkspace = returnE ''admin'', sv_CreateToken = (\<lambda>_ _ _. returnE ''token''), sv_CreateJob = (\<lambda>_. returnE ()),
      sv_ProxiedClient = (\<lambda>_ _. returnE (\<lambda>_. returnE ())), sv_ProvisionMachine = (\<lambda>_ _ _ _ _ _. throwE (ErrNew ''none''))\<rparr>"

lemma ex_services_up: "services_up mem_view ex_services"
  by (simp add: services_up_def quiet_def ex_services_def wp_eqs)

definition ex_options :: pool_options where
  "ex_options = \<lparr>po_Name = ''gpu'', po_Config = ex_app_config, po_Pool = ex_pool_config ''T4'' 1, po_JobSpec = ex_job_spec,
     po_Lib = ex_job_lib, po_Provider = ''generic''\<rparr>"

lemma wf_ex_options: "wf_pool ex_options"
  by (simp add: wf_pool_def ex_options_def ex_app_config_def ex_pool_config_def in_i64_def in_i32_def)

theorem new_worker_takes_request_witness:
  "\<exists>w'. bindE (LocalAddWorker mem_client ex_services ex_options None ''w1'' (r_Cpu ex_request) (r_Memory ex_request) (r_GpuCount ex_request))
       (\<lambda>wk. ScheduleContainerRequest mem_client ex_json wk ex_request) \<lparr>rdb = Map.empty, locks = Map.empty\<rparr> = (Inr (), w') \<and>
     listOf (mem_view (rdb w') (SchedulerWorkerRequests ''w1'')) = [''{}'']"
  using new_worker_takes_request [where view = mem_view and w = "\<lparr>rdb = Map.empty, locks = Map.empty\<rparr>" and i = "''w1''" and r = ex_request and
      J = ex_json and j = "''{}''" and o' = ex_options and cached = None, OF mem.redis_up_axioms ex_services_up]
  by (simp add: mem_view_def wf_ex_options ex_request_def zero_ContainerRequest_def in_i64_def ex_json_def) blast

definition ex_machine :: provider_machine where
  "ex_machine = \<lparr>pm_State = zero_machine\<lparr>m_MachineId := ''m1'', m_Status := MachineStatusReady, m_Cpu := 8000, m_Memory := 32000,
     m_Gpu := ''T4'', m_GpuCount := 4\<rparr>, pm_Metrics = None\<rparr>"

theorem machine_not_overcommitted_witness:
  "\<exists>wk w'. attemptToAssignWorkerToMachine mem_client ex_services ex_options None ''w1'' 2000 8000 ''T4'' 2 ex_machine
       \<lparr>rdb = Map.empty, locks = Map.empty\<rparr> = (Inr (Some wk), w') \<and>
     w_TotalCpu wk \<le> 8000 \<and> w_TotalMemory wk \<le> 32000 \<and> unat (w_TotalGpuCount wk) \<le> 4"
proof -
  let ?w = "\<lparr>rdb = Map.empty, locks = Map.empty\<rparr> :: mem world"
  have fits: "machineFits (pm_State ex_machine) [] 2000 8000 ''T4'' 2"
    by (simp add: machineFits_def remainingCapacity_def ex_machine_def zero_machine_def)
  obtain wk w' where run: "attemptToAssignWorkerToMachine mem_client ex_services ex_options None ''w1'' 2000 8000 ''T4'' 2 ex_machine ?w =
      (Inr (Some wk), w')"
    using wp_success [OF mem.place_on_empty_machine [where w = ?w and S = ex_services and o' = ex_options and i = "''w1''" and machine = ex_machine and
          cached = None and rc = "Inr ''{}''", OF ex_services_up _ _ _ _ _ fits]]
    by (auto simp: mem_view_def ex_machine_def ex_options_def ex_app_config_def ex_job_lib_def)
  have "setOf (mem_view (rdb ?w) SchedulerWorkerIndex) = SchedulerWorkerState ` {}" by (simp add: mem_view_def)
  from machine_not_overcommitted [OF mem.redis_axioms this run]
  have "w_TotalCpu wk \<le> 8000 \<and> w_TotalMemory wk \<le> 32000 \<and> unat (w_TotalGpuCount wk) \<le> 4"
    by (simp add: workers_on_def live_workers_def given_def ex_machine_def zero_machine_def wf_machine_def in_i64_def)
  with run show ?thesis by blast
qed

end
