(* ===== verification/Pool_Health.thy ===== *)
theory Pool_Health
  imports Pool_Controllers Container_Repo
begin

text \<open>
  The health monitor of a pool (\<open>pkg/scheduler/pool_health.go\<close>) and the cleaner of its Kubernetes jobs
  (\<open>pkg/scheduler/pool_cleaner.go\<close>). A tick of each is a function; \<open>now\<close> is the wall clock in nanoseconds. The
  events that are pushed to the event log, the logs and the metrics are left out.
\<close>

section \<open>Durations\<close>

text \<open>\<open>Time.Sub\<close> saturates at the bounds of \<open>Duration\<close>.\<close>

definition time_sub :: "int \<Rightarrow> int \<Rightarrow> int" where
  "time_sub t u = (if t - u < - (2 ^ 63) then - (2 ^ 63) else if t - u > 2 ^ 63 - 1 then 2 ^ 63 - 1 else t - u)"

definition Unix :: "int \<Rightarrow> int" where
  "Unix s = s * second"

definition averageDuration :: "int list \<Rightarrow> int" where
  "averageDuration ls =
     (if length ls > 0 then go_div (fold (\<lambda>l total. i64 (total + l)) ls 0) (int (length ls)) else 0)"

definition Milliseconds :: "int \<Rightarrow> int" where
  "Milliseconds d = go_div d 1000000"

section \<open>Health monitor\<close>

record health_counters =
  hc_schedulingLatencies :: "int list"
  hc_availableWorkers :: nat
  hc_pendingWorkers :: nat
  hc_pendingContainers :: nat
  hc_runningContainers :: nat
  hc_registeredMachines :: nat
  hc_pendingMachines :: nat
  hc_readyMachines :: nat

definition zero_counters :: health_counters where
  "zero_counters = \<lparr>hc_schedulingLatencies = [], hc_availableWorkers = 0, hc_pendingWorkers = 0, hc_pendingContainers = 0,
     hc_runningContainers = 0, hc_registeredMachines = 0, hc_pendingMachines = 0, hc_readyMachines = 0\<rparr>"

definition noteMachine :: "provider_machine \<Rightarrow> health_counters \<Rightarrow> health_counters" where
  "noteMachine machine c =
     (if m_Status (pm_State machine) = MachineStatusPending then c\<lparr>hc_pendingMachines := hc_pendingMachines c + 1\<rparr>
      else if m_Status (pm_State machine) = MachineStatusRegistered then c\<lparr>hc_registeredMachines := hc_registeredMachines c + 1\<rparr>
      else if m_Status (pm_State machine) = MachineStatusReady then c\<lparr>hc_readyMachines := hc_readyMachines c + 1\<rparr>
      else c)"

definition noteContainer :: "int \<Rightarrow> ContainerState \<Rightarrow> health_counters \<Rightarrow> health_counters" where
  "noteContainer now container c =
     (let c1 = (if cs_Status container = ContainerStatusPending then c\<lparr>hc_pendingContainers := hc_pendingContainers c + 1\<rparr>
                else if cs_Status container = ContainerStatusRunning then c\<lparr>hc_runningContainers := hc_runningContainers c + 1\<rparr>
                else c)
      in if cs_StartedAt container = 0 \<and> cs_Status container = ContainerStatusRunning then c1
         else if cs_Status container = ContainerStatusPending then
           c1\<lparr>hc_schedulingLatencies := hc_schedulingLatencies c1 @ [time_sub now (Unix (cs_ScheduledAt container))]\<rparr>
         else c1\<lparr>hc_schedulingLatencies := hc_schedulingLatencies c1 @
                [time_sub (Unix (cs_StartedAt container)) (Unix (cs_ScheduledAt container))]\<rparr>)"

fun noteWorkers :: "'s redis_client \<Rightarrow> int \<Rightarrow> worker list \<Rightarrow> health_counters \<Rightarrow> ('s world, health_counters) io" where
  "noteWorkers R now [] c = returnE c"
| "noteWorkers R now (worker # workers) c =
     (let c1 = (if w_Status worker = WorkerStatusPending then c\<lparr>hc_pendingWorkers := hc_pendingWorkers c + 1\<rparr>
                else if w_Status worker = WorkerStatusAvailable then c\<lparr>hc_availableWorkers := hc_availableWorkers c + 1\<rparr>
                else c)
      in bindE (attempt (GetActiveContainersByWorkerId R (w_Id worker))) (\<lambda>r.
           case r of
             Inl _ \<Rightarrow> noteWorkers R now workers c1
           | Inr containers \<Rightarrow> noteWorkers R now workers (fold (noteContainer now) containers c1)))"

definition poolStateOf :: "health_counters \<Rightarrow> WorkerPoolCapacity \<Rightarrow> worker_pool_state" where
  "poolStateOf c freeCapacity =
     \<lparr>ps_Status = [], ps_SchedulingLatency = Milliseconds (averageDuration (hc_schedulingLatencies c)),
      ps_FreeGpu = pc_FreeGpu freeCapacity, ps_FreeCpu = pc_FreeCpu freeCapacity, ps_FreeMemory = pc_FreeMemory freeCapacity,
      ps_PendingWorkers = int (hc_pendingWorkers c), ps_AvailableWorkers = int (hc_availableWorkers c),
      ps_PendingContainers = int (hc_pendingContainers c), ps_RunningContainers = int (hc_runningContainers c),
      ps_RegisteredMachines = int (hc_registeredMachines c), ps_PendingMachines = int (hc_pendingMachines c),
      ps_ReadyMachines = int (hc_readyMachines c)\<rparr>"

definition getPoolState :: "'s redis_client \<Rightarrow> 's controller \<Rightarrow> WorkerPoolConfig \<Rightarrow> int \<Rightarrow> ('s world, worker_pool_state) io" where
  "getPoolState R wpc config now =
     bindE (GetAllWorkersInPool R (ct_Name wpc)) (\<lambda>workers.
     bindE (if ct_Mode wpc = PoolModeExternal then
              (case wc_Provider config of
                 None \<Rightarrow> throwE (Panic ''nil pointer dereference'')
               | Some provider \<Rightarrow> bindE (ListAllMachines R provider (ct_Name wpc) False) (\<lambda>machines.
                   returnE (fold noteMachine machines zero_counters)))
            else returnE zero_counters) (\<lambda>c.
     bindE (noteWorkers R now workers c) (\<lambda>c'.
     bindE (ct_FreeCapacity wpc) (\<lambda>freeCapacity. returnE (poolStateOf c' freeCapacity)))))"

text \<open>The conditions that degrade a pool, in the order of the code; the pool is degraded when one of them holds.\<close>

definition failoverReasons :: "FailoverConfig \<Rightarrow> string \<Rightarrow> worker_pool_state \<Rightarrow> string list" where
  "failoverReasons fo mode s =
     (if ps_PendingWorkers s \<ge> fo_MaxPendingWorkers fo then [''exceeded max pending workers''] else []) @
     (if ps_SchedulingLatency s > fo_MaxSchedulingLatencyMs fo then [''exceeded max scheduling latency''] else []) @
     (if ps_ReadyMachines s < fo_MinMachinesAvailable fo \<and> mode = PoolModeExternal then [''not enough ready machines''] else [])"

definition updatePoolStatus :: "'s redis_client \<Rightarrow> 's controller \<Rightarrow> FailoverConfig \<Rightarrow> worker_pool_state \<Rightarrow> ('s world, worker_pool_state) io" where
  "updatePoolStatus R wpc fo nextState =
     (let status = (if failoverReasons fo (ct_Mode wpc) nextState = [] then WorkerPoolStatusHealthy else WorkerPoolStatusDegraded);
          nextState' = nextState\<lparr>ps_Status := status\<rparr>
      in bindE (attempt (ct_State wpc)) (\<lambda>st.
         bindE (case st of
                  Inr previousState \<Rightarrow> returnE previousState
                | Inl e \<Rightarrow> (case e of
                      ErrWorkerPoolStateNotFound _ \<Rightarrow> returnE (zero_WorkerPoolState\<lparr>ps_Status := WorkerPoolStatusHealthy\<rparr>)
                    | _ \<Rightarrow> throwE e)) (\<lambda>previousState.
           if fo_Enabled fo \<and> ps_Status previousState \<noteq> status \<and> status = WorkerPoolStatusDegraded
           then thenE (CordonAllPendingWorkersInPool R (ct_Name wpc)) (returnE nextState')
           else returnE nextState')))"

definition healthTick :: "'s redis_client \<Rightarrow> 's controller \<Rightarrow> WorkerPoolConfig \<Rightarrow> FailoverConfig \<Rightarrow> int \<Rightarrow> ('s world, unit) io" where
  "healthTick R wpc config fo now =
     thenE (SetWorkerPoolStateLock R (ct_Name wpc))
       (deferring (RemoveWorkerPoolStateLock R (ct_Name wpc))
         (bindE (getPoolState R wpc config now) (\<lambda>poolState.
          bindE (updatePoolStatus R wpc fo poolState) (\<lambda>poolState'.
            SetWorkerPoolState R (ct_Name wpc) poolState'))))"

section \<open>Cleaner\<close>

record pod =
  pd_Labels :: "string \<rightharpoonup> string"
  pd_Phase :: string
  pd_CreationTimestamp :: int

text \<open>The Kubernetes API of one cluster: the jobs of a label selector, the pods of a job, deleting a job.\<close>

record 's kube =
  kb_ListJobs :: "(string \<times> string) list \<Rightarrow> ('s world, string list) io"
  kb_ListPods :: "string \<Rightarrow> ('s world, pod list) io"
  kb_DeleteJob :: "string \<Rightarrow> ('s world, unit) io"

definition deleteWorkerResources :: "'s redis_client \<Rightarrow> 's kube \<Rightarrow> string \<Rightarrow> string \<Rightarrow> ('s world, unit) io" where
  "deleteWorkerResources R K workerId jobName =
     bindE (attempt (RemoveWorker R workerId)) (\<lambda>r1.
     bindE (attempt (kb_DeleteJob K jobName)) (\<lambda>r2.
       case r1 of
         Inl e \<Rightarrow> (case e of
             ErrWorkerNotFound _ \<Rightarrow> liftSum r2
           | _ \<Rightarrow> throwE e)
       | Inr _ \<Rightarrow> liftSum r2))"

definition deleteStaleJob :: "'s redis_client \<Rightarrow> 's kube \<Rightarrow> pod \<Rightarrow> string \<Rightarrow> ('s world, unit) io" where
  "deleteStaleJob R K pod jobName =
     (case pd_Labels pod Beta9WorkerLabelIDKey of
        None \<Rightarrow> returnE ()
      | Some workerId \<Rightarrow>
          if pd_Phase pod = ''Succeeded'' \<or> pd_Phase pod = ''Failed'' then returnE ()
          else bindE (attempt (GetWorkerById R workerId)) (\<lambda>r.
            case r of
              Inr _ \<Rightarrow> returnE ()
            | Inl e \<Rightarrow> (case e of
                  ErrWorkerNotFound _ \<Rightarrow> thenE (attempt (deleteWorkerResources R K workerId jobName)) (returnE ())
                | _ \<Rightarrow> returnE ())))"

definition deletePendingJob :: "'s redis_client \<Rightarrow> 's kube \<Rightarrow> int \<Rightarrow> int \<Rightarrow> pod \<Rightarrow> string \<Rightarrow> ('s world, unit) io" where
  "deletePendingJob R K ageLimit now pod jobName =
     (case pd_Labels pod Beta9WorkerLabelIDKey of
        None \<Rightarrow> returnE ()
      | Some workerId \<Rightarrow>
          if pd_Phase pod \<noteq> ''Pending'' then returnE ()
          else if time_sub now (pd_CreationTimestamp pod) < ageLimit then returnE ()
          else thenE (attempt (deleteWorkerResources R K workerId jobName)) (returnE ()))"

fun cleanPods :: "'s redis_client \<Rightarrow> 's kube \<Rightarrow> int \<Rightarrow> int \<Rightarrow> string \<Rightarrow> pod list \<Rightarrow> ('s world, unit) io" where
  "cleanPods R K ageLimit now jobName [] = returnE ()"
| "cleanPods R K ageLimit now jobName (pod # pods) =
     thenE (deleteStaleJob R K pod jobName)
       (thenE (deletePendingJob R K ageLimit now pod jobName) (cleanPods R K ageLimit now jobName pods))"

fun cleanJobs :: "'s redis_client \<Rightarrow> 's kube \<Rightarrow> int \<Rightarrow> int \<Rightarrow> string list \<Rightarrow> ('s world, unit) io" where
  "cleanJobs R K ageLimit now [] = returnE ()"
| "cleanJobs R K ageLimit now (jobName # jobs) =
     bindE (attempt (kb_ListPods K jobName)) (\<lambda>r.
       case r of
         Inl _ \<Rightarrow> cleanJobs R K ageLimit now jobs
       | Inr pods \<Rightarrow> thenE (cleanPods R K ageLimit now jobName pods) (cleanJobs R K ageLimit now jobs))"

definition cleanSelector :: "string \<Rightarrow> (string \<times> string) list" where
  "cleanSelector poolName = [(Beta9WorkerLabelKey, Beta9WorkerLabelValue), (Beta9WorkerLabelPoolNameKey, poolName)]"

definition Clean :: "'s redis_client \<Rightarrow> 's kube \<Rightarrow> int \<Rightarrow> int \<Rightarrow> string \<Rightarrow> ('s world, unit) io" where
  "Clean R K ageLimit now poolName =
     bindE (attempt (kb_ListJobs K (cleanSelector poolName))) (\<lambda>r.
       case r of Inl _ \<Rightarrow> returnE () | Inr jobs \<Rightarrow> cleanJobs R K ageLimit now jobs)"

text \<open>The loops of \<open>monitorAndCleanupWorkers\<close>, one tick each.\<close>

fun cleanMachines :: "'s redis_client \<Rightarrow> (string \<Rightarrow> string \<Rightarrow> goerror + 's kube) \<Rightarrow> int \<Rightarrow> int \<Rightarrow> string \<Rightarrow> provider_machine list \<Rightarrow> ('s world, unit) io" where
  "cleanMachines R client ageLimit now poolName [] = returnE ()"
| "cleanMachines R client ageLimit now poolName (machine # machines) =
     (case client (m_HostName (pm_State machine)) (m_Token (pm_State machine)) of
        Inl _ \<Rightarrow> cleanMachines R client ageLimit now poolName machines
      | Inr K \<Rightarrow> thenE (Clean R K ageLimit now poolName) (cleanMachines R client ageLimit now poolName machines))"

definition localCleanupTick :: "'s redis_client \<Rightarrow> 's kube \<Rightarrow> pool_options \<Rightarrow> int \<Rightarrow> ('s world, unit) io" where
  "localCleanupTick R K o' now =
     bindE (attempt (SetWorkerCleanerLock R (po_Name o'))) (\<lambda>l.
       case l of
         Inl _ \<Rightarrow> returnE ()
       | Inr _ \<Rightarrow>
           thenE (Clean R K (ac_CleanupPendingWorkerAgeLimit (po_Config o')) now (po_Name o'))
             (thenE (attempt (RemoveWorkerCleanerLock R (po_Name o'))) (returnE ())))"

definition externalCleanupTick :: "'s redis_client \<Rightarrow> (string \<Rightarrow> string \<Rightarrow> goerror + 's kube) \<Rightarrow> pool_options \<Rightarrow> int \<Rightarrow> ('s world, unit) io" where
  "externalCleanupTick R client o' now =
     bindE (attempt (SetWorkerCleanerLock R (po_Name o'))) (\<lambda>l.
       case l of
         Inl _ \<Rightarrow> returnE ()
       | Inr _ \<Rightarrow>
           bindE (attempt (ListAllMachines R (po_Provider o') (po_Name o') True)) (\<lambda>r.
             case r of
               Inl _ \<Rightarrow> returnE ()
             | Inr machines \<Rightarrow>
                 thenE (cleanMachines R client (ac_CleanupPendingWorkerAgeLimit (po_Config o')) now (po_Name o') machines)
                   (thenE (attempt (RemoveWorkerCleanerLock R (po_Name o'))) (returnE ()))))"

section \<open>Cordoning\<close>

lemma worker_key_eqs [simp]:
  "SchedulerWorkerState i = SchedulerWorkerState j \<longleftrightarrow> i = j" "SchedulerWorkerLock i = SchedulerWorkerLock j \<longleftrightarrow> i = j"
  by (simp_all add: key_eqs)

lemma live_workers_map:
  "live_workers v (map SchedulerWorkerState is) =
     map (read_worker v) (filter (\<lambda>i. hashOf (v (SchedulerWorkerState i)) \<noteq> Map.empty) is)"
  by (induction "is") (simp_all add: live_workers_def read_worker_def)

text \<open>After cordoning, no worker of the pool is pending, and the other workers are as before.\<close>

definition cordoned :: "string \<Rightarrow> string set \<Rightarrow> keyspace \<Rightarrow> keyspace \<Rightarrow> bool" where
  "cordoned pool I v v' \<longleftrightarrow>
     (\<forall>i \<in> I. hashOf (v (SchedulerWorkerState i)) \<noteq> Map.empty \<and> w_PoolName (read_worker v i) = pool \<longrightarrow>
        w_Status (read_worker v' i) \<noteq> WorkerStatusPending) \<and>
     (\<forall>i. w_PoolName (read_worker v i) \<noteq> pool \<or> w_Status (read_worker v i) \<noteq> WorkerStatusPending \<longrightarrow>
        v' (SchedulerWorkerState i) = v (SchedulerWorkerState i))"

context redis
begin

lemma cordon_loop:
  assumes "distinct js" and "\<forall>j \<in> set js. w_Id (read_worker v j) = j"
    and "\<forall>j \<in> set js. read_worker (V w) j = read_worker v j"
  shows "wp (forE (\<lambda>x. if w_Status x \<noteq> WorkerStatusPending then returnE () else UpdateWorkerStatus R (w_Id x) WorkerStatusDisabled)
        (map (read_worker v) js))
     (\<lambda>_ w'. (\<forall>j \<in> set js. w_Status (read_worker (V w') j) \<noteq> WorkerStatusPending) \<and>
        agree_off (\<Union>j \<in> {j \<in> set js. w_Status (read_worker v j) = WorkerStatusPending}. {SchedulerWorkerState j, SchedulerWorkerLock j}) (V w) (V w'))
     (\<lambda>_ _. True) w"
  using assms
proof (induction js arbitrary: w)
  case Nil
  then show ?case by (simp add: wp_eqs)
next
  case (Cons j js)
  let ?K = "\<Union>j \<in> {j \<in> set js. w_Status (read_worker v j) = WorkerStatusPending}. {SchedulerWorkerState j, SchedulerWorkerLock j}"
  have rest: "wp (forE (\<lambda>x. if w_Status x \<noteq> WorkerStatusPending then returnE () else UpdateWorkerStatus R (w_Id x) WorkerStatusDisabled)
        (map (read_worker v) js))
     (\<lambda>_ w'. (\<forall>i \<in> set (j # js). w_Status (read_worker (V w') i) \<noteq> WorkerStatusPending) \<and> agree_off (?K \<union> L) (V w) (V w'))
     (\<lambda>_ _. True) w1"
    if L: "agree_off L (V w) (V w1)" "L \<subseteq> {SchedulerWorkerState j, SchedulerWorkerLock j}"
      and fin: "w_Status (read_worker (V w1) j) \<noteq> WorkerStatusPending" for L w1
  proof (rule wp_mono [OF Cons.IH], goal_cases)
    case 1
    then show ?case using Cons.prems(1) by simp
  next
    case 2
    then show ?case using Cons.prems(2) by simp
  next
    case 3
    then show ?case
      using Cons.prems(1,3) L by (auto intro!: read_worker_agree [OF L(1), THEN trans])
  next
    case (4 _ w2)
    have "agree_off (?K \<union> L) (V w) (V w2)" using L(1) 4 by (auto simp: agree_off_def)
    moreover have "read_worker (V w2) j = read_worker (V w1) j"
      using 4 Cons.prems(1) by (intro read_worker_agree) auto
    ultimately show ?case using 4 fin by simp
  qed simp
  show ?case
  proof (cases "w_Status (read_worker v j) = WorkerStatusPending")
    case True
    have eq: "?K \<union> {SchedulerWorkerState j, SchedulerWorkerLock j} =
        (\<Union>j \<in> {i \<in> set (j # js). w_Status (read_worker v i) = WorkerStatusPending}. {SchedulerWorkerState j, SchedulerWorkerLock j})"
      using True by auto
    have body: "(if w_Status (read_worker v j) \<noteq> WorkerStatusPending then returnE ()
        else UpdateWorkerStatus R (w_Id (read_worker v j)) WorkerStatusDisabled) = UpdateWorkerStatus R j WorkerStatusDisabled"
      using True Cons.prems(2) by simp
    show ?thesis
      unfolding list.map wp_forE_Cons body
    proof (rule wp_mono [OF UpdateWorkerStatus_spec], goal_cases)
      case (1 _ w1)
      then show ?case
        by (intro rest [where L = "{SchedulerWorkerState j, SchedulerWorkerLock j}", unfolded eq]) (simp_all add: WorkerStatusDisabled_def WorkerStatusPending_def)
    qed simp
  next
    case False
    have eq: "?K \<union> {} =
        (\<Union>j \<in> {i \<in> set (j # js). w_Status (read_worker v i) = WorkerStatusPending}. {SchedulerWorkerState j, SchedulerWorkerLock j})"
      using False by auto
    show ?thesis
      unfolding list.map wp_forE_Cons
      using False Cons.prems(3) rest [of "{}" w, unfolded eq] by (simp add: wp_eqs)
  qed
qed

lemma CordonAllPendingWorkersInPool_spec:
  assumes "setOf (V w SchedulerWorkerIndex) = SchedulerWorkerState ` I" and "\<forall>i \<in> I. w_Id (read_worker (V w) i) = i"
  shows "wp (CordonAllPendingWorkersInPool R pool) (\<lambda>_ w'. cordoned pool I (V w) (V w')) (\<lambda>_ _. True) w"
  unfolding CordonAllPendingWorkersInPool_def GetAllWorkersInPool_def wp_eqs
proof (rule wp_mono [OF getWorkers_unlocked_spec], goal_cases)
  case (1 ws w1)
  then obtain ks where ks: "distinct ks" "set ks = SchedulerWorkerState ` I" "ws = live_workers (V w) ks"
    and same: "agree_off {SchedulerWorkerIndex} (V w) (V w1)"
    using assms(1) by auto
  obtain "is" where "is": "ks = map SchedulerWorkerState is" "set is \<subseteq> I"
    using subset_image_list [of ks SchedulerWorkerState I] ks(2) by auto
  have I: "set is = I"
  proof -
    have "SchedulerWorkerState ` set is = SchedulerWorkerState ` I" using ks(2) "is"(1) by (simp flip: set_map)
    then show ?thesis by (metis (no_types, opaque_lifting) inj_image_eq_iff injI worker_key_eqs(1))
  qed
  define js where "js = filter (\<lambda>i. w_PoolName (read_worker (V w) i) = pool) (filter (\<lambda>i. hashOf (V w (SchedulerWorkerState i)) \<noteq> Map.empty) is)"
  have js: "filter (\<lambda>w. w_PoolName w = pool) ws = map (read_worker (V w)) js"
    unfolding ks(3) "is"(1) live_workers_map js_def by (simp add: filter_map o_def)
  have in_js: "i \<in> set js" if "i \<in> I" "hashOf (V w (SchedulerWorkerState i)) \<noteq> Map.empty" "w_PoolName (read_worker (V w) i) = pool" for i
    using that I by (simp add: js_def)
  have loop: "wp (forE (\<lambda>x. if w_Status x \<noteq> WorkerStatusPending then returnE () else UpdateWorkerStatus R (w_Id x) WorkerStatusDisabled)
      (map (read_worker (V w)) js))
     (\<lambda>_ w'. (\<forall>j \<in> set js. w_Status (read_worker (V w') j) \<noteq> WorkerStatusPending) \<and>
        agree_off (\<Union>j \<in> {j \<in> set js. w_Status (read_worker (V w) j) = WorkerStatusPending}. {SchedulerWorkerState j, SchedulerWorkerLock j}) (V w1) (V w'))
     (\<lambda>_ _. True) w1"
  proof (rule cordon_loop)
    show "distinct js" using ks(1) "is"(1) by (simp add: js_def distinct_map)
    show "\<forall>j \<in> set js. w_Id (read_worker (V w) j) = j" using assms(2) I by (simp add: js_def)
    show "\<forall>j \<in> set js. read_worker (V w1) j = read_worker (V w) j" using read_worker_agree [OF same] by simp
  qed
  have pool: "w_PoolName (read_worker (V w) i) = pool \<and> w_Status (read_worker (V w) i) = WorkerStatusPending"
    if "SchedulerWorkerState i \<in> (\<Union>j \<in> {j \<in> set js. w_Status (read_worker (V w) j) = WorkerStatusPending}. {SchedulerWorkerState j, SchedulerWorkerLock j})" for i
    using that by (auto simp: js_def)
  show ?case
    unfolding wp_eqs js
  proof (rule wp_mono [OF loop], goal_cases)
    case (1 _ w2)
    have "V w2 (SchedulerWorkerState i) = V w (SchedulerWorkerState i)"
      if "w_PoolName (read_worker (V w) i) \<noteq> pool \<or> w_Status (read_worker (V w) i) \<noteq> WorkerStatusPending" for i
    proof -
      have "V w2 (SchedulerWorkerState i) = V w1 (SchedulerWorkerState i)"
        using conjunct2 [OF 1, unfolded agree_off_def, rule_format, of "SchedulerWorkerState i"] pool [of i] that by blast
      also have "\<dots> = V w (SchedulerWorkerState i)"
        using same [unfolded agree_off_def, rule_format, of "SchedulerWorkerState i"] by simp
      finally show ?thesis .
    qed
    then show ?case unfolding cordoned_def using 1 in_js by auto
  qed simp
qed simp

end

context redis_up
begin

lemma degraded_cordons:
  assumes "ct_State wpc = GetWorkerPoolState R (ct_Name wpc)" and "isHash (V w (WorkerPoolState (ct_Name wpc)))"
    and "set_string (hashOf (V w (WorkerPoolState (ct_Name wpc)))) ''status'' [] \<noteq> WorkerPoolStatusDegraded"
    and "fo_Enabled fo" and "failoverReasons fo (ct_Mode wpc) s \<noteq> []"
    and "setOf (V w SchedulerWorkerIndex) = SchedulerWorkerState ` I" and "\<forall>i \<in> I. w_Id (read_worker (V w) i) = i"
  shows "wp (updatePoolStatus R wpc fo s)
     (\<lambda>s' w'. s' = s\<lparr>ps_Status := WorkerPoolStatusDegraded\<rparr> \<and> cordoned (ct_Name wpc) I (V w) (V w')) (\<lambda>_ _. True) w"
proof -
  have cordon: "wp (CordonAllPendingWorkersInPool R (ct_Name wpc)) (\<lambda>_ w'. cordoned (ct_Name wpc) I (V w) (V w')) (\<lambda>_ _. True) w1"
    if "V w1 = V w" for w1
    using CordonAllPendingWorkersInPool_spec [of w1 I "ct_Name wpc"] assms(6,7) that by simp
  have H: "WorkerPoolStatusHealthy \<noteq> WorkerPoolStatusDegraded" by (simp add: WorkerPoolStatusHealthy_def WorkerPoolStatusDegraded_def)
  show ?thesis
    unfolding updatePoolStatus_def Let_def assms(1) wp_eqs
  proof (rule up_GetWorkerPoolState [OF assms(2)], goal_cases)
    case (1 w1)
    then have "ps_Status (WorkerPoolState_ToStruct (hashOf (V w (WorkerPoolState (ct_Name wpc)))) zero_WorkerPoolState) \<noteq> WorkerPoolStatusDegraded"
      using assms(3) by (simp add: WorkerPoolState_ToStruct_def zero_WorkerPoolState_def)
    then show ?case
      using assms(4,5) by (simp add: wp_eqs, intro wp_mono [OF cordon [OF 1(2)]]) (simp_all add: wp_eqs)
  next
    case (2 w1)
    then show ?case
      using assms(4,5) H by (simp add: wp_eqs, intro wp_mono [OF cordon [OF 2(2)]]) (simp_all add: wp_eqs)
  qed
qed

end

section \<open>The cleaner and the workers that are alive\<close>

text \<open>
  What the cleaner is told of worker \<open>i\<close>: the Kubernetes API does not write the keys, and no pod of \<open>i\<close> has been
  pending for the age limit.
\<close>

definition kube_spares :: "('s \<Rightarrow> keyspace) \<Rightarrow> 's kube \<Rightarrow> int \<Rightarrow> int \<Rightarrow> string \<Rightarrow> bool" where
  "kube_spares view K ageLimit now i \<longleftrightarrow>
     (\<forall>sel w. wp (kb_ListJobs K sel) (\<lambda>_ w'. view (rdb w') = view (rdb w)) (\<lambda>_ w'. view (rdb w') = view (rdb w)) w) \<and>
     (\<forall>j w. wp (kb_DeleteJob K j) (\<lambda>_ w'. view (rdb w') = view (rdb w)) (\<lambda>_ w'. view (rdb w') = view (rdb w)) w) \<and>
     (\<forall>j w. wp (kb_ListPods K j)
        (\<lambda>pods w'. view (rdb w') = view (rdb w) \<and>
           (\<forall>p \<in> set pods. pd_Labels p Beta9WorkerLabelIDKey = Some i \<longrightarrow>
              pd_Phase p \<noteq> ''Pending'' \<or> time_sub now (pd_CreationTimestamp p) < ageLimit))
        (\<lambda>_ w'. view (rdb w') = view (rdb w)) w)"

definition spared :: "string \<Rightarrow> keyspace \<Rightarrow> keyspace \<Rightarrow> bool" where
  "spared i v v' \<longleftrightarrow> v' (SchedulerWorkerState i) = v (SchedulerWorkerState i) \<and>
     v' (SchedulerWorkerRequests i) = v (SchedulerWorkerRequests i) \<and> v' (SchedulerWorkerLock i) = None \<and>
     isSet (v' SchedulerWorkerIndex) \<and>
     (SchedulerWorkerState i \<in> setOf (v' SchedulerWorkerIndex) \<longleftrightarrow> SchedulerWorkerState i \<in> setOf (v SchedulerWorkerIndex))"

context redis_up
begin

lemma up_GetWorkerById:
  assumes "V w (SchedulerWorkerLock i) = None" and "V w (SchedulerWorkerState i) = Some (RHash h)"
    and "\<And>w'. V w' = V w \<Longrightarrow> Q (read_worker (V w) i) w'"
  shows "wp (GetWorkerById R i) Q E w"
  unfolding GetWorkerById_def Let_def
  by (rule up_locked) (use assms in \<open>auto simp: wp_eqs getWorkerFromKey_def read_worker_def key_eqs fun_upd_idem intro!: up_Exists up_HGetAll\<close>)

lemma spared_agree_off:
  "spared i v u \<Longrightarrow> agree_off {SchedulerWorkerLock j} u u' \<Longrightarrow> j \<noteq> i \<Longrightarrow> spared i v u'"
  by (simp add: spared_def agree_off_def key_eqs)

lemma RemoveWorker_spares:
  assumes "j \<noteq> i" and "spared i v (V w)"
  shows "wp (RemoveWorker R j) (\<lambda>_ w'. spared i v (V w')) (\<lambda>_ w'. spared i v (V w')) w"
  unfolding RemoveWorker_def Let_def
proof (rule wp_locked, goal_cases)
  case (1 w1)
  then have w1: "spared i v (V w1)" using spared_agree_off [OF assms(2) _ assms(1)] by simp
  have fin: "\<forall>w2. agree_off {SchedulerWorkerLock j} (V w') (V w2) \<longrightarrow> spared i v (V w2)" if "spared i v (V w')" for w'
    by (intro allI impI) (rule spared_agree_off [OF that _ assms(1)])
  have srem: "wp (SRem R SchedulerWorkerIndex (SchedulerWorkerState j)) (\<lambda>_ w'. spared i v (V w')) E w'" if "spared i v (V w')" for E w'
    using that assms(1) by (intro up_SRem) (auto simp: spared_def key_eqs putSet_def split: if_splits)
  have del: "wp (Del R k) (\<lambda>_ w'. spared i v (V w')) E w'"
    if "spared i v (V w')" "k = SchedulerWorkerState j \<or> k = SchedulerWorkerRequests j" for E k w'
    using that assms(1) by (intro up_Del) (auto simp: spared_def key_eqs)
  show ?case
    unfolding wp_eqs
  proof (rule up_Exists, goal_cases)
    case (1 w2)
    then have w2: "spared i v (V w2)" using w1 by simp
    have "wp (SRem R SchedulerWorkerIndex (SchedulerWorkerState j))
        (\<lambda>_ w3. wp (Del R (SchedulerWorkerState j)) (\<lambda>_ w4. wp (Del R (SchedulerWorkerRequests j))
           (\<lambda>_ w5. \<forall>w'. agree_off {SchedulerWorkerLock j} (V w5) (V w') \<longrightarrow> spared i v (V w')) E1 w4) E2 w3) E3 w2" for E1 E2 E3
      by (intro wp_mono [OF srem [OF w2]] wp_mono [OF del] fin) simp_all
    then show ?case using fin [OF w2] by simp
  qed
next
  case (2 e w1)
  then show ?case using spared_agree_off [OF assms(2) _ assms(1)] by simp
qed

lemma deleteWorkerResources_spares:
  assumes "kube_spares view K ageLimit now i" and "j \<noteq> i" and "spared i v (V w)"
  shows "wp (deleteWorkerResources R K j jn) (\<lambda>_ w'. spared i v (V w')) (\<lambda>_ w'. spared i v (V w')) w"
proof -
  have quiet: "wp (kb_DeleteJob K jn) (\<lambda>_ w'. V w' = V w1) (\<lambda>_ w'. V w' = V w1) w1" for w1
    using assms(1) unfolding kube_spares_def by simp
  have del: "wp (kb_DeleteJob K jn) (\<lambda>_ w'. spared i v (V w')) (\<lambda>_ w'. spared i v (V w')) w1" if "spared i v (V w1)" for w1
    by (rule wp_mono [OF quiet]) (use that in simp_all)
  show ?thesis
    unfolding deleteWorkerResources_def wp_eqs
  proof (rule wp_mono [OF RemoveWorker_spares [OF assms(2,3)]], goal_cases)
    case (1 a w1)
    then show ?case by (intro wp_mono [OF del]) (simp_all add: wp_eqs wp_liftSum)
  next
    case (2 e w1)
    then show ?case by (intro wp_mono [OF del]) (simp_all add: wp_eqs wp_liftSum split: goerror.splits)
  qed
qed

lemma deleteStaleJob_spares:
  assumes "kube_spares view K ageLimit now i" and "v (SchedulerWorkerState i) = Some (RHash h)" and "spared i v (V w)"
  shows "wp (deleteStaleJob R K p jn) (\<lambda>_ w'. spared i v (V w')) (\<lambda>_ _. False) w"
proof (cases "pd_Labels p Beta9WorkerLabelIDKey")
  case None
  with assms(3) show ?thesis by (simp add: deleteStaleJob_def wp_eqs)
next
  case (Some j)
  show ?thesis
  proof (cases "j = i")
    case True
    then show ?thesis
      unfolding deleteStaleJob_def using assms(2,3) Some
      by (auto simp: wp_eqs spared_def intro!: up_GetWorkerById)
  next
    case False
    have get: "wp (GetWorkerById R j) (\<lambda>_ w'. spared i v (V w')) (\<lambda>_ w'. spared i v (V w')) w"
      by (rule wp_mono [OF GetWorkerById_spec]) (use spared_agree_off [OF assms(3) _ False] in auto)
    have del: "wp (deleteWorkerResources R K j jn) (\<lambda>_ w'. spared i v (V w')) (\<lambda>_ w'. spared i v (V w')) w1"
      if "spared i v (V w1)" for w1
      by (rule deleteWorkerResources_spares [OF assms(1) False that])
    show ?thesis
      unfolding deleteStaleJob_def Some option.case wp_eqs
      using assms(3) by (auto simp: wp_eqs intro!: wp_mono [OF get] wp_mono [OF del] split: goerror.splits)
  qed
qed

lemma deletePendingJob_spares:
  assumes "kube_spares view K ageLimit now i" and "spared i v (V w)"
    and "pd_Labels p Beta9WorkerLabelIDKey = Some i \<longrightarrow> pd_Phase p \<noteq> ''Pending'' \<or> time_sub now (pd_CreationTimestamp p) < ageLimit"
  shows "wp (deletePendingJob R K ageLimit now p jn) (\<lambda>_ w'. spared i v (V w')) (\<lambda>_ _. False) w"
proof (cases "pd_Labels p Beta9WorkerLabelIDKey")
  case None
  with assms(2) show ?thesis by (simp add: deletePendingJob_def wp_eqs)
next
  case (Some j)
  show ?thesis
  proof (cases "j = i")
    case True
    then show ?thesis using assms(2,3) Some by (auto simp: deletePendingJob_def wp_eqs)
  next
    case False
    show ?thesis
      unfolding deletePendingJob_def Some option.case wp_eqs
      using assms(2) by (auto intro!: wp_mono [OF deleteWorkerResources_spares [OF assms(1) False assms(2)]])
  qed
qed

lemma cleanPods_spares:
  assumes "kube_spares view K ageLimit now i" and "v (SchedulerWorkerState i) = Some (RHash h)" and "spared i v (V w)"
    and "\<forall>p \<in> set pods. pd_Labels p Beta9WorkerLabelIDKey = Some i \<longrightarrow> pd_Phase p \<noteq> ''Pending'' \<or> time_sub now (pd_CreationTimestamp p) < ageLimit"
  shows "wp (cleanPods R K ageLimit now jn pods) (\<lambda>_ w'. spared i v (V w')) (\<lambda>_ _. False) w"
  using assms(3,4)
proof (induction pods arbitrary: w)
  case (Cons p pods)
  show ?case
    unfolding cleanPods.simps wp_eqs
  proof (rule wp_mono [OF deleteStaleJob_spares [OF assms(1,2) Cons.prems(1)]], goal_cases)
    case (1 _ w1)
    show ?case
      by (rule wp_mono [OF deletePendingJob_spares [OF assms(1) 1]]) (use Cons in auto)
  qed simp
qed (simp add: wp_eqs)

lemma cleanJobs_spares:
  assumes "kube_spares view K ageLimit now i" and "v (SchedulerWorkerState i) = Some (RHash h)" and "spared i v (V w)"
  shows "wp (cleanJobs R K ageLimit now jobs) (\<lambda>_ w'. spared i v (V w')) (\<lambda>_ _. False) w"
  using assms(3)
proof (induction jobs arbitrary: w)
  case (Cons jn jobs)
  have "wp (kb_ListPods K jn)
        (\<lambda>pods w'. V w' = V w \<and>
           (\<forall>p \<in> set pods. pd_Labels p Beta9WorkerLabelIDKey = Some i \<longrightarrow>
              pd_Phase p \<noteq> ''Pending'' \<or> time_sub now (pd_CreationTimestamp p) < ageLimit))
        (\<lambda>_ w'. V w' = V w) w"
    using assms(1) unfolding kube_spares_def by blast
  then show ?case
    unfolding cleanJobs.simps wp_eqs
  proof (rule wp_mono, goal_cases)
    case (1 pods w1)
    then have "spared i v (V w1)" using Cons.prems by simp
    then show ?case
      unfolding sum.case wp_eqs by (rule wp_mono [OF cleanPods_spares [where i = i and v = v, OF assms(1,2)]]) (use 1 Cons.IH in auto)
  next
    case (2 e w1)
    then show ?case using Cons by (simp add: wp_eqs)
  qed
qed (simp add: wp_eqs)

lemma Clean_spares:
  assumes "kube_spares view K ageLimit now i" and "V w (SchedulerWorkerState i) = Some (RHash h)"
    and "V w (SchedulerWorkerLock i) = None" and "isSet (V w SchedulerWorkerIndex)"
  shows "wp (Clean R K ageLimit now pool) (\<lambda>_ w'. spared i (V w) (V w')) (\<lambda>_ _. False) w"
proof -
  have refl: "spared i (V w) (V w)" using assms(3,4) by (simp add: spared_def)
  have "wp (kb_ListJobs K (cleanSelector pool)) (\<lambda>_ w'. V w' = V w) (\<lambda>_ w'. V w' = V w) w"
    using assms(1) unfolding kube_spares_def by blast
  then show ?thesis
    unfolding Clean_def wp_eqs
  proof (rule wp_mono, goal_cases)
    case (1 jobs w1)
    with refl show ?case
      unfolding sum.case by (intro cleanJobs_spares [where v = "V w", OF assms(1,2)]) simp
  next
    case (2 e w1)
    with refl show ?case by (simp add: wp_eqs)
  qed
qed

end

lemma go_div_nonpos: "a \<le> 0 \<Longrightarrow> 0 < b \<Longrightarrow> go_div a b \<le> 0"
  by (cases "a = 0") (simp_all add: go_div_def sgn_if pos_imp_zdiv_nonneg_iff)

section \<open>Properties\<close>


text \<open>
  C28. The cleaner spares living workers: whatever jobs and pods Kubernetes reports, a tick of the cleaner keeps the state,
  the request queue and the index entry of every worker whose state is stored, whose lock is free and none of whose pods
  has been pending for the age limit; and the tick returns.
\<close>

theorem cleaner_spares_live_workers:
  assumes "redis_up R view" and "kube_spares view K ageLimit now i" and "view (rdb w) (SchedulerWorkerState i) = Some (RHash h)"
    and "view (rdb w) (SchedulerWorkerLock i) = None" and "isSet (view (rdb w) SchedulerWorkerIndex)"
  shows "\<exists>w'. Clean R K ageLimit now pool w = (Inr (), w') \<and> spared i (view (rdb w)) (view (rdb w'))"
  using wp_success [OF redis_up.Clean_spares [OF assms]] by auto

text \<open>
  The average scheduling latency can be hidden: a container that is stopping before it ever started counts as
  having started at the epoch, so that together with one container that has been pending for any time less than the
  epoch time at which the stopping one was scheduled the average is not positive, whatever the pending one waits.
\<close>

theorem stopping_container_hides_latency:
  assumes "cs_Status c1 = ContainerStatusPending" and "cs_Status c2 = ContainerStatusStopping" and "cs_StartedAt c2 = 0"
    and "0 \<le> now - Unix (cs_ScheduledAt c1)" and "now - Unix (cs_ScheduledAt c1) \<le> Unix (cs_ScheduledAt c2)"
    and "Unix (cs_ScheduledAt c2) < 2 ^ 63"
  shows "ps_SchedulingLatency (poolStateOf (fold (noteContainer now) [c1, c2] zero_counters) cap) \<le> 0"
  using assms
  by (auto simp: poolStateOf_def noteContainer_def zero_counters_def Let_def averageDuration_def time_sub_def Milliseconds_def
      ContainerStatusPending_def ContainerStatusStopping_def ContainerStatusRunning_def Unix_def i64_id in_i64_def intro!: go_div_nonpos)

section \<open>Worked examples\<close>

definition ex_failover :: FailoverConfig where
  "ex_failover = \<lparr>fo_Enabled = True, fo_MaxPendingWorkers = 1, fo_MaxSchedulingLatencyMs = 60000, fo_MinMachinesAvailable = 0\<rparr>"

definition ex_pending_state :: worker_pool_state where
  "ex_pending_state = zero_WorkerPoolState\<lparr>ps_PendingWorkers := 1\<rparr>"

definition ex_pending_world :: "mem world" where
  "ex_pending_world = \<lparr>rdb = [WorkerPoolState ''t4'' \<mapsto> MHash [(''status'', WorkerPoolStatusHealthy)],
      SchedulerWorkerIndex \<mapsto> MSet [SchedulerWorkerState ''a''],
      SchedulerWorkerState ''a'' \<mapsto> MHash [(''id'', ''a''), (''status'', WorkerStatusPending), (''pool_name'', ''t4'')]],
     locks = Map.empty\<rparr>"

lemma ex_pending_view:
  "mem_view (rdb ex_pending_world) (WorkerPoolState ''t4'') = Some (RHash [''status'' \<mapsto> WorkerPoolStatusHealthy])"
  "mem_view (rdb ex_pending_world) SchedulerWorkerIndex = Some (RSet {SchedulerWorkerState ''a''})"
  "mem_view (rdb ex_pending_world) (SchedulerWorkerState ''a'') =
     Some (RHash [''id'' \<mapsto> ''a'', ''status'' \<mapsto> WorkerStatusPending, ''pool_name'' \<mapsto> ''t4''])"
  "mem_view (rdb ex_pending_world) (SchedulerWorkerLock ''a'') = None"
  by (simp_all add: ex_pending_world_def mem_view_def key_eqs fun_eq_iff)

lemma ex_pending_worker: "w_Id (read_worker (mem_view (rdb ex_pending_world)) ''a'') = ''a''"
  "w_PoolName (read_worker (mem_view (rdb ex_pending_world)) ''a'') = ''t4''"
  "w_Status (read_worker (mem_view (rdb ex_pending_world)) ''a'') = WorkerStatusPending"
  by (simp_all add: read_worker_def ex_pending_view Worker_ToStruct_def set_string_def)


definition ex_kube :: "mem kube" where
  "ex_kube = \<lparr>kb_ListJobs = (\<lambda>_. returnE [''worker-t4-a'']),
     kb_ListPods = (\<lambda>_. returnE [\<lparr>pd_Labels = [Beta9WorkerLabelIDKey \<mapsto> ''a''], pd_Phase = ''Running'', pd_CreationTimestamp = 0\<rparr>]),
     kb_DeleteJob = (\<lambda>_. returnE ())\<rparr>"

theorem cleaner_spares_live_workers_witness:
  "\<exists>w'. Clean mem_client ex_kube 60 100 ''t4'' ex_pending_world = (Inr (), w') \<and>
     spared ''a'' (mem_view (rdb ex_pending_world)) (mem_view (rdb w'))"
  by (rule cleaner_spares_live_workers [where view = mem_view and w = ex_pending_world, OF mem.redis_up_axioms _ ex_pending_view(3)])
     (simp_all add: ex_pending_view kube_spares_def ex_kube_def wp_eqs)

theorem stopping_container_hides_latency_witness:
  "ps_SchedulingLatency (poolStateOf (fold (noteContainer (1700000600 * second))
     [zero_ContainerState\<lparr>cs_Status := ContainerStatusPending, cs_ScheduledAt := 1700000000\<rparr>,
      zero_ContainerState\<lparr>cs_Status := ContainerStatusStopping, cs_ScheduledAt := 1700000000\<rparr>] zero_counters) zero_capacity) \<le> 0"
  by (rule stopping_container_hides_latency) (simp_all add: zero_ContainerState_def Unix_def second_def)

end
