(* ===== verification/Event_Bus.thy ===== *)
theory Event_Bus
  imports Worker_Repo
begin

text \<open>
  The event bus of \<open>pkg/common/events.go\<close>. An event is stored in Redis under a key made of the hash of its
  serialized form and its id is published on the channel of its type; a consumer claims it by its id. The JSON
  encoding, the hash and \<open>PUBLISH\<close> are parameters. A consumer handles a message before it takes the next one, where
  the code starts a goroutine per message; the pause before an event is published again is left out.
\<close>

section \<open>Events\<close>

definition eventPrefix :: string where
  "eventPrefix = ''event''"

definition eventChannelPrefix :: string where
  "eventChannelPrefix = ''events''"

definition eventLockSuffix :: string where
  "eventLockSuffix = ''lock''"

definition eventRetriesSuffix :: string where
  "eventRetriesSuffix = ''retries''"

definition eventLockTtlS :: int where
  "eventLockTtlS = 60"

definition eventTtlS :: int where
  "eventTtlS = 60"

definition EventTypeStopContainer :: string where
  "EventTypeStopContainer = ''STOP_CONTAINER''"

definition EventTypeReloadInstance :: string where
  "EventTypeReloadInstance = ''RELOAD_INSTANCE''"

definition StopBuildEventType :: "string \<Rightarrow> string" where
  "StopBuildEventType containerId = ''stop-build-'' @ containerId"

record 'a Event =
  ev_Type :: string
  ev_Args :: 'a
  ev_LockAndDelete :: bool
  ev_Retries :: "64 word"

record ('s, 'a) EventBus =
  eb_rdb :: "'s redis_client"
  eb_publish :: "string \<Rightarrow> string \<Rightarrow> ('s world, unit) io"
  eb_serialize :: "'a Event \<Rightarrow> goerror + string"
  eb_deserialize :: "string \<Rightarrow> goerror + 'a Event"
  eb_hash :: "string \<Rightarrow> string"
  eb_EventCallbacks :: "string \<rightharpoonup> ('a Event \<Rightarrow> ('s world, bool) io)"

definition eventKey :: "string \<Rightarrow> string" where
  "eventKey eventId = eventPrefix @ '':'' @ eventId"

definition eventChannelKey :: "string \<Rightarrow> string" where
  "eventChannelKey ty = eventChannelPrefix @ ''/'' @ ty"

definition eventLockKey :: "string \<Rightarrow> string" where
  "eventLockKey eventId = eventPrefix @ '':'' @ eventId @ '':'' @ eventLockSuffix"

definition eventRetryKey :: "string \<Rightarrow> string" where
  "eventRetryKey eventId = eventPrefix @ '':'' @ eventId @ '':'' @ eventRetriesSuffix"

section \<open>Operations\<close>

definition Send :: "('s, 'a) EventBus \<Rightarrow> 'a Event \<Rightarrow> ('s world, string) io" where
  "Send eb event =
     bindE (liftSum (eb_serialize eb event)) (\<lambda>serializedEvent.
     let eventId = eb_hash eb serializedEvent;
         key = eventKey eventId
     in bindE (Exists (eb_rdb eb) key) (\<lambda>exists.
        if exists then throwE (ErrNew (''event already exists: '' @ key))
        else thenE (SetKey (eb_rdb eb) key serializedEvent (eventTtlS * second))
            (thenE (wrapE ''failed to send event'' (eb_publish eb (eventChannelKey (ev_Type event)) eventId))
                   (returnE eventId))))"

definition Delete :: "('s, 'a) EventBus \<Rightarrow> string \<Rightarrow> ('s world, unit) io" where
  "Delete eb eventId = Del (eb_rdb eb) (eventKey eventId)"

text \<open>A claim that fails is \<open>None\<close>; the flag tells whether the claim holds the lock of the event.\<close>

definition Claim :: "('s, 'a) EventBus \<Rightarrow> string \<Rightarrow> ('s world, ('a Event \<times> bool) option) io" where
  "Claim eb eventId =
     bindE (attempt (Get (eb_rdb eb) (eventKey eventId))) (\<lambda>r.
       case r of
         Inl _ \<Rightarrow> returnE None
       | Inr res \<Rightarrow> (case eb_deserialize eb res of
             Inl _ \<Rightarrow> returnE None
           | Inr event \<Rightarrow>
               if ev_LockAndDelete event then
                 bindE (attempt (Acquire (eb_rdb eb) (eventLockKey eventId) eventLockTtlS 0)) (\<lambda>l.
                   case l of Inl _ \<Rightarrow> returnE None | Inr _ \<Rightarrow> returnE (Some (event, True)))
               else returnE (Some (event, False))))"

text \<open>\<open>strconv.Atoi\<close> with its error ignored, at the counters the bus itself prints.\<close>

definition atoiOrZero :: "string \<Rightarrow> int" where
  "atoiOrZero s = (case ParseInt s 64 of Some n \<Rightarrow> n | None \<Rightarrow> 0)"

definition resendEvent :: "('s, 'a) EventBus \<Rightarrow> string \<Rightarrow> string \<Rightarrow> 'a Event \<Rightarrow> ('s world, unit) io" where
  "resendEvent eb channelKey eventId event =
     (let retryKey = eventRetryKey eventId
      in bindE (Exists (eb_rdb eb) retryKey) (\<lambda>keyExists.
         bindE (if keyExists
                then bindE (attempt (Get (eb_rdb eb) retryKey)) (\<lambda>r.
                  returnE (case r of Inl _ \<Rightarrow> 0 | Inr res \<Rightarrow> atoiOrZero res))
                else returnE 0) (\<lambda>retries.
           if retries \<ge> i64 (uint (ev_Retries event)) then throwE (ErrNew ''hit event retry limit'')
           else thenE (SetKey (eb_rdb eb) retryKey (itoa (i64 (retries + 1))) (eventTtlS * second))
                      (wrapE ''failed to resend event'' (eb_publish eb channelKey eventId)))))"

definition handleEvent :: "('s, 'a) EventBus \<Rightarrow> string \<Rightarrow> 'a Event \<Rightarrow> bool \<Rightarrow> ('s world, unit) io" where
  "handleEvent eb eventId event lock =
     (let channelKey = eventChannelKey (ev_Type event);
          body =
            (case eb_EventCallbacks eb (ev_Type event) of
               None \<Rightarrow> thenE (attempt (eb_publish eb channelKey eventId)) (returnE ())
             | Some callback \<Rightarrow> bindE (callback event) (\<lambda>success.
                 if success then
                   (if ev_LockAndDelete event then thenE (attempt (Delete eb eventId)) (returnE ()) else returnE ())
                 else thenE (attempt (resendEvent eb channelKey eventId event)) (returnE ())))
      in if lock then deferring (Release (eb_rdb eb) (eventLockKey eventId)) body else body)"

text \<open>What the loop of \<open>receive\<close> selects: a message, a closed subscription, the end of the context, an error.\<close>

datatype channel_event = Message string | SubscriptionClosed | ContextDone | SubscriptionError

definition receiveMessage :: "('s, 'a) EventBus \<Rightarrow> string \<Rightarrow> ('s world, unit) io" where
  "receiveMessage eb eventId =
     bindE (Claim eb eventId) (\<lambda>c.
       case c of None \<Rightarrow> returnE () | Some (event, lock) \<Rightarrow> handleEvent eb eventId event lock)"

fun receive :: "('s, 'a) EventBus \<Rightarrow> channel_event list \<Rightarrow> ('s world, unit) io" where
  "receive eb [] = returnE ()"
| "receive eb (Message eventId # es) = thenE (receiveMessage eb eventId) (receive eb es)"
| "receive eb (SubscriptionClosed # es) = receive eb es"
| "receive eb (ContextDone # es) = returnE ()"
| "receive eb (SubscriptionError # es) = returnE ()"

definition NewEventBus :: "('s, 'a) EventBus \<Rightarrow> (string \<times> ('a Event \<Rightarrow> ('s world, bool) io)) list \<Rightarrow> ('s, 'a) EventBus" where
  "NewEventBus eb subscribers = eb\<lparr>eb_EventCallbacks := map_of (rev subscribers)\<rparr>"

section \<open>Lemmas\<close>

lemma event_key_eqs [simp]:
  "eventKey i = eventKey j \<longleftrightarrow> i = j" "eventLockKey i = eventLockKey j \<longleftrightarrow> i = j" "eventRetryKey i = eventRetryKey j \<longleftrightarrow> i = j"
  "eventLockKey i \<noteq> eventRetryKey j" "eventRetryKey j \<noteq> eventLockKey i"
proof -
  have "last (eventLockKey i) \<noteq> last (eventRetryKey j)"
    by (simp add: eventLockKey_def eventRetryKey_def eventLockSuffix_def eventRetriesSuffix_def)
  then show "eventLockKey i \<noteq> eventRetryKey j" "eventRetryKey j \<noteq> eventLockKey i" by metis+
qed (simp_all add: eventKey_def eventLockKey_def eventRetryKey_def)

lemma event_keys_differ [simp]: "eventKey i \<noteq> eventLockKey i" "eventLockKey i \<noteq> eventKey i" "eventKey i \<noteq> eventRetryKey i"
  by (simp_all add: eventKey_def eventLockKey_def eventRetryKey_def)

text \<open>What is assumed of \<open>PUBLISH\<close>: it answers and stores nothing.\<close>

definition publishes :: "('s \<Rightarrow> keyspace) \<Rightarrow> ('s, 'a) EventBus \<Rightarrow> bool" where
  "publishes view eb \<longleftrightarrow> (\<forall>ch m w. wp (eb_publish eb ch m)
     (\<lambda>_ w'. view (rdb w') = view (rdb w) \<and> locks w' = locks w) (\<lambda>_ _. False) w)"

text \<open>The counter of resends: what \<open>resendEvent\<close> reads of it, and one more after it.\<close>

definition resends :: "keyspace \<Rightarrow> string \<Rightarrow> int \<Rightarrow> bool" where
  "resends v i n \<longleftrightarrow> v (eventRetryKey i) = (if n = 0 then None else Some (RStr (itoa n)))"

context redis_up
begin

lemma up_publish:
  assumes "publishes view eb" and "\<And>w'. V w' = V w \<Longrightarrow> locks w' = locks w \<Longrightarrow> Q () w'"
  shows "wp (eb_publish eb ch m) Q E w"
  by (rule wp_mono [OF assms(1) [unfolded publishes_def, rule_format]]) (use assms(2) in auto)

lemma up_Send:
  assumes "publishes view eb" and "eb_rdb eb = R" and "eb_serialize eb event = Inr s" and "V w (eventKey (eb_hash eb s)) = None"
    and "\<And>w'. V w' = (V w)(eventKey (eb_hash eb s) \<mapsto> RStr s) \<Longrightarrow> locks w' = locks w \<Longrightarrow> Q (eb_hash eb s) w'"
  shows "wp (Send eb event) Q E w"
  unfolding Send_def assms(2,3)
  by (auto simp: wp_eqs wp_liftSum Let_def assms intro!: up_Exists up_SetKey up_publish [OF assms(1)] assms(5))

lemma Send_twice:
  assumes "eb_rdb eb = R" and "eb_serialize eb event = Inr s" and "V w (eventKey (eb_hash eb s)) \<noteq> None"
    and "\<And>w'. V w' = V w \<Longrightarrow> locks w' = locks w \<Longrightarrow> E (ErrNew (''event already exists: '' @ eventKey (eb_hash eb s))) w'"
  shows "wp (Send eb event) Q E w"
  unfolding Send_def assms(1,2) Let_def wp_eqs wp_liftSum sum.case
proof (rule up_Exists, goal_cases)
  case (1 w')
  with assms(3) show ?case by (simp only: wp_eqs if_True simp_thms assms(4))
qed

lemma up_Claim:
  assumes "eb_rdb eb = R" and "V w (eventKey i) = Some (RStr s)" and "eb_deserialize eb s = Inr event"
    and "ev_LockAndDelete event \<Longrightarrow> V w (eventLockKey i) = None"
    and "\<And>tok w'. ev_LockAndDelete event \<Longrightarrow> V w' = (V w)(eventLockKey i \<mapsto> RStr tok) \<Longrightarrow>
           locks w' = (locks w)(eventLockKey i \<mapsto> tok) \<Longrightarrow> Q (Some (event, True)) w'"
    and "\<And>w'. \<not> ev_LockAndDelete event \<Longrightarrow> V w' = V w \<Longrightarrow> locks w' = locks w \<Longrightarrow> Q (Some (event, False)) w'"
  shows "wp (Claim eb i) Q E w"
  unfolding Claim_def assms(1) wp_eqs
  by (rule up_Get [OF assms(2)]) (auto simp: wp_eqs assms(3,4,6) intro!: up_Acquire assms(5))

lemma Claim_locked:
  assumes "eb_rdb eb = R" and "V w (eventKey i) = Some (RStr s)" and "eb_deserialize eb s = Inr event"
    and "ev_LockAndDelete event" and "V w (eventLockKey i) \<noteq> None"
    and "\<And>w'. Q None w'"
  shows "wp (Claim eb i) Q E w"
  unfolding Claim_def assms(1) wp_eqs
  by (rule up_Get [OF assms(2)]) (auto simp: wp_eqs assms(3-6) intro!: wp_Acquire)

lemma Claim_takes_lock:
  assumes "eb_rdb eb = R" and "V w (eventKey i) = Some (RStr s)" and "eb_deserialize eb s = Inr event" and "ev_LockAndDelete event"
  shows "wp (Claim eb i) (\<lambda>c w1. c \<noteq> None \<longrightarrow> V w1 (eventKey i) = Some (RStr s) \<and> V w1 (eventLockKey i) \<noteq> None) (\<lambda>_ _. True) w"
  unfolding Claim_def assms(1) wp_eqs
  by (rule up_Get [OF assms(2)]) (auto simp: wp_eqs assms intro!: wp_Acquire)

lemma up_resendEvent:
  assumes "publishes view eb" and "eb_rdb eb = R" and "resends (V w) i n" and "0 \<le> n" and "n < 2 ^ 63 - 1"
    and "uint (ev_Retries event) < 2 ^ 63"
    and "\<And>w'. n < uint (ev_Retries event) \<Longrightarrow> resends (V w') i (n + 1) \<Longrightarrow> agree_off {eventRetryKey i} (V w) (V w') \<Longrightarrow> Q () w'"
    and "\<And>w'. uint (ev_Retries event) \<le> n \<Longrightarrow> V w' = V w \<Longrightarrow> E (ErrNew ''hit event retry limit'') w'"
  shows "wp (resendEvent eb ch i event) Q E w"
proof -
  have lim: "i64 (uint (ev_Retries event)) = uint (ev_Retries event)"
  proof (rule i64_id)
    define u where "u = uint (ev_Retries event)"
    then have "0 \<le> u" "u < 2 ^ 63" using assms(6) by simp_all
    then show "in_i64 (uint (ev_Retries event))" unfolding u_def [symmetric] by (simp add: in_i64_def)
  qed
  have n1: "i64 (n + 1) = n + 1" using assms(4,5) by (intro i64_id) (simp add: in_i64_def)
  have read: "atoiOrZero (itoa n) = n" using assms(4,5) by (simp add: atoiOrZero_def ParseInt_itoa_64 in_i64_def)
  have tail: "wp (if n \<ge> i64 (uint (ev_Retries event)) then throwE (ErrNew ''hit event retry limit'')
           else thenE (SetKey R (eventRetryKey i) (itoa (i64 (n + 1))) (eventTtlS * second))
                      (wrapE ''failed to resend event'' (eb_publish eb ch i))) Q E w1" if "V w1 = V w" for w1
    unfolding lim n1 using assms(4) that
    by (auto simp: wp_eqs resends_def intro!: up_SetKey up_publish [OF assms(1)] assms(7,8))
  show ?thesis
    unfolding resendEvent_def Let_def assms(2) wp_eqs
  proof (rule up_Exists, goal_cases)
    case (1 w1)
    show ?case
    proof (cases "n = 0")
      case True
      with 1 assms(3) tail [of w1, unfolded wp_eqs True add_0_left] show ?thesis by (simp add: resends_def wp_eqs)
    next
      case False
      with assms(3) have k: "V w1 (eventRetryKey i) = Some (RStr (itoa n))" using 1 by (simp add: resends_def)
      have get: "wp (Get R (eventRetryKey i)) (\<lambda>x w2. x = itoa n \<and> V w2 = V w) (\<lambda>_ _. False) w1"
        by (rule up_Get [OF k]) (simp add: 1)
      show ?thesis
        using False assms(3) by (simp add: resends_def wp_eqs, intro wp_mono [OF get]) (simp_all add: read tail [unfolded wp_eqs])
    qed
  qed
qed

lemma up_resends:
  assumes "publishes view eb" and "eb_rdb eb = R" and "resends (V w) i n" and "0 \<le> n"
    and "n + int m \<le> uint (ev_Retries event)" and "uint (ev_Retries event) < 2 ^ 63 - 1"
  shows "wp (forE (\<lambda>_. resendEvent eb ch i event) [0..<m]) (\<lambda>_ w'. resends (V w') i (n + int m)) (\<lambda>_ _. False) w"
  using assms(3,5)
proof (induction m)
  case 0
  then show ?case by (simp add: wp_eqs)
next
  case (Suc m)
  show ?case
    unfolding upt_Suc_append [OF le0] wp_forE_snoc
  proof (rule wp_mono [OF Suc.IH], goal_cases)
    case (3 _ w1)
    show ?case
      by (rule up_resendEvent [OF assms(1,2) 3]) (use Suc.prems assms(4,6) in \<open>auto simp: ac_simps\<close>)
  qed (use Suc.prems in auto)
qed

end

section \<open>Properties\<close>

text \<open>
  C35. Sending an event on a bus whose server answers stores it, and the event can be claimed under the id that is
  returned. As long as it is stored, sending the same event again fails: a request to stop a container that
  is repeated within the lifetime of the event is an error.
\<close>

theorem sent_event_is_claimed_once_stored:
  assumes "redis_up R view" and "publishes view eb" and "eb_rdb eb = R" and "eb_serialize eb event = Inr s"
    and "eb_deserialize eb s = Inr event" and "view (rdb w) (eventKey (eb_hash eb s)) = None"
    and "view (rdb w) (eventLockKey (eb_hash eb s)) = None" and "eb_hash eb s = i"
  shows "fst (bindE (Send eb event) (Claim eb) w) = Inr (Some (event, ev_LockAndDelete event)) \<and>
     fst (thenE (Send eb event) (Send eb event) w) = Inl (ErrNew (''event already exists: '' @ eventKey i))"
proof
  note R = assms(1) and k = assms(6,7) [unfolded assms(8)]
  show "fst (bindE (Send eb event) (Claim eb) w) = Inr (Some (event, ev_LockAndDelete event))"
    by (rule wp_fst)
       (auto simp: wp_eqs assms k intro!: redis_up.up_Send [OF R assms(2,3,4)] redis_up.up_Claim [OF R assms(3) _ assms(5)])
  show "fst (thenE (Send eb event) (Send eb event) w) = Inl (ErrNew (''event already exists: '' @ eventKey i))"
    by (rule wp_fst, unfold wp_eqs, rule redis_up.up_Send [OF R assms(2,3,4,6)], rule redis_up.Send_twice [OF R assms(3,4)])
       (simp_all add: assms(8))
qed



section \<open>A worked example\<close>

definition ex_bus :: "(mem, string) EventBus" where
  "ex_bus = \<lparr>eb_rdb = mem_client, eb_publish = (\<lambda>_ _. returnE ()), eb_serialize = (\<lambda>e. Inr (ev_Args e)),
     eb_deserialize = (\<lambda>s. Inr \<lparr>ev_Type = EventTypeStopContainer, ev_Args = s, ev_LockAndDelete = True, ev_Retries = 2\<rparr>),
     eb_hash = (\<lambda>s. s), eb_EventCallbacks = Map.empty\<rparr>"

definition ex_event :: "string Event" where
  "ex_event = \<lparr>ev_Type = EventTypeStopContainer, ev_Args = ''c1'', ev_LockAndDelete = True, ev_Retries = 2\<rparr>"

lemma ex_bus_sel [simp]: "eb_rdb ex_bus = mem_client" "eb_serialize ex_bus ex_event = Inr ''c1''"
  "eb_deserialize ex_bus ''c1'' = Inr ex_event" "eb_hash ex_bus s = s" "publishes mem_view ex_bus"
  "ev_LockAndDelete ex_event" "ev_Retries ex_event = 2"
  by (simp_all add: ex_bus_def ex_event_def publishes_def wp_eqs)

theorem sent_event_is_claimed_once_stored_witness:
  "fst (bindE (Send ex_bus ex_event) (Claim ex_bus) \<lparr>rdb = Map.empty, locks = Map.empty\<rparr>) = Inr (Some (ex_event, True)) \<and>
   fst (thenE (Send ex_bus ex_event) (Send ex_bus ex_event) \<lparr>rdb = Map.empty, locks = Map.empty\<rparr>) =
     Inl (ErrNew ''event already exists: event:c1'')"
  using sent_event_is_claimed_once_stored [where w = "\<lparr>rdb = Map.empty, locks = Map.empty\<rparr>" and eb = ex_bus and event = ex_event and s = "''c1''",
      OF mem.redis_up_axioms]
  by (simp add: mem_view_def eventKey_def eventPrefix_def)



end
