(* ===== verification/Backlog.thy ===== *)
theory Backlog
  imports Worker_Repo
begin

text \<open>
  The backlog of container requests (\<open>pkg/scheduler/backlog.go\<close>): a sorted set of serialized requests whose
  score is the time of the request. The mutex of the backlog makes its operations atomic in one process. A score
  is a \<open>float64\<close>, which holds the nanoseconds since the epoch rounded to 53 significant bits.
\<close>

section \<open>\<open>float64\<close> of an integer\<close>

text \<open>The distance of the floating-point numbers around \<open>n\<close>, at least 1.\<close>

fun f64_ulp :: "nat \<Rightarrow> nat" where
  "f64_ulp n = (if n < 2 ^ 53 then 1 else 2 * f64_ulp (n div 2))"

declare f64_ulp.simps [simp del]

text \<open>Rounding to the nearest multiple of it, to the even one in the middle.\<close>

definition f64 :: "int \<Rightarrow> int" where
  "f64 n =
     (let u = int (f64_ulp (nat \<bar>n\<bar>)); q = n div u; r = n mod u
      in if 2 * r < u \<or> 2 * r = u \<and> even q then q * u else (q + 1) * u)"

section \<open>Operations\<close>

definition Push :: "'s redis_client \<Rightarrow> json_codec \<Rightarrow> ContainerRequest \<Rightarrow> ('s world, unit) io" where
  "Push R J request =
     bindE (liftSum (marshal J request)) (\<lambda>jsonData.
       let timestamp = f64 (i64 (r_Timestamp request))
       in ZAdd R SchedulerContainerRequests timestamp jsonData)"

definition errBacklogEmpty :: goerror where
  "errBacklogEmpty = ErrNew ''backlog empty''"

definition Pop :: "'s redis_client \<Rightarrow> json_codec \<Rightarrow> ('s world, ContainerRequest) io" where
  "Pop R J =
     bindE (ZPopMin R SchedulerContainerRequests) (\<lambda>result.
       case result of
         [] \<Rightarrow> throwE errBacklogEmpty
       | (member, _) # _ \<Rightarrow> liftSum (unmarshal J member))"

definition Len :: "'s redis_client \<Rightarrow> ('s world, nat) io" where
  "Len R = bindE (attempt (ZCard R SchedulerContainerRequests)) (\<lambda>r. returnE (case r of Inl _ \<Rightarrow> 0 | Inr n \<Rightarrow> n))"

section \<open>Lemmas\<close>

lemma f64_ulp_pos: "0 < f64_ulp n"
proof (induction n rule: f64_ulp.induct)
  case (1 n)
  then show ?case by (subst f64_ulp.simps) simp
qed

lemma f64_ulp_bound: "n < 2 ^ (53 + k) \<Longrightarrow> f64_ulp n \<le> 2 ^ k"
proof (induction k arbitrary: n)
  case 0
  then show ?case by (simp add: f64_ulp.simps)
next
  case (Suc k)
  have "n < 2 * 2 ^ (53 + k)" using Suc.prems by (simp only: add_Suc_right power_Suc)
  then have "n div 2 < 2 ^ (53 + k)" by (simp only: less_mult_imp_div_less mult.commute)
  from Suc.IH [OF this] show ?case by (subst f64_ulp.simps) simp
qed

lemma f64_near: "2 * \<bar>f64 n - n\<bar> \<le> int (f64_ulp (nat \<bar>n\<bar>))"
proof -
  define u where "u = int (f64_ulp (nat \<bar>n\<bar>))"
  define q r where "q = n div u" and "r = n mod u"
  have u: "0 < u" using f64_ulp_pos [of "nat \<bar>n\<bar>"] by (simp add: u_def)
  have n: "n = q * u + r" and r: "0 \<le> r" "r < u" using u by (simp_all add: q_def r_def)
  have "f64 n = (if 2 * r < u \<or> 2 * r = u \<and> even q then q * u else (q + 1) * u)"
    by (simp add: f64_def Let_def u_def q_def r_def)
  then show ?thesis unfolding u_def [symmetric] using n r by (auto simp: algebra_simps)
qed

lemma f64_nanoseconds:
  assumes "0 \<le> n" and "n < 2 ^ 61"
  shows "\<bar>f64 n - n\<bar> \<le> 128"
proof -
  have "nat \<bar>n\<bar> < 2 ^ (53 + 8)" using assms by (simp add: nat_less_iff)
  from f64_ulp_bound [OF this] have "int (f64_ulp (nat \<bar>n\<bar>)) \<le> 256" by simp
  from order_trans [OF f64_near this] show ?thesis by simp
qed

text \<open>The requests in the backlog: what its members decode to.\<close>

definition waiting :: "json_codec \<Rightarrow> keyspace \<Rightarrow> ContainerRequest set" where
  "waiting J v = {r. \<exists>m \<in> dom (zsetOf (v SchedulerContainerRequests)). unmarshal J m = Inr r}"

text \<open>Every member is the serialized form of a request, with the score of its time.\<close>

definition wf_backlog :: "json_codec \<Rightarrow> keyspace \<Rightarrow> bool" where
  "wf_backlog J v \<longleftrightarrow> isZSet (v SchedulerContainerRequests) \<and>
     (\<forall>m sc. zsetOf (v SchedulerContainerRequests) m = Some sc \<longrightarrow>
        (\<exists>r. unmarshal J m = Inr r \<and> marshal J r = Inr m \<and> sc = f64 (i64 (r_Timestamp r))))"

lemma waiting_cong:
  assumes "v' SchedulerContainerRequests = v SchedulerContainerRequests"
  shows "waiting J v' = waiting J v" and "wf_backlog J v' = wf_backlog J v"
  by (simp_all add: waiting_def wf_backlog_def assms)

context redis_up
begin

lemma up_Push:
  assumes "wf_backlog J (V w)" and "json_ok J r"
    and "\<And>w'. wf_backlog J (V w') \<Longrightarrow> waiting J (V w') = insert r (waiting J (V w)) \<Longrightarrow>
           agree_off {SchedulerContainerRequests} (V w) (V w') \<Longrightarrow> locks w' = locks w \<Longrightarrow> Q () w'"
  shows "wp (Push R J r) Q E w"
proof -
  obtain m where m: "marshal J r = Inr m" "unmarshal J m = Inr r" using assms(2) by (auto simp: json_ok_def)
  show ?thesis
    unfolding Push_def m(1) wp_eqs wp_liftSum sum.case Let_def
  proof (rule up_ZAdd, goal_cases)
    case 1
    then show ?case using assms(1) by (simp add: wf_backlog_def)
  next
    case (2 w')
    show ?case
    proof (rule assms(3))
      show "wf_backlog J (V w')"
        using assms(1) m 2(1) by (auto simp: wf_backlog_def)
      show "waiting J (V w') = insert r (waiting J (V w))"
        using m 2(1) by (auto simp: waiting_def)
    qed (simp_all add: 2)
  qed
qed

lemma up_Pop:
  assumes "wf_backlog J (V w)"
    and "\<And>w'. waiting J (V w) = {} \<Longrightarrow> V w' = V w \<Longrightarrow> locks w' = locks w \<Longrightarrow> E errBacklogEmpty w'"
    and "\<And>r w'. r \<in> waiting J (V w) \<Longrightarrow> \<forall>r' \<in> waiting J (V w). f64 (i64 (r_Timestamp r)) \<le> f64 (i64 (r_Timestamp r')) \<Longrightarrow>
           wf_backlog J (V w') \<Longrightarrow> waiting J (V w') = waiting J (V w) - {r} \<Longrightarrow>
           agree_off {SchedulerContainerRequests} (V w) (V w') \<Longrightarrow> locks w' = locks w \<Longrightarrow> Q r w'"
  shows "wp (Pop R J) Q E w"
  unfolding Pop_def wp_eqs
proof (rule up_ZPopMin, goal_cases)
  case 1
  then show ?case using assms(1) by (simp add: wf_backlog_def)
next
  case (2 w')
  then have "waiting J (V w) = {}" by (simp add: waiting_def)
  with 2 show ?case by (simp add: wp_eqs assms(2))
next
  case (3 p w')
  obtain m sc where p: "p = (m, sc)" by force
  let ?z = "zsetOf (V w SchedulerContainerRequests)"
  have z: "?z m = Some sc" and le: "\<And>m' sc'. ?z m' = Some sc' \<Longrightarrow> sc \<le> sc'" using 3(1) by (auto simp: zmin_def p)
  have wf: "\<And>m' sc'. ?z m' = Some sc' \<Longrightarrow> \<exists>r. unmarshal J m' = Inr r \<and> marshal J r = Inr m' \<and> sc' = f64 (i64 (r_Timestamp r))"
    using assms(1) by (simp add: wf_backlog_def)
  obtain r where r: "unmarshal J m = Inr r" "marshal J r = Inr m" "sc = f64 (i64 (r_Timestamp r))" using wf [OF z] by blast
  have other: "r \<noteq> r'" if "?z m' = Some sc'" "m' \<noteq> m" "unmarshal J m' = Inr r'" for m' sc' r'
    using wf [OF that(1)] that(2,3) r(2) by auto
  have "Q r w'"
  proof (rule assms(3))
    show "r \<in> waiting J (V w)" using z r(1) by (auto simp: waiting_def)
    show "\<forall>r' \<in> waiting J (V w). f64 (i64 (r_Timestamp r)) \<le> f64 (i64 (r_Timestamp r'))"
      using le wf r(3) by (fastforce simp: waiting_def)
    show "wf_backlog J (V w')" using assms(1) 3(2) by (simp add: wf_backlog_def p)
    show "waiting J (V w') = waiting J (V w) - {r}"
      using 3(2) z r(1) other by (auto simp: waiting_def p split: if_splits)
  qed (simp_all add: 3)
  then show ?case by (simp add: p r(1) wp_liftSum)
qed

lemma wp_Len:
  assumes "wf_backlog J (V w)" and "\<And>n w'. V w' = V w \<Longrightarrow> locks w' = locks w \<Longrightarrow> Q n w'"
  shows "wp (Len R) Q E w"
  unfolding Len_def wp_eqs by (rule wp_ZCard) (simp_all add: wp_eqs assms(2))

end

section \<open>Properties\<close>

text \<open>
  C26. The backlog serves the oldest request first, up to the precision of its scores: from a well-formed backlog that is
  not empty \<open>Pop\<close> takes exactly one waiting request out, and no request that stays is older by more than 256
  nanoseconds, for times between 1970 and 2043.
\<close>

theorem backlog_oldest_first:
  assumes "redis_up R view" and "wf_backlog J (view (rdb w))" and "waiting J (view (rdb w)) \<noteq> {}"
    and "\<forall>r \<in> waiting J (view (rdb w)). 0 \<le> r_Timestamp r \<and> r_Timestamp r < 2 ^ 61"
  shows "\<exists>r w'. Pop R J w = (Inr r, w') \<and> r \<in> waiting J (view (rdb w)) \<and>
     waiting J (view (rdb w')) = waiting J (view (rdb w)) - {r} \<and>
     (\<forall>r' \<in> waiting J (view (rdb w')). r_Timestamp r \<le> r_Timestamp r' + 256)"
proof -
  let ?W = "waiting J (view (rdb w))"
  have near: "\<bar>f64 (i64 (r_Timestamp r)) - r_Timestamp r\<bar> \<le> 128" if "r \<in> ?W" for r
  proof -
    have "0 \<le> r_Timestamp r" "r_Timestamp r < 2 ^ 61" using assms(4) that by auto
    then show ?thesis using f64_nanoseconds [of "r_Timestamp r"] by (simp add: i64_id in_i64_def)
  qed
  have "wp (Pop R J) (\<lambda>r w'. r \<in> ?W \<and> waiting J (view (rdb w')) = ?W - {r} \<and>
      (\<forall>r' \<in> ?W. f64 (i64 (r_Timestamp r)) \<le> f64 (i64 (r_Timestamp r')))) (\<lambda>_ _. False) w"
    by (rule redis_up.up_Pop [OF assms(1,2)]) (use assms(3) in auto)
  from wp_success [OF this] obtain r w' where run: "Pop R J w = (Inr r, w')" and r: "r \<in> ?W"
    and rest: "waiting J (view (rdb w')) = ?W - {r}" and le: "\<forall>r' \<in> ?W. f64 (i64 (r_Timestamp r)) \<le> f64 (i64 (r_Timestamp r'))"
    by (elim exE conjE)
  have "r_Timestamp r \<le> r_Timestamp r' + 256" if "r' \<in> ?W" for r'
    using near [OF r] near [OF that] bspec [OF le that] by linarith
  with run r rest show ?thesis by (intro exI [of _ r] exI [of _ w']) simp
qed

section \<open>A worked example\<close>

definition ex_at :: "int \<Rightarrow> ContainerRequest" where
  "ex_at t = zero_ContainerRequest\<lparr>r_Timestamp := t\<rparr>"

definition ex_time_json :: json_codec where
  "ex_time_json = \<lparr>marshal = (\<lambda>r. Inr (itoa (r_Timestamp r))),
     unmarshal = (\<lambda>s. case ParseInt s 64 of None \<Rightarrow> Inl (ErrNew ''syntax'') | Some t \<Rightarrow> Inr (ex_at t))\<rparr>"

definition ex_backlog :: "mem world" where
  "ex_backlog = \<lparr>rdb = [SchedulerContainerRequests \<mapsto> MZSet [(''9'', 9), (''5'', 5)]], locks = Map.empty\<rparr>"

lemma ex_at_Timestamp [simp]: "r_Timestamp (ex_at t) = t"
  by (simp add: ex_at_def)

lemma ex_backlog_view:
  "zsetOf (mem_view (rdb ex_backlog) SchedulerContainerRequests) = [''9'' \<mapsto> 9, ''5'' \<mapsto> 5]"
  "isZSet (mem_view (rdb ex_backlog) SchedulerContainerRequests)"
  by (simp_all add: ex_backlog_def mem_view_def fun_eq_iff)

lemma ex_backlog_members: "unmarshal ex_time_json ''9'' = Inr (ex_at 9)" "unmarshal ex_time_json ''5'' = Inr (ex_at 5)"
  "marshal ex_time_json (ex_at 9) = Inr ''9''" "marshal ex_time_json (ex_at 5) = Inr ''5''" "f64 9 = 9" "f64 5 = 5"
proof -
  have i: "itoa 9 = ''9''" "itoa 5 = ''5''" by (simp_all add: itoa_def utoa.simps digit_def)
  have "ParseInt ''9'' 64 = Some 9" "ParseInt ''5'' 64 = Some 5"
    using ParseInt_itoa_64 [of 9] ParseInt_itoa_64 [of 5] by (simp_all add: i in_i64_def)
  with i show "unmarshal ex_time_json ''9'' = Inr (ex_at 9)" "unmarshal ex_time_json ''5'' = Inr (ex_at 5)"
    "marshal ex_time_json (ex_at 9) = Inr ''9''" "marshal ex_time_json (ex_at 5) = Inr ''5''"
    by (simp_all add: ex_time_json_def ex_at_def)
qed (simp_all add: f64_def Let_def f64_ulp.simps)

lemma ex_backlog_waiting: "waiting ex_time_json (mem_view (rdb ex_backlog)) = {ex_at 9, ex_at 5}"
  by (auto simp: waiting_def ex_backlog_view ex_backlog_members)

theorem backlog_oldest_first_witness:
  "\<exists>r w'. Pop mem_client ex_time_json ex_backlog = (Inr r, w') \<and> r \<in> {ex_at 9, ex_at 5} \<and>
     waiting ex_time_json (mem_view (rdb w')) = {ex_at 9, ex_at 5} - {r}"
proof -
  have "wf_backlog ex_time_json (mem_view (rdb ex_backlog))"
    by (auto simp: wf_backlog_def ex_backlog_view ex_backlog_members i64_id in_i64_def)
  from backlog_oldest_first [where w = ex_backlog, OF mem.redis_up_axioms this] show ?thesis
    unfolding ex_backlog_waiting by simp blast
qed

end
