(* ===== verification/Redis_Frames.thy ===== *)
theory Redis_Frames
  imports Container_Repo State_Repos Worker_Select
begin

text \<open>
  Frames: which keys an operation leaves as they are. \<open>keeps view k m\<close> says that the program \<open>m\<close>, whether it
  succeeds or fails and wherever it starts, does not change what is stored under the key \<open>k\<close>. The rules compose
  along the programs; the rules of the commands need only that the key of the command is another one.
\<close>

named_theorems keeps_intros \<open>rules for what a program leaves unchanged\<close>

definition keeps :: "('s \<Rightarrow> keyspace) \<Rightarrow> string \<Rightarrow> ('s world, 'a) io \<Rightarrow> bool" where
  "keeps view k m \<longleftrightarrow> (\<forall>w. view (rdb (snd (m w))) k = view (rdb w) k)"

lemma wp_snd: "wp m (\<lambda>_. P) (\<lambda>_. P) w = P (snd (m w))"
  by (cases "m w"; cases "fst (m w)") (simp_all add: wp_def)

lemma keeps_wp:
  "keeps view k m \<longleftrightarrow> (\<forall>w. wp m (\<lambda>_ w'. view (rdb w') k = view (rdb w) k) (\<lambda>_ w'. view (rdb w') k = view (rdb w) k) w)"
  by (simp add: keeps_def wp_snd)

lemma keepsD: "keeps view k m \<Longrightarrow> m w = (r, w') \<Longrightarrow> view (rdb w') k = view (rdb w) k"
  unfolding keeps_def by (metis snd_conv)

section \<open>Control\<close>

lemma keeps_returnE [keeps_intros]: "keeps view k (returnE a)"
  by (simp add: keeps_def returnE_def)

lemma keeps_throwE [keeps_intros]: "keeps view k (throwE e)"
  by (simp add: keeps_def throwE_def)

lemma keeps_bindE [keeps_intros]:
  assumes "keeps view k m" and "\<And>a. keeps view k (f a)"
  shows "keeps view k (bindE m f)"
  unfolding keeps_def
proof
  fix w
  obtain r w1 where m: "m w = (r, w1)" by force
  show "view (rdb (snd (bindE m f w))) k = view (rdb w) k"
    using keepsD [OF assms(1) m] assms(2) by (cases r) (simp_all add: bindE_def m keeps_def)
qed

lemma keeps_thenE [keeps_intros]: "keeps view k m \<Longrightarrow> keeps view k n \<Longrightarrow> keeps view k (thenE m n)"
  unfolding thenE_def by (intro keeps_bindE)

lemma keeps_attempt [keeps_intros]: "keeps view k m \<Longrightarrow> keeps view k (attempt m)"
  by (simp add: keeps_wp wp_eqs)

lemma keeps_wrapE [keeps_intros]: "keeps view k m \<Longrightarrow> keeps view k (wrapE msg m)"
  by (simp add: keeps_wp wp_eqs)

lemma keeps_deferring [keeps_intros]: "keeps view k d \<Longrightarrow> keeps view k m \<Longrightarrow> keeps view k (deferring d m)"
  by (simp add: keeps_def deferring_def split_beta)

lemma keeps_liftSum [keeps_intros]: "keeps view k (liftSum x)"
  by (simp add: liftSum_def keeps_returnE keeps_throwE split: sum.splits)

lemma keeps_forE [keeps_intros]: "(\<And>x. x \<in> set xs \<Longrightarrow> keeps view k (f x)) \<Longrightarrow> keeps view k (forE f xs)"
  by (induction xs) (auto intro!: keeps_intros)

lemma keeps_if [keeps_intros]: "(b \<Longrightarrow> keeps view k m) \<Longrightarrow> (\<not> b \<Longrightarrow> keeps view k n) \<Longrightarrow> keeps view k (if b then m else n)"
  by simp

lemma keeps_case_sum [keeps_intros]:
  "(\<And>e. x = Inl e \<Longrightarrow> keeps view k (f e)) \<Longrightarrow> (\<And>a. x = Inr a \<Longrightarrow> keeps view k (g a)) \<Longrightarrow>
   keeps view k (case x of Inl e \<Rightarrow> f e | Inr a \<Rightarrow> g a)"
  by (cases x) simp_all

lemma keeps_case_option [keeps_intros]:
  "(x = None \<Longrightarrow> keeps view k m) \<Longrightarrow> (\<And>a. x = Some a \<Longrightarrow> keeps view k (g a)) \<Longrightarrow>
   keeps view k (case x of None \<Rightarrow> m | Some a \<Rightarrow> g a)"
  by (cases x) simp_all

lemma keeps_case_prod [keeps_intros]: "(\<And>a b. x = (a, b) \<Longrightarrow> keeps view k (f a b)) \<Longrightarrow> keeps view k (case x of (a, b) \<Rightarrow> f a b)"
  by (cases x) simp

section \<open>Commands\<close>

context redis
begin

lemma keeps_HGetAll [keeps_intros]: "keeps view k (HGetAll R j)"
  unfolding keeps_wp by (auto intro!: wp_HGetAll)

lemma keeps_SMembers [keeps_intros]: "keeps view k (SMembers R j)"
  unfolding keeps_wp by (auto intro!: wp_SMembers)

lemma keeps_Exists [keeps_intros]: "keeps view k (Exists R j)"
  unfolding keeps_wp by (auto intro!: wp_Exists)

lemma keeps_Get [keeps_intros]: "keeps view k (Get R j)"
  unfolding keeps_wp by (auto intro!: wp_Get)

lemma keeps_ZCard [keeps_intros]: "keeps view k (ZCard R j)"
  unfolding keeps_wp by (auto intro!: wp_ZCard)

lemma keeps_LLen [keeps_intros]: "keeps view k (LLen R j)"
  unfolding keeps_wp by (auto intro!: wp_LLen)

lemma keeps_HSet [keeps_intros]: "j \<noteq> k \<Longrightarrow> keeps view k (HSet R j fvs)"
  unfolding keeps_wp by (auto simp: agree_off_def intro!: wp_HSet)

lemma keeps_SAdd [keeps_intros]: "j \<noteq> k \<Longrightarrow> keeps view k (SAdd R j m)"
  unfolding keeps_wp by (auto simp: agree_off_def intro!: wp_SAdd)

lemma keeps_SRem [keeps_intros]: "j \<noteq> k \<Longrightarrow> keeps view k (SRem R j m)"
  unfolding keeps_wp by (auto simp: agree_off_def intro!: wp_SRem)

lemma keeps_Del [keeps_intros]: "j \<noteq> k \<Longrightarrow> keeps view k (Del R j)"
  unfolding keeps_wp by (auto simp: agree_off_def intro!: wp_Del)

lemma keeps_Expire [keeps_intros]: "j \<noteq> k \<Longrightarrow> keeps view k (Expire R j ttl)"
  unfolding keeps_wp by (auto simp: agree_off_def intro!: wp_Expire)

lemma keeps_SetKey [keeps_intros]: "j \<noteq> k \<Longrightarrow> keeps view k (SetKey R j x ttl)"
  unfolding keeps_wp by (auto simp: agree_off_def intro!: wp_SetKey)

lemma keeps_RPush [keeps_intros]: "j \<noteq> k \<Longrightarrow> keeps view k (RPush R j x)"
  unfolding keeps_wp by (auto simp: agree_off_def intro!: wp_RPush)

lemma keeps_LPop [keeps_intros]: "j \<noteq> k \<Longrightarrow> keeps view k (LPop R j)"
  unfolding keeps_wp by (auto simp: agree_off_def intro!: wp_LPop)

lemma keeps_Acquire [keeps_intros]: "j \<noteq> k \<Longrightarrow> keeps view k (Acquire R j ttl n)"
  unfolding keeps_wp by (auto simp: agree_off_def intro!: wp_Acquire)

lemma keeps_Release [keeps_intros]: "j \<noteq> k \<Longrightarrow> keeps view k (Release R j)"
  unfolding keeps_wp by (auto simp: agree_off_def intro!: wp_Release)

lemma keeps_Obtain [keeps_intros]: "j \<noteq> k \<Longrightarrow> keeps view k (onR (cObtain R j ttl n))"
  unfolding keeps_wp by (auto simp: agree_off_def intro!: wp_Obtain)

lemma keeps_ReleaseLock [keeps_intros]: "j \<noteq> k \<Longrightarrow> keeps view k (onR (cReleaseLock R j tok))"
  unfolding keeps_wp by (auto simp: agree_off_def intro!: wp_ReleaseLock)

lemma keeps_locked [keeps_intros]: "j \<noteq> k \<Longrightarrow> keeps view k m \<Longrightarrow> keeps view k (locked R j ttl n m)"
  unfolding locked_def by (intro keeps_intros)

end

section \<open>Operations that leave the backlog alone\<close>

abbreviation backlogKey :: string where
  "backlogKey \<equiv> SchedulerContainerRequests"

lemma not_backlogKey [simp]:
  "SchedulerWorkerLock i \<noteq> backlogKey" "SchedulerWorkerState i \<noteq> backlogKey" "SchedulerWorkerRequests i \<noteq> backlogKey"
  "SchedulerWorkerIndex \<noteq> backlogKey" "SchedulerContainerLock i \<noteq> backlogKey" "SchedulerContainerState i \<noteq> backlogKey"
  "SchedulerContainerAddress i \<noteq> backlogKey" "SchedulerContainerAddressMap i \<noteq> backlogKey" "SchedulerWorkerAddress i \<noteq> backlogKey"
  "SchedulerContainerRequestStatus i \<noteq> backlogKey" "SchedulerContainerIndex i \<noteq> backlogKey"
  "SchedulerContainerWorkspaceIndex i \<noteq> backlogKey" "SchedulerContainerWorkerIndex i \<noteq> backlogKey"
  "WorkspaceConcurrencyLimit i \<noteq> backlogKey" "WorkspaceConcurrencyLimitLock i \<noteq> backlogKey"
  "WorkerPoolState i \<noteq> backlogKey" "SchedulerContainerExitCode i \<noteq> backlogKey"
  by (simp_all add: key_eqs)

context redis
begin

lemma keeps_listContainerStateByIndex: "ik \<noteq> k \<Longrightarrow> keeps view k (listContainerStateByIndex R ik ks cs)"
  by (induction ks arbitrary: cs) (auto simp: Let_def intro!: keeps_intros split: bool.splits)

lemma keeps_collectWorkers: "SchedulerWorkerIndex \<noteq> k \<Longrightarrow> keeps view k (collectWorkers R cmds ws)"
proof (induction cmds arbitrary: ws)
  case (Cons c cmds)
  then show ?case by (cases c) (auto intro!: keeps_intros)
qed (simp add: keeps_returnE)

lemma keeps_pipeHGetAll: "keeps view k (pipeHGetAll R ks)"
  by (induction ks) (auto intro!: keeps_intros)

lemma keeps_getWorkerFromKey: "keeps view k (getWorkerFromKey R i)"
  unfolding getWorkerFromKey_def by (intro keeps_intros)

lemma keeps_getWorkersLocked: "(\<And>i. SchedulerWorkerLock i \<noteq> k) \<Longrightarrow> keeps view k (getWorkersLocked R ks ws)"
  by (induction ks arbitrary: ws) (auto simp: Let_def intro!: keeps_intros keeps_getWorkerFromKey)

lemma keeps_GetAllWorkers: "keeps view backlogKey (GetAllWorkers R)"
  unfolding GetAllWorkers_def getWorkers_def getWorkersFromKeys_def
  by (auto intro!: keeps_intros keeps_collectWorkers keeps_pipeHGetAll keeps_getWorkersLocked)

lemma keeps_selectWorker: "keeps view backlogKey (selectWorker R srt r)"
  unfolding selectWorker_def by (intro keeps_intros keeps_GetAllWorkers)

lemma keeps_UpdateWorkerCapacity: "keeps view backlogKey (UpdateWorkerCapacity R wk r t)"
  unfolding UpdateWorkerCapacity_def Let_def by (auto intro!: keeps_intros keeps_getWorkerFromKey)

lemma keeps_ScheduleContainerRequest: "keeps view backlogKey (ScheduleContainerRequest R J wk r)"
  unfolding ScheduleContainerRequest_def by (auto intro!: keeps_intros keeps_UpdateWorkerCapacity)

lemma keeps_GetContainerState: "keeps view backlogKey (GetContainerState R i)"
  unfolding GetContainerState_def Let_def by (auto intro!: keeps_intros)

lemma keeps_SetContainerState: "keeps view backlogKey (SetContainerState R i st)"
  unfolding SetContainerState_def Let_def by (auto intro!: keeps_intros)

lemma keeps_UpdateAssignedContainerGPU: "keeps view backlogKey (UpdateAssignedContainerGPU R i g)"
  unfolding UpdateAssignedContainerGPU_def Let_def by (auto intro!: keeps_intros)

lemma keeps_DeleteContainerState: "keeps view backlogKey (DeleteContainerState R i)"
  unfolding DeleteContainerState_def Let_def by (auto intro!: keeps_intros)

lemma keeps_SetContainerRequestStatus: "keeps view backlogKey (SetContainerRequestStatus R i st)"
  unfolding SetContainerRequestStatus_def by (auto intro!: keeps_intros)

lemma keeps_SetContainerStateWithConcurrencyLimit: "keeps view backlogKey (SetContainerStateWithConcurrencyLimit R now q r)"
  unfolding SetContainerStateWithConcurrencyLimit_def Let_def GetActiveContainersByWorkspaceId_def containersByIndex_def
  by (auto intro!: keeps_intros keeps_SetContainerState keeps_listContainerStateByIndex)

lemma keeps_ConcurrencyLimit: "keeps view backlogKey (GetConcurrencyLimitByWorkspaceId R i)"
  "keeps view backlogKey (SetConcurrencyLimitByWorkspaceId R i l)"
  unfolding GetConcurrencyLimitByWorkspaceId_def SetConcurrencyLimitByWorkspaceId_def Let_def by (auto intro!: keeps_intros)

lemma keeps_GetWorkerPoolState: "keeps view backlogKey (GetWorkerPoolState R n)"
  unfolding GetWorkerPoolState_def Let_def by (auto intro!: keeps_intros)

lemma keeps_AddWorker: "keeps view backlogKey (AddWorker R v wk)"
  unfolding AddWorker_def Let_def by (auto intro!: keeps_intros)

lemmas keeps_backlog = keeps_selectWorker keeps_ScheduleContainerRequest keeps_GetContainerState keeps_UpdateAssignedContainerGPU
  keeps_DeleteContainerState keeps_SetContainerRequestStatus keeps_SetContainerStateWithConcurrencyLimit keeps_ConcurrencyLimit
  keeps_GetWorkerPoolState keeps_AddWorker

end

end
