(* ===== verification/Scheduler.thy ===== *)
theory Scheduler
  imports Pool_Health Event_Bus Backlog Redis_Frames
begin

text \<open>
  The scheduler (\<open>pkg/scheduler/scheduler.go\<close>) and its service (\<open>pkg/scheduler/service.go\<close>): submitting and
  stopping a container, the body of the loop that takes requests from the backlog, and the goroutines it starts.
  A goroutine is a value of type \<open>task\<close>, which the operation that starts it returns and \<open>runTask\<close> runs; a pointer
  to a request that a call changes is returned by the call. What the loop logs about the fate of a request is its
  \<open>outcome\<close>. The backend database and the registry clients are parameters; usage metrics are left out.
\<close>

section \<open>Types\<close>

text \<open>The tables of the backend database that the scheduler reads.\<close>

record 's backend =
  bk_GetLatestCheckpointByStubId :: "string \<Rightarrow> ('s world, string option) io"
  bk_GetConcurrencyLimitByWorkspaceId :: "string \<Rightarrow> ('s world, ConcurrencyLimit) io"
  bk_GetImageCredentialSecret :: "string \<Rightarrow> ('s world, string) io"
  bk_GetSecretByNameDecrypted :: "workspace \<Rightarrow> string \<Rightarrow> ('s world, string) io"

record image_service =
  im_BuildRegistry :: string
  im_BuildRepositoryName :: string
  im_CredentialsType :: string
  im_Credentials :: "(string \<times> string) list"

datatype json_value = JString string | JBool bool

type_synonym json_map = "(string \<times> json_value) list"

record StopContainerArgs =
  sa_ContainerId :: string
  sa_Force :: bool
  sa_Reason :: string

definition StopContainerArgs_ToMap :: "StopContainerArgs \<Rightarrow> json_map" where
  "StopContainerArgs_ToMap a =
     [(''container_id'', JString (sa_ContainerId a)), (''force'', JBool (sa_Force a)), (''reason'', JString (sa_Reason a))]"

record 's Scheduler =
  sd_rdb :: "'s redis_client"
  sd_json :: json_codec
  sd_backend :: "'s backend"
  sd_workerPoolManager :: "'s WorkerPoolManager"
  sd_ImageService :: image_service
  sd_GetRegistryTokenForImage :: "string \<Rightarrow> (string \<times> string) list \<Rightarrow> ('s world, string) io"
  sd_eventBus :: "('s, json_map) EventBus"
  sd_sortWorkers :: "(worker \<times> int \<Rightarrow> worker \<times> int \<Rightarrow> bool) \<Rightarrow> (worker \<times> int) list \<Rightarrow> (worker \<times> int) list"
  sd_sortPools :: "'s WorkerPool sorter"

datatype 's task =
    RetryTask ContainerRequest
  | PushTask int ContainerRequest
  | AddWorkerTask "'s controller list" ContainerRequest

datatype outcome = Scheduled string string | NoController string | GivenUp string

section \<open>Credentials\<close>

definition BuildContainerPrefix :: string where
  "BuildContainerPrefix = ''build-''"

definition attachImageCredentials :: "'s Scheduler \<Rightarrow> ContainerRequest \<Rightarrow> ('s world, ContainerRequest) io" where
  "attachImageCredentials s request =
     (if r_ImageId request = [] then returnE request
      else if HasPrefix (r_ContainerId request) BuildContainerPrefix then returnE request
      else bindE (bk_GetImageCredentialSecret (sd_backend s) (r_ImageId request)) (\<lambda>secretName.
        if secretName = [] then returnE request
        else bindE (bk_GetSecretByNameDecrypted (sd_backend s) (r_Workspace request) secretName) (\<lambda>secret.
          returnE (request\<lparr>r_ImageCredentials := secret\<rparr>))))"

definition attachBuildRegistryCredentials :: "'s Scheduler \<Rightarrow> ContainerRequest \<Rightarrow> ('s world, ContainerRequest) io" where
  "attachBuildRegistryCredentials s request =
     (let buildRegistry = im_BuildRegistry (sd_ImageService s)
      in if buildRegistry = [] \<or> buildRegistry = ''localhost'' \<or> HasPrefix buildRegistry ''127.0.0.1'' then returnE request
         else if im_CredentialsType (sd_ImageService s) = [] \<or> length (im_Credentials (sd_ImageService s)) = 0 then returnE request
         else let dummyImageRef = buildRegistry @ ''/'' @ im_BuildRepositoryName (sd_ImageService s) @ '':dummy''
         in bindE (tryE (sd_GetRegistryTokenForImage s dummyImageRef (im_Credentials (sd_ImageService s)))) (\<lambda>r.
            case r of
              Inl _ \<Rightarrow> returnE request
            | Inr token \<Rightarrow> if token = [] then returnE request else returnE (request\<lparr>r_BuildRegistryCredentials := token\<rparr>)))"

section \<open>The backlog of the scheduler\<close>

definition maxScheduleRetryCount :: int where
  "maxScheduleRetryCount = 3"

definition maxScheduleRetryDuration :: int where
  "maxScheduleRetryDuration = 10 * 60 * second"

text \<open>The conversion of a power of two that is out of range gives the least integer on the usual machines.\<close>

definition calculateBackoffDelay :: "int \<Rightarrow> int" where
  "calculateBackoffDelay retryCount =
     (if retryCount = 0 then 0
      else let baseDelay = 1 * second;
               maxDelay = 30 * second;
               pow = (if retryCount < 0 then 0 else if retryCount < 63 then 2 ^ nat retryCount else - (2 ^ 63));
               delay = i64 (pow * baseDelay)
           in if delay > maxDelay then maxDelay else delay)"

definition withGpuCount :: "ContainerRequest \<Rightarrow> ContainerRequest" where
  "withGpuCount request = (if RequiresGPU request \<and> r_GpuCount request \<le> 0 then request\<lparr>r_GpuCount := 1\<rparr> else request)"

definition nextRetry :: "ContainerRequest \<Rightarrow> ContainerRequest" where
  "nextRetry request = request\<lparr>r_RetryCount := i64 (r_RetryCount request + 1)\<rparr>"

definition addRequestToBacklog :: "'s Scheduler \<Rightarrow> ContainerRequest \<Rightarrow> ('s world, 's task list) io" where
  "addRequestToBacklog s request =
     (let request' = withGpuCount request
      in if r_RetryCount request' = 0
         then thenE (Push (sd_rdb s) (sd_json s) (nextRetry request')) (returnE [])
         else returnE [RetryTask request'])"

section \<open>Submitting and stopping\<close>

definition getConcurrencyLimit :: "'s Scheduler \<Rightarrow> ContainerRequest \<Rightarrow> ('s world, ConcurrencyLimit option) io" where
  "getConcurrencyLimit s request =
     bindE (GetConcurrencyLimitByWorkspaceId (sd_rdb s) (r_WorkspaceId request)) (\<lambda>quota.
       case quota of
         Some q \<Rightarrow> returnE (Some q)
       | None \<Rightarrow>
           bindE (tryE (bk_GetConcurrencyLimitByWorkspaceId (sd_backend s) (r_WorkspaceId request))) (\<lambda>r.
             case r of
               Inl e \<Rightarrow> if e = SqlErrNoRows then returnE None else throwE e
             | Inr q \<Rightarrow> thenE (SetConcurrencyLimitByWorkspaceId (sd_rdb s) (r_WorkspaceId request) q) (returnE (Some q))))"

definition errAlreadyScheduled :: goerror where
  "errAlreadyScheduled = ContainerAlreadyScheduledError ''a container with this id is already running or pending''"

definition withCheckpoint :: "'s Scheduler \<Rightarrow> ContainerRequest \<Rightarrow> ('s world, ContainerRequest) io" where
  "withCheckpoint s request =
     (if r_CheckpointEnabled request \<and> r_Checkpoint request = None
      then bindE (tryE (bk_GetLatestCheckpointByStubId (sd_backend s) (r_StubId request))) (\<lambda>r.
        case r of
          Inr (Some checkpoint) \<Rightarrow> returnE (request\<lparr>r_Checkpoint := Some checkpoint\<rparr>)
        | _ \<Rightarrow> returnE request)
      else returnE request)"

definition Run :: "'s Scheduler \<Rightarrow> int \<Rightarrow> ContainerRequest \<Rightarrow> ('s world, 's task list) io" where
  "Run s now request0 =
     (let request = request0\<lparr>r_Timestamp := now\<rparr>
      in bindE (tryE (GetContainerState (sd_rdb s) (r_ContainerId request))) (\<lambda>st.
         if (case st of Inr containerState \<Rightarrow> cs_Status containerState \<in> {ContainerStatusPending, ContainerStatusRunning} | Inl _ \<Rightarrow> False)
         then throwE errAlreadyScheduled
         else bindE (withCheckpoint s request) (\<lambda>request.
              bindE (getConcurrencyLimit s request) (\<lambda>quota.
              thenE (SetContainerStateWithConcurrencyLimit (sd_rdb s) (now div second) quota request)
                    (addRequestToBacklog s request)))))"

definition Stop :: "'s Scheduler \<Rightarrow> int \<Rightarrow> StopContainerArgs \<Rightarrow> ('s world, unit) io" where
  "Stop s now stopArgs =
     thenE (UpdateContainerStatus (sd_rdb s) now (sa_ContainerId stopArgs) ContainerStatusStopping ContainerStateTtlSWhilePending)
       (thenE (Send (sd_eventBus s)
                 \<lparr>ev_Type = EventTypeStopContainer, ev_Args = StopContainerArgs_ToMap stopArgs, ev_LockAndDelete = False, ev_Retries = 0\<rparr>)
              (returnE ()))"

section \<open>The loop\<close>

text \<open>The request is returned as the call leaves it, with the error.\<close>

definition scheduleRequest :: "'s Scheduler \<Rightarrow> worker \<Rightarrow> ContainerRequest \<Rightarrow> ('s world, ContainerRequest \<times> goerror option) io" where
  "scheduleRequest s worker request =
     bindE (tryE (UpdateAssignedContainerGPU (sd_rdb s) (r_ContainerId request) (w_Gpu worker))) (\<lambda>u.
       case u of
         Inl e \<Rightarrow> returnE (request, Some e)
       | Inr _ \<Rightarrow>
           let request1 = request\<lparr>r_Gpu := w_Gpu worker\<rparr>
           in bindE (tryE (attachImageCredentials s request1)) (\<lambda>a.
              let request2 = (case a of Inl _ \<Rightarrow> request1 | Inr x \<Rightarrow> x)
              in bindE (tryE (attachBuildRegistryCredentials s request2)) (\<lambda>b.
                 let request3 = (case b of Inl _ \<Rightarrow> request2 | Inr x \<Rightarrow> x)
                 in bindE (tryE (ScheduleContainerRequest (sd_rdb s) (sd_json s) worker request3)) (\<lambda>r.
                      returnE (request3, case r of Inl e \<Rightarrow> Some e | Inr _ \<Rightarrow> None)))))"

text \<open>Putting a request back; the error of the backlog is ignored, and then the request is gone.\<close>

definition requeue :: "'s Scheduler \<Rightarrow> ContainerRequest \<Rightarrow> ('s world, 's task list) io" where
  "requeue s request =
     bindE (tryE (addRequestToBacklog s request)) (\<lambda>r. returnE (case r of Inl _ \<Rightarrow> [] | Inr ts \<Rightarrow> ts))"

definition scheduleOrRequeue :: "'s Scheduler \<Rightarrow> worker \<Rightarrow> ContainerRequest \<Rightarrow> ('s world, 's task list \<times> outcome list) io" where
  "scheduleOrRequeue s worker request =
     bindE (scheduleRequest s worker request) (\<lambda>(request', err).
       case err of
         None \<Rightarrow> returnE ([], [Scheduled (r_ContainerId request') (w_Id worker)])
       | Some _ \<Rightarrow> bindE (requeue s request') (\<lambda>ts. returnE (ts, [])))"

definition processRequest :: "'s Scheduler \<Rightarrow> ('s world, 's task list \<times> outcome list) io" where
  "processRequest s =
     bindE (Len (sd_rdb s)) (\<lambda>n.
       if n = 0 then returnE ([], [])
       else bindE (tryE (Pop (sd_rdb s) (sd_json s))) (\<lambda>p.
         case p of
           Inl _ \<Rightarrow> returnE ([], [])
         | Inr request \<Rightarrow>
             bindE (tryE (selectWorker (sd_rdb s) (sd_sortWorkers s) request)) (\<lambda>sel.
               case sel of
                 Inr worker \<Rightarrow> scheduleOrRequeue s worker request
               | Inl _ \<Rightarrow>
                   bindE (tryE (getControllers (sd_sortPools s) (sd_workerPoolManager s) request)) (\<lambda>c.
                     case c of
                       Inl _ \<Rightarrow> returnE ([], [NoController (r_ContainerId request)])
                     | Inr controllers \<Rightarrow> returnE ([AddWorkerTask controllers request], [])))))"

section \<open>The goroutines\<close>

fun addWorker :: "'s Scheduler \<Rightarrow> 's controller list \<Rightarrow> ContainerRequest \<Rightarrow> ('s world, 's task list \<times> outcome list) io" where
  "addWorker s [] request = bindE (requeue s request) (\<lambda>ts. returnE (ts, []))"
| "addWorker s (c # cs) request =
     bindE (tryE (ct_AddWorker c (r_Cpu request) (r_Memory request) (r_GpuCount request))) (\<lambda>r.
       case r of
         Inl _ \<Rightarrow> addWorker s cs request
       | Inr worker \<Rightarrow> scheduleOrRequeue s worker request)"

definition retryOrGiveUp :: "'s Scheduler \<Rightarrow> int \<Rightarrow> ContainerRequest \<Rightarrow> ('s world, 's task list \<times> outcome list) io" where
  "retryOrGiveUp s now request =
     (if r_RetryCount request < maxScheduleRetryCount \<and> time_sub now (r_Timestamp request) < maxScheduleRetryDuration
      then returnE ([PushTask (calculateBackoffDelay (r_RetryCount request)) request], [])
      else thenE (tryE (DeleteContainerState (sd_rdb s) (r_ContainerId request)))
          (thenE (tryE (SetContainerRequestStatus (sd_rdb s) (r_ContainerId request) ContainerRequestStatusFailed))
                 (returnE ([], [GivenUp (r_ContainerId request)]))))"

definition pushAgain :: "'s Scheduler \<Rightarrow> ContainerRequest \<Rightarrow> ('s world, 's task list \<times> outcome list) io" where
  "pushAgain s request =
     thenE (tryE (Push (sd_rdb s) (sd_json s) (nextRetry request))) (returnE ([], []))"

definition runTask :: "'s Scheduler \<Rightarrow> int \<Rightarrow> 's task \<Rightarrow> ('s world, 's task list \<times> outcome list) io" where
  "runTask s now t =
     (case t of
        RetryTask request \<Rightarrow> retryOrGiveUp s now request
      | PushTask delay request \<Rightarrow> pushAgain s request
      | AddWorkerTask controllers request \<Rightarrow> addWorker s controllers request)"

section \<open>The service\<close>

record RunContainerRequest =
  rq_ContainerId :: string
  rq_EntryPoint :: "string list"
  rq_Env :: "string list"
  rq_Cpu :: string
  rq_Memory :: string
  rq_Gpu :: string
  rq_ImageId :: string

record RunContainerResponse =
  rs_Success :: bool
  rs_Error :: "goerror option"

definition serviceRequest :: "RunContainerRequest \<Rightarrow> int \<Rightarrow> int \<Rightarrow> ContainerRequest" where
  "serviceRequest i cpu memory =
     zero_ContainerRequest\<lparr>r_ContainerId := rq_ContainerId i, r_EntryPoint := rq_EntryPoint i, r_Env := rq_Env i,
       r_Cpu := cpu, r_Memory := memory, r_Gpu := rq_Gpu i, r_ImageId := rq_ImageId i, r_RetryCount := 0\<rparr>"

definition RunContainer :: "'s Scheduler \<Rightarrow> int \<Rightarrow> RunContainerRequest \<Rightarrow> ('s world, 's task list \<times> RunContainerResponse) io" where
  "RunContainer s now i =
     (case ParseCPU (rq_Cpu i) of
        Inl e \<Rightarrow> returnE ([], \<lparr>rs_Success = False, rs_Error = Some e\<rparr>)
      | Inr cpuRequest \<Rightarrow>
          (case ParseMemory (rq_Memory i) of
             Inl e \<Rightarrow> returnE ([], \<lparr>rs_Success = False, rs_Error = Some e\<rparr>)
           | Inr memoryRequest \<Rightarrow>
               bindE (tryE (Run s now (serviceRequest i cpuRequest memoryRequest))) (\<lambda>r.
                 case r of
                   Inl e \<Rightarrow> returnE ([], \<lparr>rs_Success = False, rs_Error = Some e\<rparr>)
                 | Inr ts \<Rightarrow> returnE (ts, \<lparr>rs_Success = True, rs_Error = None\<rparr>))))"

end
