(* ===== verification/Task_Message.thy ===== *)
theory Task_Message
  imports Go_Prelude
begin

text \<open>
  Task messages (\<open>pkg/types/task.go\<close>): the record, its policy, and \<open>Encode\<close> and \<open>Decode\<close>. The JSON library is a
  parameter at the level of a message whose arguments are JSON values. What \<open>Decode\<close> adds is modelled: a string
  argument that is valid base64 becomes a byte slice, which the JSON library writes as base64 again.
\<close>

section \<open>Base64\<close>

text \<open>\<open>base64.StdEncoding\<close>: decoding skips line breaks and does not look at the spare bits before the padding.\<close>

definition b64_alphabet :: string where
  "b64_alphabet = ''ABCDEFGHIJKLMNOPQRSTUVWXYZabcdefghijklmnopqrstuvwxyz0123456789+/''"

definition b64_char :: "nat \<Rightarrow> char" where
  "b64_char n = b64_alphabet ! n"

fun index_of :: "'a \<Rightarrow> 'a list \<Rightarrow> nat option" where
  "index_of x [] = None"
| "index_of x (y # ys) = (if x = y then Some 0 else map_option Suc (index_of x ys))"

definition b64_val :: "char \<Rightarrow> nat option" where
  "b64_val c = index_of c b64_alphabet"

definition byte :: "nat \<Rightarrow> char" where
  "byte n = char_of n"

fun EncodeToString :: "string \<Rightarrow> string" where
  "EncodeToString [] = []"
| "EncodeToString [a] =
     (let x = of_char a in [b64_char (x div 4), b64_char (x mod 4 * 16), CHR ''='', CHR ''=''])"
| "EncodeToString [a, b] =
     (let x = of_char a; y = of_char b
      in [b64_char (x div 4), b64_char (x mod 4 * 16 + y div 16), b64_char (y mod 16 * 4), CHR ''=''])"
| "EncodeToString (a # b # c # s) =
     (let x = of_char a; y = of_char b; z = of_char c
      in b64_char (x div 4) # b64_char (x mod 4 * 16 + y div 16) # b64_char (y mod 16 * 4 + z div 64) # b64_char (z mod 64) #
         EncodeToString s)"

fun decodeQuanta :: "string \<Rightarrow> string option" where
  "decodeQuanta [] = Some []"
| "decodeQuanta (a # b # c # d # s) =
     (case (b64_val a, b64_val b, b64_val c, b64_val d) of
        (Some i, Some j, Some k, Some l) \<Rightarrow>
          map_option (\<lambda>r. byte (i * 4 + j div 16) # byte (j mod 16 * 16 + k div 4) # byte (k mod 4 * 64 + l) # r) (decodeQuanta s)
      | (Some i, Some j, Some k, None) \<Rightarrow>
          if d = CHR ''='' \<and> s = [] then Some [byte (i * 4 + j div 16), byte (j mod 16 * 16 + k div 4)] else None
      | (Some i, Some j, None, None) \<Rightarrow>
          if c = CHR ''='' \<and> d = CHR ''='' \<and> s = [] then Some [byte (i * 4 + j div 16)] else None
      | _ \<Rightarrow> None)"
| "decodeQuanta _ = None"

definition DecodeString :: "string \<Rightarrow> string option" where
  "DecodeString s = decodeQuanta (filter (\<lambda>c. c \<noteq> char_of (10::nat) \<and> c \<noteq> char_of (13::nat)) s)"

section \<open>Messages\<close>

text \<open>An argument is a string, a byte slice, or another JSON value, which is kept in its JSON form.\<close>

datatype task_arg = ArgString string | ArgBytes string | ArgJson string

record TaskPolicy =
  tp_MaxRetries :: "64 word"
  tp_Timeout :: int
  tp_Expires :: int
  tp_TTL :: "32 word"

record TaskMessage =
  tm_TaskId :: string
  tm_WorkspaceName :: string
  tm_StubId :: string
  tm_Executor :: string
  tm_Args :: "task_arg list"
  tm_Kwargs :: "(string \<times> string) list"
  tm_Policy :: TaskPolicy
  tm_Retries :: "64 word"
  tm_Timestamp :: int

text \<open>The zero \<open>time.Time\<close>, the first of January of year 1, in nanoseconds.\<close>

definition zero_time :: int where
  "zero_time = - 62135596800000000000"

definition zero_TaskPolicy :: TaskPolicy where
  "zero_TaskPolicy = \<lparr>tp_MaxRetries = 0, tp_Timeout = 0, tp_Expires = zero_time, tp_TTL = 0\<rparr>"

definition zero_TaskMessage :: TaskMessage where
  "zero_TaskMessage = \<lparr>tm_TaskId = [], tm_WorkspaceName = [], tm_StubId = [], tm_Executor = [], tm_Args = [], tm_Kwargs = [],
     tm_Policy = zero_TaskPolicy, tm_Retries = 0, tm_Timestamp = 0\<rparr>"

definition DefaultTaskPolicy :: TaskPolicy where
  "DefaultTaskPolicy = zero_TaskPolicy\<lparr>tp_MaxRetries := 3, tp_Timeout := 3600\<rparr>"

text \<open>The JSON library; reading gives the message as it is left, and the error.\<close>

record task_codec =
  tc_marshal :: "TaskMessage \<Rightarrow> goerror + string"
  tc_unmarshal :: "string \<Rightarrow> TaskMessage \<times> goerror option"

definition arg_to_json :: "task_arg \<Rightarrow> task_arg" where
  "arg_to_json a = (case a of ArgBytes b \<Rightarrow> ArgString (EncodeToString b) | _ \<Rightarrow> a)"

definition arg_of_json :: "task_arg \<Rightarrow> task_arg" where
  "arg_of_json a =
     (case a of
        ArgString s \<Rightarrow> (case DecodeString s of Some b \<Rightarrow> ArgBytes b | None \<Rightarrow> a)
      | _ \<Rightarrow> a)"

definition Encode :: "task_codec \<Rightarrow> TaskMessage \<Rightarrow> goerror + string" where
  "Encode C tm = tc_marshal C (tm\<lparr>tm_Args := map arg_to_json (tm_Args tm)\<rparr>)"

definition Decode :: "task_codec \<Rightarrow> string \<Rightarrow> TaskMessage \<times> goerror option" where
  "Decode C data =
     (case tc_unmarshal C data of
        (tm, Some e) \<Rightarrow> (tm, Some e)
      | (tm, None) \<Rightarrow> (tm\<lparr>tm_Args := map arg_of_json (tm_Args tm)\<rparr>, None))"

section \<open>Lemmas\<close>

lemma b64_table: "\<forall>n \<in> set [0..<64]. b64_val (b64_char n) = Some n \<and> b64_char n \<noteq> char_of (10::nat) \<and> b64_char n \<noteq> char_of (13::nat)"
  by code_simp

lemma b64_char [simp]:
  assumes "n < 64"
  shows "b64_val (b64_char n) = Some n" "b64_char n \<noteq> char_of (10::nat)" "b64_char n \<noteq> char_of (13::nat)"
  using b64_table assms by simp_all

lemma b64_pad [simp]: "b64_val CHR ''='' = None" "CHR ''='' \<noteq> char_of (10::nat)" "CHR ''='' \<noteq> char_of (13::nat)"
  by code_simp+

lemma of_char_less [simp]: "(of_char c :: nat) < 256"
  by simp

lemma b64_digits:
  assumes "x < (256::nat)" and "y < 256" and "z < 256"
  shows "x div 4 < 64" "x mod 4 * 16 + y div 16 < 64" "y mod 16 * 4 + z div 64 < 64" "x mod 4 * 16 < 64" "y mod 16 * 4 < 64" "z mod 64 < 64"
    and "x div 4 * 4 + (x mod 4 * 16 + y div 16) div 16 = x"
    and "(x mod 4 * 16 + y div 16) mod 16 * 16 + (y mod 16 * 4 + z div 64) div 4 = y"
    and "(y mod 16 * 4 + z div 64) mod 4 * 64 + z mod 64 = z"
    and "x div 4 * 4 + x mod 4 * 16 div 16 = x" and "(x mod 4 * 16 + y div 16) mod 16 * 16 + y mod 16 * 4 div 4 = y"
proof -
  have y: "y div 16 < 16" and z: "z div 64 < 4" and x: "x div 4 < 64" using assms by (simp_all add: less_mult_imp_div_less)
  have m: "x mod 4 < 4" "y mod 16 < 16" "z mod 64 < 64" by simp_all
  show "x div 4 < 64" "z mod 64 < 64" using x m by simp_all
  show "x mod 4 * 16 + y div 16 < 64" "x mod 4 * 16 < 64" using y m(1) by linarith+
  show "y mod 16 * 4 + z div 64 < 64" "y mod 16 * 4 < 64" using z m(2) by linarith+
  have xy: "(x mod 4 * 16 + y div 16) div 16 = x mod 4" "(x mod 4 * 16 + y div 16) mod 16 = y div 16" using y by simp_all
  have yz: "(y mod 16 * 4 + z div 64) div 4 = y mod 16" "(y mod 16 * 4 + z div 64) mod 4 = z div 64" using z by simp_all
  show "x div 4 * 4 + (x mod 4 * 16 + y div 16) div 16 = x" unfolding xy by simp
  show "(x mod 4 * 16 + y div 16) mod 16 * 16 + (y mod 16 * 4 + z div 64) div 4 = y" unfolding xy yz by simp
  show "(y mod 16 * 4 + z div 64) mod 4 * 64 + z mod 64 = z" unfolding yz by simp
  show "x div 4 * 4 + x mod 4 * 16 div 16 = x" by simp
  show "(x mod 4 * 16 + y div 16) mod 16 * 16 + y mod 16 * 4 div 4 = y" unfolding xy by simp
qed

lemma byte_of_char [simp]: "byte (of_char c) = c"
  by (simp add: byte_def)

lemma decodeQuanta_Encode: "decodeQuanta (EncodeToString s) = Some s"
proof (induction s rule: EncodeToString.induct)
  case (2 a)
  show ?case using b64_digits [of "of_char a" 0 0] by (simp add: Let_def)
next
  case (3 a b)
  show ?case using b64_digits [of "of_char a" "of_char b" 0] by (simp add: Let_def)
next
  case (4 a b c s)
  show ?case using b64_digits [of "of_char a" "of_char b" "of_char c"] 4 by (simp add: Let_def)
qed simp

lemma Encode_no_breaks: "filter (\<lambda>c. c \<noteq> char_of (10::nat) \<and> c \<noteq> char_of (13::nat)) (EncodeToString s) = EncodeToString s"
proof (induction s rule: EncodeToString.induct)
  case (2 a)
  show ?case using b64_digits [of "of_char a" 0 0] by (simp add: Let_def)
next
  case (3 a b)
  show ?case using b64_digits [of "of_char a" "of_char b" 0] by (simp add: Let_def)
next
  case (4 a b c s)
  show ?case using b64_digits [of "of_char a" "of_char b" "of_char c"] 4 by (simp add: Let_def)
qed simp

lemma DecodeString_Encode [simp]: "DecodeString (EncodeToString s) = Some s"
  by (simp add: DecodeString_def Encode_no_breaks decodeQuanta_Encode)

lemma arg_stable: "arg_of_json (arg_to_json (arg_of_json a)) = arg_of_json a"
  by (cases a) (auto simp: arg_of_json_def arg_to_json_def split: option.splits)

text \<open>What is assumed of the JSON library: a message that holds JSON values is read back as it was written.\<close>

definition task_json_ok :: "task_codec \<Rightarrow> bool" where
  "task_json_ok C \<longleftrightarrow> (\<forall>m. \<exists>s. tc_marshal C m = Inr s \<and> ((\<forall>b. ArgBytes b \<notin> set (tm_Args m)) \<longrightarrow> tc_unmarshal C s = (m, None)))"

text \<open>The messages that \<open>Decode\<close> gives.\<close>

definition decoded :: "TaskMessage \<Rightarrow> bool" where
  "decoded m \<longleftrightarrow> map arg_of_json (tm_Args m) = tm_Args m"

lemma arg_to_json_no_bytes: "arg_to_json a \<noteq> ArgBytes b"
  by (cases a) (simp_all add: arg_to_json_def)

lemma arg_of_json_idem: "arg_of_json (arg_of_json a) = arg_of_json a"
  by (cases a) (auto simp: arg_of_json_def split: option.splits)

lemma Encode_ok:
  assumes "task_json_ok C"
  obtains s where "Encode C m = Inr s" "decoded m \<Longrightarrow> Decode C s = (m, None)"
proof -
  let ?m = "m\<lparr>tm_Args := map arg_to_json (tm_Args m)\<rparr>"
  have "ArgBytes b \<notin> set (tm_Args ?m)" for b using arg_to_json_no_bytes [of _ b] by (auto dest: sym)
  then obtain s where s: "tc_marshal C ?m = Inr s" "tc_unmarshal C s = (?m, None)"
    using assms unfolding task_json_ok_def by metis
  show thesis
  proof (rule that [of s])
    show "Encode C m = Inr s" using s(1) by (simp add: Encode_def)
    assume "decoded m"
    then have "arg_of_json a = a" if "a \<in> set (tm_Args m)" for a using that by (simp add: decoded_def list_eq_iff_nth_eq in_set_conv_nth) auto
    with arg_stable have "arg_of_json (arg_to_json a) = a" if "a \<in> set (tm_Args m)" for a using that by metis
    then have "map (arg_of_json \<circ> arg_to_json) (tm_Args m) = tm_Args m" by (simp add: map_idI)
    then show "Decode C s = (m, None)" by (simp add: Decode_def s(2))
  qed
qed

lemma Decode_decoded: "Decode C x = (m, None) \<Longrightarrow> decoded m"
  by (auto simp: Decode_def decoded_def o_def arg_of_json_idem split: prod.splits option.splits)

text \<open>
  Decoding is not strict about the spare bits, so a string that only looks like base64 is not what it was after it has been
  read and written once.
\<close>

lemma string_argument_rewritten: "arg_to_json (arg_of_json (ArgString ''QR=='')) = ArgString ''QQ==''"
  by code_simp

end
