(* ===== verification/Request_Codec.thy ===== *)
theory Request_Codec
  imports Worker_Repo Task_Message
begin

text \<open>
  Serializations of requests and of task messages that lose nothing. The developments about the backlog, the queues of the
  workers and the tasks assume of the JSON encoding that a value is decoded to what was encoded; these concrete encodings
  satisfy the assumption for every value, and the worked examples use them.
\<close>

section \<open>Strings and lists of strings\<close>

fun quote :: "string \<Rightarrow> string" where
  "quote [] = '';''"
| "quote (c # s) = CHR ''.'' # c # quote s"

fun unquote :: "string \<Rightarrow> string \<times> string" where
  "unquote [] = ([], [])"
| "unquote [a] = ([], [])"
| "unquote (a # c # t) = (if a = CHR ''.'' then (c # fst (unquote t), snd (unquote t)) else ([], c # t))"

lemma unquote_quote [simp]: "unquote (quote s @ t) = (s, t)"
proof (induction s)
  case Nil
  then show ?case by (cases t) simp_all
qed simp

lemma unquote_shorter: "s \<noteq> [] \<Longrightarrow> length (snd (unquote s)) < length s"
proof (induction s rule: unquote.induct)
  case (3 a c t)
  then show ?case by (cases "t = []") auto
qed simp_all

definition quotes :: "string list \<Rightarrow> string" where
  "quotes xs = concat (map quote xs)"

function unquotes :: "string \<Rightarrow> string list" where
  "unquotes s = (if s = [] then [] else fst (unquote s) # unquotes (snd (unquote s)))"
  by pat_completeness auto
termination by (relation "measure length") (simp_all add: unquote_shorter)

declare unquotes.simps [simp del]

lemma quote_not_Nil [simp]: "quote s \<noteq> []"
  by (cases s) simp_all

lemma unquotes_quotes [simp]: "unquotes (quotes xs) = xs"
  by (induction xs) (simp_all add: quotes_def unquotes.simps)

section \<open>Other values\<close>

definition unint :: "string \<Rightarrow> int" where
  "unint s = (case s of [] \<Rightarrow> 0 | c # t \<Rightarrow> if c = CHR ''-'' then - int (the (parse_digits 0 t)) else int (the (parse_digits 0 s)))"

definition unword :: "string \<Rightarrow> 'a::len word" where
  "unword s = of_nat (the (parse_digits 0 s))"

definition opt :: "string option \<Rightarrow> string" where
  "opt x = (case x of None \<Rightarrow> [] | Some s \<Rightarrow> CHR ''+'' # s)"

definition unopt :: "string \<Rightarrow> string option" where
  "unopt s = (case s of [] \<Rightarrow> None | c # t \<Rightarrow> Some t)"

lemma unint_itoa [simp]: "unint (itoa i) = i"
proof (cases "i < 0")
  case True
  then show ?thesis by (simp add: unint_def itoa_def parse_digits_utoa)
next
  case False
  obtain d where "d < 10" "hd (utoa (nat i)) = digit d" using hd_utoa by blast
  then have "hd (utoa (nat i)) \<noteq> CHR ''-''" using digit_not_sign by simp
  then show ?thesis
    using False parse_digits_utoa [of "nat i"] by (cases "utoa (nat i)") (simp_all add: unint_def itoa_def)
qed

lemma unword_utoa [simp]: "unword (utoa (unat w)) = w"
  by (simp add: unword_def parse_digits_utoa)

lemma unopt_opt [simp]: "unopt (opt x) = x"
  by (cases x) (simp_all add: opt_def unopt_def)

section \<open>Requests\<close>

definition workspace_fields :: "workspace \<Rightarrow> string list" where
  "workspace_fields w = [ws_Name w, ws_ExternalId w, btoa (ws_VolumeCacheEnabled w), opt (map_option utoa (ws_StorageId w))]"

definition build_fields :: "BuildOptions \<Rightarrow> string list" where
  "build_fields b = [opt (bo_SourceImage b), opt (bo_Dockerfile b), opt (bo_BuildCtxObject b), bo_SourceImageCreds b, quotes (bo_BuildSecrets b)]"

definition request_fields :: "ContainerRequest \<Rightarrow> string list" where
  "request_fields r =
     [r_ContainerId r, quotes (r_EntryPoint r), quotes (r_Env r), itoa (r_Cpu r), itoa (r_Memory r), r_Gpu r, quotes (r_GpuRequest r),
      utoa (unat (r_GpuCount r)), r_ImageId r, r_StubId r, r_WorkspaceId r, quotes (workspace_fields (r_Workspace r)),
      itoa (r_Timestamp r), itoa (r_RetryCount r), r_PoolSelector r, btoa (r_Preemptable r), btoa (r_CheckpointEnabled r),
      quotes (build_fields (r_BuildOptions r)), quotes (map (\<lambda>p. utoa (unat p)) (r_Ports r)), r_AppId r, opt (r_Checkpoint r),
      r_ConfigPath r, r_ImageCredentials r, r_BuildRegistryCredentials r, btoa (r_BlockNetwork r), quotes (r_AllowList r),
      btoa (r_DockerEnabled r)]"

definition workspace_of :: "string list \<Rightarrow> workspace" where
  "workspace_of f = \<lparr>ws_Name = f ! 0, ws_ExternalId = f ! 1, ws_VolumeCacheEnabled = (f ! 2 = ''true''),
     ws_StorageId = map_option (\<lambda>s. the (parse_digits 0 s)) (unopt (f ! 3))\<rparr>"

definition build_of :: "string list \<Rightarrow> BuildOptions" where
  "build_of f = \<lparr>bo_SourceImage = unopt (f ! 0), bo_Dockerfile = unopt (f ! 1), bo_BuildCtxObject = unopt (f ! 2),
     bo_SourceImageCreds = f ! 3, bo_BuildSecrets = unquotes (f ! 4)\<rparr>"

definition request_of :: "string list \<Rightarrow> ContainerRequest" where
  "request_of f =
     \<lparr>r_ContainerId = f ! 0, r_EntryPoint = unquotes (f ! 1), r_Env = unquotes (f ! 2), r_Cpu = unint (f ! 3), r_Memory = unint (f ! 4),
      r_Gpu = f ! 5, r_GpuRequest = unquotes (f ! 6), r_GpuCount = unword (f ! 7), r_ImageId = f ! 8, r_StubId = f ! 9,
      r_WorkspaceId = f ! 10, r_Workspace = workspace_of (unquotes (f ! 11)), r_Timestamp = unint (f ! 12), r_RetryCount = unint (f ! 13),
      r_PoolSelector = f ! 14, r_Preemptable = (f ! 15 = ''true''), r_CheckpointEnabled = (f ! 16 = ''true''),
      r_BuildOptions = build_of (unquotes (f ! 17)), r_Ports = map unword (unquotes (f ! 18)), r_AppId = f ! 19,
      r_Checkpoint = unopt (f ! 20), r_ConfigPath = f ! 21, r_ImageCredentials = f ! 22, r_BuildRegistryCredentials = f ! 23,
      r_BlockNetwork = (f ! 24 = ''true''), r_AllowList = unquotes (f ! 25), r_DockerEnabled = (f ! 26 = ''true'')\<rparr>"

definition plain_codec :: json_codec where
  "plain_codec = \<lparr>marshal = (\<lambda>r. Inr (quotes (request_fields r))),
     unmarshal = (\<lambda>s. if length (unquotes s) = 27 then Inr (request_of (unquotes s)) else Inl (ErrNew ''unexpected end of input''))\<rparr>"

lemma btoa_true [simp]: "btoa b = ''true'' \<longleftrightarrow> b"
  by (cases b) (simp_all add: btoa_def)

lemma workspace_of_fields [simp]: "workspace_of (workspace_fields w) = w"
  by (cases w) (simp add: workspace_of_def workspace_fields_def parse_digits_utoa option.map_comp o_def option.map_ident)

lemma build_of_fields [simp]: "build_of (build_fields b) = b"
  by (cases b) (simp add: build_of_def build_fields_def)

lemma request_of_fields: "request_of (request_fields r) = r"
  by (cases r) (simp add: request_of_def request_fields_def o_def)

lemma plain_codec_ok: "json_ok plain_codec r"
  by (simp add: json_ok_def plain_codec_def request_of_fields request_fields_def [THEN arg_cong, of length, simplified])

section \<open>Task messages\<close>

fun arg_field :: "task_arg \<Rightarrow> string" where
  "arg_field (ArgString s) = CHR ''s'' # s"
| "arg_field (ArgBytes s) = CHR ''b'' # s"
| "arg_field (ArgJson s) = CHR ''j'' # s"

fun arg_of_field :: "string \<Rightarrow> task_arg" where
  "arg_of_field [] = ArgJson []"
| "arg_of_field (c # s) = (if c = CHR ''s'' then ArgString s else if c = CHR ''b'' then ArgBytes s else ArgJson s)"

definition task_fields :: "TaskMessage \<Rightarrow> string list" where
  "task_fields m =
     [tm_TaskId m, tm_WorkspaceName m, tm_StubId m, tm_Executor m, quotes (map arg_field (tm_Args m)),
      quotes (map (\<lambda>(k, x). quotes [k, x]) (tm_Kwargs m)), utoa (unat (tp_MaxRetries (tm_Policy m))), itoa (tp_Timeout (tm_Policy m)),
      itoa (tp_Expires (tm_Policy m)), utoa (unat (tp_TTL (tm_Policy m))), utoa (unat (tm_Retries m)), itoa (tm_Timestamp m)]"

definition task_of :: "string list \<Rightarrow> TaskMessage" where
  "task_of f =
     \<lparr>tm_TaskId = f ! 0, tm_WorkspaceName = f ! 1, tm_StubId = f ! 2, tm_Executor = f ! 3, tm_Args = map arg_of_field (unquotes (f ! 4)),
      tm_Kwargs = map (\<lambda>x. (unquotes x ! 0, unquotes x ! 1)) (unquotes (f ! 5)),
      tm_Policy = \<lparr>tp_MaxRetries = unword (f ! 6), tp_Timeout = unint (f ! 7), tp_Expires = unint (f ! 8), tp_TTL = unword (f ! 9)\<rparr>,
      tm_Retries = unword (f ! 10), tm_Timestamp = unint (f ! 11)\<rparr>"

definition plain_task_codec :: task_codec where
  "plain_task_codec = \<lparr>tc_marshal = (\<lambda>m. Inr (quotes (task_fields m))), tc_unmarshal = (\<lambda>s. (task_of (unquotes s), None))\<rparr>"

lemma arg_of_field_arg_field [simp]: "arg_of_field (arg_field a) = a"
  by (cases a) simp_all

lemma task_of_fields [simp]: "task_of (task_fields m) = m"
  by (cases m; cases "tm_Policy m") (simp add: task_of_def task_fields_def o_def split_beta)

lemma plain_task_codec_ok: "task_json_ok plain_task_codec"
  by (simp add: task_json_ok_def plain_task_codec_def)

end
