(* ===== verification/Scheduler_Submit.thy ===== *)
theory Scheduler_Submit
  imports Scheduler Workspace_Quota Request_Codec
begin

text \<open>
  What a submission does: the exact outcome of \<open>Run\<close> on a server that answers, for a container that is
  already known, for a new one in a workspace without a quota, and for a new one under a cached quota.
\<close>

section \<open>Rules\<close>

lemma wp_keeps:
  assumes "keeps view k m" and "wp m (\<lambda>a w'. view (rdb w') k = view (rdb w) k \<longrightarrow> Q a w') (\<lambda>e w'. view (rdb w') k = view (rdb w) k \<longrightarrow> E e w') w"
  shows "wp m Q E w"
  using assms keepsD [OF assms(1), of w] by (cases "m w") (auto simp: wp_def split: sum.splits)

lemma withGpuCount_sel [simp]:
  "r_ContainerId (withGpuCount r) = r_ContainerId r" "r_RetryCount (withGpuCount r) = r_RetryCount r"
  "r_GpuRequest (withGpuCount r) = r_GpuRequest r"
  by (simp_all add: withGpuCount_def)

text \<open>A container that the scheduler has not heard of.\<close>

definition unknown_container :: "keyspace \<Rightarrow> string \<Rightarrow> bool" where
  "unknown_container v i \<longleftrightarrow> v (SchedulerContainerState i) = None \<and> v (SchedulerContainerLock i) = None"

text \<open>Nothing else submits for the workspace, and the indices are sets.\<close>

definition submission_pre :: "keyspace \<Rightarrow> ContainerRequest \<Rightarrow> bool" where
  "submission_pre v r \<longleftrightarrow> unknown_container v (r_ContainerId r) \<and>
     v (WorkspaceConcurrencyLimitLock (r_WorkspaceId r)) = None \<and>
     isSet (v (SchedulerContainerIndex (r_StubId r))) \<and> isSet (v (SchedulerContainerWorkspaceIndex (r_WorkspaceId r))) \<and>
     in_i64 (r_Cpu r) \<and> in_i64 (r_Memory r)"

context redis_up
begin

lemma up_addRequestToBacklog:
  assumes "sd_rdb s = R" and "wf_backlog (sd_json s) (V w)" and "json_ok (sd_json s) (nextRetry (withGpuCount r))"
    and "\<And>w'. r_RetryCount r = 0 \<Longrightarrow> wf_backlog (sd_json s) (V w') \<Longrightarrow>
           waiting (sd_json s) (V w') = insert (nextRetry (withGpuCount r)) (waiting (sd_json s) (V w)) \<Longrightarrow>
           agree_off {backlogKey} (V w) (V w') \<Longrightarrow> Q [] w'"
    and "r_RetryCount r \<noteq> 0 \<Longrightarrow> Q [RetryTask (withGpuCount r)] w"
  shows "wp (addRequestToBacklog s r) Q E w"
  unfolding addRequestToBacklog_def Let_def assms(1)
  by (auto simp: wp_eqs assms(5) intro!: up_Push [OF assms(2,3)] assms(4))

lemma up_GetContainerState_unknown:
  assumes "unknown_container (V w) i" and "\<And>w'. V w' = V w \<Longrightarrow> E (ErrContainerStateNotFound i) w'"
  shows "wp (GetContainerState R i) Q E w"
  unfolding GetContainerState_def Let_def
  by (rule up_locked) (use assms in \<open>auto simp: unknown_container_def wp_eqs fun_upd_idem map_of_eq_empty_iff key_eqs intro!: up_HGetAll\<close>)

lemma up_GetContainerState_known:
  assumes "V w (SchedulerContainerLock i) = None" and "isHash (V w (SchedulerContainerState i))"
    and "hashOf (V w (SchedulerContainerState i)) \<noteq> Map.empty" and "\<And>w'. V w' = V w \<Longrightarrow> Q (read_cstate (V w) i) w'"
  shows "wp (GetContainerState R i) Q E w"
  unfolding GetContainerState_def Let_def
  by (rule up_locked) (use assms in \<open>auto simp: wp_eqs fun_upd_idem read_cstate_def cstate_at_def key_eqs intro!: up_HGetAll\<close>)

lemma up_getConcurrencyLimit_none:
  assumes "sd_rdb s = R" and "V w (WorkspaceConcurrencyLimit (r_WorkspaceId r)) = None"
    and "bk_GetConcurrencyLimitByWorkspaceId (sd_backend s) (r_WorkspaceId r) = throwE SqlErrNoRows"
    and "\<And>w'. V w' = V w \<Longrightarrow> Q None w'"
  shows "wp (getConcurrencyLimit s r) Q E w"
  unfolding getConcurrencyLimit_def GetConcurrencyLimitByWorkspaceId_def assms(1,3)
  by (auto simp: wp_eqs assms(2) map_of_eq_empty_iff tryE_def intro!: up_HGetAll assms(4))

lemma up_getConcurrencyLimit_cached:
  assumes "sd_rdb s = R" and "isHash (V w (WorkspaceConcurrencyLimit (r_WorkspaceId r)))"
    and "hashOf (V w (WorkspaceConcurrencyLimit (r_WorkspaceId r))) \<noteq> Map.empty"
    and "\<And>w'. V w' = V w \<Longrightarrow>
           Q (Some (ConcurrencyLimit_ToStruct (hashOf (V w (WorkspaceConcurrencyLimit (r_WorkspaceId r)))) zero_ConcurrencyLimit)) w'"
  shows "wp (getConcurrencyLimit s r) Q E w"
  unfolding getConcurrencyLimit_def GetConcurrencyLimitByWorkspaceId_def assms(1)
  by (auto simp: wp_eqs assms(2) intro!: up_HGetAll) (use assms in auto)

lemma up_SetContainerState_no_quota:
  assumes "submission_pre (V w) r" and "in_i64 now"
    and "\<And>w'. read_cstate (V w') (r_ContainerId r) = pendingState now r \<Longrightarrow> V w' (SchedulerContainerState (r_ContainerId r)) \<noteq> None \<Longrightarrow>
       agree_off {SchedulerContainerState (r_ContainerId r), SchedulerContainerIndex (r_StubId r),
         SchedulerContainerWorkspaceIndex (r_WorkspaceId r), WorkspaceConcurrencyLimitLock (r_WorkspaceId r)} (V w) (V w') \<Longrightarrow> Q () w'"
  shows "wp (SetContainerStateWithConcurrencyLimit R now None r) Q E w"
  unfolding SetContainerStateWithConcurrencyLimit_def Let_def wp_bindE wp_attempt
proof (rule up_Obtain, goal_cases)
  case 1
  then show ?case using assms(1) by (simp add: submission_pre_def)
next
  case (2 tok w1)
  let ?i = "r_ContainerId r" and ?ws = "r_WorkspaceId r"
  have lock: "agree_off {WorkspaceConcurrencyLimitLock ?ws} (V w) (V w1)" using 2 by (simp add: agree_off_def)
  have "wp (SetContainerState R ?i (pendingState now r))
     (\<lambda>_. wp (onR (cReleaseLock R (WorkspaceConcurrencyLimitLock ?ws) tok)) (\<lambda>_. Q ()) (\<lambda>_. Q ())) E' w1" for E'
  proof (rule SetContainerState_up, goal_cases)
    case 1
    then show ?case using assms(1,2) by (simp add: wf_ContainerState_def pendingState_def submission_pre_def in_i64_def)
  next
    case (6 w2)
    have "V w1 (SchedulerContainerState ?i) = None"
      using lock assms(1) by (simp add: agree_off_def submission_pre_def unknown_container_def key_eqs)
    then have "read_cstate (V w2) ?i = pendingState now r"
      using 6(1) by (simp add: read_cstate_def cstate_at_def pendingState_def ContainerState_ToStruct_def zero_ContainerState_def)
    moreover have "agree_off {SchedulerContainerState ?i, SchedulerContainerIndex (r_StubId r),
         SchedulerContainerWorkspaceIndex ?ws, WorkspaceConcurrencyLimitLock ?ws} (V w) (V w2)"
      using lock 6(6) by (simp add: agree_off_def pendingState_def)
    ultimately show ?case
      using 6(2)
      by (intro wp_ReleaseLock assms(3)) (auto simp: agree_off_def read_cstate_def cstate_at_def key_eqs)
  qed (use lock assms(1) in \<open>simp_all add: agree_off_def submission_pre_def unknown_container_def pendingState_def key_eqs\<close>)
  then show ?case unfolding sum.case option.case wp_deferring wp_thenE wp_returnE by simp
qed

text \<open>The three outcomes of a submission.\<close>

lemma Run_known:
  assumes "sd_rdb s = R" and "V w (SchedulerContainerLock (r_ContainerId r)) = None"
    and "isHash (V w (SchedulerContainerState (r_ContainerId r)))"
    and "cs_Status (read_cstate (V w) (r_ContainerId r)) \<in> {ContainerStatusPending, ContainerStatusRunning}"
  shows "wp (Run s now r) (\<lambda>_ _. False) (\<lambda>e w'. e = errAlreadyScheduled \<and> V w' = V w) w"
proof -
  have ne: "hashOf (V w (SchedulerContainerState (r_ContainerId r))) \<noteq> Map.empty"
  proof
    assume "hashOf (V w (SchedulerContainerState (r_ContainerId r))) = Map.empty"
    with assms(4) show False
      by (simp add: read_cstate_def cstate_at_def ContainerState_ToStruct_def zero_ContainerState_def
          ContainerStatusPending_def ContainerStatusRunning_def)
  qed
  have "wp (tryE (GetContainerState R (r_ContainerId r))) Q E w"
    if "\<And>w1. V w1 = V w \<Longrightarrow> Q (Inr (read_cstate (V w) (r_ContainerId r))) w1" for Q E
    by (intro wp_tryE up_GetContainerState_known [OF assms(2,3) ne] that)
  then show ?thesis
    unfolding Run_def Let_def assms(1) wp_eqs using assms(4) by (simp add: wp_eqs)
qed

lemma up_Run_no_quota:
  assumes "sd_rdb s = R" and "\<forall>r. json_ok (sd_json s) r" and "wf_backlog (sd_json s) (V w)" and "submission_pre (V w) r"
    and "V w (WorkspaceConcurrencyLimit (r_WorkspaceId r)) = None"
    and "bk_GetConcurrencyLimitByWorkspaceId (sd_backend s) (r_WorkspaceId r) = throwE SqlErrNoRows"
    and "\<not> r_CheckpointEnabled r" and "r_RetryCount r = 0" and "in_i64 now"
  shows "wp (Run s now r) (\<lambda>ts w'. ts = [] \<and> wf_backlog (sd_json s) (V w') \<and>
       waiting (sd_json s) (V w') = insert (nextRetry (withGpuCount (r\<lparr>r_Timestamp := now\<rparr>))) (waiting (sd_json s) (V w)) \<and>
       read_cstate (V w') (r_ContainerId r) = pendingState (now div second) r) (\<lambda>_ _. False) w"
  (is "wp _ ?Q ?E w")
proof -
  let ?r = "r\<lparr>r_Timestamp := now\<rparr>" and ?i = "r_ContainerId r"
  have now: "in_i64 (now div second)" using assms(9) by (auto simp: in_i64_def second_def)
  have pre: "submission_pre (V w) ?r" using assms(4) by (simp add: submission_pre_def)
  have "wp (SetContainerStateWithConcurrencyLimit R (now div second) None ?r) (\<lambda>_. wp (addRequestToBacklog s ?r) ?Q ?E) ?E w1"
    if w1: "V w1 = V w" for w1
  proof (rule up_SetContainerState_no_quota [OF pre [folded w1] now], goal_cases)
    case (1 w2)
    then have "V w2 backlogKey = V w backlogKey" using w1 by (simp add: agree_off_def key_eqs)
    from waiting_cong [of "V w2" "V w", OF this]
    have eq: "waiting (sd_json s) (V w2) = waiting (sd_json s) (V w)" "wf_backlog (sd_json s) (V w2)" using assms(3) by simp_all
    have "read_cstate (V w2) ?i = pendingState (now div second) r" using 1(1) by (simp add: pendingState_def)
    then show ?case
      by (intro up_addRequestToBacklog [OF assms(1) eq(2) assms(2) [rule_format]])
        (use assms(8) eq(1) in \<open>auto simp: agree_off_def read_cstate_def cstate_at_def key_eqs\<close>)
  qed
  moreover have "wp (getConcurrencyLimit s ?r) Q E w1" if "\<And>w2. V w2 = V w1 \<Longrightarrow> Q None w2" "V w1 = V w" for Q E w1
    by (rule up_getConcurrencyLimit_none) (use assms(1,5,6) that in simp_all)
  moreover have "wp (tryE (GetContainerState R ?i)) Q E w"
    if "\<And>w1. V w1 = V w \<Longrightarrow> Q (Inl (ErrContainerStateNotFound ?i)) w1" for Q E
    by (intro wp_tryE_no_panic up_GetContainerState_unknown) (use that assms(4) in \<open>simp_all add: submission_pre_def\<close>)
  ultimately show ?thesis
    unfolding Run_def Let_def assms(1) wp_eqs
    by (simp add: withCheckpoint_def assms(7) wp_eqs)
qed

lemma wp_decided:
  assumes "fst (m w) = Inr a" and "keeps view k m" and "\<And>w'. V w' k = V w k \<Longrightarrow> Q a w'"
  shows "wp m Q E w"
  using assms(1,3) keepsD [OF assms(2), of w] by (cases "m w") (simp add: wp_def)

lemma up_Run_cached_quota:
  assumes "sd_rdb s = R" and "\<forall>r. json_ok (sd_json s) r" and "wf_backlog (sd_json s) (V w)" and "submission_pre (V w) r"
    and "quota_pre (V w) r" and "V w (WorkspaceConcurrencyLimit (r_WorkspaceId r)) = Some (RHash (map_of (ConcurrencyLimit_ToSlice q)))"
    and "usage gpus (V w) (r_WorkspaceId r) + uint (r_GpuCount r) \<le> uint (cl_GPULimit q)"
    and "usage cs_Cpu (V w) (r_WorkspaceId r) + r_Cpu r \<le> uint (cl_CPUMillicoreLimit q)"
    and "\<not> r_CheckpointEnabled r" and "r_RetryCount r = 0" and "in_i64 now"
  shows "wp (Run s now r) (\<lambda>ts w'. ts = [] \<and> wf_backlog (sd_json s) (V w') \<and>
       waiting (sd_json s) (V w') = insert (nextRetry (withGpuCount (r\<lparr>r_Timestamp := now\<rparr>))) (waiting (sd_json s) (V w)))
       (\<lambda>_ _. False) w"
  (is "wp _ ?Q ?E w")
proof -
  let ?r = "r\<lparr>r_Timestamp := now\<rparr>" and ?i = "r_ContainerId r"
  have now: "in_i64 (now div second)" using assms(11) by (auto simp: in_i64_def second_def)
  have "wp (SetContainerStateWithConcurrencyLimit R (now div second) (Some q) ?r) (\<lambda>_. wp (addRequestToBacklog s ?r) ?Q ?E) ?E w1"
    if w1: "V w1 = V w" for w1
  proof (rule wp_decided [where a = "()", OF _ keeps_SetContainerStateWithConcurrencyLimit], goal_cases)
    case 1
    show ?case
      by (subst quota_decides)
        (use assms(4,5,7,8) now w1 in \<open>simp_all add: submission_pre_def unknown_container_def quota_pre_def\<close>)
  next
    case (2 w2)
    then have "V w2 backlogKey = V w backlogKey" using w1 by simp
    from waiting_cong [of "V w2" "V w", OF this]
    have eq: "waiting (sd_json s) (V w2) = waiting (sd_json s) (V w)" "wf_backlog (sd_json s) (V w2)" using assms(3) by simp_all
    show ?case
      by (intro up_addRequestToBacklog [OF assms(1) eq(2) assms(2) [rule_format]]) (use assms(10) eq(1) in auto)
  qed
  moreover have "wp (getConcurrencyLimit s ?r) Q E w1" if Q: "\<And>w2. V w2 = V w1 \<Longrightarrow> Q (Some q) w2" and w1: "V w1 = V w" for Q E w1
  proof (rule up_getConcurrencyLimit_cached [OF assms(1)], goal_cases)
    case (3 w')
    have "ConcurrencyLimit_ToStruct (map_of (ConcurrencyLimit_ToSlice q)) zero_ConcurrencyLimit = q"
      by (simp add: ConcurrencyLimit_ToSlice_def ConcurrencyLimit_ToStruct_def set_Some)
    then show ?case using Q [OF 3] by (simp add: w1 assms(6))
  qed (simp_all add: w1 assms(6) ConcurrencyLimit_ToSlice_def fun_eq_iff, blast)
  moreover have "wp (tryE (GetContainerState R ?i)) Q E w"
    if "\<And>w1. V w1 = V w \<Longrightarrow> Q (Inl (ErrContainerStateNotFound ?i)) w1" for Q E
    by (intro wp_tryE_no_panic up_GetContainerState_unknown) (use that assms(4) in \<open>simp_all add: submission_pre_def\<close>)
  ultimately show ?thesis
    unfolding Run_def Let_def assms(1) wp_eqs
    by (simp add: withCheckpoint_def assms(9) wp_eqs)
qed

end

text \<open>A request for a GPU that lists no type fits no worker and no pool.\<close>

lemma no_types_no_worker: "RequiresGPU r \<Longrightarrow> r_GpuRequest r = [] \<Longrightarrow> selectFrom srt r workers = Inl ErrNoSuitableWorkerFound"
  by (simp add: selectFrom_def Let_def filterWorkersByFlags_def filterWorkersByResources_fits fits_def gpuRequestsMap_def)

lemma no_types_no_controller:
  "RequiresGPU r \<Longrightarrow> r_GpuRequest r = [] \<Longrightarrow> r_PoolSelector r = [] \<Longrightarrow> getControllers srt m r w = (Inl errNoController, w)"
  by (simp add: getControllers_def filterControllersByFlags_def bindE_def returnE_def throwE_def)

context redis_up
begin

lemma up_Len_one:
  assumes "wf_backlog J (V w)" and "waiting J (V w) = {r}" and "\<And>w'. V w' = V w \<Longrightarrow> Q 1 w'"
  shows "wp (Len R) Q E w"
proof -
  let ?z = "zsetOf (V w backlogKey)"
  have "r \<in> waiting J (V w)" using assms(2) by simp
  then obtain m where m: "m \<in> dom ?z" unfolding waiting_def by blast
  have "m' = m" if "m' \<in> dom ?z" for m'
  proof -
    have "\<exists>x. unmarshal J n = Inr x \<and> marshal J x = Inr n" if "n \<in> dom ?z" for n
      using assms(1) that by (fastforce simp: wf_backlog_def)
    with that m obtain x x' where x: "unmarshal J m = Inr x" "marshal J x = Inr m" "unmarshal J m' = Inr x'" "marshal J x' = Inr m'"
      by blast
    with that m have "x \<in> waiting J (V w)" "x' \<in> waiting J (V w)" unfolding waiting_def by blast+
    with assms(2) x show ?thesis by simp
  qed
  with m have "dom ?z = {m}" by blast
  then have card: "card (dom ?z) = 1" by simp
  have z: "isZSet (V w backlogKey)" using assms(1) by (simp add: wf_backlog_def)
  have "wp (ZCard R backlogKey) (\<lambda>n w'. n = 1 \<and> V w' = V w) (\<lambda>_ _. True) w" by (rule wp_ZCard) (simp_all add: card)
  then have "wp (ZCard R backlogKey) (\<lambda>n w'. n = 1 \<and> V w' = V w) (\<lambda>_ _. False) w"
    unfolding ZCard_def by (rule wp_up [OF ZCard_up, rotated]) (rule z)
  then show ?thesis unfolding Len_def wp_eqs by (rule wp_mono) (simp_all add: wp_eqs assms(3) [unfolded One_nat_def])
qed

lemma up_processRequest_no_types:
  assumes "sd_rdb s = R" and "wf_backlog (sd_json s) (V w)" and "waiting (sd_json s) (V w) = {r}"
    and "RequiresGPU r" and "r_GpuRequest r = []" and "r_PoolSelector r = []"
  shows "wp (processRequest s) (\<lambda>(ts, os) w'. ts = [] \<and> os = [NoController (r_ContainerId r)] \<and> waiting (sd_json s) (V w') = {})
     (\<lambda>e w'. \<exists>p. e = Panic p) w" (is "wp _ ?Q ?E w")
proof -
  have select: "wp (tryE (selectWorker R (sd_sortWorkers s) r)) Q ?E w1"
    if "\<And>e w2. V w2 backlogKey = V w1 backlogKey \<Longrightarrow> Q (Inl e) w2" for Q w1
  proof -
    have "wp (selectWorker R (sd_sortWorkers s) r) (\<lambda>_ _. False) (\<lambda>_ w2. V w2 backlogKey = V w1 backlogKey) w1"
      unfolding selectWorker_def wp_eqs wp_liftSum no_types_no_worker [OF assms(4,5)] sum.case
      by (rule wp_keeps [OF keeps_GetAllWorkers]) (simp add: wp_all)
    then show ?thesis
      unfolding tryE_def wp_eqs by (rule wp_mono) (auto simp: wp_eqs that split: goerror.splits)
  qed
  have pop: "wp (tryE (Pop R (sd_json s))) Q ?E w1"
    if "\<And>w2. waiting (sd_json s) (V w2) = {} \<Longrightarrow> Q (Inr r) w2" "V w1 = V w" for Q w1
    by (rule wp_tryE, rule up_Pop) (use that assms(2,3) in \<open>auto simp: errBacklogEmpty_def\<close>)
  have "wp (case c of Inl _ \<Rightarrow> returnE ([], [NoController (r_ContainerId r)]) | Inr cs \<Rightarrow> returnE ([AddWorkerTask cs r], [])) ?Q ?E w2"
    if "c = Inl errNoController" "waiting (sd_json s) (V w2) = {}" for c w2
    using that by (simp add: wp_eqs)
  then have ctl: "wp (bindE (tryE (getControllers (sd_sortPools s) (sd_workerPoolManager s) r))
      (\<lambda>c. case c of Inl _ \<Rightarrow> returnE ([], [NoController (r_ContainerId r)]) | Inr cs \<Rightarrow> returnE ([AddWorkerTask cs r], []))) ?Q ?E w2"
    if "waiting (sd_json s) (V w2) = {}" for w2
    unfolding wp_bindE using that
    by (intro wp_tryE_no_panic) (simp add: wp_def no_types_no_controller [OF assms(4-6)] errNoController_def)
  have "wp (bindE (tryE (selectWorker R (sd_sortWorkers s) r)) (\<lambda>sel. case sel of
            Inl _ \<Rightarrow> bindE (tryE (getControllers (sd_sortPools s) (sd_workerPoolManager s) r))
              (\<lambda>c. case c of Inl _ \<Rightarrow> returnE ([], [NoController (r_ContainerId r)]) | Inr cs \<Rightarrow> returnE ([AddWorkerTask cs r], []))
          | Inr worker \<Rightarrow> scheduleOrRequeue s worker r)) ?Q ?E w2"
    if "waiting (sd_json s) (V w2) = {}" for w2
    unfolding wp_bindE [of "tryE (selectWorker _ _ _)"]
  proof (rule select, goal_cases)
    case (1 e w3)
    from waiting_cong(1) [of "V w3" "V w2", OF 1] that have "waiting (sd_json s) (V w3) = {}" by simp
    from ctl [OF this] show ?case by simp
  qed
  then show ?thesis
    unfolding processRequest_def assms(1) wp_bindE [of "Len R"]
    by (intro up_Len_one [OF assms(2,3)]) (simp add: wp_bindE [of "tryE (Pop R (sd_json s))"] pop)
qed

end

section \<open>An example\<close>

definition ex_backend :: "mem backend" where
  "ex_backend = \<lparr>bk_GetLatestCheckpointByStubId = (\<lambda>_. returnE None), bk_GetConcurrencyLimitByWorkspaceId = (\<lambda>_. throwE SqlErrNoRows),
     bk_GetImageCredentialSecret = (\<lambda>_. returnE []), bk_GetSecretByNameDecrypted = (\<lambda>_ _. throwE SqlErrNoRows)\<rparr>"

definition ex_scheduler :: "mem Scheduler" where
  "ex_scheduler = \<lparr>sd_rdb = mem_client, sd_json = plain_codec, sd_backend = ex_backend,
     sd_workerPoolManager = NewWorkerPoolManager False,
     sd_ImageService = \<lparr>im_BuildRegistry = [], im_BuildRepositoryName = [], im_CredentialsType = [], im_Credentials = []\<rparr>,
     sd_GetRegistryTokenForImage = (\<lambda>_ _. returnE []),
     sd_eventBus = \<lparr>eb_rdb = mem_client, eb_publish = (\<lambda>_ _. returnE ()), eb_serialize = (\<lambda>_. Inr ''{}''),
       eb_deserialize = (\<lambda>_. Inl (ErrNew ''syntax error'')), eb_hash = (\<lambda>x. x), eb_EventCallbacks = Map.empty\<rparr>,
     sd_sortWorkers = go_isort, sd_sortPools = go_isort\<rparr>"

lemma ex_scheduler_sel [simp]:
  "sd_rdb ex_scheduler = mem_client" "sd_json ex_scheduler = plain_codec" "sd_backend ex_scheduler = ex_backend"
  "sd_workerPoolManager ex_scheduler = NewWorkerPoolManager False" "sd_sortPools ex_scheduler = go_isort"
  "sd_GetRegistryTokenForImage ex_scheduler = (\<lambda>_ _. returnE [])"
  "bk_GetConcurrencyLimitByWorkspaceId ex_backend ws = throwE SqlErrNoRows"
  by (simp_all add: ex_scheduler_def ex_backend_def)

lemma ex_submission:
  "wf_backlog J (mem_view (rdb ex_empty))" "waiting J (mem_view (rdb ex_empty)) = {}" "submission_pre (mem_view (rdb ex_empty)) ex_request"
  by (simp_all add: wf_backlog_def waiting_def submission_pre_def unknown_container_def ex_request_def in_i64_def)

text \<open>A workspace whose cached quota allows no GPU.\<close>

definition ex_limited :: "mem world" where
  "ex_limited = \<lparr>rdb = [WorkspaceConcurrencyLimit [] \<mapsto> MHash (ConcurrencyLimit_ToSlice (ex_quota\<lparr>cl_GPULimit := 0\<rparr>))], locks = Map.empty\<rparr>"

lemma ex_limited_view [simp]:
  "mem_view (rdb ex_limited) k = (if k = WorkspaceConcurrencyLimit [] then Some (RHash (map_of (ConcurrencyLimit_ToSlice (ex_quota\<lparr>cl_GPULimit := 0\<rparr>)))) else None)"
  by (simp add: ex_limited_def mem_view_def)

section \<open>Properties\<close>




definition ex_known :: "mem world" where
  "ex_known = \<lparr>rdb = [SchedulerContainerState ''c1'' \<mapsto> MHash [(''status'', ContainerStatusRunning)]], locks = Map.empty\<rparr>"


text \<open>
  The GPU quota can be passed by: a request that names a GPU type and leaves the count at zero is checked as using no
  GPU, so it is accepted in a workspace whose GPU quota is used up, and waits with a count of one.
\<close>

theorem zero_gpu_count_passes_quota:
  assumes "redis_up (sd_rdb s) view" and "\<forall>r. json_ok (sd_json s) r" and "wf_backlog (sd_json s) (view (rdb w))"
    and "submission_pre (view (rdb w)) r" and "quota_pre (view (rdb w)) r"
    and "view (rdb w) (WorkspaceConcurrencyLimit (r_WorkspaceId r)) = Some (RHash (map_of (ConcurrencyLimit_ToSlice q)))"
    and "usage gpus (view (rdb w)) (r_WorkspaceId r) = uint (cl_GPULimit q)"
    and "usage cs_Cpu (view (rdb w)) (r_WorkspaceId r) + r_Cpu r \<le> uint (cl_CPUMillicoreLimit q)"
    and "RequiresGPU r" and "r_GpuCount r = 0" and "\<not> r_CheckpointEnabled r" and "r_RetryCount r = 0" and "in_i64 now"
  shows "\<exists>w' r'. Run s now r w = (Inr [], w') \<and> r' \<in> waiting (sd_json s) (view (rdb w')) \<and>
     r_ContainerId r' = r_ContainerId r \<and> r_GpuCount r' = 1"
proof -
  let ?r = "nextRetry (withGpuCount (r\<lparr>r_Timestamp := now\<rparr>))"
  have "r_ContainerId ?r = r_ContainerId r \<and> r_GpuCount ?r = 1"
    using assms(9,10) by (simp add: nextRetry_def withGpuCount_def RequiresGPU_def)
  moreover have "usage gpus (view (rdb w)) (r_WorkspaceId r) + uint (r_GpuCount r) \<le> uint (cl_GPULimit q)" using assms(7,10) by simp
  from wp_success [OF redis_up.up_Run_cached_quota [OF assms(1) refl assms(2-6) this assms(8,11-13)]]
  obtain w' where "Run s now r w = (Inr [], w')" "?r \<in> waiting (sd_json s) (view (rdb w'))" by auto
  ultimately show ?thesis by blast
qed

theorem zero_gpu_count_passes_quota_witness:
  "\<exists>w' r'. Run ex_scheduler 5 (ex_request\<lparr>r_GpuCount := 0\<rparr>) ex_limited = (Inr [], w') \<and>
     r' \<in> waiting plain_codec (mem_view (rdb w')) \<and> r_ContainerId r' = ''c1'' \<and> r_GpuCount r' = 1"
  using zero_gpu_count_passes_quota [where s = ex_scheduler and view = mem_view and w = ex_limited
      and r = "ex_request\<lparr>r_GpuCount := 0\<rparr>" and q = "ex_quota\<lparr>cl_GPULimit := 0\<rparr>" and now = 5]
  by (simp add: mem.redis_up_axioms plain_codec_ok in_i64_def ex_request_def wf_backlog_def submission_pre_def
      unknown_container_def quota_pre_def ws_ok_def usage_def RequiresGPU_def key_eqs zero_ContainerRequest_def ex_quota_def)


text \<open>
  A container that asks for a GPU through the service is never scheduled: the service accepts it, but the request
  it builds lists no GPU type, so when it is taken from the backlog no worker fits and no controller is found,
  whatever the workers and the pools are; the request is dropped, with no goroutine left to try again.
\<close>

theorem service_gpu_request_dropped:
  assumes "redis_up (sd_rdb s) view" and "wf_backlog (sd_json s) (view (rdb w))" and "rq_Gpu i \<noteq> []"
    and "waiting (sd_json s) (view (rdb w)) = {nextRetry (withGpuCount ((serviceRequest i cpu memory)\<lparr>r_Timestamp := now\<rparr>))}"
    and "processRequest s w = (Inr (ts, os), w')"
  shows "ts = [] \<and> os = [NoController (rq_ContainerId i)] \<and> waiting (sd_json s) (view (rdb w')) = {}"
proof -
  let ?r = "nextRetry (withGpuCount ((serviceRequest i cpu memory)\<lparr>r_Timestamp := now\<rparr>))"
  have r: "RequiresGPU ?r" "r_GpuRequest ?r = []" "r_PoolSelector ?r = []" "r_ContainerId ?r = rq_ContainerId i"
    using assms(3) by (simp_all add: nextRetry_def withGpuCount_def serviceRequest_def RequiresGPU_def zero_ContainerRequest_def)
  from wp_Inr [OF redis_up.up_processRequest_no_types [OF assms(1) refl assms(2,4) r(1-3)] assms(5)] r(4)
  show ?thesis by simp
qed

definition ex_service_args :: RunContainerRequest where
  "ex_service_args = \<lparr>rq_ContainerId = ''c1'', rq_EntryPoint = [], rq_Env = [], rq_Cpu = ''1000m'', rq_Memory = ''1Gi'', rq_Gpu = ''T4'', rq_ImageId = ''i1''\<rparr>"

definition ex_service_scheduler :: "mem Scheduler" where
  "ex_service_scheduler = ex_scheduler\<lparr>sd_json := \<lparr>marshal = (\<lambda>_. Inr ''{}''),
     unmarshal = (\<lambda>_. Inr (nextRetry (withGpuCount ((serviceRequest ex_service_args 1000 1024)\<lparr>r_Timestamp := 0\<rparr>))))\<rparr>\<rparr>"

definition ex_service_world :: "mem world" where
  "ex_service_world = \<lparr>rdb = [backlogKey \<mapsto> MZSet [(''{}'', 0)]], locks = Map.empty\<rparr>"

lemma ex_service_processed: "\<exists>ts os w'. processRequest ex_service_scheduler ex_service_world = (Inr (ts, os), w')"
proof -
  have "case fst (processRequest ex_service_scheduler ex_service_world) of Inl _ \<Rightarrow> False | Inr _ \<Rightarrow> True"
    by code_simp
  then show ?thesis by (cases "processRequest ex_service_scheduler ex_service_world") (simp split: sum.splits)
qed

lemma ex_service_backlog:
  "wf_backlog (sd_json ex_service_scheduler) (mem_view (rdb ex_service_world))"
  "waiting (sd_json ex_service_scheduler) (mem_view (rdb ex_service_world)) =
     {nextRetry (withGpuCount ((serviceRequest ex_service_args 1000 1024)\<lparr>r_Timestamp := 0\<rparr>))}"
proof -
  have z: "mem_view (rdb ex_service_world) backlogKey = Some (RZSet [''{}'' \<mapsto> 0])"
    by (simp add: ex_service_world_def mem_view_def)
  have [simp]: "r_Timestamp (nextRetry (withGpuCount ((serviceRequest ex_service_args 1000 1024)\<lparr>r_Timestamp := 0\<rparr>))) = 0"
    by (simp add: nextRetry_def withGpuCount_def)
  have "f64 (i64 0) = 0" by (simp add: f64_def Let_def i64_id in_i64_def)
  then show "wf_backlog (sd_json ex_service_scheduler) (mem_view (rdb ex_service_world))"
    unfolding wf_backlog_def z by (simp add: ex_service_scheduler_def)
  show "waiting (sd_json ex_service_scheduler) (mem_view (rdb ex_service_world)) =
     {nextRetry (withGpuCount ((serviceRequest ex_service_args 1000 1024)\<lparr>r_Timestamp := 0\<rparr>))}"
    unfolding waiting_def z by (auto simp: ex_service_scheduler_def)
qed

theorem service_gpu_request_dropped_witness:
  "\<exists>w'. processRequest ex_service_scheduler ex_service_world = (Inr ([], [NoController ''c1'']), w') \<and>
     waiting (sd_json ex_service_scheduler) (mem_view (rdb w')) = {}"
proof -
  obtain ts os w' where *: "processRequest ex_service_scheduler ex_service_world = (Inr (ts, os), w')"
    using ex_service_processed by (elim exE)
  have "redis_up (sd_rdb ex_service_scheduler) mem_view" "rq_Gpu ex_service_args \<noteq> []"
    by (simp_all add: ex_service_scheduler_def mem.redis_up_axioms ex_service_args_def)
  from service_gpu_request_dropped [where view = mem_view, OF this(1) ex_service_backlog(1) this(2) ex_service_backlog(2) *]
  show ?thesis using * by (simp add: ex_service_args_def)
qed

end
