(* ===== verification/Scheduler_Runs.thy ===== *)
theory Scheduler_Runs
  imports Scheduler_Submit "HOL-Library.Multiset"
begin

text \<open>
  Runs of the scheduler: submissions, iterations of the loop, goroutines that run, and anything else that happens in
  Redis outside the backlog, in any order. An abstract system, in which a request is waiting, pending in a goroutine
  or settled, says what a run may do with a request; every concrete step is a step of it. A goroutine runs as one step.
\<close>

section \<open>Runs\<close>

record 's system =
  sy_world :: "'s world"
  sy_tasks :: "'s task list"
  sy_accepted :: "string list"
  sy_log :: "outcome list"

datatype move = Submit | Poll | Take | RunTask | Other

inductive step :: "'s Scheduler \<Rightarrow> ('s \<Rightarrow> keyspace) \<Rightarrow> 's system \<Rightarrow> move \<Rightarrow> 's system \<Rightarrow> bool" for s view where
  accepted: "step s view y Submit (y\<lparr>sy_world := w', sy_tasks := sy_tasks y @ ts, sy_accepted := r_ContainerId r # sy_accepted y\<rparr>)"
    if "Run s now r (sy_world y) = (Inr ts, w')" and "0 \<le> r_RetryCount r"
| rejected: "step s view y Other (y\<lparr>sy_world := w'\<rparr>)"
    if "Run s now r (sy_world y) = (Inl e, w')" and "0 \<le> r_RetryCount r"
| processed: "step s view y
      (if waiting (sd_json s) (view (rdb w')) = waiting (sd_json s) (view (rdb (sy_world y))) then Poll else Take)
      (y\<lparr>sy_world := w', sy_tasks := sy_tasks y @ ts, sy_log := sy_log y @ os\<rparr>)"
    if "processRequest s (sy_world y) = (Inr (ts, os), w')"
| task: "step s view y RunTask (y\<lparr>sy_world := w', sy_tasks := ts1 @ ts2 @ ts, sy_log := sy_log y @ os\<rparr>)"
    if "sy_tasks y = ts1 @ t # ts2" and "runTask s now t (sy_world y) = (Inr (ts, os), w')"
| other: "step s view y Other (y\<lparr>sy_world := w'\<rparr>)"
    if "view (rdb w') backlogKey = view (rdb (sy_world y)) backlogKey"

inductive run :: "'s Scheduler \<Rightarrow> ('s \<Rightarrow> keyspace) \<Rightarrow> 's system \<Rightarrow> move list \<Rightarrow> 's system \<Rightarrow> bool" for s view where
  run_Nil: "run s view y [] y"
| run_Cons: "run s view y (m # ms) y''" if "step s view y m y'" and "run s view y' ms y''"

section \<open>The abstract system\<close>

datatype phase = Adding | Retrying | Pushing

record abstract_system =
  ab_waiting :: "ContainerRequest set"
  ab_pending :: "(phase \<times> ContainerRequest) multiset"
  ab_accepted :: "string list"
  ab_log :: "outcome list"

text \<open>A request that a failed attempt changed is still the same request.\<close>

definition same_request :: "ContainerRequest \<Rightarrow> ContainerRequest \<Rightarrow> bool" where
  "same_request r r' \<longleftrightarrow> r_ContainerId r' = r_ContainerId r \<and> r_RetryCount r' = r_RetryCount r \<and> r_Timestamp r' = r_Timestamp r"

inductive astep :: "abstract_system \<Rightarrow> move \<Rightarrow> abstract_system \<Rightarrow> bool" where
  a_poll: "astep a Poll a"
| a_other: "astep a Other a"
| a_accept: "astep a Submit (a\<lparr>ab_waiting := insert r (ab_waiting a), ab_accepted := r_ContainerId r # ab_accepted a\<rparr>)"
    if "r_RetryCount r = 1"
| a_accept_late: "astep a Submit (a\<lparr>ab_pending := add_mset (Retrying, r) (ab_pending a), ab_accepted := r_ContainerId r # ab_accepted a\<rparr>)"
    if "1 \<le> r_RetryCount r"
| a_schedule: "astep a Take (a\<lparr>ab_waiting := ab_waiting a - {r}, ab_log := ab_log a @ [Scheduled (r_ContainerId r) i]\<rparr>)"
    if "r \<in> ab_waiting a"
| a_drop: "astep a Take (a\<lparr>ab_waiting := ab_waiting a - {r}, ab_log := ab_log a @ [NoController (r_ContainerId r)]\<rparr>)"
    if "r \<in> ab_waiting a"
| a_add: "astep a Take (a\<lparr>ab_waiting := ab_waiting a - {r}, ab_pending := add_mset (Adding, r) (ab_pending a)\<rparr>)"
    if "r \<in> ab_waiting a"
| a_retry: "astep a Take (a\<lparr>ab_waiting := ab_waiting a - {r}, ab_pending := add_mset (Retrying, r') (ab_pending a)\<rparr>)"
    if "r \<in> ab_waiting a" and "same_request r r'"
| p_schedule: "astep a RunTask (a\<lparr>ab_pending := P, ab_log := ab_log a @ [Scheduled (r_ContainerId r) i]\<rparr>)"
    if "ab_pending a = add_mset (Adding, r) P"
| p_retry: "astep a RunTask (a\<lparr>ab_pending := add_mset (Retrying, r') P\<rparr>)"
    if "ab_pending a = add_mset (Adding, r) P" and "same_request r r'"
| p_delay: "astep a RunTask (a\<lparr>ab_pending := add_mset (Pushing, r) P\<rparr>)"
    if "ab_pending a = add_mset (Retrying, r) P" and "r_RetryCount r < maxScheduleRetryCount"
| p_give_up: "astep a RunTask (a\<lparr>ab_pending := P, ab_log := ab_log a @ [GivenUp (r_ContainerId r)]\<rparr>)"
    if "ab_pending a = add_mset (Retrying, r) P"
| p_push: "astep a RunTask (a\<lparr>ab_waiting := insert (nextRetry r) (ab_waiting a), ab_pending := P\<rparr>)"
    if "ab_pending a = add_mset (Pushing, r) P"

fun phase_of :: "'s task \<Rightarrow> phase \<times> ContainerRequest" where
  "phase_of (RetryTask r) = (Retrying, r)"
| "phase_of (PushTask d r) = (Pushing, r)"
| "phase_of (AddWorkerTask cs r) = (Adding, r)"

definition abstraction :: "'s Scheduler \<Rightarrow> ('s \<Rightarrow> keyspace) \<Rightarrow> 's system \<Rightarrow> abstract_system" where
  "abstraction s view y =
     \<lparr>ab_waiting = waiting (sd_json s) (view (rdb (sy_world y))), ab_pending = image_mset phase_of (mset (sy_tasks y)),
      ab_accepted = sy_accepted y, ab_log = sy_log y\<rparr>"

section \<open>Facts about the abstract system\<close>

fun about :: "outcome \<Rightarrow> string" where
  "about (Scheduled c i) = c" | "about (NoController c) = c" | "about (GivenUp c) = c"

text \<open>Where a container id is: waiting, pending or settled.\<close>

definition accounted :: "abstract_system \<Rightarrow> string set" where
  "accounted a = r_ContainerId ` ab_waiting a \<union> (r_ContainerId \<circ> snd) ` set_mset (ab_pending a) \<union> about ` set (ab_log a)"

definition retries_ok :: "abstract_system \<Rightarrow> bool" where
  "retries_ok a \<longleftrightarrow> finite (ab_waiting a) \<and>
     (\<forall>r \<in> ab_waiting a. 1 \<le> r_RetryCount r \<and> r_RetryCount r \<le> maxScheduleRetryCount) \<and>
     (\<forall>(p, r) \<in># ab_pending a. 1 \<le> r_RetryCount r \<and> (p = Pushing \<longrightarrow> r_RetryCount r < maxScheduleRetryCount))"

text \<open>How many steps a request can still take part in.\<close>

definition rounds :: "ContainerRequest \<Rightarrow> nat" where
  "rounds r = 4 * nat (maxScheduleRetryCount - r_RetryCount r)"

fun pending_weight :: "phase \<times> ContainerRequest \<Rightarrow> nat" where
  "pending_weight (Adding, r) = rounds r + 2"
| "pending_weight (Retrying, r) = rounds r + 1"
| "pending_weight (Pushing, r) = rounds r"

definition weight :: "abstract_system \<Rightarrow> nat" where
  "weight a = (\<Sum>r \<in> ab_waiting a. rounds r + 3) + \<Sum>\<^sub># (image_mset pending_weight (ab_pending a))"

lemma nextRetry_sel [simp]: "r_ContainerId (nextRetry r) = r_ContainerId r" "r_RetryCount (nextRetry r) = i64 (r_RetryCount r + 1)"
  by (simp_all add: nextRetry_def)

lemma same_request_sel:
  "same_request r r' \<Longrightarrow> r_ContainerId r' = r_ContainerId r" "same_request r r' \<Longrightarrow> r_RetryCount r' = r_RetryCount r"
  "same_request r r' \<Longrightarrow> rounds r' = rounds r"
  by (simp_all add: same_request_def rounds_def)

lemma rounds_le: "1 \<le> r_RetryCount r \<Longrightarrow> rounds r \<le> 8"
  by (simp add: rounds_def maxScheduleRetryCount_def nat_le_iff)

lemma astep_accounted: "astep a m b \<Longrightarrow> set (ab_accepted a) \<subseteq> accounted a \<Longrightarrow> set (ab_accepted b) \<subseteq> accounted b"
proof -
  have "astep a m b \<Longrightarrow> accounted a \<subseteq> accounted b \<and> set (ab_accepted b) \<subseteq> set (ab_accepted a) \<union> accounted b"
    by (induction rule: astep.induct) (auto simp: accounted_def same_request_sel image_iff)
  then show "astep a m b \<Longrightarrow> set (ab_accepted a) \<subseteq> accounted a \<Longrightarrow> set (ab_accepted b) \<subseteq> accounted b" by blast
qed

lemma astep_retries_ok: "astep a m b \<Longrightarrow> retries_ok a \<Longrightarrow> retries_ok b"
  by (induction rule: astep.induct) (auto simp: retries_ok_def same_request_sel maxScheduleRetryCount_def i64_id in_i64_def)

lemma weight_insert_le: "finite W \<Longrightarrow> (\<Sum>r \<in> insert x W. rounds r + 3) \<le> rounds x + 3 + (\<Sum>r \<in> W. rounds r + 3)"
  by (cases "x \<in> W") (simp_all add: insert_absorb)

lemma weight_remove: "finite W \<Longrightarrow> r \<in> W \<Longrightarrow> (\<Sum>r \<in> W. rounds r + 3) = rounds r + 3 + (\<Sum>r \<in> W - {r}. rounds r + 3)"
  by (simp add: sum.remove)

lemma astep_weight:
  assumes "astep a m b" and "retries_ok a" and "m \<noteq> Submit"
  shows "weight b + (if m = Take \<or> m = RunTask then 1 else 0) \<le> weight a"
  using assms
proof (induction rule: astep.induct)
  case (p_push a r P)
  then have r: "1 \<le> r_RetryCount r" "r_RetryCount r < maxScheduleRetryCount" and fin: "finite (ab_waiting a)"
    by (auto simp: retries_ok_def)
  then have "rounds (nextRetry r) + 4 = rounds r"
    by (simp add: rounds_def maxScheduleRetryCount_def i64_id in_i64_def nat_diff_distrib)
  with weight_insert_le [OF fin, of "nextRetry r"] show ?case
    using p_push by (simp add: weight_def)
qed (auto simp: weight_def retries_ok_def same_request_sel weight_remove)

text \<open>The rules with every component of the next state written out.\<close>

lemma astep_take:
  assumes "r \<in> ab_waiting a"
    and "P = ab_pending a \<and> (\<exists>i. L = ab_log a @ [Scheduled (r_ContainerId r) i]) \<or>
      P = ab_pending a \<and> L = ab_log a @ [NoController (r_ContainerId r)] \<or>
      P = add_mset (Adding, r) (ab_pending a) \<and> L = ab_log a \<or>
      (\<exists>r'. same_request r r' \<and> P = add_mset (Retrying, r') (ab_pending a) \<and> L = ab_log a)"
  shows "astep a Take (a\<lparr>ab_waiting := ab_waiting a - {r}, ab_pending := P, ab_log := L\<rparr>)"
  using assms(2) a_schedule [OF assms(1)] a_drop [OF assms(1)] a_add [OF assms(1)] a_retry [OF assms(1)] by (cases a) auto

lemma astep_task:
  assumes "ab_pending a = add_mset (p, r) P0"
    and "p = Adding \<and> W = ab_waiting a \<and> P = P0 \<and> (\<exists>i. L = ab_log a @ [Scheduled (r_ContainerId r) i]) \<or>
      p = Adding \<and> W = ab_waiting a \<and> (\<exists>r'. same_request r r' \<and> P = add_mset (Retrying, r') P0) \<and> L = ab_log a \<or>
      p = Retrying \<and> r_RetryCount r < maxScheduleRetryCount \<and> W = ab_waiting a \<and> P = add_mset (Pushing, r) P0 \<and> L = ab_log a \<or>
      p = Retrying \<and> W = ab_waiting a \<and> P = P0 \<and> L = ab_log a @ [GivenUp (r_ContainerId r)] \<or>
      p = Pushing \<and> W = insert (nextRetry r) (ab_waiting a) \<and> P = P0 \<and> L = ab_log a"
  shows "astep a RunTask (a\<lparr>ab_waiting := W, ab_pending := P, ab_log := L\<rparr>)"
  using assms p_schedule [of a r P0] p_retry [of a r P0] p_delay [of a r P0] p_give_up [of a r P0] p_push [of a r P0] by (cases a) auto

section \<open>What the operations do to the backlog\<close>

text \<open>The services and the controllers of the pools leave the backlog alone.\<close>

definition env_keeps :: "('s \<Rightarrow> keyspace) \<Rightarrow> 's Scheduler \<Rightarrow> bool" where
  "env_keeps view s \<longleftrightarrow>
     (\<forall>i. keeps view backlogKey (bk_GetLatestCheckpointByStubId (sd_backend s) i)) \<and>
     (\<forall>i. keeps view backlogKey (bk_GetConcurrencyLimitByWorkspaceId (sd_backend s) i)) \<and>
     (\<forall>i. keeps view backlogKey (bk_GetImageCredentialSecret (sd_backend s) i)) \<and>
     (\<forall>ws i. keeps view backlogKey (bk_GetSecretByNameDecrypted (sd_backend s) ws i)) \<and>
     (\<forall>i cr. keeps view backlogKey (sd_GetRegistryTokenForImage s i cr)) \<and>
     (\<forall>(n, pool) \<in> set (pm_poolMap (sd_workerPoolManager s)). keeps view backlogKey (ct_State (wp_Controller pool)) \<and>
        (\<forall>cpu mem g. keeps view backlogKey (ct_AddWorker (wp_Controller pool) cpu mem g)))"

definition pool_controllers :: "'s Scheduler \<Rightarrow> 's controller set" where
  "pool_controllers s = (wp_Controller \<circ> snd) ` set (pm_poolMap (sd_workerPoolManager s))"

lemma serves_controller: "serves (sd_workerPoolManager s) r c \<Longrightarrow> c \<in> pool_controllers s"
  proof -
  assume "serves (sd_workerPoolManager s) r c"
  then obtain x where "x \<in> set (pm_poolMap (sd_workerPoolManager s))" "c = wp_Controller (snd x)"
    unfolding serves_def by (elim conjE bexE) (simp add: split_beta)
  then show "c \<in> pool_controllers s" by (auto simp: pool_controllers_def)
qed

lemma keeps_tryE [keeps_intros]: "keeps view k m \<Longrightarrow> keeps view k (tryE m)"
  unfolding tryE_def by (intro keeps_bindE keeps_attempt) (auto intro: keeps_returnE keeps_throwE split: sum.splits goerror.splits)

lemma keeps_SafeMap_Range:
  assumes "\<And>k v a. (k, v) \<in> set m \<Longrightarrow> keeps view j (f k v a)"
  shows "keeps view j (SafeMap_Range f m a)"
  using assms
proof (induction m arbitrary: a)
  case (Cons kv m)
  then show ?case by (cases kv) (auto intro!: keeps_intros split: prod.splits)
qed (simp add: keeps_returnE)

lemma keeps_GetPoolByFilters:
  assumes "\<forall>(n, pool) \<in> set (pm_poolMap m). keeps view j (ct_State (wp_Controller pool))"
  shows "keeps view j (GetPoolByFilters srt m gpu)"
  unfolding GetPoolByFilters_def filterPool_def isPoolHealthy_def
  by (intro keeps_intros keeps_SafeMap_Range) (use assms in auto)

lemma keeps_controllersByGPU:
  assumes "\<forall>(n, pool) \<in> set (pm_poolMap m). keeps view j (ct_State (wp_Controller pool))"
  shows "keeps view j (controllersByGPU srt m types cs)"
  by (induction types arbitrary: cs) (auto intro!: keeps_intros keeps_GetPoolByFilters [OF assms])

lemma keeps_getControllers:
  assumes "\<forall>(n, pool) \<in> set (pm_poolMap m). keeps view j (ct_State (wp_Controller pool))"
  shows "keeps view j (getControllers srt m r)"
  unfolding getControllers_def Let_def
  by (intro keeps_intros keeps_GetPoolByFilters [OF assms] keeps_controllersByGPU [OF assms])

lemma withGpuCount_same [simp]: "same_request r (withGpuCount r)" "r_RetryCount (withGpuCount r) = r_RetryCount r"
  "r_ContainerId (withGpuCount r) = r_ContainerId r" "r_Timestamp (withGpuCount r) = r_Timestamp r"
  by (simp_all add: withGpuCount_def same_request_def)

lemma wp_attachImageCredentials: "wp (attachImageCredentials s r) (\<lambda>r' _. same_request r r') (\<lambda>_ _. True) w"
  unfolding attachImageCredentials_def by (auto simp: wp_eqs same_request_def intro!: wp_all)

lemma wp_attachBuildRegistryCredentials: "wp (attachBuildRegistryCredentials s r) (\<lambda>r' _. same_request r r') (\<lambda>_ _. True) w"
  unfolding attachBuildRegistryCredentials_def Let_def
  by (auto simp: wp_eqs same_request_def intro!: wp_tryE wp_all [where m = "sd_GetRegistryTokenForImage s i c" for i c])

lemma same_request_refl [simp]: "same_request r r" "same_request r (r\<lparr>r_Gpu := g\<rparr>)"
  by (simp_all add: same_request_def)

lemma same_request_trans: "same_request r r' \<Longrightarrow> same_request r' r'' \<Longrightarrow> same_request r r''"
  by (simp add: same_request_def)

lemma wp_scheduleRequest: "wp (scheduleRequest s wk r) (\<lambda>(r', _) _. same_request r r') (\<lambda>_ _. True) w"
proof -
  have image: "wp (tryE (attachImageCredentials s r1)) (\<lambda>a _. same_request r1 (case a of Inl _ \<Rightarrow> r1 | Inr x \<Rightarrow> x)) (\<lambda>_ _. True) w" for r1 w
    by (rule wp_tryE, rule wp_mono [OF wp_attachImageCredentials]) (simp_all add: same_request_def)
  have build: "wp (tryE (attachBuildRegistryCredentials s r1)) (\<lambda>a _. same_request r1 (case a of Inl _ \<Rightarrow> r1 | Inr x \<Rightarrow> x)) (\<lambda>_ _. True) w" for r1 w
    by (rule wp_tryE, rule wp_mono [OF wp_attachBuildRegistryCredentials]) (simp_all add: same_request_def)
  have rest: "wp (bindE (tryE (attachImageCredentials s r1)) (\<lambda>a. let r2 = (case a of Inl _ \<Rightarrow> r1 | Inr x \<Rightarrow> x)
      in bindE (tryE (attachBuildRegistryCredentials s r2)) (\<lambda>b. let r3 = (case b of Inl _ \<Rightarrow> r2 | Inr x \<Rightarrow> x)
         in bindE (tryE (ScheduleContainerRequest (sd_rdb s) (sd_json s) wk r3)) (\<lambda>x. returnE (r3, case x of Inl e \<Rightarrow> Some e | Inr _ \<Rightarrow> None)))))
      (\<lambda>(r', _) _. same_request r r') (\<lambda>_ _. True) w" if "same_request r r1" for r1 w
    unfolding Let_def wp_eqs
    by (rule wp_mono [OF image], rule wp_mono [OF build], rule wp_all) (auto intro: same_request_trans that)
  show ?thesis
    unfolding scheduleRequest_def wp_bindE
    by (rule wp_tryE, rule wp_all) (auto simp: wp_returnE Let_def [of "r\<lparr>r_Gpu := w_Gpu wk\<rparr>"] intro!: rest)
qed

text \<open>The result of an attempt to schedule a request.\<close>

definition tried :: "ContainerRequest \<Rightarrow> 's task list \<Rightarrow> outcome list \<Rightarrow> bool" where
  "tried r ts os \<longleftrightarrow> (\<exists>i. ts = [] \<and> os = [Scheduled (r_ContainerId r) i]) \<or> (\<exists>r'. same_request r r' \<and> ts = [RetryTask r'] \<and> os = [])"

context redis_up
begin

lemma keeps_scheduleRequest:
  assumes "env_keeps view s" and "sd_rdb s = R"
  shows "keeps view backlogKey (scheduleRequest s wk r)"
  unfolding scheduleRequest_def attachImageCredentials_def attachBuildRegistryCredentials_def Let_def assms(2)
  by (intro keeps_intros keeps_backlog) (use assms(1) in \<open>auto simp: env_keeps_def\<close>)

text \<open>A request that was tried is put back by a goroutine, since it has been counted once.\<close>

lemma wp_requeue: "r_RetryCount r \<noteq> 0 \<Longrightarrow> Q [RetryTask (withGpuCount r)] w \<Longrightarrow> wp (requeue s r) Q E w"
  unfolding requeue_def wp_eqs by (rule wp_tryE) (simp add: addRequestToBacklog_def Let_def wp_eqs)

lemma wp_scheduleOrRequeue:
  assumes "env_keeps view s" and "sd_rdb s = R" and "r_RetryCount r \<noteq> 0"
    and "\<And>ts os w'. tried r ts os \<Longrightarrow> V w' backlogKey = V w backlogKey \<Longrightarrow> Q (ts, os) w'" and "\<And>e w'. E e w'"
  shows "wp (scheduleOrRequeue s wk r) Q E w"
  unfolding scheduleOrRequeue_def wp_bindE
proof (rule wp_keeps [OF keeps_scheduleRequest [OF assms(1,2)]], rule wp_mono [OF wp_scheduleRequest], goal_cases)
  case (1 a w')
  obtain r' e where a: "a = (r', e)" by force
  with 1 have same: "same_request r r'" by simp
  show ?case
  proof (intro impI, cases e)
    case None
    assume "V w' backlogKey = V w backlogKey"
    with None same show "wp (case a of (r', err) \<Rightarrow> case err of None \<Rightarrow> returnE ([], [Scheduled (r_ContainerId r') (w_Id wk)])
        | Some x \<Rightarrow> bindE (requeue s r') (\<lambda>ts. returnE (ts, []))) Q E w'"
      by (auto simp: a wp_eqs tried_def same_request_sel intro!: assms(4))
  next
    case (Some x)
    assume key: "V w' backlogKey = V w backlogKey"
    have "same_request r (withGpuCount r')" by (rule same_request_trans [OF same]) simp
    with Some key same assms(3) show "wp (case a of (r', err) \<Rightarrow> case err of None \<Rightarrow> returnE ([], [Scheduled (r_ContainerId r') (w_Id wk)])
        | Some x \<Rightarrow> bindE (requeue s r') (\<lambda>ts. returnE (ts, []))) Q E w'"
      by (auto simp: a wp_eqs tried_def same_request_sel intro!: wp_requeue assms(4))
  qed
qed (simp add: assms(5))

lemma wp_addWorker:
  assumes "env_keeps view s" and "sd_rdb s = R" and "r_RetryCount r \<noteq> 0" and "set cs \<subseteq> pool_controllers s"
    and "\<And>ts os w'. tried r ts os \<Longrightarrow> V w' backlogKey = V w backlogKey \<Longrightarrow> Q (ts, os) w'" and "\<And>e w'. E e w'"
  shows "wp (addWorker s cs r) Q E w"
  using assms(4,5)
proof (induction cs arbitrary: w)
  case Nil
  have "tried r [RetryTask (withGpuCount r)] []" by (auto simp: tried_def intro!: exI [of _ "withGpuCount r"])
  then show ?case by (auto simp: wp_eqs intro!: wp_requeue assms(3) Nil.prems)
next
  case (Cons c cs)
  then have keep: "keeps view backlogKey (ct_AddWorker c cpu mem g)" for cpu mem g
    using assms(1) by (auto simp: env_keeps_def pool_controllers_def)
  have next': "wp (addWorker s cs r) Q E w1" if "V w1 backlogKey = V w backlogKey" for w1
    by (rule Cons.IH) (use Cons.prems that in auto)
  have sched: "wp (scheduleOrRequeue s wk r) Q E w1" if "V w1 backlogKey = V w backlogKey" for wk w1
    by (rule wp_scheduleOrRequeue [OF assms(1-3)]) (use Cons.prems that assms(6) in auto)
  show ?case
    unfolding addWorker.simps wp_bindE
    by (rule wp_keeps [OF keeps_tryE [OF keep]], rule wp_all) (auto simp: next' sched assms(6) split: sum.splits)
qed

lemma wp_processRequest:
  assumes "env_keeps view s" and "sd_rdb s = R" and "go_sort (sd_sortPools s)"
    and "wf_backlog (sd_json s) (V w)" and "\<forall>r \<in> waiting (sd_json s) (V w). r_RetryCount r \<noteq> 0"
    and "\<And>w'. V w' backlogKey = V w backlogKey \<Longrightarrow> Q ([], []) w'"
    and "\<And>r ts os w'. r \<in> waiting (sd_json s) (V w) \<Longrightarrow> waiting (sd_json s) (V w') = waiting (sd_json s) (V w) - {r} \<Longrightarrow>
           wf_backlog (sd_json s) (V w') \<Longrightarrow>
           tried r ts os \<or> ts = [] \<and> os = [NoController (r_ContainerId r)] \<or>
             (\<exists>cs. set cs \<subseteq> pool_controllers s \<and> ts = [AddWorkerTask cs r] \<and> os = []) \<Longrightarrow> Q (ts, os) w'"
    and "\<And>e w'. E e w'"
  shows "wp (processRequest s) Q E w"
  unfolding processRequest_def assms(2) wp_bindE
proof (rule wp_Len [OF assms(4)], goal_cases)
  case (1 n w1)
  have pools: "\<forall>(n, pool) \<in> set (pm_poolMap (sd_workerPoolManager s)). keeps view backlogKey (ct_State (wp_Controller pool))"
    using assms(1) by (auto simp: env_keeps_def)
  have controllers: "wp (tryE (getControllers (sd_sortPools s) (sd_workerPoolManager s) r))
      (\<lambda>c w3. wp (case c of Inl _ \<Rightarrow> returnE ([], [NoController (r_ContainerId r)]) | Inr cs \<Rightarrow> returnE ([AddWorkerTask cs r], [])) Q E w3) E w2"
    if r: "r \<in> waiting (sd_json s) (V w)" "waiting (sd_json s) (V w2) = waiting (sd_json s) (V w) - {r}" "wf_backlog (sd_json s) (V w2)" for r w2
  proof (rule wp_keeps [OF keeps_tryE [OF keeps_getControllers [OF pools]]], rule wp_tryE,
      rule wp_mono [OF wp_getControllers [OF assms(3)]], goal_cases)
    case (1 cs w3)
    then have "set cs \<subseteq> pool_controllers s" using serves_controller by blast
    then show ?case
      unfolding sum.case wp_returnE using r by (intro impI assms(7) [OF r(1)]) (simp_all add: waiting_cong [of "V w3" "V w2"])
  next
    case (2 e w3)
    show ?case
      unfolding sum.case wp_returnE using r
      by (intro impI conjI assms(8) assms(7) [OF r(1)]) (simp_all add: waiting_cong [of "V w3" "V w2"])
  qed
  have select: "wp (tryE (selectWorker R (sd_sortWorkers s) r))
      (\<lambda>sel w3. wp (case sel of Inl _ \<Rightarrow> bindE (tryE (getControllers (sd_sortPools s) (sd_workerPoolManager s) r))
             (\<lambda>c. case c of Inl _ \<Rightarrow> returnE ([], [NoController (r_ContainerId r)]) | Inr cs \<Rightarrow> returnE ([AddWorkerTask cs r], []))
          | Inr worker \<Rightarrow> scheduleOrRequeue s worker r) Q E w3) E w2"
    if r: "r \<in> waiting (sd_json s) (V w)" "waiting (sd_json s) (V w2) = waiting (sd_json s) (V w) - {r}" "wf_backlog (sd_json s) (V w2)" for r w2
  proof (rule wp_keeps [OF keeps_tryE [OF keeps_selectWorker]], rule wp_all, intro impI, goal_cases)
    case (1 sel w3)
    then have w3: "waiting (sd_json s) (V w3) = waiting (sd_json s) (V w) - {r}" "wf_backlog (sd_json s) (V w3)"
      using r by (simp_all add: waiting_cong [of "V w3" "V w2"])
    have "wp (scheduleOrRequeue s wk r) Q E w3" for wk
    proof (rule wp_scheduleOrRequeue [OF assms(1,2)], goal_cases)
      case (2 ts os w4)
      then show ?case using w3 by (intro assms(7) [OF r(1)]) (simp_all add: waiting_cong [of "V w4" "V w3"])
    qed (use assms(5,8) r(1) in auto)
    with controllers [OF r(1) w3] show ?case by (cases sel) (simp_all add: wp_bindE)
  qed (simp add: assms(8))
  have w1: "waiting (sd_json s) (V w1) = waiting (sd_json s) (V w)" "wf_backlog (sd_json s) (V w1)"
    using 1 assms(4) by simp_all
  have "wp (tryE (Pop R (sd_json s))) (\<lambda>p w2. wp (case p of Inl _ \<Rightarrow> returnE ([], [])
      | Inr r \<Rightarrow> bindE (tryE (selectWorker R (sd_sortWorkers s) r)) (\<lambda>sel. case sel of
            Inl _ \<Rightarrow> bindE (tryE (getControllers (sd_sortPools s) (sd_workerPoolManager s) r))
              (\<lambda>c. case c of Inl _ \<Rightarrow> returnE ([], [NoController (r_ContainerId r)]) | Inr cs \<Rightarrow> returnE ([AddWorkerTask cs r], []))
          | Inr worker \<Rightarrow> scheduleOrRequeue s worker r)) Q E w2) E w1"
  proof (rule wp_tryE, rule up_Pop [OF w1(2)], goal_cases)
    case (1 w2)
    then show ?case using \<open>V w1 = V w\<close> by (simp add: wp_returnE assms(6,8))
  next
    case (2 r w2)
    then show ?case unfolding sum.case wp_bindE using w1 by (intro select) simp_all
  qed
  then show ?case
    using 1 by (simp add: wp_bindE wp_returnE assms(6))
qed

lemma wp_withCheckpoint:
  "wp (withCheckpoint s r) (\<lambda>r' _. same_request r r') (\<lambda>_ _. True) w"
  unfolding withCheckpoint_def
  by (auto simp: wp_eqs same_request_def intro!: wp_tryE wp_all [where m = "bk_GetLatestCheckpointByStubId b i" for b i] split: option.splits)

lemma keeps_withCheckpoint: "env_keeps view s \<Longrightarrow> keeps view backlogKey (withCheckpoint s r)"
  unfolding withCheckpoint_def by (intro keeps_intros) (auto simp: env_keeps_def)

lemma keeps_getConcurrencyLimit: "env_keeps view s \<Longrightarrow> sd_rdb s = R \<Longrightarrow> keeps view backlogKey (getConcurrencyLimit s r)"
  unfolding getConcurrencyLimit_def by (simp, intro keeps_intros keeps_backlog) (auto simp: env_keeps_def)

lemma wp_frame:
  assumes "keeps view backlogKey m" and "\<And>a w'. V w' backlogKey = V w backlogKey \<Longrightarrow> Q a w'" and "\<And>e w'. V w' backlogKey = V w backlogKey \<Longrightarrow> E e w'"
  shows "wp m Q E w"
  by (rule wp_keeps [OF assms(1)], rule wp_all) (simp_all add: assms(2,3))

lemma up_Run:
  assumes "env_keeps view s" and "sd_rdb s = R" and "\<forall>r. json_ok (sd_json s) r" and "wf_backlog (sd_json s) (V w)"
    and "\<And>r' w'. r_RetryCount r = 0 \<Longrightarrow> r_ContainerId r' = r_ContainerId r \<Longrightarrow> r_RetryCount r' = 1 \<Longrightarrow> wf_backlog (sd_json s) (V w') \<Longrightarrow>
           waiting (sd_json s) (V w') = insert r' (waiting (sd_json s) (V w)) \<Longrightarrow> Q [] w'"
    and "\<And>r' w'. r_RetryCount r \<noteq> 0 \<Longrightarrow> r_ContainerId r' = r_ContainerId r \<Longrightarrow> r_RetryCount r' = r_RetryCount r \<Longrightarrow>
           V w' backlogKey = V w backlogKey \<Longrightarrow> Q [RetryTask r'] w'"
    and "\<And>e w'. V w' backlogKey = V w backlogKey \<Longrightarrow> E e w'"
  shows "wp (Run s now r) Q E w"
proof -
  have backlog: "wp (addRequestToBacklog s r1) Q E w1"
    if r1: "same_request (r\<lparr>r_Timestamp := now\<rparr>) r1" and w1: "V w1 backlogKey = V w backlogKey" for r1 w1
  proof -
    have eq: "waiting (sd_json s) (V w1) = waiting (sd_json s) (V w)" "wf_backlog (sd_json s) (V w1)"
      using waiting_cong [of "V w1" "V w", OF w1] assms(4) by simp_all
    show ?thesis
      by (rule up_addRequestToBacklog [OF assms(2) eq(2) assms(3) [rule_format]])
         (use r1 w1 eq(1) in \<open>simp_all add: same_request_def i64_id in_i64_def assms(5) [where r' = "nextRetry (withGpuCount r1)"]
            assms(6) [where r' = "withGpuCount r1"]\<close>)
  qed
  have state: "wp (tryE (GetContainerState R i)) Q' E w'"
    if "\<And>st w1. V w1 backlogKey = V w' backlogKey \<Longrightarrow> Q' st w1" "V w' backlogKey = V w backlogKey" for i Q' w'
    by (rule wp_frame [OF keeps_tryE [OF keeps_GetContainerState]]) (use that assms(7) in auto)
  have checkpoint: "wp (withCheckpoint s r1) Q' E w'"
    if "\<And>r2 w1. same_request r1 r2 \<Longrightarrow> V w1 backlogKey = V w' backlogKey \<Longrightarrow> Q' r2 w1" "V w' backlogKey = V w backlogKey" for r1 Q' w'
    by (rule wp_keeps [OF keeps_withCheckpoint [OF assms(1)]], rule wp_mono [OF wp_withCheckpoint]) (use that assms(7) in auto)
  have limit: "wp (getConcurrencyLimit s r1) Q' E w'"
    if "\<And>q w1. V w1 backlogKey = V w' backlogKey \<Longrightarrow> Q' q w1" "V w' backlogKey = V w backlogKey" for r1 Q' w'
    by (rule wp_frame [OF keeps_getConcurrencyLimit [OF assms(1,2)]]) (use that assms(7) in auto)
  have set: "wp (SetContainerStateWithConcurrencyLimit R n q r1) Q' E w'"
    if "\<And>u w1. V w1 backlogKey = V w' backlogKey \<Longrightarrow> Q' u w1" "V w' backlogKey = V w backlogKey" for n q r1 Q' w'
    by (rule wp_frame [OF keeps_SetContainerStateWithConcurrencyLimit]) (use that assms(7) in auto)
  show ?thesis
    unfolding Run_def Let_def assms(2) wp_eqs
    by (rule state) (auto intro!: assms(7) checkpoint limit set backlog)
qed

lemma wp_retryOrGiveUp:
  assumes "sd_rdb s = R"
    and "r_RetryCount r < maxScheduleRetryCount \<Longrightarrow> (\<And>d. Q ([PushTask d r], []) w)"
    and "\<And>w'. V w' backlogKey = V w backlogKey \<Longrightarrow> Q ([], [GivenUp (r_ContainerId r)]) w'" and "\<And>e w'. E e w'"
  shows "wp (retryOrGiveUp s now r) Q E w"
proof -
  have "wp (tryE (DeleteContainerState R i)) (\<lambda>_ w1. wp (tryE (SetContainerRequestStatus R j st)) (\<lambda>_ w2. Q ([], [GivenUp (r_ContainerId r)]) w2) E w1) E w" for i j st
    by (rule wp_frame [OF keeps_tryE [OF keeps_DeleteContainerState]], rule wp_frame [OF keeps_tryE [OF keeps_SetContainerRequestStatus]])
       (auto intro: assms(3,4))
  then show ?thesis
    unfolding retryOrGiveUp_def assms(1) wp_eqs using assms(2) by auto
qed

lemma up_pushAgain:
  assumes "sd_rdb s = R" and "wf_backlog (sd_json s) (V w)" and "json_ok (sd_json s) (nextRetry r)"
    and "\<And>w'. wf_backlog (sd_json s) (V w') \<Longrightarrow> waiting (sd_json s) (V w') = insert (nextRetry r) (waiting (sd_json s) (V w)) \<Longrightarrow> Q ([], []) w'"
  shows "wp (pushAgain s r) Q E w"
  unfolding pushAgain_def assms(1) wp_eqs
  by (rule wp_tryE, rule up_Push [OF assms(2,3)]) (simp add: wp_eqs assms(4))

end

section \<open>Refinement\<close>

text \<open>
  The assumptions about what surrounds the scheduler: the server answers, a request survives its JSON form, the slices are
  sorted, and services and controllers leave the backlog alone.
\<close>

definition scheduler_env :: "('s \<Rightarrow> keyspace) \<Rightarrow> 's Scheduler \<Rightarrow> bool" where
  "scheduler_env view s \<longleftrightarrow> redis_up (sd_rdb s) view \<and> env_keeps view s \<and> (\<forall>r. json_ok (sd_json s) r) \<and> go_sort (sd_sortPools s)"

definition system_ok :: "'s Scheduler \<Rightarrow> ('s \<Rightarrow> keyspace) \<Rightarrow> 's system \<Rightarrow> bool" where
  "system_ok s view y \<longleftrightarrow> wf_backlog (sd_json s) (view (rdb (sy_world y))) \<and> retries_ok (abstraction s view y) \<and>
     (\<forall>cs r. AddWorkerTask cs r \<in> set (sy_tasks y) \<longrightarrow> set cs \<subseteq> pool_controllers s)"

lemma abstraction_sel [simp]:
  "ab_waiting (abstraction s view y) = waiting (sd_json s) (view (rdb (sy_world y)))"
  "ab_pending (abstraction s view y) = image_mset phase_of (mset (sy_tasks y))"
  "ab_accepted (abstraction s view y) = sy_accepted y" "ab_log (abstraction s view y) = sy_log y"
  by (simp_all add: abstraction_def)

lemma abstraction_eqI:
  "waiting (sd_json s) (view (rdb (sy_world y))) = ab_waiting a \<Longrightarrow> image_mset phase_of (mset (sy_tasks y)) = ab_pending a \<Longrightarrow>
   sy_accepted y = ab_accepted a \<Longrightarrow> sy_log y = ab_log a \<Longrightarrow> abstraction s view y = a"
  by (simp add: abstraction_def)

lemmas waiting_same = waiting_cong [where v' = "view (rdb w')" and v = "view (rdb w)" for view w' w]

text \<open>One lemma per kind of step: the abstract step it is, and what stays of the concrete invariant.\<close>

definition refines :: "'s Scheduler \<Rightarrow> ('s \<Rightarrow> keyspace) \<Rightarrow> 's system \<Rightarrow> move \<Rightarrow> 's system \<Rightarrow> bool" where
  "refines s view y m y' \<longleftrightarrow> astep (abstraction s view y) m (abstraction s view y') \<and>
     wf_backlog (sd_json s) (view (rdb (sy_world y'))) \<and>
     (\<forall>cs r. AddWorkerTask cs r \<in> set (sy_tasks y') \<longrightarrow> set cs \<subseteq> pool_controllers s)"

lemma abstraction_same:
  assumes "view (rdb w') backlogKey = view (rdb (sy_world y)) backlogKey"
  shows "abstraction s view (y\<lparr>sy_world := w'\<rparr>) = abstraction s view y"
    and "wf_backlog J (view (rdb w')) = wf_backlog J (view (rdb (sy_world y)))"
  using waiting_same [where view = view, OF assms] by (simp_all add: abstraction_def)

lemma refines_submit:
  assumes env: "scheduler_env view s" and ok: "system_ok s view y"
    and "Run s now r (sy_world y) = (Inr ts, w')" and "0 \<le> r_RetryCount r"
  shows "refines s view y Submit (y\<lparr>sy_world := w', sy_tasks := sy_tasks y @ ts, sy_accepted := r_ContainerId r # sy_accepted y\<rparr>)"
proof -
  let ?a = "abstraction s view y"
  have R: "redis_up (sd_rdb s) view" and k: "env_keeps view s" and j: "\<forall>r. json_ok (sd_json s) r"
    and wf: "wf_backlog (sd_json s) (view (rdb (sy_world y)))"
    and cs: "\<forall>cs r. AddWorkerTask cs r \<in> set (sy_tasks y) \<longrightarrow> set cs \<subseteq> pool_controllers s"
    using env ok by (auto simp: scheduler_env_def system_ok_def)
  have "wp (Run s now r) (\<lambda>ts w'. refines s view y Submit
      (y\<lparr>sy_world := w', sy_tasks := sy_tasks y @ ts, sy_accepted := r_ContainerId r # sy_accepted y\<rparr>)) (\<lambda>_ _. True) (sy_world y)"
  proof (rule redis_up.up_Run [OF R k refl j wf], goal_cases)
    case (1 r' w')
    then have abs: "abstraction s view (y\<lparr>sy_world := w', sy_tasks := sy_tasks y @ [], sy_accepted := r_ContainerId r # sy_accepted y\<rparr>) =
        ?a\<lparr>ab_waiting := insert r' (ab_waiting ?a), ab_accepted := r_ContainerId r' # ab_accepted ?a\<rparr>"
      by (intro abstraction_eqI) simp_all
    show ?case unfolding refines_def abs using 1 cs a_accept [of r' ?a] by simp
  next
    case (2 r' w')
    then have abs: "abstraction s view (y\<lparr>sy_world := w', sy_tasks := sy_tasks y @ [RetryTask r'], sy_accepted := r_ContainerId r # sy_accepted y\<rparr>) =
        ?a\<lparr>ab_pending := add_mset (Retrying, r') (ab_pending ?a), ab_accepted := r_ContainerId r' # ab_accepted ?a\<rparr>"
      by (intro abstraction_eqI) (simp_all add: waiting_same [where view = view, OF 2(4)])
    show ?case
      unfolding refines_def abs using 2 cs wf assms(4) a_accept_late [of r' ?a] by (auto simp: waiting_same [where view = view, OF 2(4)])
  qed simp
  from wp_Inr [OF this assms(3)] show ?thesis .
qed

lemma refines_process:
  assumes env: "scheduler_env view s" and ok: "system_ok s view y"
    and "processRequest s (sy_world y) = (Inr (ts, os), w')"
  shows "refines s view y
      (if waiting (sd_json s) (view (rdb w')) = waiting (sd_json s) (view (rdb (sy_world y))) then Poll else Take)
      (y\<lparr>sy_world := w', sy_tasks := sy_tasks y @ ts, sy_log := sy_log y @ os\<rparr>)"
proof -
  let ?a = "abstraction s view y" and ?W = "waiting (sd_json s) (view (rdb (sy_world y)))"
  have R: "redis_up (sd_rdb s) view" and k: "env_keeps view s" and j: "\<forall>r. json_ok (sd_json s) r" and srt: "go_sort (sd_sortPools s)"
    and wf: "wf_backlog (sd_json s) (view (rdb (sy_world y)))" and pos: "\<forall>r \<in> ?W. r_RetryCount r \<noteq> 0"
    and cs: "\<forall>cs r. AddWorkerTask cs r \<in> set (sy_tasks y) \<longrightarrow> set cs \<subseteq> pool_controllers s"
    using env ok by (auto simp: scheduler_env_def system_ok_def retries_ok_def)
  have "wp (processRequest s) (\<lambda>(ts, os) w'. refines s view y
      (if waiting (sd_json s) (view (rdb w')) = ?W then Poll else Take)
      (y\<lparr>sy_world := w', sy_tasks := sy_tasks y @ ts, sy_log := sy_log y @ os\<rparr>)) (\<lambda>_ _. True) (sy_world y)"
  proof (rule redis_up.wp_processRequest [OF R k refl srt wf pos], goal_cases)
    case (1 w')
    then have abs: "abstraction s view (y\<lparr>sy_world := w', sy_tasks := sy_tasks y @ [], sy_log := sy_log y @ []\<rparr>) = ?a"
      by (intro abstraction_eqI) (simp_all add: waiting_same [where view = view, OF 1])
    show ?case
      unfolding prod.case refines_def abs using cs wf by (auto simp: waiting_same [where view = view, OF 1] intro: a_poll)
  next
    case (2 r ts os w')
    then have r: "r \<in> ab_waiting ?a" by simp
    have label: "(if waiting (sd_json s) (view (rdb w')) = ?W then Poll else Take) = Take" using 2(1,2) by auto
    have abs: "abstraction s view (y\<lparr>sy_world := w', sy_tasks := sy_tasks y @ ts, sy_log := sy_log y @ os\<rparr>) =
        ?a\<lparr>ab_waiting := ab_waiting ?a - {r}, ab_pending := ab_pending ?a + image_mset phase_of (mset ts), ab_log := ab_log ?a @ os\<rparr>"
      using 2 by (intro abstraction_eqI) simp_all
    have "astep ?a Take (?a\<lparr>ab_waiting := ab_waiting ?a - {r}, ab_pending := ab_pending ?a + image_mset phase_of (mset ts), ab_log := ab_log ?a @ os\<rparr>)"
      using 2(4) by (intro astep_take [OF r]) (auto simp: tried_def)
    then show ?case
      unfolding prod.case label refines_def abs using 2(3,4) cs by (auto simp: tried_def)
  qed simp
  from wp_Inr [OF this assms(3)] show ?thesis by simp
qed

lemma refines_task:
  assumes env: "scheduler_env view s" and ok: "system_ok s view y"
    and ts: "sy_tasks y = ts1 @ t # ts2" and "runTask s now t (sy_world y) = (Inr (ts, os), w')"
  shows "refines s view y RunTask (y\<lparr>sy_world := w', sy_tasks := ts1 @ ts2 @ ts, sy_log := sy_log y @ os\<rparr>)"
proof -
  let ?a = "abstraction s view y" and ?W = "waiting (sd_json s) (view (rdb (sy_world y)))"
  let ?P = "image_mset phase_of (mset (ts1 @ ts2))"
  have R: "redis_up (sd_rdb s) view" and k: "env_keeps view s" and j: "\<forall>r. json_ok (sd_json s) r"
    and wf: "wf_backlog (sd_json s) (view (rdb (sy_world y)))" and pos: "1 \<le> r_RetryCount (snd (phase_of t))"
    and cs: "\<forall>cs r. AddWorkerTask cs r \<in> set (sy_tasks y) \<longrightarrow> set cs \<subseteq> pool_controllers s"
    using env ok by (auto simp: scheduler_env_def system_ok_def retries_ok_def ts split: prod.splits)
  have pend: "ab_pending ?a = add_mset (phase_of t) ?P" by (simp add: ts)
  have abs: "abstraction s view (y\<lparr>sy_world := w', sy_tasks := ts1 @ ts2 @ ts, sy_log := sy_log y @ os\<rparr>) =
      ?a\<lparr>ab_waiting := waiting (sd_json s) (view (rdb w')), ab_pending := ?P + image_mset phase_of (mset ts), ab_log := ab_log ?a @ os\<rparr>" for w' ts os
    by (intro abstraction_eqI) (simp_all add: add.assoc)
  have ok': "refines s view y RunTask (y\<lparr>sy_world := w', sy_tasks := ts1 @ ts2 @ ts, sy_log := sy_log y @ os\<rparr>)"
    if "astep ?a RunTask (?a\<lparr>ab_waiting := waiting (sd_json s) (view (rdb w')), ab_pending := ?P + image_mset phase_of (mset ts), ab_log := ab_log ?a @ os\<rparr>)"
      "wf_backlog (sd_json s) (view (rdb w'))" "\<forall>cs r. AddWorkerTask cs r \<notin> set ts" for w' ts os
    unfolding refines_def abs using that cs ts by auto
  have "wp (runTask s now t) (\<lambda>(ts, os) w'. refines s view y RunTask
      (y\<lparr>sy_world := w', sy_tasks := ts1 @ ts2 @ ts, sy_log := sy_log y @ os\<rparr>)) (\<lambda>_ _. True) (sy_world y)"
  proof (cases t)
    case (RetryTask r)
    note p = pend [unfolded RetryTask phase_of.simps]
    show ?thesis
      unfolding RetryTask runTask_def task.case
    proof (rule redis_up.wp_retryOrGiveUp [OF R refl], goal_cases)
      case (1 d)
      then show ?case unfolding prod.case by (intro ok' astep_task [OF p]) (use wf in simp_all)
    next
      case (2 w')
      then show ?case
        unfolding prod.case by (intro ok' astep_task [OF p]) (use wf in \<open>simp_all add: waiting_same [where view = view, OF 2]\<close>)
    qed simp
  next
    case (PushTask d r)
    note p = pend [unfolded PushTask phase_of.simps]
    show ?thesis
      unfolding PushTask runTask_def task.case
    proof (rule redis_up.up_pushAgain [OF R refl wf j [rule_format]], goal_cases)
      case (1 w')
      then show ?case unfolding prod.case by (intro ok' astep_task [OF p]) simp_all
    qed
  next
    case (AddWorkerTask cs' r)
    note p = pend [unfolded AddWorkerTask phase_of.simps]
    have c: "set cs' \<subseteq> pool_controllers s" "r_RetryCount r \<noteq> 0" using cs pos ts AddWorkerTask by auto
    show ?thesis
      unfolding AddWorkerTask runTask_def task.case
    proof (rule redis_up.wp_addWorker [OF R k refl c(2,1)], goal_cases)
      case (1 ts os w')
      then show ?case
        unfolding prod.case by (intro ok' astep_task [OF p]) (use wf in \<open>auto simp: waiting_same [where view = view, OF 1(2)] tried_def\<close>)
    qed simp
  qed
  from wp_Inr [OF this assms(4)] show ?thesis by simp
qed

lemma step_refines:
  assumes "scheduler_env view s" and "system_ok s view y" and "step s view y m y'"
  shows "astep (abstraction s view y) m (abstraction s view y')" and "system_ok s view y'"
proof -
  have *: "refines s view y m y'"
    using assms(3)
  proof cases
    case (accepted now r w' ts)
    then show ?thesis using refines_submit [OF assms(1,2)] by simp
  next
    case (rejected now r e w')
    have "wp (Run s now r) (\<lambda>_ _. True) (\<lambda>_ w'. view (rdb w') backlogKey = view (rdb (sy_world y)) backlogKey) (sy_world y)"
      by (rule redis_up.up_Run) (use assms in \<open>auto simp: scheduler_env_def system_ok_def\<close>)
    from wp_Inl [OF this rejected(3)] have "view (rdb w') backlogKey = view (rdb (sy_world y)) backlogKey" .
    from abstraction_same [where view = view, OF this] show ?thesis
      using rejected assms(2) by (simp add: refines_def system_ok_def a_other)
  next
    case (processed ts os w')
    then show ?thesis using refines_process [OF assms(1,2)] by simp
  next
    case (task ts1 t ts2 now ts os w')
    then show ?thesis using refines_task [OF assms(1,2)] by simp
  next
    case (other w')
    from abstraction_same [where view = view, OF other(3)] show ?thesis
      using other assms(2) by (simp add: refines_def system_ok_def a_other)
  qed
  then show "astep (abstraction s view y) m (abstraction s view y')" by (simp add: refines_def)
  from astep_retries_ok [OF this] * assms(2) show "system_ok s view y'" by (simp add: refines_def system_ok_def)
qed

lemma run_invariants:
  assumes "scheduler_env view s" and "run s view y ms y'" and "system_ok s view y"
  shows "system_ok s view y' \<and>
    (set (sy_accepted y) \<subseteq> accounted (abstraction s view y) \<longrightarrow> set (sy_accepted y') \<subseteq> accounted (abstraction s view y')) \<and>
    (Submit \<notin> set ms \<longrightarrow>
      weight (abstraction s view y') + length (filter (\<lambda>m. m = Take \<or> m = RunTask) ms) \<le> weight (abstraction s view y))"
  using assms(2,3)
proof (induction rule: run.induct)
  case (run_Cons y m y1 ms y2)
  note st = step_refines [OF assms(1) run_Cons.prems run_Cons.hyps(1)]
  have "retries_ok (abstraction s view y)" using run_Cons.prems by (simp add: system_ok_def)
  with run_Cons.IH [OF st(2)] astep_accounted [OF st(1)] astep_weight [OF st(1)] show ?case by auto
qed simp

section \<open>An example\<close>

lemma ex_scheduler_env: "scheduler_env mem_view ex_scheduler"
  by (simp add: scheduler_env_def mem.redis_up_axioms plain_codec_ok isort.go_sort_axioms env_keeps_def NewWorkerPoolManager_def
      NewSafeMap_def ex_backend_def keeps_returnE keeps_throwE)

text \<open>A goroutine that has a request to put back.\<close>

definition ex_system :: "mem system" where
  "ex_system = \<lparr>sy_world = ex_empty, sy_tasks = [RetryTask (ex_request\<lparr>r_RetryCount := 1\<rparr>)], sy_accepted = [''c1''], sy_log = []\<rparr>"

definition ex_next :: "mem system" where
  "ex_next = ex_system\<lparr>sy_tasks := [PushTask (2 * second) (ex_request\<lparr>r_RetryCount := 1\<rparr>)]\<rparr>"

lemma ex_system_ok: "system_ok ex_scheduler mem_view ex_system"
  by (simp add: system_ok_def retries_ok_def ex_system_def ex_submission)

lemma ex_step: "step ex_scheduler mem_view ex_system RunTask ex_next"
proof -
  have *: "runTask ex_scheduler 5 (RetryTask (ex_request\<lparr>r_RetryCount := 1\<rparr>)) ex_empty =
     (Inr ([PushTask (2 * second) (ex_request\<lparr>r_RetryCount := 1\<rparr>)], []), ex_empty)"
    by (simp add: runTask_def retryOrGiveUp_def returnE_def maxScheduleRetryCount_def maxScheduleRetryDuration_def time_sub_def second_def
        ex_request_def zero_ContainerRequest_def calculateBackoffDelay_def i64_id in_i64_def)
  have "step ex_scheduler mem_view ex_system RunTask (ex_system\<lparr>sy_world := ex_empty,
     sy_tasks := [] @ [] @ [PushTask (2 * second) (ex_request\<lparr>r_RetryCount := 1\<rparr>)], sy_log := sy_log ex_system @ []\<rparr>)"
    by (rule step.task) (use * in \<open>simp_all add: ex_system_def\<close>)
  then show ?thesis by (simp add: ex_system_def ex_next_def)
qed

section \<open>Properties\<close>

text \<open>
  C2. The scheduler implements the abstract system: under the assumptions about its surroundings every step of the
  scheduler from a good state, a submission, an iteration of its loop, a goroutine or a change of Redis outside
  the backlog, is a step of the abstract system, and leads to a good state.
\<close>

theorem scheduler_refines_abstract_system:
  assumes "scheduler_env view s" and "system_ok s view y" and "step s view y m y'"
  shows "astep (abstraction s view y) m (abstraction s view y') \<and> system_ok s view y'"
  using step_refines [OF assms] by simp

theorem scheduler_refines_abstract_system_witness:
  "astep (abstraction ex_scheduler mem_view ex_system) RunTask (abstraction ex_scheduler mem_view ex_next) \<and>
   system_ok ex_scheduler mem_view ex_next"
  by (rule scheduler_refines_abstract_system [OF ex_scheduler_env ex_system_ok ex_step])

text \<open>
  C1. No accepted request is lost: after any run that starts with an empty backlog and no goroutine, the id of every
  accepted request is that of a request in the backlog, of a request in a goroutine, or of one that has been
  scheduled, given up, or dropped for lack of a controller; and no request waits that has been counted more than
  three times.
\<close>

theorem no_request_lost:
  assumes "scheduler_env view s" and "view (rdb w) backlogKey = None"
    and "run s view \<lparr>sy_world = w, sy_tasks = [], sy_accepted = [], sy_log = []\<rparr> ms y"
  shows "set (sy_accepted y) \<subseteq> r_ContainerId ` waiting (sd_json s) (view (rdb (sy_world y))) \<union>
       (r_ContainerId \<circ> snd \<circ> phase_of) ` set (sy_tasks y) \<union> about ` set (sy_log y) \<and>
     (\<forall>r \<in> waiting (sd_json s) (view (rdb (sy_world y))). 1 \<le> r_RetryCount r \<and> r_RetryCount r \<le> maxScheduleRetryCount)"
proof -
  let ?y = "\<lparr>sy_world = w, sy_tasks = [], sy_accepted = [], sy_log = []\<rparr>"
  have "system_ok s view ?y"
    using assms(2) by (simp add: system_ok_def wf_backlog_def retries_ok_def waiting_def)
  from run_invariants [OF assms(1,3) this]
  have ok: "system_ok s view y" and "set (sy_accepted y) \<subseteq> accounted (abstraction s view y)" by simp_all
  moreover have "(r_ContainerId \<circ> snd) ` set_mset (ab_pending (abstraction s view y)) = (r_ContainerId \<circ> snd \<circ> phase_of) ` set (sy_tasks y)"
    by (simp add: image_image)
  ultimately show ?thesis using ok by (simp add: accounted_def system_ok_def retries_ok_def)
qed

theorem no_request_lost_witness:
  "\<exists>y. run ex_scheduler mem_view \<lparr>sy_world = ex_empty, sy_tasks = [], sy_accepted = [], sy_log = []\<rparr> [Submit] y \<and> sy_accepted y = [''c1''] \<and>
     ''c1'' \<in> r_ContainerId ` waiting plain_codec (mem_view (rdb (sy_world y))) \<union>
       (r_ContainerId \<circ> snd \<circ> phase_of) ` set (sy_tasks y) \<union> about ` set (sy_log y)"
proof -
  let ?y = "\<lparr>sy_world = ex_empty, sy_tasks = [], sy_accepted = [], sy_log = []\<rparr> :: mem system"
  have "wp (Run ex_scheduler 5 ex_request) (\<lambda>ts w'. ts = []) (\<lambda>_ _. False) ex_empty"
    by (rule wp_mono [OF mem.up_Run_no_quota [OF _ _ _ ex_submission(3)]])
      (auto simp: ex_submission plain_codec_ok ex_request_def zero_ContainerRequest_def in_i64_def)
  from wp_success [OF this] obtain w' where "Run ex_scheduler 5 ex_request ex_empty = (Inr [], w')" by auto
  then have "step ex_scheduler mem_view ?y Submit (?y\<lparr>sy_world := w', sy_tasks := sy_tasks ?y @ [], sy_accepted := r_ContainerId ex_request # sy_accepted ?y\<rparr>)"
    by (intro step.accepted) (simp_all add: ex_request_def zero_ContainerRequest_def)
  then have r: "run ex_scheduler mem_view ?y [Submit] \<lparr>sy_world = w', sy_tasks = [], sy_accepted = [''c1''], sy_log = []\<rparr>"
    by (simp add: ex_request_def run_Cons [OF _ run_Nil])
  show ?thesis
    by (rule exI, rule conjI, rule r) (use no_request_lost [OF ex_scheduler_env _ r] in simp)
qed

text \<open>
  C7. The scheduler comes to rest: in a run without submissions the number of requests taken from the backlog plus the
  number of goroutines that run is at most the weight of the first state, which gives each waiting request eleven at
  most and each goroutine ten at most, however long the run is.
\<close>

theorem scheduler_comes_to_rest:
  assumes "scheduler_env view s" and "system_ok s view y" and "run s view y ms y'" and "Submit \<notin> set ms"
  shows "length (filter (\<lambda>m. m = Take \<or> m = RunTask) ms) \<le> weight (abstraction s view y) \<and>
     weight (abstraction s view y) \<le> 11 * card (waiting (sd_json s) (view (rdb (sy_world y)))) + 10 * length (sy_tasks y)"
proof
  show "length (filter (\<lambda>m. m = Take \<or> m = RunTask) ms) \<le> weight (abstraction s view y)"
    using run_invariants [OF assms(1,3,2)] assms(4) by simp
  let ?W = "waiting (sd_json s) (view (rdb (sy_world y)))"
  have ok: "\<forall>r \<in> ?W. 1 \<le> r_RetryCount r" "\<forall>t \<in> set (sy_tasks y). 1 \<le> r_RetryCount (snd (phase_of t))"
    using assms(2) by (auto simp: system_ok_def retries_ok_def split_beta)
  have "(\<Sum>r \<in> ?W. rounds r + 3) \<le> (\<Sum>r \<in> ?W. 11)"
    by (rule sum_mono) (use ok(1) rounds_le in fastforce)
  moreover have "pending_weight (phase_of t) \<le> 10" if "t \<in> set (sy_tasks y)" for t
    using rounds_le [OF bspec [OF ok(2) that]] by (cases t) simp_all
  then have "sum_list (map (pending_weight \<circ> phase_of) (sy_tasks y)) \<le> sum_list (map (\<lambda>_. 10) (sy_tasks y))"
    by (intro sum_list_mono) simp
  ultimately show "weight (abstraction s view y) \<le> 11 * card ?W + 10 * length (sy_tasks y)"
    by (simp add: weight_def image_mset.compositionality sum_mset_sum_list sum_list_triv flip: mset_map)
qed

theorem scheduler_comes_to_rest_witness:
  "run ex_scheduler mem_view ex_system [RunTask] ex_next \<and> 1 \<le> weight (abstraction ex_scheduler mem_view ex_system) \<and>
   weight (abstraction ex_scheduler mem_view ex_system) \<le> 10"
proof -
  have r: "run ex_scheduler mem_view ex_system [RunTask] ex_next"
    by (rule run_Cons [OF ex_step run_Nil])
  from scheduler_comes_to_rest [OF ex_scheduler_env ex_system_ok r]
  have "1 \<le> weight (abstraction ex_scheduler mem_view ex_system) \<and>
     weight (abstraction ex_scheduler mem_view ex_system) \<le> 11 * card (waiting plain_codec (mem_view (rdb ex_empty))) + 10"
    by (simp add: ex_system_def)
  with r show ?thesis by (simp add: ex_submission)
qed

end
