(* ===== verification/Task_Repo.thy ===== *)
theory Task_Repo
  imports Worker_Repo Task_Message
begin

text \<open>
  The task repository (\<open>pkg/repository/task_redis.go\<close>): the entry, the claim and the indices of a task in Redis. The lemmas
  say what each operation does to the keys of one task and that it leaves the keys of every other task alone.
\<close>

section \<open>Operations\<close>

definition ClaimTask :: "'s redis_client \<Rightarrow> string \<Rightarrow> string \<Rightarrow> string \<Rightarrow> string \<Rightarrow> ('s world, unit) io" where
  "ClaimTask R workspaceName stubId taskId containerId =
     thenE (wrapE ''failed to claim task'' (SetKey R (TaskClaim workspaceName stubId taskId) containerId 0))
           (wrapE ''failed to add task to claim index'' (SAdd R (TaskClaimIndex workspaceName stubId) taskId))"

definition RemoveTaskClaim :: "'s redis_client \<Rightarrow> string \<Rightarrow> string \<Rightarrow> string \<Rightarrow> ('s world, unit) io" where
  "RemoveTaskClaim R workspaceName stubId taskId =
     thenE (wrapE ''failed to remove task claim'' (Del R (TaskClaim workspaceName stubId taskId)))
           (wrapE ''failed to remove task from claim index'' (SRem R (TaskClaimIndex workspaceName stubId) taskId))"

definition TasksClaimed :: "'s redis_client \<Rightarrow> string \<Rightarrow> string \<Rightarrow> ('s world, nat) io" where
  "TasksClaimed R workspaceName stubId =
     bindE (SMembers R (TaskClaimIndex workspaceName stubId)) (\<lambda>tasks. returnE (length tasks))"

definition IsClaimed :: "'s redis_client \<Rightarrow> string \<Rightarrow> string \<Rightarrow> string \<Rightarrow> ('s world, bool) io" where
  "IsClaimed R workspaceName stubId taskId =
     wrapE ''failed to retrieve claim task'' (Exists R (TaskClaim workspaceName stubId taskId))"

text \<open>A pipeline sends every command; its error is the first one.\<close>

fun Pipelined :: "('s, unit) io list \<Rightarrow> ('s, unit) io" where
  "Pipelined [] = returnE ()"
| "Pipelined (c # cs) =
     bindE (attempt c) (\<lambda>r. bindE (attempt (Pipelined cs)) (\<lambda>r'. case r of Inl e \<Rightarrow> throwE e | Inr _ \<Rightarrow> (case r' of Inl e \<Rightarrow> throwE e | Inr _ \<Rightarrow> returnE ())))"

definition DeleteTaskState :: "'s redis_client \<Rightarrow> string \<Rightarrow> string \<Rightarrow> string \<Rightarrow> ('s world, unit) io" where
  "DeleteTaskState R workspaceName stubId taskId =
     (let entryKey = TaskEntry workspaceName stubId taskId
      in Pipelined [SRem R TaskIndex entryKey, SRem R (TaskClaimIndex workspaceName stubId) taskId,
                    SRem R (TaskIndexByStub workspaceName stubId) taskId, Del R entryKey, Del R (TaskClaim workspaceName stubId taskId)])"

definition SetTaskState :: "'s redis_client \<Rightarrow> string \<Rightarrow> string \<Rightarrow> string \<Rightarrow> string \<Rightarrow> ('s world, unit) io" where
  "SetTaskState R workspaceName stubId taskId msg =
     (let entryKey = TaskEntry workspaceName stubId taskId
      in thenE (wrapE ''failed to add task key to index'' (SAdd R TaskIndex entryKey))
         (bindE (attempt (SetKey R entryKey msg 0)) (\<lambda>r.
            case r of
              Inl e \<Rightarrow> thenE (attempt (DeleteTaskState R workspaceName stubId taskId)) (throwE e)
            | Inr _ \<Rightarrow> wrapE ''failed to add task key to stub index'' (SAdd R (TaskIndexByStub workspaceName stubId) taskId))))"

text \<open>The error of \<open>Decode\<close> is ignored.\<close>

definition GetTaskState :: "'s redis_client \<Rightarrow> task_codec \<Rightarrow> string \<Rightarrow> string \<Rightarrow> string \<Rightarrow> ('s world, TaskMessage) io" where
  "GetTaskState R C workspaceName stubId taskId =
     bindE (Get R (TaskEntry workspaceName stubId taskId)) (\<lambda>msg. returnE (fst (Decode C msg)))"

definition TasksInFlight :: "'s redis_client \<Rightarrow> string \<Rightarrow> string \<Rightarrow> ('s world, nat) io" where
  "TasksInFlight R workspaceName stubId =
     bindE (SMembers R (TaskIndexByStub workspaceName stubId)) (\<lambda>tasks. returnE (length tasks))"

definition forgetTask :: "'s redis_client \<Rightarrow> string \<Rightarrow> ('s world, unit) io" where
  "forgetTask R taskKey =
     (let parts = Split CHR '':'' taskKey
      in if length parts \<ge> 4 then thenE (attempt (DeleteTaskState R (parts ! 1) (parts ! 2) (parts ! 3))) (returnE ()) else returnE ())"

fun readTasks :: "'s redis_client \<Rightarrow> task_codec \<Rightarrow> string list \<Rightarrow> TaskMessage list \<Rightarrow> ('s world, TaskMessage list) io" where
  "readTasks R C [] taskMessages = returnE taskMessages"
| "readTasks R C (taskKey # tasks) taskMessages =
     bindE (attempt (Get R taskKey)) (\<lambda>r.
       case r of
         Inl e \<Rightarrow> if e = RedisNil then thenE (forgetTask R taskKey) (readTasks R C tasks taskMessages)
                  else readTasks R C tasks taskMessages
       | Inr msg \<Rightarrow> readTasks R C tasks (taskMessages @ [fst (Decode C msg)]))"

definition GetTasksInFlight :: "'s redis_client \<Rightarrow> task_codec \<Rightarrow> ('s world, TaskMessage list) io" where
  "GetTasksInFlight R C = bindE (SMembers R TaskIndex) (\<lambda>tasks. readTasks R C tasks [])"

definition SetTaskRetryLock :: "'s redis_client \<Rightarrow> string \<Rightarrow> string \<Rightarrow> string \<Rightarrow> ('s world, unit) io" where
  "SetTaskRetryLock R workspaceName stubId taskId = Acquire R (TaskRetryLock workspaceName stubId taskId) 300 0"

definition RemoveTaskRetryLock :: "'s redis_client \<Rightarrow> string \<Rightarrow> string \<Rightarrow> string \<Rightarrow> ('s world, unit) io" where
  "RemoveTaskRetryLock R workspaceName stubId taskId = Release R (TaskRetryLock workspaceName stubId taskId)"

section \<open>The keys of a task\<close>

text \<open>Identifiers hold no colon, and a task is not called like an index.\<close>

definition task_name :: "string \<Rightarrow> string \<Rightarrow> string \<Rightarrow> bool" where
  "task_name ws st i \<longleftrightarrow> plain ws \<and> plain st \<and> plain i \<and> i \<noteq> ''stub_index'' \<and> i \<noteq> ''claim_index''"

lemma key_neqI: "Split c k \<noteq> Split c k' \<Longrightarrow> k \<noteq> k'"
  by auto

lemma task_keys_distinct:
  assumes "task_name ws st i" and "task_name ws' st' i'"
  shows "TaskEntry ws st i \<noteq> TaskClaim ws' st' i'" "TaskEntry ws st i \<noteq> TaskRetryLock ws' st' i'"
    "TaskEntry ws st i \<noteq> TaskIndexByStub ws' st'" "TaskEntry ws st i \<noteq> TaskClaimIndex ws' st'" "TaskEntry ws st i \<noteq> TaskIndex"
    "TaskClaim ws st i \<noteq> TaskRetryLock ws' st' i'" "TaskClaim ws st i \<noteq> TaskIndexByStub ws' st'"
    "TaskClaim ws st i \<noteq> TaskClaimIndex ws' st'" "TaskClaim ws st i \<noteq> TaskIndex"
    "TaskRetryLock ws st i \<noteq> TaskIndexByStub ws' st'" "TaskRetryLock ws st i \<noteq> TaskClaimIndex ws' st'" "TaskRetryLock ws st i \<noteq> TaskIndex"
    "TaskIndexByStub ws st \<noteq> TaskClaimIndex ws' st'" "TaskIndexByStub ws st \<noteq> TaskIndex" "TaskClaimIndex ws st \<noteq> TaskIndex"
  using assms by - (rule key_neqI [of "CHR '':''"], simp add: task_name_def Split_task_keys; fail)+

lemma task_keys_inj:
  assumes "task_name ws st i" and "task_name ws' st' i'"
  shows "TaskEntry ws st i = TaskEntry ws' st' i' \<longleftrightarrow> ws = ws' \<and> st = st' \<and> i = i'"
    "TaskClaim ws st i = TaskClaim ws' st' i' \<longleftrightarrow> ws = ws' \<and> st = st' \<and> i = i'"
    "TaskRetryLock ws st i = TaskRetryLock ws' st' i' \<longleftrightarrow> ws = ws' \<and> st = st' \<and> i = i'"
proof -
  have "Split CHR '':'' (TaskEntry ws st i) = Split CHR '':'' (TaskEntry ws' st' i') \<longleftrightarrow> ws = ws' \<and> st = st' \<and> i = i'"
    using assms by (simp add: task_name_def Split_task_keys)
  then show "TaskEntry ws st i = TaskEntry ws' st' i' \<longleftrightarrow> ws = ws' \<and> st = st' \<and> i = i'" by metis
  have "Split CHR '':'' (TaskClaim ws st i) = Split CHR '':'' (TaskClaim ws' st' i') \<longleftrightarrow> ws = ws' \<and> st = st' \<and> i = i'"
    using assms by (simp add: task_name_def Split_task_keys)
  then show "TaskClaim ws st i = TaskClaim ws' st' i' \<longleftrightarrow> ws = ws' \<and> st = st' \<and> i = i'" by metis
  have "Split CHR '':'' (TaskRetryLock ws st i) = Split CHR '':'' (TaskRetryLock ws' st' i') \<longleftrightarrow> ws = ws' \<and> st = st' \<and> i = i'"
    using assms by (simp add: task_name_def Split_task_keys)
  then show "TaskRetryLock ws st i = TaskRetryLock ws' st' i' \<longleftrightarrow> ws = ws' \<and> st = st' \<and> i = i'" by metis
qed

lemmas task_keys [simp] = task_keys_distinct task_keys_distinct [symmetric] task_keys_inj

section \<open>What the operations do\<close>

definition tasks_typed :: "keyspace \<Rightarrow> string \<Rightarrow> string \<Rightarrow> bool" where
  "tasks_typed v ws st \<longleftrightarrow> isSet (v TaskIndex) \<and> isSet (v (TaskIndexByStub ws st)) \<and> isSet (v (TaskClaimIndex ws st))"

text \<open>The keyspace after each operation.\<close>

definition stored_task :: "string \<Rightarrow> string \<Rightarrow> string \<Rightarrow> string \<Rightarrow> keyspace \<Rightarrow> keyspace" where
  "stored_task ws st i msg v = v(TaskIndex \<mapsto> RSet (insert (TaskEntry ws st i) (setOf (v TaskIndex))), TaskEntry ws st i \<mapsto> RStr msg,
     TaskIndexByStub ws st \<mapsto> RSet (insert i (setOf (v (TaskIndexByStub ws st)))))"

definition forgotten_task :: "string \<Rightarrow> string \<Rightarrow> string \<Rightarrow> keyspace \<Rightarrow> keyspace" where
  "forgotten_task ws st i v = v(TaskIndex := putSet (setOf (v TaskIndex) - {TaskEntry ws st i}),
     TaskClaimIndex ws st := putSet (setOf (v (TaskClaimIndex ws st)) - {i}),
     TaskIndexByStub ws st := putSet (setOf (v (TaskIndexByStub ws st)) - {i}), TaskEntry ws st i := None, TaskClaim ws st i := None)"

definition claimed_task :: "string \<Rightarrow> string \<Rightarrow> string \<Rightarrow> string \<Rightarrow> keyspace \<Rightarrow> keyspace" where
  "claimed_task ws st i c v = v(TaskClaim ws st i \<mapsto> RStr c, TaskClaimIndex ws st \<mapsto> RSet (insert i (setOf (v (TaskClaimIndex ws st)))))"

definition unclaimed_task :: "string \<Rightarrow> string \<Rightarrow> string \<Rightarrow> keyspace \<Rightarrow> keyspace" where
  "unclaimed_task ws st i v = v(TaskClaim ws st i := None, TaskClaimIndex ws st := putSet (setOf (v (TaskClaimIndex ws st)) - {i}))"

lemmas task_effects = stored_task_def forgotten_task_def claimed_task_def unclaimed_task_def

lemma isSet_putSet [simp]: "isSet (putSet A)"
  by (simp add: putSet_def)

lemma tasks_typed_effects [simp]:
  assumes "task_name ws st i" and "tasks_typed v ws st"
  shows "tasks_typed (stored_task ws st i msg v) ws st" "tasks_typed (forgotten_task ws st i v) ws st"
    "tasks_typed (claimed_task ws st i c v) ws st" "tasks_typed (unclaimed_task ws st i v) ws st"
  using assms task_keys_distinct [OF assms(1,1)] by (simp_all add: tasks_typed_def task_effects)

context redis_up
begin

lemma up_Pipelined_Nil: "Q () w \<Longrightarrow> wp (Pipelined []) Q E w"
  by (simp add: wp_eqs)

lemma up_Pipelined_Cons:
  assumes "wp c (\<lambda>_. wp (Pipelined cs) Q (\<lambda>_ _. False)) (\<lambda>_ _. False) w"
  shows "wp (Pipelined (c # cs)) Q E w"
  using assms by (auto simp: wp_eqs elim!: wp_mono)

lemma up_DeleteTaskState:
  assumes "task_name ws st i" and "tasks_typed (V w) ws st"
    and "\<And>w'. V w' = forgotten_task ws st i (V w) \<Longrightarrow> locks w' = locks w \<Longrightarrow> Q () w'"
  shows "wp (DeleteTaskState R ws st i) Q E w"
  unfolding DeleteTaskState_def Let_def
  using assms(2) task_keys_distinct [OF assms(1,1)]
  by (intro up_Pipelined_Cons up_SRem up_Del up_Pipelined_Nil)
     (auto simp: tasks_typed_def forgotten_task_def fun_upd_twist intro!: assms(3))

lemma up_SetTaskState:
  assumes "task_name ws st i" and "tasks_typed (V w) ws st"
    and "\<And>w'. V w' = stored_task ws st i msg (V w) \<Longrightarrow> locks w' = locks w \<Longrightarrow> Q () w'"
  shows "wp (SetTaskState R ws st i msg) Q E w"
  unfolding SetTaskState_def Let_def wp_eqs
  using assms(2) task_keys_distinct [OF assms(1,1)]
  by (intro up_SAdd up_SetKey) (auto simp: wp_eqs tasks_typed_def stored_task_def intro!: up_SAdd assms(3))

lemma up_ClaimTask:
  assumes "task_name ws st i" and "tasks_typed (V w) ws st"
    and "\<And>w'. V w' = claimed_task ws st i c (V w) \<Longrightarrow> locks w' = locks w \<Longrightarrow> Q () w'"
  shows "wp (ClaimTask R ws st i c) Q E w"
  unfolding ClaimTask_def wp_eqs
  using assms(2) task_keys_distinct [OF assms(1,1)]
  by (intro up_SetKey up_SAdd) (auto simp: tasks_typed_def claimed_task_def intro!: assms(3))

lemma up_RemoveTaskClaim:
  assumes "task_name ws st i" and "tasks_typed (V w) ws st"
    and "\<And>w'. V w' = unclaimed_task ws st i (V w) \<Longrightarrow> locks w' = locks w \<Longrightarrow> Q () w'"
  shows "wp (RemoveTaskClaim R ws st i) Q E w"
  unfolding RemoveTaskClaim_def wp_eqs
  using assms(2) task_keys_distinct [OF assms(1,1)]
  by (intro up_Del up_SRem) (auto simp: tasks_typed_def unclaimed_task_def intro!: assms(3))

lemma up_IsClaimed:
  assumes "\<And>w'. V w' = V w \<Longrightarrow> locks w' = locks w \<Longrightarrow> Q (V w (TaskClaim ws st i) \<noteq> None) w'"
  shows "wp (IsClaimed R ws st i) Q E w"
  unfolding IsClaimed_def wp_eqs by (rule up_Exists) (rule assms)

lemma up_GetTaskState:
  assumes "V w (TaskEntry ws st i) = Some (RStr x)" and "\<And>w'. V w' = V w \<Longrightarrow> locks w' = locks w \<Longrightarrow> Q (fst (Decode C x)) w'"
  shows "wp (GetTaskState R C ws st i) Q E w"
  unfolding GetTaskState_def wp_eqs by (rule up_Get [OF assms(1)]) (rule assms(2))

lemma up_TasksInFlight:
  assumes "tasks_typed (V w) ws st"
    and "\<And>w'. V w' = V w \<Longrightarrow> locks w' = locks w \<Longrightarrow> Q (card (setOf (V w (TaskIndexByStub ws st)))) w'"
  shows "wp (TasksInFlight R ws st) Q E w"
  unfolding TasksInFlight_def wp_eqs
  by (rule up_SMembers) (use assms in \<open>auto simp: tasks_typed_def distinct_card [symmetric]\<close>)

end

section \<open>A well-formed task keyspace\<close>

text \<open>
  The indices are sets, entries and claims are strings, a task has an entry exactly when both indices name it, and a claim exactly
  when the index of claims names it.
\<close>

definition wf_tasks :: "keyspace \<Rightarrow> string \<Rightarrow> string \<Rightarrow> bool" where
  "wf_tasks v ws st \<longleftrightarrow> tasks_typed v ws st \<and> (\<forall>i. task_name ws st i \<longrightarrow>
     isStr (v (TaskEntry ws st i)) \<and> isStr (v (TaskClaim ws st i)) \<and>
     (i \<in> setOf (v (TaskIndexByStub ws st)) \<longleftrightarrow> v (TaskEntry ws st i) \<noteq> None) \<and>
     (TaskEntry ws st i \<in> setOf (v TaskIndex) \<longleftrightarrow> v (TaskEntry ws st i) \<noteq> None) \<and>
     (i \<in> setOf (v (TaskClaimIndex ws st)) \<longleftrightarrow> v (TaskClaim ws st i) \<noteq> None))"

datatype task_op = StoreTask string string | TakeTask string string | ReleaseTask string | ForgetTask string

fun op_task :: "task_op \<Rightarrow> string" where
  "op_task (StoreTask i _) = i" | "op_task (TakeTask i _) = i" | "op_task (ReleaseTask i) = i" | "op_task (ForgetTask i) = i"

fun runTaskOp :: "'s redis_client \<Rightarrow> string \<Rightarrow> string \<Rightarrow> task_op \<Rightarrow> ('s world, unit) io" where
  "runTaskOp R ws st (StoreTask i msg) = SetTaskState R ws st i msg"
| "runTaskOp R ws st (TakeTask i c) = ClaimTask R ws st i c"
| "runTaskOp R ws st (ReleaseTask i) = RemoveTaskClaim R ws st i"
| "runTaskOp R ws st (ForgetTask i) = DeleteTaskState R ws st i"

lemma wf_tasks_effects:
  assumes "task_name ws st i" and "wf_tasks v ws st"
  shows "wf_tasks (stored_task ws st i msg v) ws st" "wf_tasks (forgotten_task ws st i v) ws st"
    "wf_tasks (claimed_task ws st i c v) ws st" "wf_tasks (unclaimed_task ws st i v) ws st"
  using assms tasks_typed_effects [OF assms(1)] by (auto simp: wf_tasks_def task_effects)

context redis_up
begin

lemma up_runTaskOp:
  assumes "wf_tasks (V w) ws st" and "task_name ws st (op_task x)"
  shows "wp (runTaskOp R ws st x) (\<lambda>_ w'. wf_tasks (V w') ws st) (\<lambda>_ _. False) w"
proof -
  have ty: "tasks_typed (V w) ws st" using assms(1) by (simp add: wf_tasks_def)
  note wf = wf_tasks_effects [OF _ assms(1)]
  show ?thesis
    using assms(2) ty
    by (cases x) (auto intro!: up_SetTaskState up_ClaimTask up_RemoveTaskClaim up_DeleteTaskState simp: wf)
qed

lemma up_runTaskOps:
  assumes "wf_tasks (V w) ws st" and "list_all (\<lambda>x. task_name ws st (op_task x)) xs"
  shows "wp (forE (runTaskOp R ws st) xs) (\<lambda>_ w'. wf_tasks (V w') ws st) (\<lambda>_ _. False) w"
  using assms
proof (induction xs arbitrary: w)
  case Nil
  then show ?case by (simp add: wp_eqs)
next
  case (Cons x xs)
  then show ?case by (auto simp: wp_eqs intro!: wp_mono [OF up_runTaskOp])
qed

end

definition ex_no_tasks :: "mem world" where
  "ex_no_tasks = \<lparr>rdb = Map.empty, locks = Map.empty\<rparr>"

section \<open>Properties\<close>

text \<open>
  C19. The keys of the tasks of a stub stay well-formed: from a well-formed keyspace, any sequence of storing, claiming,
  releasing and deleting tasks of the stub succeeds, without an operation against a value of the wrong type, and
  leaves entries, claims and indices typed and in agreement with each other.
\<close>

theorem task_keyspace_well_formed:
  assumes "redis_up R view" and "wf_tasks (view (rdb w)) ws st" and "list_all (\<lambda>x. task_name ws st (op_task x)) xs"
  shows "\<exists>w'. forE (runTaskOp R ws st) xs w = (Inr (), w') \<and> wf_tasks (view (rdb w')) ws st"
  using wp_success [OF redis_up.up_runTaskOps [OF assms]] by auto

theorem task_keyspace_well_formed_witness:
  "\<exists>w'. forE (runTaskOp mem_client ''ws'' ''st'') [StoreTask ''t1'' ''m'', TakeTask ''t1'' ''c1'', ReleaseTask ''t1'', ForgetTask ''t1''] ex_no_tasks =
     (Inr (), w') \<and> wf_tasks (mem_view (rdb w')) ''ws'' ''st''"
proof -
  have "wf_tasks (mem_view (rdb ex_no_tasks)) ''ws'' ''st''" by (simp add: wf_tasks_def tasks_typed_def ex_no_tasks_def mem_view_def)
  then show ?thesis by (rule task_keyspace_well_formed [OF mem.redis_up_axioms]) (simp add: task_name_def plain_def)
qed

end
