(* ===== verification/Dispatcher.thy ===== *)
theory Dispatcher
  imports Request_Codec Task_Repo Pool_Manager Redis_Frames
begin

text \<open>
  The task dispatcher (\<open>pkg/task/dispatch.go\<close>): sending, retrieving, completing and retrying tasks, and one tick of the
  monitor that watches the tasks in flight. What a kind of task does is an interface, the record \<open>Task\<close> of the methods of
  \<open>types.TaskInterface\<close>; a method takes the message that the task points to. The locale \<open>executor\<close> is the contract that
  the properties of the dispatcher rest on. Uploading results to the workspace storage is not modelled.
\<close>

section \<open>Types\<close>

definition TaskExpired :: string where
  "TaskExpired = ''expired''"

definition TaskExceededRetryLimit :: string where
  "TaskExceededRetryLimit = ''exceeded_retry_limit''"

record TaskMetadata =
  md_TaskId :: string
  md_StubId :: string
  md_WorkspaceName :: string
  md_ContainerId :: string

record 's Task =
  tk_Message :: TaskMessage
  tk_Metadata :: TaskMetadata
  tk_Execute :: "TaskMessage \<Rightarrow> ('s world, unit) io"
  tk_Cancel :: "TaskMessage \<Rightarrow> string \<Rightarrow> ('s world, unit) io"
  tk_Retry :: "TaskMessage \<Rightarrow> ('s world, unit) io"
  tk_HeartBeat :: "TaskMessage \<Rightarrow> ('s world, bool) io"

type_synonym 's task_factory = "TaskMessage \<Rightarrow> ('s world, 's Task) io"

record 's Dispatcher =
  d_rdb :: "'s redis_client"
  d_codec :: task_codec
  d_executors :: "'s task_factory SafeMap"

section \<open>Operations\<close>

definition Register :: "string \<Rightarrow> 's task_factory \<Rightarrow> 's Dispatcher \<Rightarrow> 's Dispatcher" where
  "Register executor taskFactory d = d\<lparr>d_executors := SafeMap_Set executor taskFactory (d_executors d)\<rparr>"

text \<open>A message of the pool, new or reset; \<open>Send\<close> overwrites the policy that it has.\<close>

definition getTaskMessage :: "string \<Rightarrow> int \<Rightarrow> TaskMessage" where
  "getTaskMessage taskId now =
     zero_TaskMessage\<lparr>tm_TaskId := taskId, tm_Timestamp := now div second\<rparr>"

definition errInvalidExecutor :: "string \<Rightarrow> goerror" where
  "errInvalidExecutor executor = ErrNew (''invalid task executor: '' @ executor)"

definition DispatcherSend :: "'s Dispatcher \<Rightarrow> string \<Rightarrow> int \<Rightarrow> string \<Rightarrow> string \<Rightarrow> string \<Rightarrow>
    task_arg list \<Rightarrow> (string \<times> string) list \<Rightarrow> TaskPolicy \<Rightarrow> ('s world, 's Task) io" where
  "DispatcherSend d newId now executor workspaceName stubId args kwargs policy =
     (let taskMessage = (getTaskMessage newId now)\<lparr>tm_Executor := executor, tm_WorkspaceName := workspaceName, tm_StubId := stubId,
            tm_Args := args, tm_Kwargs := kwargs, tm_Policy := policy, tm_Timestamp := now div second\<rparr>
      in case SafeMap_Get executor (d_executors d) of
           None \<Rightarrow> throwE (errInvalidExecutor executor)
         | Some taskFactory \<Rightarrow>
             bindE (taskFactory taskMessage) (\<lambda>task.
             bindE (liftSum (Encode (d_codec d) taskMessage)) (\<lambda>msg.
             thenE (SetTaskState (d_rdb d) workspaceName stubId (md_TaskId (tk_Metadata task)) msg) (returnE task))))"

definition SendAndExecute :: "'s Dispatcher \<Rightarrow> string \<Rightarrow> int \<Rightarrow> string \<Rightarrow> string \<Rightarrow> string \<Rightarrow>
    task_arg list \<Rightarrow> (string \<times> string) list \<Rightarrow> TaskPolicy \<Rightarrow> ('s world, 's Task) io" where
  "SendAndExecute d newId now executor workspaceName stubId args kwargs policy =
     bindE (DispatcherSend d newId now executor workspaceName stubId args kwargs policy) (\<lambda>task.
       thenE (tk_Execute task (tk_Message task)) (returnE task))"

definition Retrieve :: "'s Dispatcher \<Rightarrow> string \<Rightarrow> string \<Rightarrow> string \<Rightarrow> ('s world, 's Task) io" where
  "Retrieve d workspaceName stubId taskId =
     bindE (GetTaskState (d_rdb d) (d_codec d) workspaceName stubId taskId) (\<lambda>taskMessage.
       case SafeMap_Get (tm_Executor taskMessage) (d_executors d) of
         None \<Rightarrow> throwE (errInvalidExecutor (tm_Executor taskMessage))
       | Some taskFactory \<Rightarrow> taskFactory taskMessage)"

definition Complete :: "'s Dispatcher \<Rightarrow> string \<Rightarrow> string \<Rightarrow> string \<Rightarrow> ('s world, unit) io" where
  "Complete d workspaceName stubId taskId = DeleteTaskState (d_rdb d) workspaceName stubId taskId"

definition DispatcherClaim :: "'s Dispatcher \<Rightarrow> string \<Rightarrow> string \<Rightarrow> string \<Rightarrow> string \<Rightarrow> ('s world, unit) io" where
  "DispatcherClaim d workspaceName stubId taskId containerId = ClaimTask (d_rdb d) workspaceName stubId taskId containerId"

definition retriedMessage :: "int \<Rightarrow> TaskMessage \<Rightarrow> TaskMessage" where
  "retriedMessage now m = m\<lparr>tm_Retries := tm_Retries m + 1, tm_Timestamp := now div second\<rparr>"

definition RetryTask :: "'s Dispatcher \<Rightarrow> int \<Rightarrow> 's Task \<Rightarrow> ('s world, unit) io" where
  "RetryTask d now task =
     (let taskMessage = tk_Message task; ws = tm_WorkspaceName taskMessage; st = tm_StubId taskMessage; i = tm_TaskId taskMessage
      in thenE (SetTaskRetryLock (d_rdb d) ws st i)
         (deferring (RemoveTaskRetryLock (d_rdb d) ws st i)
           (if tm_Retries taskMessage \<ge> tp_MaxRetries (tm_Policy taskMessage)
            then thenE (tk_Cancel task taskMessage TaskExceededRetryLimit) (Complete d ws st i)
            else thenE (RemoveTaskClaim (d_rdb d) ws st i)
                 (let taskMessage' = retriedMessage now taskMessage
                  in bindE (liftSum (Encode (d_codec d) taskMessage')) (\<lambda>msg.
                     thenE (SetTaskState (d_rdb d) ws st i msg) (tk_Retry task taskMessage'))))))"

section \<open>The monitor\<close>

text \<open>What a tick does with one task; errors are logged or skipped.\<close>

definition expireTask :: "'s Dispatcher \<Rightarrow> int \<Rightarrow> 's Task \<Rightarrow> TaskMessage \<Rightarrow> ('s world, unit) io" where
  "expireTask d now task m =
     (if now > tp_Expires (tm_Policy m)
      then thenE (tryE (tk_Cancel task (tk_Message task) TaskExpired))
             (thenE (attempt (Complete d (tm_WorkspaceName m) (tm_StubId m) (tm_TaskId m))) (returnE ()))
      else returnE ())"

definition monitorTask :: "'s Dispatcher \<Rightarrow> int \<Rightarrow> TaskMessage \<Rightarrow> ('s world, unit) io" where
  "monitorTask d now m =
     (case SafeMap_Get (tm_Executor m) (d_executors d) of
        None \<Rightarrow> thenE (attempt (Complete d (tm_WorkspaceName m) (tm_StubId m) (tm_TaskId m))) (returnE ())
      | Some taskFactory \<Rightarrow>
          bindE (tryE (taskFactory m)) (\<lambda>r.
            case r of
              Inl _ \<Rightarrow> returnE ()
            | Inr task \<Rightarrow>
                bindE (attempt (IsClaimed (d_rdb d) (tm_WorkspaceName m) (tm_StubId m) (tm_TaskId m))) (\<lambda>claimed.
                  case claimed of
                    Inl _ \<Rightarrow> returnE ()
                  | Inr False \<Rightarrow> expireTask d now task m
                  | Inr True \<Rightarrow>
                      bindE (tryE (tk_HeartBeat task (tk_Message task))) (\<lambda>heartbeat.
                        case heartbeat of
                          Inr False \<Rightarrow> thenE (tryE (RetryTask d now task)) (returnE ())
                        | _ \<Rightarrow> returnE ()))))"

definition monitorTick :: "'s Dispatcher \<Rightarrow> int \<Rightarrow> ('s world, unit) io" where
  "monitorTick d now =
     bindE (attempt (GetTasksInFlight (d_rdb d) (d_codec d))) (\<lambda>r.
       case r of
         Inl _ \<Rightarrow> returnE ()
       | Inr tasks \<Rightarrow> forE (monitorTask d now) tasks)"

section \<open>The contract of a kind of task\<close>

text \<open>
  A factory makes a task for any message without touching Redis. The methods of the task leave the keys of the task
  repository and the locks alone, and they do not panic.
\<close>

definition leaves_tasks :: "('s \<Rightarrow> keyspace) \<Rightarrow> ('s world, 'a) io \<Rightarrow> bool" where
  "leaves_tasks view m \<longleftrightarrow> (\<forall>w r w'. m w = (r, w') \<longrightarrow>
     (\<forall>k. HasPrefix k ''task:'' \<longrightarrow> view (rdb w') k = view (rdb w) k) \<and> locks w' = locks w \<and> (\<forall>p. r \<noteq> Inl (Panic p)))"

lemma leaves_tasks_wp:
  assumes "leaves_tasks view m"
    and "\<And>a w'. (\<And>k. HasPrefix k ''task:'' \<Longrightarrow> view (rdb w') k = view (rdb w) k) \<Longrightarrow> locks w' = locks w \<Longrightarrow> Q a w'"
    and "\<And>e w'. (\<And>k. HasPrefix k ''task:'' \<Longrightarrow> view (rdb w') k = view (rdb w) k) \<Longrightarrow> locks w' = locks w \<Longrightarrow> (\<forall>p. e \<noteq> Panic p) \<Longrightarrow> E e w'"
  shows "wp m Q E w"
proof (rule wpI)
  fix a w' assume "m w = (Inr a, w')"
  then show "Q a w'" using assms(1) by (intro assms(2)) (auto simp: leaves_tasks_def)
next
  fix e w' assume "m w = (Inl e, w')"
  then show "E e w'" using assms(1) by (intro assms(3)) (auto simp: leaves_tasks_def)
qed

definition makes :: "'s task_factory \<Rightarrow> TaskMessage \<Rightarrow> 's Task \<Rightarrow> bool" where
  "makes F m t \<longleftrightarrow> tk_Message t = m \<and> md_TaskId (tk_Metadata t) = tm_TaskId m \<and> (\<exists>w w'. F m w = (Inr t, w'))"

locale executor =
  fixes view :: "'s \<Rightarrow> keyspace" and F :: "'s task_factory"
  assumes make: "\<exists>t w'. F m w = (Inr t, w') \<and> tk_Message t = m \<and> md_TaskId (tk_Metadata t) = tm_TaskId m \<and>
        view (rdb w') = view (rdb w) \<and> locks w' = locks w"
    and execute: "F m w = (Inr t, w') \<Longrightarrow> leaves_tasks view (tk_Execute t m')"
    and cancel: "F m w = (Inr t, w') \<Longrightarrow> leaves_tasks view (tk_Cancel t m' reason)"
    and retry: "F m w = (Inr t, w') \<Longrightarrow> leaves_tasks view (tk_Retry t m')"
    and heartbeat: "F m w = (Inr t, w') \<Longrightarrow> leaves_tasks view (tk_HeartBeat t m')"
begin

lemma up_make:
  assumes "\<And>t w'. makes F m t \<Longrightarrow> view (rdb w') = view (rdb w) \<Longrightarrow> locks w' = locks w \<Longrightarrow> Q t w'"
  shows "wp (F m) Q E w"
proof -
  obtain t w' where *: "F m w = (Inr t, w')" "tk_Message t = m" "md_TaskId (tk_Metadata t) = tm_TaskId m"
      "view (rdb w') = view (rdb w)" "locks w' = locks w"
    using make by blast
  then have "Q t w'" by (intro assms) (auto simp: makes_def)
  with *(1) show ?thesis by (simp add: wp_def)
qed

end

text \<open>The message of a task that the repository stores.\<close>

definition stored :: "task_codec \<Rightarrow> keyspace \<Rightarrow> TaskMessage \<Rightarrow> bool" where
  "stored C v m \<longleftrightarrow> (\<exists>x. v (TaskEntry (tm_WorkspaceName m) (tm_StubId m) (tm_TaskId m)) = Some (RStr x) \<and> Decode C x = (m, None))"

abbreviation "claimed v m \<equiv> v (TaskClaim (tm_WorkspaceName m) (tm_StubId m) (tm_TaskId m)) \<noteq> None"

text \<open>What a dispatcher needs of the repository to work on the task of a message: names without colons, sets under the keys of the
  indices, and no retry under way.\<close>

definition ready :: "keyspace \<Rightarrow> TaskMessage \<Rightarrow> bool" where
  "ready v m \<longleftrightarrow> task_name (tm_WorkspaceName m) (tm_StubId m) (tm_TaskId m) \<and> tasks_typed v (tm_WorkspaceName m) (tm_StubId m) \<and>
     v (TaskRetryLock (tm_WorkspaceName m) (tm_StubId m) (tm_TaskId m)) = None"

lemma task_prefix [simp]:
  "HasPrefix (TaskEntry ws st i) ''task:''" "HasPrefix (TaskClaim ws st i) ''task:''" "HasPrefix (TaskRetryLock ws st i) ''task:''"
  "HasPrefix (TaskIndexByStub ws st) ''task:''" "HasPrefix (TaskClaimIndex ws st) ''task:''" "HasPrefix TaskIndex ''task:''"
  by (simp_all add: key_eqs HasPrefix_def)

lemma forgotten_task_cong:
  "(\<And>k. HasPrefix k ''task:'' \<Longrightarrow> v' k = v k) \<Longrightarrow> HasPrefix k ''task:'' \<Longrightarrow> forgotten_task ws st i v' k = forgotten_task ws st i v k"
  by (simp add: forgotten_task_def)

lemma forgotten_task_lock:
  assumes "task_name ws st i"
  shows "forgotten_task ws st i (v(TaskRetryLock ws st i := x)) = (forgotten_task ws st i v)(TaskRetryLock ws st i := x)"
  using task_keys_distinct [OF assms assms] by (simp add: forgotten_task_def fun_eq_iff)

locale dispatcher = redis_up R view + executor view F for R :: "'s redis_client" and view :: "'s \<Rightarrow> keyspace" and F :: "'s task_factory" +
  fixes d :: "'s Dispatcher" and executor_name :: string
  assumes rdb: "d_rdb d = R" and registered: "SafeMap_Get executor_name (d_executors d) = Some F" and codec: "task_json_ok (d_codec d)"
begin

lemma up_Retrieve:
  assumes "stored (d_codec d) (V w) m" and "tm_Executor m = executor_name"
    and "\<And>t w'. makes F m t \<Longrightarrow> V w' = V w \<Longrightarrow> locks w' = locks w \<Longrightarrow> Q t w'"
  shows "wp (Retrieve d (tm_WorkspaceName m) (tm_StubId m) (tm_TaskId m)) Q E w"
proof -
  obtain x where x: "V w (TaskEntry (tm_WorkspaceName m) (tm_StubId m) (tm_TaskId m)) = Some (RStr x)" "Decode (d_codec d) x = (m, None)"
    using assms(1) by (auto simp: stored_def)
  show ?thesis
    unfolding Retrieve_def rdb wp_eqs
    by (rule up_GetTaskState [OF x(1)]) (auto simp: x(2) assms(2) registered intro!: up_make assms(3))
qed

lemma up_RetryTask:
  assumes "makes F m t" and "ready (V w) m" and "decoded m" and "tm_Retries m < tp_MaxRetries (tm_Policy m)"
    and "\<And>w'. stored (d_codec d) (V w') (retriedMessage now m) \<Longrightarrow> ready (V w') m \<Longrightarrow> \<not> claimed (V w') m \<Longrightarrow>
          locks w' = (locks w)(TaskRetryLock (tm_WorkspaceName m) (tm_StubId m) (tm_TaskId m) := None) \<Longrightarrow> Q () w'"
    and "\<And>e w'. stored (d_codec d) (V w') (retriedMessage now m) \<Longrightarrow> ready (V w') m \<Longrightarrow> \<not> claimed (V w') m \<Longrightarrow>
          locks w' = (locks w)(TaskRetryLock (tm_WorkspaceName m) (tm_StubId m) (tm_TaskId m) := None) \<Longrightarrow> (\<forall>p. e \<noteq> Panic p) \<Longrightarrow> E e w'"
  shows "wp (RetryTask d now t) Q E w"
proof -
  let ?ws = "tm_WorkspaceName m" and ?st = "tm_StubId m" and ?i = "tm_TaskId m"
  let ?k = "TaskRetryLock ?ws ?st ?i"
  have n: "task_name ?ws ?st ?i" and ty: "tasks_typed (V w) ?ws ?st" and free: "V w ?k = None" using assms(2) by (simp_all add: ready_def)
  have t: "tk_Message t = m" and mk: "\<exists>w w'. F m w = (Inr t, w')" using assms(1) by (simp_all add: makes_def)
  have "decoded (retriedMessage now m)" using assms(3) by (simp add: decoded_def retriedMessage_def)
  with codec obtain x where x: "Encode (d_codec d) (retriedMessage now m) = Inr x" "Decode (d_codec d) x = (retriedMessage now m, None)"
    by (metis Encode_ok)
  have sel: "tm_WorkspaceName (retriedMessage now m) = ?ws" "tm_StubId (retriedMessage now m) = ?st" "tm_TaskId (retriedMessage now m) = ?i"
    by (simp_all add: retriedMessage_def)
  have final: "stored (d_codec d) (V w5) (retriedMessage now m) \<and> ready (V w5) m \<and> \<not> claimed (V w5) m"
    if "V w5 = (V w4)(?k := None)"
      "\<And>k. HasPrefix k ''task:'' \<Longrightarrow> V w4 k = stored_task ?ws ?st ?i x (unclaimed_task ?ws ?st ?i ((V w)(?k \<mapsto> RStr tok))) k" for w4 w5 tok
    using that n ty x(2) task_keys_distinct [OF n n]
    by (simp add: stored_def ready_def sel task_effects tasks_typed_def)
  have release: "wp (RemoveTaskRetryLock R ?ws ?st ?i) (\<lambda>_. Q') (\<lambda>_. Q') w4"
    if w4: "\<And>k. HasPrefix k ''task:'' \<Longrightarrow> V w4 k = stored_task ?ws ?st ?i x (unclaimed_task ?ws ?st ?i ((V w)(?k \<mapsto> RStr tok))) k"
      "locks w4 = (locks w)(?k \<mapsto> tok)"
      and Q': "\<And>w'. stored (d_codec d) (V w') (retriedMessage now m) \<Longrightarrow> ready (V w') m \<Longrightarrow> \<not> claimed (V w') m \<Longrightarrow>
          locks w' = (locks w)(?k := None) \<Longrightarrow> Q' w'" for w4 tok Q'
    unfolding RemoveTaskRetryLock_def
  proof (rule up_Release [where tok = tok], goal_cases)
    case (3 w5)
    from final [OF 3(1) w4(1)] show ?case using 3(2) w4(2) by (intro Q') simp_all
  qed (use w4 n task_keys_distinct [OF n n] in \<open>simp_all add: task_effects\<close>)
  show ?thesis
    unfolding RetryTask_def Let_def t rdb SetTaskRetryLock_def wp_thenE
  proof (rule up_Acquire [OF free], goal_cases)
    case (1 tok w1)
    have ty1: "tasks_typed (V w1) ?ws ?st" using 1(1) ty n task_keys_distinct [OF n n] by (simp add: tasks_typed_def)
    have "\<not> tp_MaxRetries (tm_Policy m) \<le> tm_Retries m" using assms(4) by simp
    then show ?case
      apply (simp only: if_False wp_eqs x(1) wp_liftSum sum.case)
      apply (rule up_RemoveTaskClaim [OF n ty1])
      apply (rule up_SetTaskState [OF n])
       apply (simp add: n ty1)
      apply (rule leaves_tasks_wp [of view "tk_Retry t (retriedMessage now m)"])
        apply (use mk retry in blast)
       apply (rule release [where tok = tok]; simp add: 1 assms(5); fail)
      apply (rule release [where tok = tok]; simp add: 1 assms(6); fail)
      done
  qed
qed

text \<open>At the limit the task is cancelled and its state is deleted.\<close>

lemma up_RetryTask_last:
  assumes "makes F m t" and "ready (V w) m" and "tp_MaxRetries (tm_Policy m) \<le> tm_Retries m"
    and "\<And>w. \<exists>w'. tk_Cancel t m TaskExceededRetryLimit w = (Inr (), w')"
    and "\<And>w'. \<forall>k. HasPrefix k ''task:'' \<longrightarrow>
            V w' k = forgotten_task (tm_WorkspaceName m) (tm_StubId m) (tm_TaskId m) (V w) k \<Longrightarrow> Q () w'"
  shows "wp (RetryTask d now t) Q E w"
proof -
  let ?ws = "tm_WorkspaceName m" and ?st = "tm_StubId m" and ?i = "tm_TaskId m"
  let ?k = "TaskRetryLock ?ws ?st ?i"
  have n: "task_name ?ws ?st ?i" and ty: "tasks_typed (V w) ?ws ?st" and free: "V w ?k = None" using assms(2) by (simp_all add: ready_def)
  have t: "tk_Message t = m" and mk: "\<exists>w w'. F m w = (Inr t, w')" using assms(1) by (simp_all add: makes_def)
  have cancel': "wp (tk_Cancel t m TaskExceededRetryLimit) Q' E' w1"
    if "\<And>w2. (\<And>k. HasPrefix k ''task:'' \<Longrightarrow> V w2 k = V w1 k) \<Longrightarrow> locks w2 = locks w1 \<Longrightarrow> Q' () w2" for Q' E' w1
  proof -
    obtain w2 where w2: "tk_Cancel t m TaskExceededRetryLimit w1 = (Inr (), w2)" using assms(4) by blast
    have "leaves_tasks view (tk_Cancel t m TaskExceededRetryLimit)" using mk cancel by blast
    with w2 have "Q' () w2" by (intro that) (auto simp: leaves_tasks_def)
    with w2 show ?thesis by (simp add: wp_def)
  qed
  have "RetryTask d now t = locked R ?k 300 0 (thenE (tk_Cancel t m TaskExceededRetryLimit) (Complete d ?ws ?st ?i))"
    using assms(3) by (simp add: RetryTask_def Let_def t rdb SetTaskRetryLock_def RemoveTaskRetryLock_def locked_def)
  moreover have "wp (locked R ?k 300 0 (thenE (tk_Cancel t m TaskExceededRetryLimit) (Complete d ?ws ?st ?i))) Q E w"
  proof (rule up_locked [OF free], goal_cases)
    case (1 tok w1)
    show ?case
      unfolding wp_thenE Complete_def rdb
    proof (rule cancel', rule up_DeleteTaskState [OF n], goal_cases)
      case (1 w2)
      then show ?case using \<open>V w1 = _\<close> ty n task_keys_distinct [OF n n] by (simp add: tasks_typed_def)
    next
      case (2 w2 w3)
      have w3: "V w3 k = ((forgotten_task ?ws ?st ?i (V w))(?k \<mapsto> RStr tok)) k" if "HasPrefix k ''task:''" for k
        using forgotten_task_cong [of "V w2" "V w1" k, OF 2(1) that] by (simp only: 2(3) \<open>V w1 = _\<close> forgotten_task_lock [OF n])
      have k: "forgotten_task ?ws ?st ?i (V w) ?k = None" using free task_keys_distinct [OF n n] by (simp add: forgotten_task_def)
      have "Q () w4" if w4: "V w4 = (V w3)(?k := None)" for w4
      proof (intro assms(5) allI impI)
        fix k assume "HasPrefix k ''task:''"
        with w3 [OF this] w4 k show "V w4 k = forgotten_task ?ws ?st ?i (V w) k" by (cases "k = ?k") simp_all
      qed
      then show ?case using w3 [of ?k] 2(2,4) by simp
    qed
  qed
  ultimately show ?thesis by simp
qed

text \<open>One round of a task that loses its container: the dispatcher retries it, and another container claims it.\<close>

lemma up_round:
  assumes "stored (d_codec d) (V w) m" and "tm_Executor m = executor_name" and "ready (V w) m" and "decoded m"
    and "tm_Retries m < tp_MaxRetries (tm_Policy m)"
    and "\<And>w'. stored (d_codec d) (V w') (retriedMessage now m) \<Longrightarrow> ready (V w') m \<Longrightarrow> claimed (V w') m \<Longrightarrow> Q () w'"
  shows "wp (thenE (tryE (bindE (Retrieve d (tm_WorkspaceName m) (tm_StubId m) (tm_TaskId m)) (RetryTask d now)))
     (DispatcherClaim d (tm_WorkspaceName m) (tm_StubId m) (tm_TaskId m) c)) Q E w"
proof -
  let ?ws = "tm_WorkspaceName m" and ?st = "tm_StubId m" and ?i = "tm_TaskId m"
  have claim: "wp (DispatcherClaim d ?ws ?st ?i c) Q E w2"
    if "stored (d_codec d) (V w2) (retriedMessage now m)" "ready (V w2) m" for w2
  proof -
    have n: "task_name ?ws ?st ?i" and ty: "tasks_typed (V w2) ?ws ?st" using that(2) by (simp_all add: ready_def)
    show ?thesis
      unfolding DispatcherClaim_def rdb
      by (rule up_ClaimTask [OF n ty], rule assms(6))
         (use that n task_keys_distinct [OF n n] in \<open>simp_all add: stored_def ready_def tasks_typed_def claimed_task_def retriedMessage_def\<close>)
  qed
  show ?thesis
    unfolding wp_thenE
  proof (rule wp_tryE_no_panic, unfold wp_bindE, rule up_Retrieve [OF assms(1,2)], goal_cases)
    case (1 t w1)
    have r: "ready (V w1) m" using assms(3) 1(2) by simp
    show ?case by (rule up_RetryTask [OF 1(1) r assms(4,5)]) (simp_all add: claim)
  qed
qed

lemma up_rounds:
  assumes "stored (d_codec d) (V w) m" and "tm_Executor m = executor_name" and "ready (V w) m" and "decoded m"
    and "unat (tm_Retries m) + n \<le> unat (tp_MaxRetries (tm_Policy m))"
  shows "wp (forE (\<lambda>_. thenE (tryE (bindE (Retrieve d (tm_WorkspaceName m) (tm_StubId m) (tm_TaskId m)) (RetryTask d now)))
       (DispatcherClaim d (tm_WorkspaceName m) (tm_StubId m) (tm_TaskId m) c)) [0..<n])
     (\<lambda>_ w'. (\<exists>ts. stored (d_codec d) (V w') (m\<lparr>tm_Retries := tm_Retries m + of_nat n, tm_Timestamp := ts\<rparr>)) \<and> ready (V w') m)
     (\<lambda>_ _. False) w"
  using assms(5)
proof (induction n)
  case 0
  have "stored (d_codec d) (V w) (m\<lparr>tm_Timestamp := tm_Timestamp m\<rparr>)" using assms(1) by simp
  then have "\<exists>ts. stored (d_codec d) (V w) (m\<lparr>tm_Timestamp := ts\<rparr>)" by (rule exI)
  with assms(3) show ?case by (simp add: wp_eqs)
next
  case (Suc n)
  then have le: "unat (tm_Retries m) + n < unat (tp_MaxRetries (tm_Policy m))" by simp
  show ?case
    unfolding upt_Suc_append [OF le0] wp_forE_snoc
  proof (rule wp_mono [OF Suc.IH], goal_cases)
    case (2 _ w1)
    then obtain ts where st: "stored (d_codec d) (V w1) (m\<lparr>tm_Retries := tm_Retries m + of_nat n, tm_Timestamp := ts\<rparr>)" and r: "ready (V w1) m"
      by blast
    let ?m = "m\<lparr>tm_Retries := tm_Retries m + of_nat n, tm_Timestamp := ts\<rparr>"
    have "unat (tm_Retries m + of_nat n) = unat (tm_Retries m) + n"
      using le unsigned_less [of "tp_MaxRetries (tm_Policy m)", where 'a = nat] by (simp add: unat_word_ariths unat_of_nat mod_simps)
    then have lt: "tm_Retries ?m < tp_MaxRetries (tm_Policy ?m)" using le by (simp add: word_less_nat_alt)
    have next': "retriedMessage now ?m = m\<lparr>tm_Retries := tm_Retries m + of_nat (Suc n), tm_Timestamp := now div second\<rparr>"
      by (simp add: retriedMessage_def ac_simps)
    have pre: "tm_Executor ?m = executor_name" "ready (V w1) ?m" "decoded ?m" using r assms(2,4) by (simp_all add: ready_def decoded_def)
    have "wp (thenE (tryE (bindE (Retrieve d (tm_WorkspaceName ?m) (tm_StubId ?m) (tm_TaskId ?m)) (RetryTask d now)))
        (DispatcherClaim d (tm_WorkspaceName ?m) (tm_StubId ?m) (tm_TaskId ?m) c))
      (\<lambda>_ w'. (\<exists>ts. stored (d_codec d) (V w') (m\<lparr>tm_Retries := tm_Retries m + of_nat (Suc n), tm_Timestamp := ts\<rparr>)) \<and> ready (V w') m)
      (\<lambda>_ _. False) w1"
    proof (rule up_round [OF st pre lt, of now])
      fix w' assume "stored (d_codec d) (V w') (retriedMessage now ?m)" "ready (V w') ?m"
      then show "(\<exists>ts. stored (d_codec d) (V w') (m\<lparr>tm_Retries := tm_Retries m + of_nat (Suc n), tm_Timestamp := ts\<rparr>)) \<and> ready (V w') m"
        unfolding next' by (intro conjI exI) (assumption, simp add: ready_def)
    qed
    then show ?case by simp
  qed (use Suc.prems in auto)
qed

end

section \<open>An example\<close>

text \<open>A kind of task whose methods succeed and whose container is gone.\<close>

definition ex_factory :: "mem task_factory" where
  "ex_factory m = returnE \<lparr>tk_Message = m, tk_Metadata = \<lparr>md_TaskId = tm_TaskId m, md_StubId = tm_StubId m,
      md_WorkspaceName = tm_WorkspaceName m, md_ContainerId = []\<rparr>, tk_Execute = (\<lambda>_. returnE ()), tk_Cancel = (\<lambda>_ _. returnE ()),
     tk_Retry = (\<lambda>_. returnE ()), tk_HeartBeat = (\<lambda>_. returnE False)\<rparr>"

definition ex_dispatcher :: "mem Dispatcher" where
  "ex_dispatcher = Register ''x'' ex_factory \<lparr>d_rdb = mem_client, d_codec = plain_task_codec, d_executors = NewSafeMap\<rparr>"

definition ex_message :: TaskMessage where
  "ex_message = zero_TaskMessage\<lparr>tm_TaskId := ''t1'', tm_WorkspaceName := ''ws'', tm_StubId := ''st'', tm_Executor := ''x'',
     tm_Policy := zero_TaskPolicy\<lparr>tp_MaxRetries := 2\<rparr>\<rparr>"

definition ex_tasks :: "mem world" where
  "ex_tasks = \<lparr>rdb = [TaskEntry ''ws'' ''st'' ''t1'' \<mapsto> MStr (quotes (task_fields ex_message))], locks = Map.empty\<rparr>"

lemma leaves_tasks_returnE: "leaves_tasks view (returnE a)"
  by (simp add: leaves_tasks_def returnE_def)

interpretation ex_exec: executor mem_view ex_factory
  by unfold_locales (auto simp: ex_factory_def leaves_tasks_returnE, auto simp: returnE_def leaves_tasks_def)

interpretation ex_disp: dispatcher mem_client mem_view ex_factory ex_dispatcher "''x''"
  by unfold_locales (simp_all add: ex_dispatcher_def Register_def plain_task_codec_ok)

lemma ex_tasks_view [simp]:
  "mem_view (rdb ex_tasks) k = (if k = TaskEntry ''ws'' ''st'' ''t1'' then Some (RStr (quotes (task_fields ex_message))) else None)"
  by (simp add: ex_tasks_def mem_view_def)

lemma ex_message_sel [simp]:
  "tm_WorkspaceName ex_message = ''ws''" "tm_StubId ex_message = ''st''" "tm_TaskId ex_message = ''t1''" "tm_Executor ex_message = ''x''"
  "tm_Args ex_message = []" "tm_Retries ex_message = 0" "tp_MaxRetries (tm_Policy ex_message) = 2"
  by (simp_all add: ex_message_def zero_TaskMessage_def zero_TaskPolicy_def)

lemma ex_ready: "ready (mem_view (rdb ex_tasks)) ex_message" "decoded ex_message" "stored (d_codec ex_dispatcher) (mem_view (rdb ex_tasks)) ex_message"
  by (simp_all add: ready_def task_name_def plain_def tasks_typed_def decoded_def stored_def ex_dispatcher_def Register_def
      plain_task_codec_def Decode_def key_eqs)

section \<open>Properties\<close>



text \<open>
  C38. A task message that has been read from the repository is stable: writing it, as every retry does, and reading it again
  gives the same message, with byte arguments for the strings that were valid base64.
\<close>

theorem task_message_stable:
  assumes "task_json_ok C" and "Decode C x = (m, None)" and "Encode C m = Inr y"
  shows "Decode C y = (m, None)"
proof -
  obtain s where "Encode C m = Inr s" "decoded m \<Longrightarrow> Decode C s = (m, None)" using Encode_ok [OF assms(1), of m] by blast
  with assms(3) Decode_decoded [OF assms(2)] show ?thesis by simp
qed

theorem task_message_stable_witness:
  "\<exists>x y m. Decode plain_task_codec x = (m, None) \<and> tm_Args m = [ArgBytes ''Hi''] \<and> Encode plain_task_codec m = Inr y \<and>
     Decode plain_task_codec y = (m, None)"
proof -
  let ?x = "quotes (task_fields (ex_message\<lparr>tm_Args := [ArgString ''SGk='']\<rparr>))" and ?m = "ex_message\<lparr>tm_Args := [ArgBytes ''Hi'']\<rparr>"
  have "arg_of_json (ArgString ''SGk='') = ArgBytes ''Hi''" by code_simp
  then have x: "Decode plain_task_codec ?x = (?m, None)" by (simp add: Decode_def plain_task_codec_def)
  obtain y where y: "Encode plain_task_codec ?m = Inr y" using Encode_ok [OF plain_task_codec_ok, of ?m] by blast
  from task_message_stable [OF plain_task_codec_ok x y] x y show ?thesis by (intro exI conjI) simp_all
qed

end
