(* ===== verification/Task_Queue.thy ===== *)
theory Task_Queue
  imports Dispatcher
begin

text \<open>
  Task queues (\<open>pkg/abstractions/taskqueue\<close>): the keys, the client that pushes and pops messages, the methods of a task of
  this kind, and the operations of the service that put, pop and complete tasks. The backend database is a parameter, and so is
  the lookup of the queue instance of a stub; usage tracking, the upload of results and the stream that watches a running
  task are left out.
\<close>

section \<open>Keys\<close>

definition taskQueueList :: "string \<Rightarrow> string \<Rightarrow> string" where
  "taskQueueList workspaceName stubId = Sprintf ''taskqueue:%s:%s'' [workspaceName, stubId]"

definition taskQueueInstanceLock :: "string \<Rightarrow> string \<Rightarrow> string" where
  "taskQueueInstanceLock workspaceName stubId = Sprintf ''taskqueue:%s:%s:instance_lock'' [workspaceName, stubId]"

definition taskQueueTaskDuration :: "string \<Rightarrow> string \<Rightarrow> string" where
  "taskQueueTaskDuration workspaceName stubId = Sprintf ''taskqueue:%s:%s:task_duration'' [workspaceName, stubId]"

definition taskQueueTaskHeartbeat :: "string \<Rightarrow> string \<Rightarrow> string \<Rightarrow> string" where
  "taskQueueTaskHeartbeat workspaceName stubId taskId = Sprintf ''taskqueue:%s:%s:task:heartbeat:%s'' [workspaceName, stubId, taskId]"

definition taskQueueProcessingLock :: "string \<Rightarrow> string \<Rightarrow> string \<Rightarrow> string" where
  "taskQueueProcessingLock workspaceName stubId containerId = Sprintf ''taskqueue:%s:%s:processing_lock:%s'' [workspaceName, stubId, containerId]"

definition taskQueueKeepWarmLock :: "string \<Rightarrow> string \<Rightarrow> string \<Rightarrow> string" where
  "taskQueueKeepWarmLock workspaceName stubId containerId = Sprintf ''taskqueue:%s:%s:keep_warm_lock:%s'' [workspaceName, stubId, containerId]"

definition taskQueueTaskRunningLockIndex :: "string \<Rightarrow> string \<Rightarrow> string \<Rightarrow> string" where
  "taskQueueTaskRunningLockIndex workspaceName stubId containerId = Sprintf ''taskqueue:%s:%s:task_running:%s:index'' [workspaceName, stubId, containerId]"

definition taskQueueTaskRunningLock :: "string \<Rightarrow> string \<Rightarrow> string \<Rightarrow> string \<Rightarrow> string" where
  "taskQueueTaskRunningLock workspaceName stubId containerId taskId =
     Sprintf ''taskqueue:%s:%s:task_running:%s:%s'' [workspaceName, stubId, containerId, taskId]"

section \<open>Types\<close>

definition TaskStatusPending :: string where "TaskStatusPending = ''PENDING''"
definition TaskStatusRunning :: string where "TaskStatusRunning = ''RUNNING''"
definition TaskStatusComplete :: string where "TaskStatusComplete = ''COMPLETE''"
definition TaskStatusError :: string where "TaskStatusError = ''ERROR''"
definition TaskStatusCancelled :: string where "TaskStatusCancelled = ''CANCELLED''"
definition TaskStatusExpired :: string where "TaskStatusExpired = ''EXPIRED''"
definition TaskStatusTimeout :: string where "TaskStatusTimeout = ''TIMEOUT''"
definition TaskStatusRetry :: string where "TaskStatusRetry = ''RETRY''"

definition IsCompleted :: "string \<Rightarrow> bool" where
  "IsCompleted ts \<longleftrightarrow> ts \<in> {TaskStatusComplete, TaskStatusCancelled, TaskStatusError, TaskStatusTimeout, TaskStatusExpired}"

record db_task =
  dt_ExternalId :: string
  dt_Status :: string
  dt_ContainerId :: string
  dt_StartedAt :: "int option"
  dt_EndedAt :: "int option"
  dt_StubExternalId :: string

record 's task_backend =
  tb_CreateTask :: "string \<Rightarrow> ('s world, unit) io"
  tb_DeleteTask :: "string \<Rightarrow> ('s world, unit) io"
  tb_GetTask :: "string \<Rightarrow> ('s world, db_task) io"
  tb_GetTaskWithRelated :: "string \<Rightarrow> ('s world, db_task) io"
  tb_UpdateTask :: "string \<Rightarrow> db_task \<Rightarrow> ('s world, unit) io"

record queue_instance =
  qi_WorkspaceName :: string
  qi_MaxPendingTasks :: "64 word"
  qi_TaskPolicy :: TaskPolicy

record 's RedisTaskQueue =
  tq_rdb :: "'s redis_client"
  tq_codec :: task_codec
  tq_backendRepo :: "'s task_backend"
  tq_getOrCreateQueueInstance :: "string \<Rightarrow> ('s world, queue_instance) io"

section \<open>The client\<close>

definition defaultTaskRunningExpiration :: int where
  "defaultTaskRunningExpiration = 60"

definition queuePush :: "'s RedisTaskQueue \<Rightarrow> TaskMessage \<Rightarrow> ('s world, unit) io" where
  "queuePush tq m =
     bindE (liftSum (Encode (tq_codec tq) m)) (\<lambda>encodedMessage.
       RPush (tq_rdb tq) (taskQueueList (tm_WorkspaceName m) (tm_StubId m)) encodedMessage)"

definition takeMessage :: "'s RedisTaskQueue \<Rightarrow> string \<Rightarrow> string \<Rightarrow> string \<Rightarrow> ('s world, string option) io" where
  "takeMessage tq ws st containerId =
     bindE (attempt (LPop (tq_rdb tq) (taskQueueList ws st))) (\<lambda>r.
       case r of
         Inl e \<Rightarrow> if e = RedisNil then returnE None else throwE e
       | Inr task \<Rightarrow>
           (case Decode (tq_codec tq) task of
              (tm, Some e) \<Rightarrow> throwE e
            | (tm, None) \<Rightarrow>
                thenE (SAdd (tq_rdb tq) (taskQueueTaskRunningLockIndex ws st containerId) (tm_TaskId tm))
               (thenE (SetKey (tq_rdb tq) (taskQueueTaskRunningLock ws st containerId (tm_TaskId tm)) ''1'' (defaultTaskRunningExpiration * second))
               (thenE (SetKey (tq_rdb tq) (taskQueueTaskHeartbeat ws st (tm_TaskId tm)) ''1'' (60 * second))
                      (returnE (Some task))))))"

definition queuePop :: "'s RedisTaskQueue \<Rightarrow> string \<Rightarrow> string \<Rightarrow> string \<Rightarrow> ('s world, string option) io" where
  "queuePop tq ws st containerId =
     bindE (LLen (tq_rdb tq) (taskQueueList ws st)) (\<lambda>queueLength.
       if queueLength = 0 then returnE None
       else thenE (SetKey (tq_rdb tq) (taskQueueProcessingLock ws st containerId) ''1'' 0)
            (deferring (Del (tq_rdb tq) (taskQueueProcessingLock ws st containerId)) (takeMessage tq ws st containerId)))"

definition QueueLength :: "'s RedisTaskQueue \<Rightarrow> string \<Rightarrow> string \<Rightarrow> ('s world, nat) io" where
  "QueueLength tq ws st = LLen (tq_rdb tq) (taskQueueList ws st)"

section \<open>The methods of a task\<close>

definition queueExecute :: "'s RedisTaskQueue \<Rightarrow> TaskMessage \<Rightarrow> ('s world, unit) io" where
  "queueExecute tq m =
     thenE (tq_getOrCreateQueueInstance tq (tm_StubId m))
       (thenE (tb_CreateTask (tq_backendRepo tq) (tm_TaskId m))
         (bindE (attempt (queuePush tq m)) (\<lambda>r.
            case r of
              Inl e \<Rightarrow> thenE (tryE (tb_DeleteTask (tq_backendRepo tq) (tm_TaskId m))) (throwE e)
            | Inr _ \<Rightarrow> returnE ())))"

definition queueRetry :: "'s RedisTaskQueue \<Rightarrow> TaskMessage \<Rightarrow> ('s world, unit) io" where
  "queueRetry tq m =
     thenE (tq_getOrCreateQueueInstance tq (tm_StubId m))
       (bindE (tb_GetTask (tq_backendRepo tq) (tm_TaskId m)) (\<lambda>task.
        thenE (tb_UpdateTask (tq_backendRepo tq) (tm_TaskId m) (task\<lparr>dt_Status := TaskStatusRetry\<rparr>))
              (queuePush tq m)))"

definition queueHeartBeat :: "'s RedisTaskQueue \<Rightarrow> TaskMessage \<Rightarrow> ('s world, bool) io" where
  "queueHeartBeat tq m = Exists (tq_rdb tq) (taskQueueTaskHeartbeat (tm_WorkspaceName m) (tm_StubId m) (tm_TaskId m))"

definition queueCancel :: "'s RedisTaskQueue \<Rightarrow> TaskMessage \<Rightarrow> string \<Rightarrow> ('s world, unit) io" where
  "queueCancel tq m reason =
     bindE (tb_GetTask (tq_backendRepo tq) (tm_TaskId m)) (\<lambda>task.
       if IsCompleted (dt_Status task) then returnE ()
       else tb_UpdateTask (tq_backendRepo tq) (tm_TaskId m)
              (task\<lparr>dt_Status := if reason = TaskExpired then TaskStatusExpired else TaskStatusError\<rparr>))"

definition taskQueueTaskFactory :: "'s RedisTaskQueue \<Rightarrow> 's task_factory" where
  "taskQueueTaskFactory tq m = returnE
     \<lparr>tk_Message = m,
      tk_Metadata = \<lparr>md_TaskId = tm_TaskId m, md_StubId = tm_StubId m, md_WorkspaceName = tm_WorkspaceName m, md_ContainerId = []\<rparr>,
      tk_Execute = queueExecute tq, tk_Cancel = queueCancel tq, tk_Retry = queueRetry tq, tk_HeartBeat = queueHeartBeat tq\<rparr>"

section \<open>The service\<close>

definition DefaultTaskQueueTaskTTL :: "32 word" where
  "DefaultTaskQueueTaskTTL = 3600 * 2"

definition ExecutorTaskQueue :: string where
  "ExecutorTaskQueue = ''taskqueue''"

definition errExceededTaskLimit :: "64 word \<Rightarrow> goerror" where
  "errExceededTaskLimit n = ErrNew (''exceeded max pending tasks: '' @ utoa (unat n))"

definition queuePolicy :: "int \<Rightarrow> TaskPolicy \<Rightarrow> TaskPolicy" where
  "queuePolicy now policy =
     (let policy' = (if tp_TTL policy = 0 then policy\<lparr>tp_TTL := DefaultTaskQueueTaskTTL\<rparr> else policy)
      in policy'\<lparr>tp_Expires := now + uint (tp_TTL policy') * second\<rparr>)"

definition put :: "'s RedisTaskQueue \<Rightarrow> 's Dispatcher \<Rightarrow> string \<Rightarrow> int \<Rightarrow> string \<Rightarrow> task_arg list \<Rightarrow> (string \<times> string) list \<Rightarrow>
    ('s world, string) io" where
  "put tq d newId now stubId args kwargs =
     bindE (tq_getOrCreateQueueInstance tq stubId) (\<lambda>instance.
     bindE (TasksInFlight (tq_rdb tq) (qi_WorkspaceName instance) stubId) (\<lambda>tasksInFlight.
       if int tasksInFlight \<ge> i64 (uint (qi_MaxPendingTasks instance)) then throwE (errExceededTaskLimit (qi_MaxPendingTasks instance))
       else bindE (SendAndExecute d newId now ExecutorTaskQueue (qi_WorkspaceName instance) stubId args kwargs
                    (queuePolicy now (qi_TaskPolicy instance))) (\<lambda>task.
            returnE (md_TaskId (tk_Metadata task)))))"

text \<open>
  The loop that looks for the next task that is not completed. Every round takes a message from the queue, so as many rounds as
  there are messages, and one more, are enough.
\<close>

fun nextTask :: "nat \<Rightarrow> 's RedisTaskQueue \<Rightarrow> string \<Rightarrow> string \<Rightarrow> string \<Rightarrow> ('s world, (db_task \<times> string) option) io" where
  "nextTask 0 tq ws st containerId = throwE (ErrNew ''out of fuel'')"
| "nextTask (Suc n) tq ws st containerId =
     bindE (attempt (queuePop tq ws st containerId)) (\<lambda>r.
       case r of
         Inl _ \<Rightarrow> returnE None
       | Inr None \<Rightarrow> returnE None
       | Inr (Some msg) \<Rightarrow>
           (case Decode (tq_codec tq) msg of
              (tm, Some _) \<Rightarrow> nextTask n tq ws st containerId
            | (tm, None) \<Rightarrow>
                bindE (tryE (tb_GetTaskWithRelated (tq_backendRepo tq) (tm_TaskId tm))) (\<lambda>r.
                  case r of
                    Inl _ \<Rightarrow> nextTask n tq ws st containerId
                  | Inr t \<Rightarrow>
                      if IsCompleted (dt_Status t)
                      then thenE (attempt (Del (tq_rdb tq) (taskQueueTaskRunningLock ws st containerId (dt_ExternalId t))))
                          (thenE (attempt (SRem (tq_rdb tq) (taskQueueTaskRunningLockIndex ws st containerId) (dt_ExternalId t)))
                                 (nextTask n tq ws st containerId))
                      else returnE (Some (t, msg)))))"

text \<open>An error becomes a response that is not ok.\<close>

definition orElse :: "'b \<Rightarrow> ('s, 'a) io \<Rightarrow> ('a \<Rightarrow> ('s, 'b) io) \<Rightarrow> ('s, 'b) io" where
  "orElse no m k = bindE (tryE m) (\<lambda>r. case r of Inl _ \<Rightarrow> returnE no | Inr a \<Rightarrow> k a)"

text \<open>The response is the message, if it is ok.\<close>

definition TaskQueuePop :: "nat \<Rightarrow> 's RedisTaskQueue \<Rightarrow> 's Dispatcher \<Rightarrow> int \<Rightarrow> string \<Rightarrow> string \<Rightarrow> string \<Rightarrow> ('s world, string option) io" where
  "TaskQueuePop fuel tq d now ws st containerId =
     orElse None (tq_getOrCreateQueueInstance tq st) (\<lambda>_.
     bindE (nextTask fuel tq ws st containerId) (\<lambda>next.
       case next of
         None \<Rightarrow> returnE None
       | Some (task, msg) \<Rightarrow>
           orElse None (DispatcherClaim d ws (dt_StubExternalId task) (dt_ExternalId task) containerId) (\<lambda>_.
           orElse None (SAdd (tq_rdb tq) (taskQueueTaskRunningLockIndex ws st containerId) (dt_ExternalId task)) (\<lambda>_.
           orElse None (SetKey (tq_rdb tq) (taskQueueTaskRunningLock ws st containerId (dt_ExternalId task)) ''1''
                          (defaultTaskRunningExpiration * second)) (\<lambda>_.
           orElse None (tb_UpdateTask (tq_backendRepo tq) (dt_ExternalId task)
                          (task\<lparr>dt_ContainerId := containerId, dt_StartedAt := Some now, dt_Status := TaskStatusRunning\<rparr>)) (\<lambda>_.
             returnE (Some msg)))))))"

record TaskQueueCompleteRequest =
  cr_TaskId :: string
  cr_StubId :: string
  cr_ContainerId :: string
  cr_KeepWarmSeconds :: int
  cr_TaskDuration :: string
  cr_TaskStatus :: string

definition retryTask :: "'s RedisTaskQueue \<Rightarrow> 's Dispatcher \<Rightarrow> int \<Rightarrow> string \<Rightarrow> TaskQueueCompleteRequest \<Rightarrow> ('s world, bool \<times> string) io" where
  "retryTask tq d now ws i =
     orElse (False, []) (Retrieve d ws (cr_StubId i) (cr_TaskId i)) (\<lambda>task.
       let m = tk_Message task;
           msg = (if tm_Retries m \<ge> tp_MaxRetries (tm_Policy m)
                  then ''Exceeded retry limit of '' @ utoa (unat (tp_MaxRetries (tm_Policy m))) @ '' for task <'' @ tm_TaskId m @ ''>'' else [])
       in orElse (False, []) (RetryTask d now task) (\<lambda>_. returnE (True, msg)))"

definition keepWarm :: "'s RedisTaskQueue \<Rightarrow> string \<Rightarrow> TaskQueueCompleteRequest \<Rightarrow> ('s world, unit) io" where
  "keepWarm tq ws i =
     (if cr_KeepWarmSeconds i > 0
      then SetKey (tq_rdb tq) (taskQueueKeepWarmLock ws (cr_StubId i) (cr_ContainerId i)) ''1'' (cr_KeepWarmSeconds i * second)
      else returnE ())"

definition TaskQueueComplete :: "'s RedisTaskQueue \<Rightarrow> 's Dispatcher \<Rightarrow> int \<Rightarrow> string \<Rightarrow> TaskQueueCompleteRequest \<Rightarrow> ('s world, bool \<times> string) io" where
  "TaskQueueComplete tq d now ws i =
     orElse (False, []) (tb_GetTask (tq_backendRepo tq) (cr_TaskId i)) (\<lambda>task.
     orElse (False, []) (tq_getOrCreateQueueInstance tq (cr_StubId i)) (\<lambda>_.
     orElse (False, []) (keepWarm tq ws i) (\<lambda>_.
     orElse (False, []) (SRem (tq_rdb tq) (taskQueueTaskRunningLockIndex ws (cr_StubId i) (cr_ContainerId i)) (cr_TaskId i)) (\<lambda>_.
     orElse (False, []) (Del (tq_rdb tq) (taskQueueTaskRunningLock ws (cr_StubId i) (cr_ContainerId i) (cr_TaskId i))) (\<lambda>_.
     orElse (False, []) (RPush (tq_rdb tq) (taskQueueTaskDuration ws (cr_StubId i)) (cr_TaskDuration i)) (\<lambda>_.
       let task' = task\<lparr>dt_EndedAt := Some now, dt_Status := cr_TaskStatus i\<rparr>
       in if dt_Status task' = TaskStatusRetry then retryTask tq d now ws i
          else orElse (False, []) (Complete d ws (cr_StubId i) (cr_TaskId i)) (\<lambda>_.
               orElse (False, []) (tb_UpdateTask (tq_backendRepo tq) (dt_ExternalId task') task') (\<lambda>_. returnE (True, [])))))))))"

section \<open>Keys of a queue\<close>

lemma queue_key_eqs [key_eqs]:
  "taskQueueList ws st = ''taskqueue:'' @ ws @ '':'' @ st"
  "taskQueueInstanceLock ws st = ''taskqueue:'' @ ws @ '':'' @ st @ '':instance_lock''"
  "taskQueueTaskDuration ws st = ''taskqueue:'' @ ws @ '':'' @ st @ '':task_duration''"
  "taskQueueTaskHeartbeat ws st i = ''taskqueue:'' @ ws @ '':'' @ st @ '':task:heartbeat:'' @ i"
  "taskQueueProcessingLock ws st c = ''taskqueue:'' @ ws @ '':'' @ st @ '':processing_lock:'' @ c"
  "taskQueueKeepWarmLock ws st c = ''taskqueue:'' @ ws @ '':'' @ st @ '':keep_warm_lock:'' @ c"
  "taskQueueTaskRunningLockIndex ws st c = ''taskqueue:'' @ ws @ '':'' @ st @ '':task_running:'' @ c @ '':index''"
  "taskQueueTaskRunningLock ws st c i = ''taskqueue:'' @ ws @ '':'' @ st @ '':task_running:'' @ c @ '':'' @ i"
  by (simp_all add: taskQueueList_def taskQueueInstanceLock_def taskQueueTaskDuration_def taskQueueTaskHeartbeat_def taskQueueProcessingLock_def
      taskQueueKeepWarmLock_def taskQueueTaskRunningLockIndex_def taskQueueTaskRunningLock_def)

text \<open>The keys of the queues and those of the task repository are different.\<close>

lemma queue_not_task [simp]:
  "\<not> HasPrefix (taskQueueList ws st) ''task:''" "\<not> HasPrefix (taskQueueTaskHeartbeat ws st i) ''task:''"
  "\<not> HasPrefix (taskQueueProcessingLock ws st c) ''task:''" "\<not> HasPrefix (taskQueueTaskRunningLockIndex ws st c) ''task:''"
  "\<not> HasPrefix (taskQueueTaskRunningLock ws st c i) ''task:''" "\<not> HasPrefix (taskQueueTaskDuration ws st) ''task:''"
  "\<not> HasPrefix (taskQueueKeepWarmLock ws st c) ''task:''"
  by (simp_all add: queue_key_eqs HasPrefix_def)

lemma Split_queue_keys:
  assumes "plain ws" and "plain st"
  shows "Split CHR '':'' (taskQueueList ws st) = [''taskqueue'', ws, st]"
    "plain i \<Longrightarrow> Split CHR '':'' (taskQueueTaskHeartbeat ws st i) = [''taskqueue'', ws, st, ''task'', ''heartbeat'', i]"
    "plain c \<Longrightarrow> Split CHR '':'' (taskQueueProcessingLock ws st c) = [''taskqueue'', ws, st, ''processing_lock'', c]"
    "plain c \<Longrightarrow> Split CHR '':'' (taskQueueTaskRunningLockIndex ws st c) = [''taskqueue'', ws, st, ''task_running'', c, ''index'']"
    "plain c \<Longrightarrow> plain i \<Longrightarrow> Split CHR '':'' (taskQueueTaskRunningLock ws st c i) = [''taskqueue'', ws, st, ''task_running'', c, i]"
  using assms by (simp_all add: queue_key_eqs plain_def Split_append Split_no_sep)

definition queue_names :: "string \<Rightarrow> string \<Rightarrow> string \<Rightarrow> string \<Rightarrow> bool" where
  "queue_names ws st c i \<longleftrightarrow> plain ws \<and> plain st \<and> plain c \<and> plain i \<and> i \<noteq> ''index''"

lemma queue_keys_distinct:
  assumes "queue_names ws st c i"
  shows "taskQueueList ws st \<noteq> taskQueueTaskHeartbeat ws st i" "taskQueueList ws st \<noteq> taskQueueProcessingLock ws st c"
    "taskQueueList ws st \<noteq> taskQueueTaskRunningLockIndex ws st c" "taskQueueList ws st \<noteq> taskQueueTaskRunningLock ws st c i"
    "taskQueueTaskHeartbeat ws st i \<noteq> taskQueueProcessingLock ws st c" "taskQueueTaskHeartbeat ws st i \<noteq> taskQueueTaskRunningLockIndex ws st c"
    "taskQueueTaskHeartbeat ws st i \<noteq> taskQueueTaskRunningLock ws st c i" "taskQueueProcessingLock ws st c \<noteq> taskQueueTaskRunningLockIndex ws st c"
    "taskQueueProcessingLock ws st c \<noteq> taskQueueTaskRunningLock ws st c i"
    "taskQueueTaskRunningLockIndex ws st c \<noteq> taskQueueTaskRunningLock ws st c i"
  using assms by - (rule key_neqI [of "CHR '':''"], auto simp: queue_names_def Split_queue_keys; fail)+

section \<open>A task of a queue is a task\<close>

text \<open>A call of the backend leaves Redis and the locks alone, and does not panic.\<close>

definition outside :: "('s \<Rightarrow> keyspace) \<Rightarrow> ('s world, 'a) io \<Rightarrow> bool" where
  "outside view m \<longleftrightarrow> (\<forall>w r w'. m w = (r, w') \<longrightarrow> view (rdb w') = view (rdb w) \<and> locks w' = locks w \<and> (\<forall>p. r \<noteq> Inl (Panic p)))"

lemma outside_wp:
  assumes "outside view m" and "\<And>a w'. view (rdb w') = view (rdb w) \<Longrightarrow> locks w' = locks w \<Longrightarrow> Q a w'"
    and "\<And>e w'. view (rdb w') = view (rdb w) \<Longrightarrow> locks w' = locks w \<Longrightarrow> (\<forall>p. e \<noteq> Panic p) \<Longrightarrow> E e w'"
  shows "wp m Q E w"
proof (rule wpI)
  fix a w' assume "m w = (Inr a, w')"
  then show "Q a w'" using assms(1) by (intro assms(2)) (auto simp: outside_def)
next
  fix e w' assume "m w = (Inl e, w')"
  then show "E e w'" using assms(1) by (intro assms(3)) (auto simp: outside_def)
qed

lemma leaves_tasks_outside: "outside view m \<Longrightarrow> leaves_tasks view m"
  by (simp add: outside_def leaves_tasks_def)

lemma leaves_tasks_throwE: "(\<And>p. e \<noteq> Panic p) \<Longrightarrow> leaves_tasks view (throwE e)"
  by (simp add: leaves_tasks_def throwE_def)

lemma leaves_tasks_bindE:
  assumes "leaves_tasks view m" and "\<And>a. leaves_tasks view (f a)"
  shows "leaves_tasks view (bindE m f)"
  unfolding leaves_tasks_def
proof (intro allI impI)
  fix w r w' assume run: "bindE m f w = (r, w')"
  obtain r1 w1 where 1: "m w = (r1, w1)" by force
  have m: "(\<forall>k. HasPrefix k ''task:'' \<longrightarrow> view (rdb w1) k = view (rdb w) k) \<and> locks w1 = locks w \<and> (\<forall>p. r1 \<noteq> Inl (Panic p))"
    using assms(1) 1 unfolding leaves_tasks_def by blast
  show "(\<forall>k. HasPrefix k ''task:'' \<longrightarrow> view (rdb w') k = view (rdb w) k) \<and> locks w' = locks w \<and> (\<forall>p. r \<noteq> Inl (Panic p))"
  proof (cases r1)
    case (Inl e)
    then show ?thesis using run 1 m by (auto simp: bindE_def)
  next
    case (Inr a)
    then have "f a w1 = (r, w')" using run 1 by (simp add: bindE_def)
    then have "(\<forall>k. HasPrefix k ''task:'' \<longrightarrow> view (rdb w') k = view (rdb w1) k) \<and> locks w' = locks w1 \<and> (\<forall>p. r \<noteq> Inl (Panic p))"
      using assms(2) [of a] unfolding leaves_tasks_def by blast
    with m show ?thesis by auto
  qed
qed

lemma leaves_tasks_thenE: "leaves_tasks view m \<Longrightarrow> leaves_tasks view k \<Longrightarrow> leaves_tasks view (thenE m k)"
  unfolding thenE_def by (rule leaves_tasks_bindE)

lemma leaves_tasks_tryE: "leaves_tasks view m \<Longrightarrow> leaves_tasks view (tryE m)"
  unfolding leaves_tasks_def tryE_def
  by (auto simp: bindE_def attempt_def returnE_def throwE_def split: prod.splits sum.splits goerror.splits)

lemmas leaves_tasks_intros = leaves_tasks_bindE leaves_tasks_thenE leaves_tasks_tryE leaves_tasks_returnE

text \<open>A call that always gives the same answer.\<close>

definition answers :: "('s, 'a) io \<Rightarrow> goerror + 'a \<Rightarrow> bool" where
  "answers m r \<longleftrightarrow> (\<forall>w. \<exists>w'. m w = (r, w'))"

lemma up_answers:
  assumes "answers m (Inr a)" and "outside view m" and "\<And>w'. view (rdb w') = view (rdb w) \<Longrightarrow> locks w' = locks w \<Longrightarrow> Q a w'"
  shows "wp m Q E w"
proof -
  obtain w' where w': "m w = (Inr a, w')" using assms(1) by (auto simp: answers_def)
  then have "Q a w'" using assms(2) by (intro assms(3)) (auto simp: outside_def)
  with w' show ?thesis by (simp add: wp_def)
qed

lemma answers_error:
  assumes "answers m (Inl e)" and "outside view m" and "\<And>w'. view (rdb w') = view (rdb w) \<Longrightarrow> locks w' = locks w \<Longrightarrow> E e w'"
  shows "wp m Q E w"
proof -
  obtain w' where w': "m w = (Inl e, w')" using assms(1) by (auto simp: answers_def)
  then have "E e w'" using assms(2) by (intro assms(3)) (auto simp: outside_def)
  with w' show ?thesis by (simp add: wp_def)
qed

locale task_queue = redis_up R view for R :: "'s redis_client" and view :: "'s \<Rightarrow> keyspace" +
  fixes tq :: "'s RedisTaskQueue" and d :: "'s Dispatcher"
  assumes tq_rdb: "tq_rdb tq = R" and tq_codec: "tq_codec tq = d_codec d" and json: "task_json_ok (d_codec d)" and d_rdb: "d_rdb d = R"
    and registered_queue: "SafeMap_Get ExecutorTaskQueue (d_executors d) = Some (taskQueueTaskFactory tq)"
    and RPush_error: "cRPush R k x s = (Inl e, s') \<Longrightarrow> e \<noteq> Panic p"
    and outside_instance: "outside view (tq_getOrCreateQueueInstance tq st)"
    and outside_create: "outside view (tb_CreateTask (tq_backendRepo tq) i)"
    and outside_delete: "outside view (tb_DeleteTask (tq_backendRepo tq) i)"
    and outside_get: "outside view (tb_GetTask (tq_backendRepo tq) i)"
    and outside_related: "outside view (tb_GetTaskWithRelated (tq_backendRepo tq) i)"
    and outside_update: "outside view (tb_UpdateTask (tq_backendRepo tq) i t)"
begin

lemma encodes:
  obtains x where "Encode (d_codec d) m = Inr x" "Decode (d_codec d) x = (m\<lparr>tm_Args := map (arg_of_json \<circ> arg_to_json) (tm_Args m)\<rparr>, None)"
proof -
  let ?m = "m\<lparr>tm_Args := map arg_to_json (tm_Args m)\<rparr>"
  have "ArgBytes b \<notin> set (tm_Args ?m)" for b using arg_to_json_no_bytes [of _ b] by (auto dest: sym)
  then obtain s where "tc_marshal (d_codec d) ?m = Inr s" "tc_unmarshal (d_codec d) s = (?m, None)"
    using json unfolding task_json_ok_def by metis
  then show thesis by (intro that [of s]) (simp_all add: Encode_def Decode_def)
qed

lemma leaves_tasks_RPush: "\<not> HasPrefix k ''task:'' \<Longrightarrow> leaves_tasks view (RPush R k x)"
  using RPush_law [of k x] RPush_error unfolding leaves_tasks_def RPush_def onR_def cmd_wr_def agree_off_def
  by (fastforce split: prod.splits)

lemma leaves_tasks_Push: "leaves_tasks view (queuePush tq m)"
proof -
  obtain x where "Encode (d_codec d) m = Inr x" by (rule encodes)
  then show ?thesis
    by (simp add: queuePush_def tq_codec tq_rdb liftSum_def leaves_tasks_bindE leaves_tasks_returnE leaves_tasks_RPush)
qed

lemma leaves_tasks_HeartBeat: "leaves_tasks view (queueHeartBeat tq m)"
  unfolding leaves_tasks_def
proof (intro allI impI)
  fix w r w' assume "queueHeartBeat tq m w = (r, w')"
  moreover have "wp (queueHeartBeat tq m) (\<lambda>_ w'. view (rdb w') = view (rdb w) \<and> locks w' = locks w) (\<lambda>_ _. False) w"
    unfolding queueHeartBeat_def tq_rdb by (rule up_Exists) simp
  ultimately show "(\<forall>k. HasPrefix k ''task:'' \<longrightarrow> view (rdb w') k = view (rdb w) k) \<and> locks w' = locks w \<and> (\<forall>p. r \<noteq> Inl (Panic p))"
    by (auto simp: wp_def split: sum.splits)
qed

lemma leaves_tasks_Retry: "leaves_tasks view (queueRetry tq m)"
  unfolding queueRetry_def
  by (intro leaves_tasks_intros leaves_tasks_Push leaves_tasks_outside outside_instance outside_get outside_update)

lemma leaves_tasks_Cancel: "leaves_tasks view (queueCancel tq m reason)"
  unfolding queueCancel_def
  by (rule leaves_tasks_bindE [OF leaves_tasks_outside [OF outside_get]])
     (simp add: leaves_tasks_returnE leaves_tasks_outside [OF outside_update])

lemma leaves_tasks_attempt: "leaves_tasks view m \<Longrightarrow> leaves_tasks view (attempt m)"
  unfolding leaves_tasks_def by (auto simp: attempt_def split: prod.splits)

lemma leaves_tasks_Execute: "leaves_tasks view (queueExecute tq m)"
proof -
  have push: "leaves_tasks view (bindE (attempt (queuePush tq m)) (\<lambda>r. case r of
      Inl e \<Rightarrow> thenE (tryE (tb_DeleteTask (tq_backendRepo tq) (tm_TaskId m))) (throwE e) | Inr _ \<Rightarrow> returnE ()))"
    unfolding leaves_tasks_def
  proof (intro allI impI)
    fix w r w'
    assume run: "bindE (attempt (queuePush tq m)) (\<lambda>r. case r of
      Inl e \<Rightarrow> thenE (tryE (tb_DeleteTask (tq_backendRepo tq) (tm_TaskId m))) (throwE e) | Inr _ \<Rightarrow> returnE ()) w = (r, w')"
    let ?P = "\<lambda>r w'. (\<forall>k. HasPrefix k ''task:'' \<longrightarrow> view (rdb w') k = view (rdb w) k) \<and> locks w' = locks w \<and> (\<forall>p. r \<noteq> Inl (Panic p))"
    have "wp (bindE (attempt (queuePush tq m)) (\<lambda>r. case r of
      Inl e \<Rightarrow> thenE (tryE (tb_DeleteTask (tq_backendRepo tq) (tm_TaskId m))) (throwE e) | Inr _ \<Rightarrow> returnE ()))
      (\<lambda>a. ?P (Inr a)) (\<lambda>e. ?P (Inl e)) w"
      unfolding wp_bindE wp_attempt
    proof (rule leaves_tasks_wp [OF leaves_tasks_Push], goal_cases)
      case (2 e w1)
      then show ?case
        unfolding sum.case wp_thenE
        by (intro wp_tryE_no_panic outside_wp [OF outside_delete]) (auto simp: wp_throwE)
    qed (auto simp: wp_eqs)
    with run show "?P r w'" by (cases r) (simp_all add: wp_def)
  qed
  show ?thesis
    unfolding queueExecute_def
    by (intro leaves_tasks_intros push leaves_tasks_outside outside_instance outside_create)
qed

end

sublocale task_queue \<subseteq> queue_executor: executor view "taskQueueTaskFactory tq"
  by unfold_locales (auto simp: taskQueueTaskFactory_def returnE_def leaves_tasks_Execute leaves_tasks_Cancel leaves_tasks_Retry leaves_tasks_HeartBeat)

sublocale task_queue \<subseteq> queue_dispatcher: dispatcher R view "taskQueueTaskFactory tq" d ExecutorTaskQueue
  by unfold_locales (simp_all add: d_rdb registered_queue json)

lemma queue_task:
  assumes "makes (taskQueueTaskFactory tq) m t"
  shows "tk_Message t = m" "tk_Retry t = queueRetry tq" "tk_Execute t = queueExecute tq" "md_TaskId (tk_Metadata t) = tm_TaskId m"
proof -
  obtain u u' where "taskQueueTaskFactory tq m u = (Inr t, u')" using assms by (auto simp: makes_def)
  then show "tk_Message t = m" "tk_Retry t = queueRetry tq" "tk_Execute t = queueExecute tq" "md_TaskId (tk_Metadata t) = tm_TaskId m"
    by (auto simp only: taskQueueTaskFactory_def returnE_def [of _ u] prod.inject sum.inject Task.simps TaskMetadata.simps)
qed

lemma effects_lock:
  assumes "task_name ws st i"
  shows "stored_task ws st i x (v(TaskRetryLock ws st i := y)) = (stored_task ws st i x v)(TaskRetryLock ws st i := y)"
    "unclaimed_task ws st i (v(TaskRetryLock ws st i := y)) = (unclaimed_task ws st i v)(TaskRetryLock ws st i := y)"
    "stored_task ws st i x v (TaskRetryLock ws st i) = v (TaskRetryLock ws st i)"
    "unclaimed_task ws st i v (TaskRetryLock ws st i) = v (TaskRetryLock ws st i)"
  using task_keys_distinct [OF assms assms] by (simp_all add: task_effects fun_eq_iff)

lemma effects_other:
  assumes "\<not> HasPrefix k ''task:''"
  shows "stored_task ws st i x v k = v k" "unclaimed_task ws st i v k = v k" "claimed_task ws st i c v k = v k" "k \<noteq> TaskRetryLock ws st i"
proof -
  have "k \<noteq> TaskEntry ws st i" "k \<noteq> TaskClaim ws st i" "k \<noteq> TaskIndexByStub ws st" "k \<noteq> TaskClaimIndex ws st" "k \<noteq> TaskIndex"
    "k \<noteq> TaskRetryLock ws st i"
    using assms by (auto simp del: task_keys)
  then show "stored_task ws st i x v k = v k" "unclaimed_task ws st i v k = v k" "claimed_task ws st i c v k = v k" "k \<noteq> TaskRetryLock ws st i"
    by (simp_all add: task_effects)
qed

context task_queue
begin

lemma up_queuePush:
  assumes "isList (V w (taskQueueList (tm_WorkspaceName m) (tm_StubId m)))"
    and "\<And>x w'. Encode (d_codec d) m = Inr x \<Longrightarrow> Decode (d_codec d) x = (m\<lparr>tm_Args := map (arg_of_json \<circ> arg_to_json) (tm_Args m)\<rparr>, None) \<Longrightarrow>
      V w' = (V w)(taskQueueList (tm_WorkspaceName m) (tm_StubId m) \<mapsto> RList (listOf (V w (taskQueueList (tm_WorkspaceName m) (tm_StubId m))) @ [x])) \<Longrightarrow>
      locks w' = locks w \<Longrightarrow> Q () w'"
  shows "wp (queuePush tq m) Q E w"
proof -
  obtain x where x: "Encode (d_codec d) m = Inr x" "Decode (d_codec d) x = (m\<lparr>tm_Args := map (arg_of_json \<circ> arg_to_json) (tm_Args m)\<rparr>, None)"
    by (rule encodes)
  show ?thesis
    unfolding queuePush_def tq_codec tq_rdb x(1) wp_bindE wp_liftSum sum.case by (rule up_RPush [OF assms(1)]) (rule assms(2) [OF x])
qed

lemma up_queueRetry:
  assumes "isList (V w (taskQueueList (tm_WorkspaceName m) (tm_StubId m)))"
    and "answers (tq_getOrCreateQueueInstance tq (tm_StubId m)) (Inr inst)" and "answers (tb_GetTask (tq_backendRepo tq) (tm_TaskId m)) (Inr t)"
    and "\<And>t. answers (tb_UpdateTask (tq_backendRepo tq) (tm_TaskId m) t) (Inr ())"
    and "\<And>x w'. Encode (d_codec d) m = Inr x \<Longrightarrow> Decode (d_codec d) x = (m\<lparr>tm_Args := map (arg_of_json \<circ> arg_to_json) (tm_Args m)\<rparr>, None) \<Longrightarrow>
      V w' = (V w)(taskQueueList (tm_WorkspaceName m) (tm_StubId m) \<mapsto> RList (listOf (V w (taskQueueList (tm_WorkspaceName m) (tm_StubId m))) @ [x])) \<Longrightarrow>
      locks w' = locks w \<Longrightarrow> Q () w'"
  shows "wp (queueRetry tq m) Q E w"
  unfolding queueRetry_def wp_thenE wp_bindE
proof (rule up_answers [OF assms(2) outside_instance], rule up_answers [OF assms(3) outside_get], rule up_answers [OF assms(4) outside_update],
    rule up_queuePush, goal_cases)
  case (2 w1 w2 w3 x w')
  then show ?case by (intro assms(5)) simp_all
qed (use assms(1) in simp)

text \<open>What a retry of a task of a queue does, exactly.\<close>

lemma up_RetryTask_queue:
  assumes "makes (taskQueueTaskFactory tq) m t" and "ready (V w) m" and "decoded m" and "tm_Retries m < tp_MaxRetries (tm_Policy m)"
    and ws: "tm_WorkspaceName m = ws" and st: "tm_StubId m = st" and i: "tm_TaskId m = i" and "isList (V w (taskQueueList ws st))"
    and "answers (tq_getOrCreateQueueInstance tq st) (Inr inst)" and "answers (tb_GetTask (tq_backendRepo tq) i) (Inr t')"
    and "\<And>t. answers (tb_UpdateTask (tq_backendRepo tq) i t) (Inr ())"
    and "\<And>x w'. Decode (d_codec d) x = (retriedMessage now m, None) \<Longrightarrow>
      V w' = (stored_task ws st i x (unclaimed_task ws st i (V w)))(taskQueueList ws st \<mapsto> RList (listOf (V w (taskQueueList ws st)) @ [x])) \<Longrightarrow>
      Q () w'"
  shows "wp (RetryTask d now t) Q E w"
proof -
  let ?k = "TaskRetryLock ws st i" and ?m = "retriedMessage now m" and ?l = "taskQueueList ws st"
  have n: "task_name ws st i" and ty: "tasks_typed (V w) ws st" and free: "V w ?k = None" using assms(2) ws st i by (simp_all add: ready_def)
  have sel: "tm_WorkspaceName ?m = ws" "tm_StubId ?m = st" "tm_TaskId ?m = i" using ws st i by (simp_all add: retriedMessage_def)
  have dec: "?m\<lparr>tm_Args := map (arg_of_json \<circ> arg_to_json) (tm_Args ?m)\<rparr> = ?m"
  proof -
    have "arg_of_json (arg_to_json a) = a" if "a \<in> set (tm_Args m)" for a
    proof -
      have "arg_of_json a = a" using assms(3) that by (simp add: decoded_def list_eq_iff_nth_eq in_set_conv_nth) auto
      with arg_stable [of a] show ?thesis by simp
    qed
    then have "map (arg_of_json \<circ> arg_to_json) (tm_Args m) = tm_Args m" by (simp add: map_idI)
    then show ?thesis by (simp add: retriedMessage_def)
  qed
  obtain x where x: "Encode (d_codec d) ?m = Inr x" "Decode (d_codec d) x = (?m\<lparr>tm_Args := map (arg_of_json \<circ> arg_to_json) (tm_Args ?m)\<rparr>, None)"
    by (rule encodes)
  note t = queue_task [OF assms(1)]
  have lt: "\<not> tp_MaxRetries (tm_Policy m) \<le> tm_Retries m" using assms(4) by simp
  have body: "RetryTask d now t = locked R ?k 300 0 (thenE (RemoveTaskClaim R ws st i) (bindE (liftSum (Inr x)) (\<lambda>msg.
      thenE (SetTaskState R ws st i msg) (queueRetry tq ?m))))"
    unfolding RetryTask_def Let_def t ws st i d_rdb SetTaskRetryLock_def RemoveTaskRetryLock_def locked_def x(1) using lt by simp
  have l: "?l \<noteq> ?k" by (rule effects_other) simp
  show ?thesis
    unfolding body
  proof (rule up_locked [OF free], goal_cases)
    case (1 tok w1)
    have ty1: "tasks_typed (V w1) ws st" using 1(1) ty task_keys_distinct [OF n n] by (simp add: tasks_typed_def)
    show ?case
      unfolding wp_thenE wp_bindE wp_liftSum sum.case
    proof (rule up_RemoveTaskClaim [OF n ty1], rule up_SetTaskState [OF n], goal_cases)
      case (1 w2)
      then show ?case using n ty1 by simp
    next
      case (2 w2 w3)
      have v3: "V w3 = (stored_task ws st i x (unclaimed_task ws st i (V w)))(?k \<mapsto> RStr tok)"
        using 1(1) 2(1,3) by (simp add: effects_lock [OF n])
      have lst: "V w3 ?l = V w ?l" using l by (simp add: v3 effects_other)
      show ?case
      proof (rule up_queueRetry [of w3 ?m, unfolded sel], goal_cases)
        case (5 y w4)
        have y: "y = x" using 5(1) x(1) by simp
        have v4: "V w4 = ((stored_task ws st i x (unclaimed_task ws st i (V w)))(?k \<mapsto> RStr tok))(?l \<mapsto> RList (listOf (V w ?l) @ [x]))"
          using 5(3) by (simp only: v3 [symmetric] lst y)
        have "Q () w5" if "V w5 = (V w4)(?k := None)" for w5
        proof (rule assms(12))
          show "Decode (d_codec d) x = (?m, None)" using x(2) dec by simp
          have "(stored_task ws st i x (unclaimed_task ws st i (V w))) ?k = None" using free by (simp add: effects_lock [OF n])
          then show "V w5 = (stored_task ws st i x (unclaimed_task ws st i (V w)))(?l \<mapsto> RList (listOf (V w ?l) @ [x]))"
            using that l by (auto simp: v4 fun_eq_iff)
        qed
        moreover have "V w4 ?k = Some (RStr tok)" using l by (simp add: v4)
        ultimately show ?case using 1 2 5(4) by simp
      qed (use assms(8-11) lst in simp_all)
    qed
  qed
qed

text \<open>Sending a task stores it, and executing it puts it into the queue.\<close>

lemma up_SendAndExecute_queue:
  assumes n: "task_name ws st i" and "tasks_typed (V w) ws st" and "isList (V w (taskQueueList ws st))"
    and "answers (tq_getOrCreateQueueInstance tq st) (Inr inst)" and "answers (tb_CreateTask (tq_backendRepo tq) i) r"
    and m: "m = (getTaskMessage i now)\<lparr>tm_Executor := ExecutorTaskQueue, tm_WorkspaceName := ws, tm_StubId := st,
            tm_Args := args, tm_Kwargs := kwargs, tm_Policy := policy, tm_Timestamp := now div second\<rparr>"
    and "\<And>t x w'. r = Inr () \<Longrightarrow> md_TaskId (tk_Metadata t) = i \<Longrightarrow> Decode (d_codec d) x = (m\<lparr>tm_Args := map (arg_of_json \<circ> arg_to_json) args\<rparr>, None) \<Longrightarrow>
       V w' = (stored_task ws st i x (V w))(taskQueueList ws st \<mapsto> RList (listOf (V w (taskQueueList ws st)) @ [x])) \<Longrightarrow> Q t w'"
    and "\<And>x e w'. r = Inl e \<Longrightarrow> V w' = stored_task ws st i x (V w) \<Longrightarrow> E e w'"
  shows "wp (SendAndExecute d i now ExecutorTaskQueue ws st args kwargs policy) Q E w"
proof -
  have sel: "tm_WorkspaceName m = ws" "tm_StubId m = st" "tm_TaskId m = i" "tm_Args m = args" by (simp_all add: m getTaskMessage_def)
  obtain x where x: "Encode (d_codec d) m = Inr x" "Decode (d_codec d) x = (m\<lparr>tm_Args := map (arg_of_json \<circ> arg_to_json) (tm_Args m)\<rparr>, None)"
    by (rule encodes)
  show ?thesis
    unfolding SendAndExecute_def DispatcherSend_def Let_def m [symmetric] registered_queue option.case d_rdb x(1) wp_eqs wp_liftSum sum.case
  proof (rule queue_executor.up_make, goal_cases)
    case (1 t w1)
    note t = queue_task [OF 1(1)]
    show ?case
      unfolding t sel
    proof (rule up_SetTaskState [OF n], goal_cases)
      case (2 w2)
      have l: "V w2 (taskQueueList ws st) = V w (taskQueueList ws st)" using 1(2) 2(1) by (simp add: effects_other)
      have v2: "V w2 = stored_task ws st i x (V w)" using 1(2) 2(1) by simp
      show ?case
        unfolding queueExecute_def sel wp_thenE
      proof (rule up_answers [OF assms(4) outside_instance], goal_cases)
        case (1 w3)
        note w3 = this
        show ?case
        proof (cases r)
          case (Inl e)
          show ?thesis
            by (rule answers_error [OF assms(5) [unfolded Inl] outside_create]) (rule assms(8) [OF Inl, of _ x], use w3 v2 in simp)
        next
          case (Inr u)
          then have r: "r = Inr ()" by simp
          show ?thesis
            unfolding wp_bindE wp_attempt
          proof (rule up_answers [OF assms(5) [unfolded r] outside_create], rule up_queuePush, unfold sel, goal_cases)
            case (2 w4 y w5)
            have "y = x" using 2(3) x(1) by simp
            with 2 w3 l v2 have "V w5 = (stored_task ws st i x (V w))(taskQueueList ws st \<mapsto> RList (listOf (V w (taskQueueList ws st)) @ [x]))"
              by simp
            then show ?case
              unfolding sum.case wp_returnE using x(2) sel t(4) by (intro assms(7) [OF r]) simp_all
          qed (use assms(3) w3 l in simp)
        qed
      qed
    qed (use assms(2) 1(2) in simp)
  qed
qed

text \<open>Popping a message of a task.\<close>

lemma up_queuePop:
  assumes "queue_names ws st c i" and "isList (V w (taskQueueList ws st))" and "listOf (V w (taskQueueList ws st)) = x # xs"
    and "Decode (d_codec d) x = (m, None)" and "tm_TaskId m = i" and "isSet (V w (taskQueueTaskRunningLockIndex ws st c))"
    and "\<And>w'. \<forall>k. HasPrefix k ''task:'' \<longrightarrow> V w' k = V w k \<Longrightarrow> V w' (taskQueueList ws st) = putList xs \<Longrightarrow>
       V w' (taskQueueTaskHeartbeat ws st i) \<noteq> None \<Longrightarrow> isSet (V w' (taskQueueTaskRunningLockIndex ws st c)) \<Longrightarrow> locks w' = locks w \<Longrightarrow> Q (Some x) w'"
  shows "wp (queuePop tq ws st c) Q E w"
proof -
  let ?l = "taskQueueList ws st" and ?p = "taskQueueProcessingLock ws st c" and ?ri = "taskQueueTaskRunningLockIndex ws st c"
    and ?rl = "taskQueueTaskRunningLock ws st c i" and ?h = "taskQueueTaskHeartbeat ws st i"
  note k = queue_keys_distinct [OF assms(1)]
  have task: "HasPrefix k ''task:'' \<Longrightarrow> k \<noteq> ?l \<and> k \<noteq> ?p \<and> k \<noteq> ?ri \<and> k \<noteq> ?rl \<and> k \<noteq> ?h" for k by auto
  have take': "wp (takeMessage tq ws st c) (\<lambda>a w'. wp (Del R ?p) (\<lambda>_. Q a) (\<lambda>_. Q a) w') E' w1"
    if "V w1 = (V w)(?p \<mapsto> RStr ''1'')" "locks w1 = locks w" for w1 E'
    unfolding takeMessage_def tq_rdb tq_codec wp_bindE wp_attempt
  proof (rule up_LPop, goal_cases)
    case (3 w2)
    have x: "hd (listOf (V w1 ?l)) = x" "tl (listOf (V w1 ?l)) = xs" using that(1) assms(3) k by simp_all
    show ?case
      unfolding x sum.case assms(4) prod.case option.case assms(5) wp_thenE wp_returnE
    proof (rule up_SAdd, goal_cases)
      case 1
      then show ?case using 3(1) that(1) assms(6) k by simp
    next
      case (2 w3)
      show ?case
      proof (rule up_SetKey, rule up_SetKey, rule up_Del, rule assms(7), goal_cases)
        case (1 w4 w5 w6)
        then show ?case using 3(1) 2(1) that(1) task by simp
      qed (use 3 2 that k x in auto)
    qed
  qed (use that assms(2,3) k in simp_all)
  show ?thesis
    unfolding queuePop_def tq_rdb wp_bindE
  proof (rule up_LLen [OF assms(2)], goal_cases)
    case (1 w0)
    have more: "length (listOf (V w ?l)) \<noteq> 0" using assms(3) by simp
    show ?case
      unfolding if_not_P [OF more] wp_thenE wp_deferring
      by (intro up_SetKey take') (use 1 in simp_all)
  qed
qed

lemma up_orElse: "wp m (\<lambda>a. wp (k a) Q E) (\<lambda>_ _. False) w \<Longrightarrow> wp (orElse no m k) Q E w"
  unfolding orElse_def wp_bindE by (rule wp_tryE) (auto elim!: wp_mono)

lemma up_nextTask:
  assumes "queue_names ws st c i" and "isList (V w (taskQueueList ws st))" and "listOf (V w (taskQueueList ws st)) = x # xs"
    and "Decode (d_codec d) x = (m, None)" and "tm_TaskId m = i" and "isSet (V w (taskQueueTaskRunningLockIndex ws st c))"
    and "answers (tb_GetTaskWithRelated (tq_backendRepo tq) i) (Inr t)" and "\<not> IsCompleted (dt_Status t)"
    and "\<And>w'. \<forall>k. HasPrefix k ''task:'' \<longrightarrow> V w' k = V w k \<Longrightarrow> V w' (taskQueueList ws st) = putList xs \<Longrightarrow>
       V w' (taskQueueTaskHeartbeat ws st i) \<noteq> None \<Longrightarrow> isSet (V w' (taskQueueTaskRunningLockIndex ws st c)) \<Longrightarrow> locks w' = locks w \<Longrightarrow> Q (Some (t, x)) w'"
  shows "wp (nextTask (Suc n) tq ws st c) Q E w"
  unfolding nextTask.simps wp_bindE wp_attempt
proof (rule up_queuePop [OF assms(1-6)], goal_cases)
  case (1 w1)
  show ?case
    unfolding sum.case option.case tq_codec assms(4) prod.case assms(5) wp_bindE
    by (rule wp_tryE, rule up_answers [OF assms(7) outside_related])
       (use assms(8) 1 in \<open>auto simp: wp_returnE intro!: assms(9)\<close>)
qed

text \<open>The first message of the queue goes to the container that asks, with the claim and the marks of a running task.\<close>

lemma up_TaskQueuePop:
  assumes q: "queue_names ws st c i" and n: "task_name ws st i" and "tasks_typed (V w) ws st"
    and "isList (V w (taskQueueList ws st))" and "listOf (V w (taskQueueList ws st)) = x # xs"
    and "Decode (d_codec d) x = (m, None)" and "tm_TaskId m = i" and "isSet (V w (taskQueueTaskRunningLockIndex ws st c))"
    and "answers (tq_getOrCreateQueueInstance tq st) (Inr inst)"
    and "answers (tb_GetTaskWithRelated (tq_backendRepo tq) i) (Inr t)" and "\<not> IsCompleted (dt_Status t)"
    and "dt_ExternalId t = i" and "dt_StubExternalId t = st" and "\<And>t. answers (tb_UpdateTask (tq_backendRepo tq) i t) (Inr ())"
    and "\<And>w'. \<forall>k. HasPrefix k ''task:'' \<longrightarrow> V w' k = claimed_task ws st i c (V w) k \<Longrightarrow> V w' (taskQueueList ws st) = putList xs \<Longrightarrow>
       V w' (taskQueueTaskHeartbeat ws st i) \<noteq> None \<Longrightarrow> i \<in> setOf (V w' (taskQueueTaskRunningLockIndex ws st c)) \<Longrightarrow>
       V w' (taskQueueTaskRunningLock ws st c i) = Some (RStr ''1'') \<Longrightarrow> Q (Some x) w'"
  shows "wp (TaskQueuePop (Suc f) tq d now ws st c) Q E w"
proof -
  note k = queue_keys_distinct [OF q]
  show ?thesis
    unfolding TaskQueuePop_def wp_bindE
  proof (intro up_orElse up_answers [OF assms(9) outside_instance], unfold wp_bindE, rule up_nextTask [OF q, where x = x and xs = xs and m = m and t = t], goal_cases)
    case (8 w1 w2)
    have eq: "V w2 k = V w k" if "HasPrefix k ''task:''" for k using 8 that by simp
    have ty: "tasks_typed (V w2) ws st" using assms(3) by (simp add: tasks_typed_def eq)
    have cl: "claimed_task ws st i c (V w2) k = claimed_task ws st i c (V w) k" if "HasPrefix k ''task:''" for k
      using that by (simp add: claimed_task_def eq)
    show ?case
      unfolding option.case prod.case assms(12,13) DispatcherClaim_def d_rdb tq_rdb
    proof (rule up_orElse, rule up_ClaimTask [OF n ty], rule up_orElse, rule up_SAdd, goal_cases)
      case (1 w3)
      then show ?case using 8 by (simp add: effects_other)
    next
      case (2 w3 w4)
      show ?case
      proof (rule up_orElse, rule up_SetKey, rule up_orElse, rule up_answers [OF assms(14) outside_update], goal_cases)
        case (1 w5 w6)
        note 3 = 2 1
        show ?case
          unfolding wp_returnE
        proof (rule assms(15), goal_cases)
          case 1
          have "k \<noteq> taskQueueTaskRunningLockIndex ws st c \<and> k \<noteq> taskQueueTaskRunningLock ws st c i" if "HasPrefix k ''task:''" for k
            using that by auto
          then show ?case using 3 cl by simp
        qed (use 3 8 k in \<open>auto simp: effects_other\<close>)
      qed
    qed
  qed (use assms in simp_all)
qed

lemma up_put:
  assumes "task_name (qi_WorkspaceName inst) st i" and "tasks_typed (V w) (qi_WorkspaceName inst) st" and ws: "ws = qi_WorkspaceName inst"
    and "isList (V w (taskQueueList ws st))" and "int (card (setOf (V w (TaskIndexByStub ws st)))) < i64 (uint (qi_MaxPendingTasks inst))"
    and "answers (tq_getOrCreateQueueInstance tq st) (Inr inst)" and "answers (tb_CreateTask (tq_backendRepo tq) i) r"
    and "\<And>x w'. r = Inr () \<Longrightarrow> Decode (d_codec d) x = ((getTaskMessage i now)\<lparr>tm_Executor := ExecutorTaskQueue, tm_WorkspaceName := ws, tm_StubId := st,
            tm_Kwargs := kwargs, tm_Policy := queuePolicy now (qi_TaskPolicy inst), tm_Timestamp := now div second,
            tm_Args := map (arg_of_json \<circ> arg_to_json) args\<rparr>, None) \<Longrightarrow>
       V w' = (stored_task ws st i x (V w))(taskQueueList ws st \<mapsto> RList (listOf (V w (taskQueueList ws st)) @ [x])) \<Longrightarrow> Q i w'"
    and "\<And>x e w'. r = Inl e \<Longrightarrow> V w' = stored_task ws st i x (V w) \<Longrightarrow> E e w'"
  shows "wp (put tq d i now st args kwargs) Q E w"
  unfolding put_def wp_bindE tq_rdb
proof (rule up_answers [OF assms(6) outside_instance], rule up_TasksInFlight, goal_cases)
  case (2 w1 w2)
  have more: "\<not> i64 (uint (qi_MaxPendingTasks inst)) \<le> int (card (setOf (V w1 (TaskIndexByStub (qi_WorkspaceName inst) st))))"
    using assms(5) 2 ws by simp
  show ?case
    unfolding if_not_P [OF more] wp_bindE
    by (rule up_SendAndExecute_queue [OF assms(1) _ _ assms(6,7) refl])
       (use 2 assms(2,4) ws in \<open>simp_all add: wp_returnE assms(8,9)\<close>)
qed (use assms(2) in simp)

end

section \<open>A task queue over the reference server\<close>

definition ex_row :: "string \<Rightarrow> db_task" where
  "ex_row i = \<lparr>dt_ExternalId = i, dt_Status = TaskStatusPending, dt_ContainerId = [], dt_StartedAt = None, dt_EndedAt = None, dt_StubExternalId = ''st''\<rparr>"

definition ex_queue_backend :: "(goerror + unit) \<Rightarrow> 's task_backend" where
  "ex_queue_backend r = \<lparr>tb_CreateTask = \<lambda>_. Pair r, tb_DeleteTask = \<lambda>_. returnE (),
     tb_GetTask = \<lambda>i. returnE (ex_row i),
     tb_GetTaskWithRelated = \<lambda>i. returnE (ex_row i),
     tb_UpdateTask = \<lambda>_ _. returnE ()\<rparr>"

definition ex_instance :: queue_instance where
  "ex_instance = \<lparr>qi_WorkspaceName = ''ws'', qi_MaxPendingTasks = 100, qi_TaskPolicy = DefaultTaskPolicy\<rparr>"

definition ex_queue :: "(goerror + unit) \<Rightarrow> mem RedisTaskQueue" where
  "ex_queue r = \<lparr>tq_rdb = mem_client, tq_codec = plain_task_codec, tq_backendRepo = ex_queue_backend r,
     tq_getOrCreateQueueInstance = \<lambda>_. returnE ex_instance\<rparr>"

definition ex_queue_dispatcher :: "(goerror + unit) \<Rightarrow> mem Dispatcher" where
  "ex_queue_dispatcher r = Register ExecutorTaskQueue (taskQueueTaskFactory (ex_queue r))
     \<lparr>d_rdb = mem_client, d_codec = plain_task_codec, d_executors = []\<rparr>"

lemma answers_returnE [simp]: "answers (returnE a) (Inr a)" "answers (Pair r) r"
  by (simp_all add: answers_def returnE_def)

lemma outside_returnE [simp]: "outside view (returnE a)" "(\<And>p. r \<noteq> Inl (Panic p)) \<Longrightarrow> outside view (Pair r)"
  by (simp_all add: outside_def returnE_def)

lemma ex_task_queue:
  assumes "\<And>p. r \<noteq> Inl (Panic p)"
  shows "task_queue mem_client mem_view (ex_queue r) (ex_queue_dispatcher r)"
  by (rule task_queue.intro [OF mem.redis_up_axioms], unfold_locales)
     (use assms in \<open>auto simp: ex_queue_def ex_queue_dispatcher_def ex_queue_backend_def Register_def plain_task_codec_ok mem_client_def mem_RPush_def wrongtype_def
        split: option.splits mval.splits\<close>)

lemma ex_queue_answers:
  "answers (tq_getOrCreateQueueInstance (ex_queue r) st) (Inr ex_instance)" "answers (tb_CreateTask (tq_backendRepo (ex_queue r)) i) r"
  "answers (tb_GetTaskWithRelated (tq_backendRepo (ex_queue r)) i) (Inr (ex_row i))" "answers (tb_GetTask (tq_backendRepo (ex_queue r)) i) (Inr (ex_row i))"
  "answers (tb_UpdateTask (tq_backendRepo (ex_queue r)) i t) (Inr ())" "tq_codec (ex_queue r) = plain_task_codec"
  by (simp_all add: ex_queue_def ex_queue_backend_def)

lemma ex_row_sel: "\<not> IsCompleted (dt_Status (ex_row i))" "dt_ExternalId (ex_row i) = i" "dt_StubExternalId (ex_row i) = ''st''"
  by (simp_all add: ex_row_def IsCompleted_def TaskStatusPending_def TaskStatusComplete_def TaskStatusCancelled_def TaskStatusError_def
      TaskStatusTimeout_def TaskStatusExpired_def)

lemma ex_names: "task_name ''ws'' ''st'' ''t1''" "queue_names ''ws'' ''st'' ''c1'' ''t1''" "qi_WorkspaceName ex_instance = ''ws''"
  by (simp_all add: task_name_def queue_names_def plain_def ex_instance_def)

lemma ex_room: "0 < i64 (uint (qi_MaxPendingTasks ex_instance))"
  by (simp add: ex_instance_def i64_def)

interpretation ex_tq: task_queue mem_client mem_view "ex_queue (Inr ())" "ex_queue_dispatcher (Inr ())"
  by (rule ex_task_queue) simp

section \<open>Properties\<close>

text \<open>
  C10. A task put into an empty queue with room comes out of it: the put returns its identifier, and the next pop gives the
  container that asks a message that decodes to the task, with the arguments and the policy of the put. The task is
  then in flight, claimed by that container, marked as running and alive, and the queue is empty again.
\<close>

theorem put_then_pop:
  assumes T: "task_queue R view tq d" and n: "task_name ws st i" and q: "queue_names ws st c i" and "tasks_typed (view (rdb w)) ws st"
    and "view (rdb w) (taskQueueList ws st) = None" and "isSet (view (rdb w) (taskQueueTaskRunningLockIndex ws st c))"
    and "int (card (setOf (view (rdb w) (TaskIndexByStub ws st)))) < i64 (uint (qi_MaxPendingTasks inst))" and ws: "qi_WorkspaceName inst = ws"
    and "answers (tq_getOrCreateQueueInstance tq st) (Inr inst)" and "answers (tb_CreateTask (tq_backendRepo tq) i) (Inr ())"
    and "answers (tb_GetTaskWithRelated (tq_backendRepo tq) i) (Inr t)" and "\<not> IsCompleted (dt_Status t)"
    and "dt_ExternalId t = i" and "dt_StubExternalId t = st" and "\<And>t. answers (tb_UpdateTask (tq_backendRepo tq) i t) (Inr ())"
  shows "\<exists>w1 w2 x m. put tq d i now st args kwargs w = (Inr i, w1) \<and> TaskQueuePop (Suc f) tq d now' ws st c w1 = (Inr (Some x), w2) \<and>
     Decode (tq_codec tq) x = (m, None) \<and> tm_TaskId m = i \<and> tm_StubId m = st \<and> tm_WorkspaceName m = ws \<and> tm_Executor m = ExecutorTaskQueue \<and>
     tm_Args m = map (arg_of_json \<circ> arg_to_json) args \<and> tm_Kwargs m = kwargs \<and> tm_Policy m = queuePolicy now (qi_TaskPolicy inst) \<and>
     tm_Retries m = 0 \<and> view (rdb w2) (TaskEntry ws st i) = Some (RStr x) \<and> i \<in> setOf (view (rdb w2) (TaskIndexByStub ws st)) \<and>
     view (rdb w2) (TaskClaim ws st i) = Some (RStr c) \<and> view (rdb w2) (taskQueueTaskHeartbeat ws st i) \<noteq> None \<and>
     i \<in> setOf (view (rdb w2) (taskQueueTaskRunningLockIndex ws st c)) \<and> view (rdb w2) (taskQueueList ws st) = None"
proof -
  let ?m = "(getTaskMessage i now)\<lparr>tm_Executor := ExecutorTaskQueue, tm_WorkspaceName := ws, tm_StubId := st,
            tm_Kwargs := kwargs, tm_Policy := queuePolicy now (qi_TaskPolicy inst), tm_Timestamp := now div second,
            tm_Args := map (arg_of_json \<circ> arg_to_json) args\<rparr>"
  let ?l = "taskQueueList ws st"
  have "wp (put tq d i now st args kwargs)
     (\<lambda>i' w1. i' = i \<and> (\<exists>x. Decode (d_codec d) x = (?m, None) \<and> view (rdb w1) = (stored_task ws st i x (view (rdb w)))(?l \<mapsto> RList [x]))) (\<lambda>_ _. False) w"
    by (rule task_queue.up_put [OF T, where inst = inst and r = "Inr ()"]) (use assms in auto)
  from wp_success [OF this] obtain w1 x where put: "put tq d i now st args kwargs w = (Inr i, w1)" and x: "Decode (d_codec d) x = (?m, None)"
    and v1: "view (rdb w1) = (stored_task ws st i x (view (rdb w)))(?l \<mapsto> RList [x])" by auto
  have other: "view (rdb w1) k = stored_task ws st i x (view (rdb w)) k" if "k \<noteq> ?l" for k using v1 that by simp
  have task: "HasPrefix k ''task:'' \<Longrightarrow> k \<noteq> ?l" for k by auto
  have l: "isList (view (rdb w1) ?l)" "listOf (view (rdb w1) ?l) = [x]" using v1 by simp_all
  have idx: "view (rdb w1) (taskQueueTaskRunningLockIndex ws st c) = view (rdb w) (taskQueueTaskRunningLockIndex ws st c)"
    using queue_keys_distinct [OF q] other by (simp add: effects_other)
  have ty: "tasks_typed (view (rdb w1)) ws st" using n assms(4) tasks_typed_effects task by (simp add: tasks_typed_def other)
  have "wp (TaskQueuePop (Suc f) tq d now' ws st c) (\<lambda>x' w2. x' = Some x \<and>
      (\<forall>k. HasPrefix k ''task:'' \<longrightarrow> view (rdb w2) k = claimed_task ws st i c (view (rdb w1)) k) \<and> view (rdb w2) ?l = None \<and>
      view (rdb w2) (taskQueueTaskHeartbeat ws st i) \<noteq> None \<and> i \<in> setOf (view (rdb w2) (taskQueueTaskRunningLockIndex ws st c))) (\<lambda>_ _. False) w1"
    by (rule task_queue.up_TaskQueuePop [OF T q n ty _ _ x _ _ assms(9,11)])
       (use assms(6,12-15) idx l in \<open>auto simp: getTaskMessage_def putList_def\<close>)
  from wp_success [OF this] obtain w2 where pop: "TaskQueuePop (Suc f) tq d now' ws st c w1 = (Inr (Some x), w2)"
    and v2: "\<And>k. HasPrefix k ''task:'' \<Longrightarrow> view (rdb w2) k = claimed_task ws st i c (view (rdb w1)) k"
    and rest: "view (rdb w2) ?l = None" "view (rdb w2) (taskQueueTaskHeartbeat ws st i) \<noteq> None" "i \<in> setOf (view (rdb w2) (taskQueueTaskRunningLockIndex ws st c))"
    by auto
  have "view (rdb w2) (TaskEntry ws st i) = Some (RStr x)" "i \<in> setOf (view (rdb w2) (TaskIndexByStub ws st))" "view (rdb w2) (TaskClaim ws st i) = Some (RStr c)"
    using task_keys_distinct [OF n n] task by (simp_all add: v2 claimed_task_def stored_task_def other)
  then show ?thesis
    using put pop x rest T by (intro exI conjI) (auto simp: getTaskMessage_def task_queue_def task_queue_axioms_def zero_TaskMessage_def)
qed

theorem put_then_pop_witness:
  "\<exists>w1 w2 x m. put (ex_queue (Inr ())) (ex_queue_dispatcher (Inr ())) ''t1'' 5 ''st'' [ArgJson ''1''] [] (ex_tasks\<lparr>rdb := Map.empty\<rparr>) = (Inr ''t1'', w1) \<and>
     TaskQueuePop 1 (ex_queue (Inr ())) (ex_queue_dispatcher (Inr ())) 6 ''ws'' ''st'' ''c1'' w1 = (Inr (Some x), w2) \<and>
     Decode plain_task_codec x = (m, None) \<and> tm_TaskId m = ''t1'' \<and> tm_Args m = [ArgJson ''1''] \<and>
     mem_view (rdb w2) (TaskClaim ''ws'' ''st'' ''t1'') = Some (RStr ''c1'') \<and> mem_view (rdb w2) (taskQueueList ''ws'' ''st'') = None"
proof -
  let ?w = "ex_tasks\<lparr>rdb := Map.empty\<rparr>"
  have v: "mem_view (rdb ?w) k = None" for k by (simp add: mem_view_def)
  have ty: "tasks_typed (mem_view (rdb ?w)) ''ws'' ''st''" by (simp add: tasks_typed_def mem_view_def)
  have a: "map (arg_of_json \<circ> arg_to_json) [ArgJson ''1''] = [ArgJson ''1'']" by code_simp
  have room: "int (card (setOf (mem_view (rdb ?w) (TaskIndexByStub ''ws'' ''st'')))) < i64 (uint (qi_MaxPendingTasks ex_instance))"
    using ex_room by (simp add: mem_view_def)
  have idx: "isSet (mem_view (rdb ?w) (taskQueueTaskRunningLockIndex ''ws'' ''st'' ''c1''))" by (simp add: mem_view_def)
  from put_then_pop [OF ex_tq.task_queue_axioms ex_names(1,2) ty v idx room ex_names(3) ex_queue_answers(1-3) ex_row_sel ex_queue_answers(5),
      of 5 "[ArgJson ''1'']" "[]" 0 6]
  show ?thesis unfolding ex_queue_answers(6) a One_nat_def by blast
qed

text \<open>
  A put whose task the backend refuses is not undone. The error of the backend is returned, nothing enters the queue,
  and yet the task stays stored and in flight, so that it counts against the limit of pending tasks of the stub;
  nobody has claimed it, so only its expiry removes it.
\<close>

theorem failed_put_stays_in_flight:
  assumes T: "task_queue R view tq d" and n: "task_name ws st i" and "tasks_typed (view (rdb w)) ws st" and "isList (view (rdb w) (taskQueueList ws st))"
    and "int (card (setOf (view (rdb w) (TaskIndexByStub ws st)))) < i64 (uint (qi_MaxPendingTasks inst))" and ws: "qi_WorkspaceName inst = ws"
    and "answers (tq_getOrCreateQueueInstance tq st) (Inr inst)" and "answers (tb_CreateTask (tq_backendRepo tq) i) (Inl e)"
    and "i \<notin> setOf (view (rdb w) (TaskIndexByStub ws st))" and "finite (setOf (view (rdb w) (TaskIndexByStub ws st)))"
  shows "\<exists>w1. put tq d i now st args kwargs w = (Inl e, w1) \<and> view (rdb w1) (taskQueueList ws st) = view (rdb w) (taskQueueList ws st) \<and>
     view (rdb w1) (TaskEntry ws st i) \<noteq> None \<and> view (rdb w1) (TaskClaim ws st i) = view (rdb w) (TaskClaim ws st i) \<and>
     card (setOf (view (rdb w1) (TaskIndexByStub ws st))) = card (setOf (view (rdb w) (TaskIndexByStub ws st))) + 1"
proof -
  have "wp (put tq d i now st args kwargs) (\<lambda>_ _. False) (\<lambda>e' w1. e' = e \<and> (\<exists>x. view (rdb w1) = stored_task ws st i x (view (rdb w)))) w"
    by (rule task_queue.up_put [OF T, where inst = inst and r = "Inl e"]) (use assms in auto)
  then obtain w1 x where "put tq d i now st args kwargs w = (Inl e, w1)" "view (rdb w1) = stored_task ws st i x (view (rdb w))"
    by (auto simp: wp_def split: prod.splits sum.splits)
  then show ?thesis
    using task_keys_distinct [OF n n] assms(9,10)
    by (intro exI [of _ w1]) (simp add: effects_other, simp add: stored_task_def)
qed

theorem failed_put_stays_in_flight_witness:
  "\<exists>w1. put (ex_queue (Inl (ErrNew ''db''))) (ex_queue_dispatcher (Inl (ErrNew ''db''))) ''t1'' 5 ''st'' [] [] (ex_tasks\<lparr>rdb := Map.empty\<rparr>) = (Inl (ErrNew ''db''), w1) \<and>
     mem_view (rdb w1) (taskQueueList ''ws'' ''st'') = None \<and> mem_view (rdb w1) (TaskEntry ''ws'' ''st'' ''t1'') \<noteq> None \<and>
     card (setOf (mem_view (rdb w1) (TaskIndexByStub ''ws'' ''st''))) = 1"
proof -
  let ?w = "ex_tasks\<lparr>rdb := Map.empty\<rparr>" and ?r = "Inl (ErrNew ''db'') :: goerror + unit"
  have T: "task_queue mem_client mem_view (ex_queue ?r) (ex_queue_dispatcher ?r)" by (rule ex_task_queue) simp
  have v: "tasks_typed (mem_view (rdb ?w)) ''ws'' ''st''" "isList (mem_view (rdb ?w) (taskQueueList ''ws'' ''st''))"
    "int (card (setOf (mem_view (rdb ?w) (TaskIndexByStub ''ws'' ''st'')))) < i64 (uint (qi_MaxPendingTasks ex_instance))"
    "''t1'' \<notin> setOf (mem_view (rdb ?w) (TaskIndexByStub ''ws'' ''st''))" "finite (setOf (mem_view (rdb ?w) (TaskIndexByStub ''ws'' ''st'')))"
    using ex_room by (simp_all add: tasks_typed_def mem_view_def)
  have none: "mem_view (rdb ?w) k = None" for k by (simp add: mem_view_def)
  from failed_put_stays_in_flight [where view = mem_view and w = ?w and now = 5 and args = "[]" and kwargs = "[]",
      OF T ex_names(1) v(1-3) ex_names(3) ex_queue_answers(1,2) v(4,5)]
  show ?thesis unfolding none by auto
qed

text \<open>
  Two replicas of the dispatcher that both read a task before either of them retries it put it into the queue twice,
  although the claim is removed so that other replicas leave the task alone: the retry does not look at the claim again.
  Both messages and the stored one carry the same counter, one more than before, so the two runs count as one retry.
\<close>

theorem stale_retry_duplicates:
  assumes T: "task_queue R view tq d" and "makes (taskQueueTaskFactory tq) m t" and r: "ready (view (rdb w)) m" and "decoded m"
    and lt: "tm_Retries m < tp_MaxRetries (tm_Policy m)" and ws: "tm_WorkspaceName m = ws" and st: "tm_StubId m = st" and i: "tm_TaskId m = i"
    and "view (rdb w) (taskQueueList ws st) = None" and "answers (tq_getOrCreateQueueInstance tq st) (Inr inst)"
    and "answers (tb_GetTask (tq_backendRepo tq) i) (Inr t')" and "\<And>t. answers (tb_UpdateTask (tq_backendRepo tq) i t) (Inr ())"
  shows "\<exists>w1 w2 x y. RetryTask d now t w = (Inr (), w1) \<and> view (rdb w1) (TaskClaim ws st i) = None \<and> RetryTask d now' t w1 = (Inr (), w2) \<and>
     view (rdb w2) (taskQueueList ws st) = Some (RList [x, y]) \<and> view (rdb w2) (TaskEntry ws st i) = Some (RStr y) \<and>
     Decode (d_codec d) x = (retriedMessage now m, None) \<and> Decode (d_codec d) y = (retriedMessage now' m, None) \<and>
     tm_Retries (retriedMessage now' m) = tm_Retries m + 1"
proof -
  let ?l = "taskQueueList ws st"
  have n: "task_name ws st i" using r ws st i by (simp add: ready_def)
  note k = task_keys_distinct [OF n n]
  have task: "HasPrefix k ''task:'' \<Longrightarrow> k \<noteq> ?l" for k by auto
  have "wp (RetryTask d now t) (\<lambda>_ w1. \<exists>x. Decode (d_codec d) x = (retriedMessage now m, None) \<and>
      view (rdb w1) = (stored_task ws st i x (unclaimed_task ws st i (view (rdb w))))(?l \<mapsto> RList [x])) (\<lambda>_ _. False) w"
    by (rule task_queue.up_RetryTask_queue [OF T assms(2) r assms(4) lt ws st i _ assms(10-12)]) (use assms(9) in auto)
  from wp_success [OF this] obtain w1 x where r1: "RetryTask d now t w = (Inr (), w1)" and x: "Decode (d_codec d) x = (retriedMessage now m, None)"
    and v1: "view (rdb w1) = (stored_task ws st i x (unclaimed_task ws st i (view (rdb w))))(?l \<mapsto> RList [x])" by auto
  have l: "isList (view (rdb w1) ?l)" "listOf (view (rdb w1) ?l) = [x]" using v1 by simp_all
  have v: "view (rdb w1) k = stored_task ws st i x (unclaimed_task ws st i (view (rdb w))) k" if "HasPrefix k ''task:''" for k using v1 task [OF that] by simp
  have "tasks_typed (view (rdb w1)) ws st" "view (rdb w1) (TaskRetryLock ws st i) = None"
    using r n ws st i by (simp_all add: ready_def tasks_typed_def v stored_task_def unclaimed_task_def k)
  then have rd: "ready (view (rdb w1)) m" using n ws st i by (simp add: ready_def)
  have "wp (RetryTask d now' t) (\<lambda>_ w2. \<exists>y. Decode (d_codec d) y = (retriedMessage now' m, None) \<and>
      view (rdb w2) = (stored_task ws st i y (unclaimed_task ws st i (view (rdb w1))))(?l \<mapsto> RList [x, y])) (\<lambda>_ _. False) w1"
    by (rule task_queue.up_RetryTask_queue [OF T assms(2) rd assms(4) lt ws st i l(1) assms(10-12)]) (use l(2) in auto)
  from wp_success [OF this] obtain w2 y where r2: "RetryTask d now' t w1 = (Inr (), w2)" and y: "Decode (d_codec d) y = (retriedMessage now' m, None)"
    and v2: "view (rdb w2) = (stored_task ws st i y (unclaimed_task ws st i (view (rdb w1))))(?l \<mapsto> RList [x, y])" by auto
  have "view (rdb w1) (TaskClaim ws st i) = None" using k by (simp add: v stored_task_def unclaimed_task_def)
  moreover have "view (rdb w2) (TaskEntry ws st i) = Some (RStr y)" using task [of "TaskEntry ws st i"] k by (simp add: v2 stored_task_def)
  ultimately show ?thesis using r1 r2 x y v2 by (intro exI conjI) (auto simp: retriedMessage_def)
qed

theorem stale_retry_duplicates_witness:
  "\<exists>t w1 w2 x y. taskQueueTaskFactory (ex_queue (Inr ())) (ex_message\<lparr>tm_Executor := ExecutorTaskQueue\<rparr>) ex_tasks = (Inr t, ex_tasks) \<and>
     RetryTask (ex_queue_dispatcher (Inr ())) 7 t ex_tasks = (Inr (), w1) \<and> RetryTask (ex_queue_dispatcher (Inr ())) 8 t w1 = (Inr (), w2) \<and>
     mem_view (rdb w2) (taskQueueList ''ws'' ''st'') = Some (RList [x, y])"
proof -
  let ?m = "ex_message\<lparr>tm_Executor := ExecutorTaskQueue\<rparr>"
  obtain t where t: "taskQueueTaskFactory (ex_queue (Inr ())) ?m ex_tasks = (Inr t, ex_tasks)" "makes (taskQueueTaskFactory (ex_queue (Inr ()))) ?m t"
    by (auto simp: taskQueueTaskFactory_def makes_def returnE_def)
  have r: "ready (mem_view (rdb ex_tasks)) ?m" "decoded ?m" using ex_ready by (simp_all add: ready_def decoded_def)
  have l: "mem_view (rdb ex_tasks) (taskQueueList ''ws'' ''st'') = None" by (simp add: key_eqs)
  from stale_retry_duplicates [where now = 7 and now' = 8, OF ex_tq.task_queue_axioms t(2) r _ _ _ _ l ex_queue_answers(1,4,5)] t(1)
  show ?thesis by auto
qed

end
