(* ===== verification/Autoscaler.thy ===== *)
theory Autoscaler
  imports Task_Queue Scheduler_Submit "HOL-Library.Signed_Division" "HOL-Library.Multiset"
begin

text \<open>
  The autoscaled instances of \<open>pkg/abstractions/common/instance.go\<close> and \<open>autoscaler.go\<close>, with the samples, the scale functions and
  the choice of containers to stop of \<open>pkg/abstractions/taskqueue\<close> and \<open>pkg/abstractions/endpoint\<close>. The callbacks that start and
  stop containers are fields of an instance, as in the code. The clock is an argument, and so are the numbers of
  \<open>math/rand\<close>. A goroutine that reports failed containers is part of the result of the call that starts it.

  Shown are the number of containers the scale functions ask for, which containers of a task queue may be stopped, and what a
  sample does when the containers cannot be listed.
\<close>

section \<open>Types\<close>

definition StubTypeTaskQueue :: string where
  "StubTypeTaskQueue = ''taskqueue''"

definition IsServe :: "string \<Rightarrow> bool" where
  "IsServe t \<longleftrightarrow> HasSuffix t ''/serve''"

definition IsDeployment :: "string \<Rightarrow> bool" where
  "IsDeployment t \<longleftrightarrow> HasSuffix t ''/deployment''"

definition FailedDeploymentContainerThreshold :: int where
  "FailedDeploymentContainerThreshold = 3"

definition FailedContainerThreshold :: int where
  "FailedContainerThreshold = 1"

definition failedContainerThreshold :: "string \<Rightarrow> int" where
  "failedContainerThreshold stubType = (if IsDeployment stubType then FailedDeploymentContainerThreshold else FailedContainerThreshold)"

definition QueueDepthAutoscaler :: string where
  "QueueDepthAutoscaler = ''queue_depth''"

record Autoscaler =
  au_Type :: string
  au_MaxContainers :: "64 word"
  au_TasksPerContainer :: "64 word"
  au_MinContainers :: "64 word"

record stub_config =
  sc_Autoscaler :: "Autoscaler option"

record AutoscalerResult =
  ar_DesiredContainers :: int
  ar_ResultValid :: bool

record AutoscaledInstanceState =
  is_RunningContainers :: int
  is_PendingContainers :: int
  is_StoppingContainers :: int
  is_FailedContainers :: "string list"

record 's AutoscaledInstance =
  ai_Rdb :: "'s redis_client"
  ai_InstanceLockKey :: string
  ai_IsActive :: bool
  ai_FailedContainerThreshold :: int
  ai_WorkspaceName :: string
  ai_StubExternalId :: string
  ai_StubType :: string
  ai_StubConfig :: stub_config
  ai_MaxReplicas :: "64 word"
  ai_Scheduler :: "'s Scheduler"
  ai_ListDeployments :: "string \<Rightarrow> ('s world, (bool \<times> string) list) io"
  ai_Unmarshal :: "string \<Rightarrow> goerror + stub_config"
  ai_StartContainersFunc :: "int \<Rightarrow> ('s world, unit) io"
  ai_StopContainersFunc :: "int \<Rightarrow> ('s world, unit) io"

definition nilDereference :: goerror where
  "nilDereference = Panic ''nil pointer dereference''"

definition endpointKeepWarmLock :: "string \<Rightarrow> string \<Rightarrow> string \<Rightarrow> string" where
  "endpointKeepWarmLock workspaceName stubId containerId =
     Sprintf ''endpoint:%s:%s:keep_warm_lock:%s'' [workspaceName, stubId, containerId]"

section \<open>The instance\<close>

definition countContainer :: "ContainerState \<Rightarrow> AutoscaledInstanceState \<Rightarrow> AutoscaledInstanceState" where
  "countContainer c st =
     (if cs_Status c = ContainerStatusRunning then st\<lparr>is_RunningContainers := is_RunningContainers st + 1\<rparr>
      else if cs_Status c = ContainerStatusPending then st\<lparr>is_PendingContainers := is_PendingContainers st + 1\<rparr>
      else if cs_Status c = ContainerStatusStopping then st\<lparr>is_StoppingContainers := is_StoppingContainers st + 1\<rparr>
      else st)"

definition InstanceState :: "'s AutoscaledInstance \<Rightarrow> ('s world, AutoscaledInstanceState) io" where
  "InstanceState i =
     bindE (GetActiveContainersByStubId (ai_Rdb i) (ai_StubExternalId i)) (\<lambda>containers.
     bindE (GetFailedContainersByStubId (ai_Rdb i) (ai_StubExternalId i)) (\<lambda>failedContainers.
       returnE ((fold countContainer containers
         \<lparr>is_RunningContainers = 0, is_PendingContainers = 0, is_StoppingContainers = 0, is_FailedContainers = []\<rparr>)
           \<lparr>is_FailedContainers := failedContainers\<rparr>)))"

definition Sync :: "'s AutoscaledInstance \<Rightarrow> ('s world, 's AutoscaledInstance \<times> goerror option) io" where
  "Sync i =
     (let ensure = (\<lambda>i. case sc_Autoscaler (ai_StubConfig i) of
              Some _ \<Rightarrow> i
            | None \<Rightarrow> i\<lparr>ai_StubConfig := (ai_StubConfig i)\<lparr>sc_Autoscaler := Some
                \<lparr>au_Type = QueueDepthAutoscaler, au_MaxContainers = 1, au_TasksPerContainer = 1, au_MinContainers = 0\<rparr>\<rparr>\<rparr>)
      in if IsDeployment (ai_StubType i)
         then bindE (tryE (ai_ListDeployments i (ai_StubExternalId i))) (\<lambda>r.
           case r of
             Inl e \<Rightarrow> returnE (i, Some e)
           | Inr [] \<Rightarrow> returnE (i, None)
           | Inr ((active, config) # ds) \<Rightarrow>
               let i' = (if ds = [] \<and> \<not> active then i\<lparr>ai_IsActive := False\<rparr> else i)
               in case ai_Unmarshal i config of
                    Inl e \<Rightarrow> returnE (i', Some e)
                  | Inr c \<Rightarrow> returnE (ensure (i'\<lparr>ai_StubConfig := c\<rparr>), None))
         else returnE (ensure i, None))"

text \<open>The number of containers sent to the monitor.\<close>

definition ConsumeScaleResult :: "'s AutoscaledInstance \<Rightarrow> AutoscalerResult \<Rightarrow> goerror + int" where
  "ConsumeScaleResult i result =
     (case sc_Autoscaler (ai_StubConfig i) of
        None \<Rightarrow> Inl nilDereference
      | Some a \<Rightarrow> Inr (max (ar_DesiredContainers result)
          (if IsServe (ai_StubType i) \<or> ai_StubType i = StubTypeTaskQueue then 0 else i64 (uint (au_MinContainers a)))))"

text \<open>
  The error of the callbacks comes with the rest of the result: whether the instance was cancelled, and the failed containers
  that a goroutine reports.
\<close>

record scaling =
  sg_Cancelled :: bool
  sg_Reported :: "string list"
  sg_Error :: "goerror option"

definition scaleTo :: "'s AutoscaledInstance \<Rightarrow> AutoscaledInstanceState \<Rightarrow> int \<Rightarrow> ('s world, scaling) io" where
  "scaleTo i state desiredContainers =
     (let desired = (if int (length (is_FailedContainers state)) \<ge> ai_FailedContainerThreshold i \<or> \<not> ai_IsActive i then 0 else desiredContainers);
          noContainersRunning = (is_PendingContainers state = 0 \<and> is_RunningContainers state = 0 \<and> is_StoppingContainers state = 0);
          containerDelta = i64 (desired - (is_RunningContainers state + is_PendingContainers state))
      in if desired = 0 \<and> noContainersRunning then returnE \<lparr>sg_Cancelled = True, sg_Reported = [], sg_Error = None\<rparr>
         else bindE (tryE (if containerDelta > 0 then ai_StartContainersFunc i containerDelta
                           else if containerDelta < 0 then ai_StopContainersFunc i (i64 (- containerDelta))
                           else returnE ())) (\<lambda>r.
           returnE \<lparr>sg_Cancelled = False, sg_Reported = is_FailedContainers state, sg_Error = (case r of Inl e \<Rightarrow> Some e | Inr _ \<Rightarrow> None)\<rparr>))"

definition HandleScalingEvent :: "'s AutoscaledInstance \<Rightarrow> int \<Rightarrow> ('s world, scaling) io" where
  "HandleScalingEvent i desiredContainers =
     locked (ai_Rdb i) (ai_InstanceLockKey i) 10 0
       (bindE (InstanceState i) (\<lambda>state. scaleTo i state desiredContainers))"

text \<open>Whether the unhealthy state is announced as an event.\<close>

definition StubStateDegraded :: string where
  "StubStateDegraded = ''degraded''"

definition StubStateWarning :: string where
  "StubStateWarning = ''warning''"

definition emitUnhealthyEvent :: "'s AutoscaledInstance \<Rightarrow> string \<Rightarrow> string \<Rightarrow> ('s world, bool) io" where
  "emitUnhealthyEvent i stubId currentState =
     orElse False (GetStubState (ai_Rdb i) stubId) (\<lambda>state.
       if state = currentState then returnE False
       else orElse False (SetStubState (ai_Rdb i) stubId currentState) (\<lambda>_. returnE True))"

definition handleStubEvents :: "'s AutoscaledInstance \<Rightarrow> string list \<Rightarrow> ('s world, bool) io" where
  "handleStubEvents i failedContainers =
     (if int (length failedContainers) \<ge> ai_FailedContainerThreshold i then emitUnhealthyEvent i (ai_StubExternalId i) StubStateDegraded
      else if length failedContainers > 0 then emitUnhealthyEvent i (ai_StubExternalId i) StubStateWarning
      else returnE False)"

text \<open>
  The monitor holds the containers it knows of and the end of the window in which scaling events are ignored. The clock is read
  when an event arrives and again when its handling was throttled.
\<close>

record monitor =
  mo_Containers :: "string list"
  mo_IgnoreUntil :: int

definition IgnoreScalingEventInterval :: int where
  "IgnoreScalingEventInterval = 10 * second"

definition monitorContainerEvent :: "string \<Rightarrow> int \<Rightarrow> monitor \<Rightarrow> monitor" where
  "monitorContainerEvent containerId change m =
     (let exists = (containerId \<in> set (mo_Containers m))
      in if \<not> exists \<and> change = 1 then m\<lparr>mo_Containers := containerId # mo_Containers m\<rparr>
         else if exists \<and> change = -1 then m\<lparr>mo_Containers := removeAll containerId (mo_Containers m)\<rparr>
         else m)"

definition throttledUntil :: "int \<Rightarrow> goerror \<Rightarrow> monitor \<Rightarrow> monitor" where
  "throttledUntil now e m =
     (case e of
        ThrottledByConcurrencyLimitError _ \<Rightarrow> if now > mo_IgnoreUntil m then m\<lparr>mo_IgnoreUntil := now + IgnoreScalingEventInterval\<rparr> else m
      | _ \<Rightarrow> m)"

definition monitorScaleEvent :: "'s AutoscaledInstance \<Rightarrow> int \<Rightarrow> int \<Rightarrow> int \<Rightarrow> monitor \<Rightarrow> ('s world, monitor \<times> scaling option) io" where
  "monitorScaleEvent i now now' desiredContainers m =
     (if now < mo_IgnoreUntil m then returnE (m, None)
      else bindE (tryE (HandleScalingEvent i desiredContainers)) (\<lambda>r.
        case r of
          Inl e \<Rightarrow> returnE (throttledUntil now' e m, None)
        | Inr s \<Rightarrow> returnE (case sg_Error s of Some e \<Rightarrow> throttledUntil now' e m | None \<Rightarrow> m, Some s)))"

text \<open>One tick of \<open>Autoscaler.Start\<close>, with the number of containers it sends to the instance, if any.\<close>

definition autoscalerTick :: "'s AutoscaledInstance \<Rightarrow> ('s world, 'a) io \<Rightarrow> ('a \<Rightarrow> ('s world, AutoscalerResult) io) \<Rightarrow> ('s world, int option) io" where
  "autoscalerTick i sampleFunc scaleFunc =
     bindE (tryE sampleFunc) (\<lambda>r.
       case r of
         Inl _ \<Rightarrow> returnE None
       | Inr sample \<Rightarrow>
           bindE (scaleFunc sample) (\<lambda>scaleResult.
             if ar_ResultValid scaleResult then bindE (liftSum (ConsumeScaleResult i scaleResult)) (\<lambda>n. returnE (Some n))
             else returnE None))"

section \<open>Task queues\<close>

text \<open>
  The duration of a task is carried in its decimal form, as it is stored; it does not take part in scaling. A failed listing
  leaves the state a null pointer, which the next line reads.
\<close>

record taskQueueAutoscalerSample =
  qs_QueueLength :: int
  qs_RunningTasks :: int
  qs_CurrentContainers :: int
  qs_TaskDuration :: "string option"

definition orMinusOne :: "('s, nat) io \<Rightarrow> ('s, int) io" where
  "orMinusOne m = bindE (tryE m) (\<lambda>r. returnE (case r of Inl _ \<Rightarrow> -1 | Inr n \<Rightarrow> int n))"

definition GetTaskDuration :: "'s redis_client \<Rightarrow> string \<Rightarrow> string \<Rightarrow> ('s world, string) io" where
  "GetTaskDuration R ws st = LPop R (taskQueueTaskDuration ws st)"

definition stateOrPanic :: "'s AutoscaledInstance \<Rightarrow> ('s world, AutoscaledInstanceState) io" where
  "stateOrPanic i = bindE (tryE (InstanceState i)) (\<lambda>r. case r of Inl _ \<Rightarrow> throwE nilDereference | Inr state \<Rightarrow> returnE state)"

definition taskQueueAutoscalerSampleFunc :: "'s AutoscaledInstance \<Rightarrow> ('s world, taskQueueAutoscalerSample) io" where
  "taskQueueAutoscalerSampleFunc i =
     bindE (orMinusOne (TasksClaimed (ai_Rdb i) (ai_WorkspaceName i) (ai_StubExternalId i))) (\<lambda>runningTasks.
     bindE (tryE (GetTaskDuration (ai_Rdb i) (ai_WorkspaceName i) (ai_StubExternalId i))) (\<lambda>taskDuration.
     bindE (orMinusOne (TasksInFlight (ai_Rdb i) (ai_WorkspaceName i) (ai_StubExternalId i))) (\<lambda>queueLength.
     bindE (stateOrPanic i) (\<lambda>state.
       returnE \<lparr>qs_QueueLength = queueLength, qs_RunningTasks = runningTasks,
                qs_CurrentContainers = is_PendingContainers state + is_RunningContainers state,
                qs_TaskDuration = (case taskDuration of Inl _ \<Rightarrow> None | Inr x \<Rightarrow> Some x)\<rparr>))))"

text \<open>The limits are compared as \<open>float64\<close>.\<close>

definition limitContainers :: "64 word \<Rightarrow> 64 word \<Rightarrow> int \<Rightarrow> int" where
  "limitContainers maxContainers maxReplicas desired =
     (let m = min (f64 (uint maxContainers)) (f64 (uint maxReplicas)) in i64 (min m (f64 desired)))"

definition taskQueueScaleFunc :: "'s AutoscaledInstance \<Rightarrow> taskQueueAutoscalerSample \<Rightarrow> goerror + AutoscalerResult" where
  "taskQueueScaleFunc i s =
     (if qs_QueueLength s = 0 then Inr \<lparr>ar_DesiredContainers = 0, ar_ResultValid = True\<rparr>
      else if qs_QueueLength s = -1 then Inr \<lparr>ar_DesiredContainers = 0, ar_ResultValid = False\<rparr>
      else case sc_Autoscaler (ai_StubConfig i) of
             None \<Rightarrow> Inl nilDereference
           | Some a \<Rightarrow>
               let tasksPerContainer = i64 (uint (au_TasksPerContainer a))
               in if tasksPerContainer = 0 then Inl (Panic ''integer divide by zero'')
                  else let desired = qs_QueueLength s sdiv tasksPerContainer;
                           desired' = (if qs_QueueLength s smod tasksPerContainer > 0 then desired + 1 else desired)
                       in Inr \<lparr>ar_DesiredContainers = limitContainers (au_MaxContainers a) (ai_MaxReplicas i) desired', ar_ResultValid = True\<rparr>)"

definition taskQueueServeScaleFunc :: "'s AutoscaledInstance \<Rightarrow> ('s world, AutoscalerResult) io" where
  "taskQueueServeScaleFunc i =
     bindE (attempt (Exists (ai_Rdb i) (SchedulerServeLock (ai_WorkspaceName i) (ai_StubExternalId i)))) (\<lambda>r.
       returnE (case r of
           Inl _ \<Rightarrow> \<lparr>ar_DesiredContainers = 0, ar_ResultValid = False\<rparr>
         | Inr exists \<Rightarrow> \<lparr>ar_DesiredContainers = (if exists then 1 else 0), ar_ResultValid = True\<rparr>))"

text \<open>Whether a task of the index of the container is running; the identifiers of tasks without a lock leave the index.\<close>

fun tasksRunning :: "'s AutoscaledInstance \<Rightarrow> string \<Rightarrow> string list \<Rightarrow> ('s world, bool) io" where
  "tasksRunning i containerId [] = returnE False"
| "tasksRunning i containerId (taskId # containerTasks) =
     bindE (attempt (Get (ai_Rdb i) (taskQueueTaskRunningLock (ai_WorkspaceName i) (ai_StubExternalId i) containerId taskId))) (\<lambda>r.
       case r of
         Inl e \<Rightarrow> if e = RedisNil
                  then thenE (attempt (SRem (ai_Rdb i) (taskQueueTaskRunningLockIndex (ai_WorkspaceName i) (ai_StubExternalId i) containerId) taskId))
                             (tasksRunning i containerId containerTasks)
                  else tasksRunning i containerId containerTasks
       | Inr _ \<Rightarrow> returnE True)"

definition keptWarm :: "'s AutoscaledInstance \<Rightarrow> string \<Rightarrow> ('s world, bool) io" where
  "keptWarm i key =
     bindE (attempt (cmdInt (Get (ai_Rdb i) key))) (\<lambda>r.
       returnE (case r of Inl e \<Rightarrow> e \<noteq> RedisNil | Inr keepWarmVal \<Rightarrow> keepWarmVal > 0))"

definition noTaskRunning :: "'s AutoscaledInstance \<Rightarrow> string \<Rightarrow> ('s world, bool) io" where
  "noTaskRunning i containerId =
     bindE (attempt (Get (ai_Rdb i) (taskQueueProcessingLock (ai_WorkspaceName i) (ai_StubExternalId i) containerId))) (\<lambda>r.
       if r \<noteq> Inl RedisNil then returnE False
       else bindE (attempt (SMembers (ai_Rdb i) (taskQueueTaskRunningLockIndex (ai_WorkspaceName i) (ai_StubExternalId i) containerId))) (\<lambda>r.
         case r of
           Inl e \<Rightarrow> returnE (e = RedisNil)
         | Inr containerTasks \<Rightarrow> bindE (tasksRunning i containerId containerTasks) (\<lambda>b. returnE (\<not> b))))"

definition taskQueueStoppable :: "'s AutoscaledInstance \<Rightarrow> ContainerState \<Rightarrow> ('s world, bool) io" where
  "taskQueueStoppable i container =
     (if cs_Status container = ContainerStatusStopping \<or> cs_Status container = ContainerStatusPending then returnE False
      else if \<not> ai_IsActive i then returnE True
      else bindE (if IsServe (ai_StubType i) then returnE False
                  else keptWarm i (taskQueueKeepWarmLock (ai_WorkspaceName i) (ai_StubExternalId i) (cs_ContainerId container))) (\<lambda>keepWarm.
        if keepWarm then returnE False else noTaskRunning i (cs_ContainerId container)))"

definition endpointStoppable :: "'s AutoscaledInstance \<Rightarrow> ContainerState \<Rightarrow> ('s world, bool) io" where
  "endpointStoppable i container =
     (if cs_Status container = ContainerStatusStopping \<or> cs_Status container = ContainerStatusPending then returnE False
      else if \<not> ai_IsActive i then returnE True
      else bindE (if IsDeployment (ai_StubType i)
                  then keptWarm i (endpointKeepWarmLock (ai_WorkspaceName i) (ai_StubExternalId i) (cs_ContainerId container))
                  else returnE False) (\<lambda>keepWarm. returnE (\<not> keepWarm)))"

fun collectStoppable :: "(ContainerState \<Rightarrow> ('s, bool) io) \<Rightarrow> ContainerState list \<Rightarrow> ('s, string list) io" where
  "collectStoppable stoppable [] = returnE []"
| "collectStoppable stoppable (container # containers) =
     bindE (stoppable container) (\<lambda>b.
     bindE (collectStoppable stoppable containers) (\<lambda>keys. returnE (if b then cs_ContainerId container # keys else keys)))"

definition stoppableContainers :: "'s AutoscaledInstance \<Rightarrow> (ContainerState \<Rightarrow> ('s world, bool) io) \<Rightarrow> ('s world, string list) io" where
  "stoppableContainers i stoppable =
     bindE (GetActiveContainersByStubId (ai_Rdb i) (ai_StubExternalId i)) (collectStoppable stoppable)"

definition StopContainerReasonScheduler :: string where
  "StopContainerReasonScheduler = ''SCHEDULER''"

text \<open>The random number of the round is the head of \<open>rnd\<close>, taken modulo the number of containers that are left.\<close>

fun stopRandom :: "'s AutoscaledInstance \<Rightarrow> int \<Rightarrow> (nat \<Rightarrow> nat) \<Rightarrow> nat \<Rightarrow> string list \<Rightarrow> ('s world, string list) io" where
  "stopRandom i now rnd 0 containerIds = returnE []"
| "stopRandom i now rnd (Suc n) containerIds =
     (if containerIds = [] then returnE []
      else let idx = rnd n mod length containerIds; containerId = containerIds ! idx
           in thenE (Stop (ai_Scheduler i) now \<lparr>sa_ContainerId = containerId, sa_Force = False, sa_Reason = StopContainerReasonScheduler\<rparr>)
             (bindE (stopRandom i now rnd n (take idx containerIds @ drop (Suc idx) containerIds)) (\<lambda>ids. returnE (containerId # ids))))"

text \<open>The identifiers of the stopped containers are returned.\<close>

definition stopContainers :: "'s AutoscaledInstance \<Rightarrow> (ContainerState \<Rightarrow> ('s world, bool) io) \<Rightarrow> int \<Rightarrow> (nat \<Rightarrow> nat) \<Rightarrow> int \<Rightarrow> ('s world, string list) io" where
  "stopContainers i stoppable now rnd containersToStop =
     bindE (stoppableContainers i stoppable) (stopRandom i now rnd (nat containersToStop))"

section \<open>Endpoints\<close>

record endpointAutoscalerSample =
  es_TotalRequests :: int
  es_CurrentContainers :: int

definition endpointSampleFunc :: "'s AutoscaledInstance \<Rightarrow> ('s world, endpointAutoscalerSample) io" where
  "endpointSampleFunc i =
     bindE (orMinusOne (TasksInFlight (ai_Rdb i) (ai_WorkspaceName i) (ai_StubExternalId i))) (\<lambda>totalRequests.
     bindE (stateOrPanic i) (\<lambda>state.
       returnE \<lparr>es_TotalRequests = totalRequests, es_CurrentContainers = is_PendingContainers state + is_RunningContainers state\<rparr>))"

definition endpointDeploymentScaleFunc :: "'s AutoscaledInstance \<Rightarrow> endpointAutoscalerSample \<Rightarrow> AutoscalerResult" where
  "endpointDeploymentScaleFunc i s =
     (if es_TotalRequests s = 0 then \<lparr>ar_DesiredContainers = 0, ar_ResultValid = True\<rparr>
      else if es_TotalRequests s = -1 then \<lparr>ar_DesiredContainers = 0, ar_ResultValid = False\<rparr>
      else let tasksPerContainer = (case sc_Autoscaler (ai_StubConfig i) of
                 Some a \<Rightarrow> if au_TasksPerContainer a > 0 then i64 (uint (au_TasksPerContainer a)) else 1
               | None \<Rightarrow> 1);
               desired = es_TotalRequests s sdiv tasksPerContainer;
               desired' = (if es_TotalRequests s smod tasksPerContainer > 0 then desired + 1 else desired);
               maxContainers = (case sc_Autoscaler (ai_StubConfig i) of Some a \<Rightarrow> au_MaxContainers a | None \<Rightarrow> 1)
           in \<lparr>ar_DesiredContainers = limitContainers maxContainers (ai_MaxReplicas i) desired', ar_ResultValid = True\<rparr>)"

definition endpointServeScaleFunc :: "'s AutoscaledInstance \<Rightarrow> ('s world, AutoscalerResult) io" where
  "endpointServeScaleFunc i =
     bindE (attempt (Exists (ai_Rdb i) (SchedulerServeLock (ai_WorkspaceName i) (ai_StubExternalId i)))) (\<lambda>r.
       returnE (case r of
           Inl _ \<Rightarrow> \<lparr>ar_DesiredContainers = 0, ar_ResultValid = False\<rparr>
         | Inr exists \<Rightarrow> \<lparr>ar_DesiredContainers = (if exists then 1 else 0), ar_ResultValid = True\<rparr>))"

section \<open>The number of containers\<close>

lemma f64_ulp_power:
  assumes "2 ^ 53 \<le> n"
  shows "\<exists>k. f64_ulp n = 2 ^ Suc k \<and> 2 ^ (53 + k) \<le> n"
  using assms
proof (induction n rule: f64_ulp.induct)
  case (1 n)
  show ?case
  proof (cases "n div 2 < 2 ^ 53")
    case True
    then have "f64_ulp (n div 2) = 1" by (subst f64_ulp.simps) simp
    with 1(2) have "f64_ulp n = 2 ^ Suc 0 \<and> 2 ^ (53 + 0) \<le> n" by (subst f64_ulp.simps) simp
    then show ?thesis by blast
  next
    case False
    then obtain k where k: "f64_ulp (n div 2) = 2 ^ Suc k" "2 ^ (53 + k) \<le> n div 2" using 1 by auto
    have "2 * 2 ^ (53 + k) \<le> 2 * (n div 2)" using k(2) by (rule mult_le_mono2)
    also have "\<dots> \<le> n" by simp
    finally have "2 ^ (53 + Suc k) \<le> n" by (simp add: power_add)
    moreover have "f64_ulp n = 2 ^ Suc (Suc k)" using k(1) 1(2) by (subst f64_ulp.simps) simp
    ultimately show ?thesis by blast
  qed
qed

lemma f64_exact: "0 \<le> n \<Longrightarrow> n < 2 ^ 53 \<Longrightarrow> f64 n = n"
  by (simp add: f64_def f64_ulp.simps nat_less_iff)

lemma f64_large:
  assumes "2 ^ 53 \<le> n"
  shows "2 ^ 53 \<le> f64 n"
proof -
  obtain k where k: "f64_ulp (nat n) = 2 ^ Suc k" "2 ^ (53 + k) \<le> nat n" using f64_ulp_power [of "nat n"] assms by (auto simp: le_nat_iff)
  define u q where "u = int (f64_ulp (nat n))" and "q = n div u"
  have u: "u = 2 * 2 ^ k" using k(1) by (simp add: u_def)
  have "2 ^ 52 * u \<le> n" using k(2) assms by (simp add: u le_nat_iff power_add)
  then have "2 ^ 52 \<le> q" using u zdiv_mono1 [of "2 ^ 52 * u" n u] by (simp add: q_def)
  then have qu: "2 ^ 52 * u \<le> q * u" using u by (simp add: mult_right_mono)
  have "nat \<bar>n\<bar> = nat n" using assms by simp
  then have "f64 n = q * u \<or> f64 n = (q + 1) * u" unfolding f64_def Let_def q_def u_def by auto
  moreover have "q * u \<le> (q + 1) * u" using u by (simp add: distrib_right)
  ultimately have f: "q * u \<le> f64 n" by auto
  have "2 ^ 53 \<le> 2 ^ 52 * u" using u one_le_power [of "2 :: int" k] by simp
  also note qu
  also note f
  finally show ?thesis .
qed

lemma in_i64_small: "0 \<le> n \<Longrightarrow> n < 2 ^ 53 \<Longrightarrow> in_i64 n"
  by (simp add: in_i64_def)

text \<open>Rounding the limits does not change the number asked for.\<close>

lemma limitContainers_exact:
  assumes "0 \<le> n" and "n < 2 ^ 53"
  shows "limitContainers a b n = min (min (uint a) (uint b)) n"
proof -
  have r: "min (f64 (uint a)) n = min (uint a) n" for a :: "64 word"
    using f64_exact [of "uint a"] f64_large [of "uint a"] assms(2) by (cases "uint a < 2 ^ 53") auto
  have "min (min (f64 (uint a)) (f64 (uint b))) n = min (min (uint a) (uint b)) n"
    using r [of a] r [of b] by (simp add: min.assoc)
  moreover have "0 \<le> min (min (uint a) (uint b)) n" "min (min (uint a) (uint b)) n \<le> n" using assms by simp_all
  then have "in_i64 (min (min (uint a) (uint b)) n)" using in_i64_small [OF _ order_le_less_trans [OF _ assms(2)]] by blast
  ultimately show ?thesis using assms by (simp add: limitContainers_def Let_def f64_exact i64_id)
qed

lemma Least_enough:
  assumes "0 < t"
  shows "(LEAST n. q \<le> n * t) = q div t + (if q mod t > 0 then 1 else 0 :: nat)"
proof -
  define d m where "d = q div t" and "m = q mod t"
  have q: "q = d * t + m" and m: "m < t" using assms by (simp_all add: d_def m_def)
  have "(LEAST n. q \<le> n * t) = d + (if m > 0 then 1 else 0)"
  proof (rule Least_equality)
    show "q \<le> (d + (if m > 0 then 1 else 0)) * t" using q m by simp
  next
    fix n assume n: "q \<le> n * t"
    have "n * t < q" if "n < d + (if m > 0 then 1 else 0)"
    proof (cases "n < d")
      case True
      then have "n * t < d * t" using assms by simp
      then show ?thesis unfolding q by (rule trans_less_add1)
    next
      case False
      then have "n = d" "m > 0" using that by (simp_all split: if_splits)
      then show ?thesis using q by simp
    qed
    with n show "d + (if m > 0 then 1 else 0) \<le> n" by (meson leD leI)
  qed
  then show ?thesis by (simp add: d_def m_def)
qed

lemma enough_containers:
  assumes "0 < t" and "q' = int q" and "t' = int t"
  shows "(if q' smod t' > 0 then q' sdiv t' + 1 else q' sdiv t') = int (LEAST n. q \<le> n * t)"
proof -
  have "q' sdiv t' = int (q div t)" "q' smod t' = int (q mod t)"
    using assms by (simp_all add: signed_divide_int_def signed_modulo_int_def zdiv_int zmod_int sgn_if)
  then show ?thesis using Least_enough [OF assms(1), of q] by simp
qed

section \<open>Idle containers of a task queue\<close>

abbreviation runIndex :: "'s AutoscaledInstance \<Rightarrow> string \<Rightarrow> string" where
  "runIndex i c \<equiv> taskQueueTaskRunningLockIndex (ai_WorkspaceName i) (ai_StubExternalId i) c"

abbreviation runLock :: "'s AutoscaledInstance \<Rightarrow> string \<Rightarrow> string \<Rightarrow> string" where
  "runLock i c t \<equiv> taskQueueTaskRunningLock (ai_WorkspaceName i) (ai_StubExternalId i) c t"

abbreviation popLock :: "'s AutoscaledInstance \<Rightarrow> string \<Rightarrow> string" where
  "popLock i c \<equiv> taskQueueProcessingLock (ai_WorkspaceName i) (ai_StubExternalId i) c"

abbreviation warmLock :: "'s AutoscaledInstance \<Rightarrow> string \<Rightarrow> string" where
  "warmLock i c \<equiv> taskQueueKeepWarmLock (ai_WorkspaceName i) (ai_StubExternalId i) c"

text \<open>The keys of a container have their types, and its tasks have names.\<close>

definition queue_container :: "'s AutoscaledInstance \<Rightarrow> keyspace \<Rightarrow> string \<Rightarrow> bool" where
  "queue_container i v c \<longleftrightarrow> plain c \<and> isStr (v (warmLock i c)) \<and> isStr (v (popLock i c)) \<and> isSet (v (runIndex i c)) \<and>
     (\<forall>t \<in> setOf (v (runIndex i c)). plain t \<and> t \<noteq> ''index'' \<and> isStr (v (runLock i c t)))"

definition warm :: "rvalue option \<Rightarrow> bool" where
  "warm y \<longleftrightarrow> (case y of Some (RStr x) \<Rightarrow> (case ParseInt x 64 of Some n \<Rightarrow> n > 0 | None \<Rightarrow> True) | _ \<Rightarrow> False)"

definition without_tasks :: "'s AutoscaledInstance \<Rightarrow> keyspace \<Rightarrow> string \<Rightarrow> bool" where
  "without_tasks i v c \<longleftrightarrow> v (popLock i c) = None \<and> (\<forall>t \<in> setOf (v (runIndex i c)). v (runLock i c t) = None)"

definition idle :: "'s AutoscaledInstance \<Rightarrow> keyspace \<Rightarrow> ContainerState \<Rightarrow> bool" where
  "idle i v c \<longleftrightarrow> cs_Status c \<noteq> ContainerStatusStopping \<and> cs_Status c \<noteq> ContainerStatusPending \<and>
     (ai_IsActive i \<longrightarrow> (IsServe (ai_StubType i) \<or> \<not> warm (v (warmLock i (cs_ContainerId c)))) \<and> without_tasks i v (cs_ContainerId c))"

text \<open>Reading the tasks of the containers removes the tasks without a lock from the indices, and changes nothing else.\<close>

definition tidied :: "'s AutoscaledInstance \<Rightarrow> keyspace \<Rightarrow> keyspace \<Rightarrow> bool" where
  "tidied i v v' \<longleftrightarrow> (\<forall>k. (\<forall>c. plain c \<longrightarrow> k \<noteq> runIndex i c) \<longrightarrow> v' k = v k) \<and>
     (\<forall>c. plain c \<longrightarrow> isSet (v (runIndex i c)) \<longrightarrow> isSet (v' (runIndex i c)) \<and> setOf (v' (runIndex i c)) \<subseteq> setOf (v (runIndex i c)) \<and>
        (\<forall>t \<in> setOf (v (runIndex i c)) - setOf (v' (runIndex i c)). plain t \<and> t \<noteq> ''index'' \<and> v (runLock i c t) = None))"

definition plain_instance :: "'s AutoscaledInstance \<Rightarrow> bool" where
  "plain_instance i \<longleftrightarrow> plain (ai_WorkspaceName i) \<and> plain (ai_StubExternalId i)"

lemma Split_warmLock:
  assumes "plain ws" and "plain st" and "plain c"
  shows "Split CHR '':'' (taskQueueKeepWarmLock ws st c) = [''taskqueue'', ws, st, ''keep_warm_lock'', c]"
  using assms by (simp add: queue_key_eqs plain_def Split_append Split_no_sep)

lemma runIndex_other:
  assumes "plain_instance i" and "plain c" and "plain c'"
  shows "warmLock i c \<noteq> runIndex i c'" "popLock i c \<noteq> runIndex i c'" "plain t \<Longrightarrow> t \<noteq> ''index'' \<Longrightarrow> runLock i c t \<noteq> runIndex i c'"
    "runIndex i c = runIndex i c' \<longleftrightarrow> c = c'"
proof -
  show "warmLock i c \<noteq> runIndex i c'" "popLock i c \<noteq> runIndex i c'" "plain t \<Longrightarrow> t \<noteq> ''index'' \<Longrightarrow> runLock i c t \<noteq> runIndex i c'"
    using assms by - (rule key_neqI [of "CHR '':''"], simp add: plain_instance_def Split_warmLock Split_queue_keys; fail)+
  have "Split CHR '':'' (runIndex i c) = Split CHR '':'' (runIndex i c') \<longleftrightarrow> c = c'"
    using assms by (simp add: plain_instance_def Split_queue_keys)
  then show "runIndex i c = runIndex i c' \<longleftrightarrow> c = c'" by metis
qed

lemma tidied_refl [simp]: "tidied i v v"
  by (simp add: tidied_def)

lemma tidied_offD: "tidied i v v' \<Longrightarrow> (\<And>c. plain c \<Longrightarrow> k \<noteq> runIndex i c) \<Longrightarrow> v' k = v k"
  unfolding tidied_def by blast

lemma tidied_idxD:
  assumes "tidied i v v'" and "plain c" and "isSet (v (runIndex i c))"
  shows "isSet (v' (runIndex i c))" "setOf (v' (runIndex i c)) \<subseteq> setOf (v (runIndex i c))"
    "t \<in> setOf (v (runIndex i c)) \<Longrightarrow> t \<notin> setOf (v' (runIndex i c)) \<Longrightarrow> plain t \<and> t \<noteq> ''index'' \<and> v (runLock i c t) = None"
  using assms unfolding tidied_def by blast+

lemma tidied_same:
  assumes "plain_instance i" and "tidied i v v'" and "plain c"
  shows "v' (warmLock i c) = v (warmLock i c)" "v' (popLock i c) = v (popLock i c)"
    "plain t \<Longrightarrow> t \<noteq> ''index'' \<Longrightarrow> v' (runLock i c t) = v (runLock i c t)"
  by (rule tidied_offD [OF assms(2)], rule runIndex_other [OF assms(1,3)], assumption+)+

lemma tidied_trans:
  assumes "plain_instance i" and "tidied i v1 v2" and "tidied i v2 v3"
  shows "tidied i v1 v3"
  unfolding tidied_def
proof (intro conjI allI impI)
  fix k assume "\<forall>c. plain c \<longrightarrow> k \<noteq> runIndex i c"
  then have "v2 k = v1 k" "v3 k = v2 k" using tidied_offD [OF assms(2)] tidied_offD [OF assms(3)] by blast+
  then show "v3 k = v1 k" by simp
next
  fix c assume c: "plain c" "isSet (v1 (runIndex i c))"
  note 2 = tidied_idxD [OF assms(2) c] and 3 = tidied_idxD [OF assms(3) c(1) tidied_idxD(1) [OF assms(2) c]]
  show "isSet (v3 (runIndex i c))" by (rule 3)
  show "setOf (v3 (runIndex i c)) \<subseteq> setOf (v1 (runIndex i c))" using 2(2) 3(2) by blast
  show "\<forall>t \<in> setOf (v1 (runIndex i c)) - setOf (v3 (runIndex i c)). plain t \<and> t \<noteq> ''index'' \<and> v1 (runLock i c t) = None"
  proof
    fix t assume t: "t \<in> setOf (v1 (runIndex i c)) - setOf (v3 (runIndex i c))"
    show "plain t \<and> t \<noteq> ''index'' \<and> v1 (runLock i c t) = None"
    proof (cases "t \<in> setOf (v2 (runIndex i c))")
      case True
      then show ?thesis using 3(3) [of t] t tidied_same(3) [OF assms(1,2) c(1), of t] by auto
    next
      case False
      then show ?thesis using 2(3) [of t] t by blast
    qed
  qed
qed

lemma tidied_container:
  assumes "plain_instance i" and "tidied i v v'" and "queue_container i v c"
  shows "queue_container i v' c" "without_tasks i v' c = without_tasks i v c"
proof -
  have c: "plain c" using assms(3) by (simp add: queue_container_def)
  note same = tidied_same [OF assms(1,2) c]
  have "isSet (v (runIndex i c))" using assms(3) by (simp add: queue_container_def)
  note idx = tidied_idxD [OF assms(2) c this]
  have names: "\<forall>t \<in> setOf (v (runIndex i c)). plain t \<and> t \<noteq> ''index''" using assms(3) by (simp add: queue_container_def)
  show "queue_container i v' c"
    using assms(3) idx(1,2) names by (auto simp: queue_container_def same)
  show "without_tasks i v' c = without_tasks i v c"
  proof -
    have eq: "v' (runLock i c t) = v (runLock i c t)" if "t \<in> setOf (v (runIndex i c))" for t using same(3) [of t] names that by simp
    have "(\<forall>t \<in> setOf (v' (runIndex i c)). v' (runLock i c t) = None) \<longleftrightarrow> (\<forall>t \<in> setOf (v' (runIndex i c)). v (runLock i c t) = None)"
      by (rule ball_cong [OF refl]) (use eq idx(2) in auto)
    also have "\<dots> \<longleftrightarrow> (\<forall>t \<in> setOf (v (runIndex i c)). v (runLock i c t) = None)"
    proof (intro iffI ballI)
      fix t assume "\<forall>t \<in> setOf (v' (runIndex i c)). v (runLock i c t) = None" "t \<in> setOf (v (runIndex i c))"
      then show "v (runLock i c t) = None" using idx(3) [of t] by (cases "t \<in> setOf (v' (runIndex i c))") simp_all
    next
      fix t assume "\<forall>t \<in> setOf (v (runIndex i c)). v (runLock i c t) = None" "t \<in> setOf (v' (runIndex i c))"
      then show "v (runLock i c t) = None" using idx(2) by (simp add: subset_iff)
    qed
    finally show ?thesis by (simp add: without_tasks_def same(2))
  qed
qed

lemma tidied_idle:
  assumes "plain_instance i" and "tidied i v v'" and "queue_container i v (cs_ContainerId c)"
  shows "idle i v' c = idle i v c"
  using tidied_container [OF assms] tidied_same(1) [OF assms(1,2)] assms(3) by (simp add: idle_def queue_container_def)

lemma tidied_remove:
  assumes "plain_instance i" and "plain c" and "plain t" and "t \<noteq> ''index''" and "v (runLock i c t) = None"
  shows "tidied i v (v(runIndex i c := putSet (setOf (v (runIndex i c)) - {t})))"
  using assms runIndex_other(4) [OF assms(1) _ assms(2)] by (auto simp: tidied_def)

definition queue_listing :: "'s AutoscaledInstance \<Rightarrow> keyspace \<Rightarrow> bool" where
  "queue_listing i v \<longleftrightarrow> isSet (v (SchedulerContainerIndex (ai_StubExternalId i))) \<and>
     (\<forall>k \<in> setOf (v (SchedulerContainerIndex (ai_StubExternalId i))). isHash (v k) \<and> k \<noteq> SchedulerContainerIndex (ai_StubExternalId i) \<and>
        (cs_ContainerId (cstate_at v k) \<noteq> [] \<longrightarrow> queue_container i v (cs_ContainerId (cstate_at v k))))"

lemma queue_key_agree:
  assumes "\<And>k. HasPrefix k ''taskqueue:'' \<Longrightarrow> v' k = v k"
  shows "queue_container i v' = queue_container i v" "idle i v' = idle i v"
proof -
  have "v' (runIndex i c) = v (runIndex i c)" "v' (runLock i c t) = v (runLock i c t)" "v' (popLock i c) = v (popLock i c)"
    "v' (warmLock i c) = v (warmLock i c)" for c t
    by (rule assms, simp add: queue_key_eqs HasPrefix_def)+
  then show "queue_container i v' = queue_container i v" "idle i v' = idle i v"
    by (simp_all add: queue_container_def idle_def without_tasks_def fun_eq_iff)
qed

context redis_up
begin

lemma up_tasksRunning:
  assumes "ai_Rdb i = R" and "plain_instance i" and "plain c" and "isSet (V w (runIndex i c))"
    and "\<forall>t \<in> set ts. plain t \<and> t \<noteq> ''index'' \<and> isStr (V w (runLock i c t))"
    and "\<And>w'. tidied i (V w) (V w') \<Longrightarrow> Q (\<exists>t \<in> set ts. V w (runLock i c t) \<noteq> None) w'"
  shows "wp (tasksRunning i c ts) Q E w"
  using assms(4-6)
proof (induction ts arbitrary: w)
  case Nil
  then show ?case by (simp add: wp_eqs)
next
  case (Cons t ts)
  show ?case
  proof (cases "V w (runLock i c t)")
    case None
    show ?thesis
      unfolding tasksRunning.simps assms(1) wp_bindE wp_attempt
    proof (rule up_Get_None [OF None], unfold sum.case if_P [OF refl] wp_thenE wp_attempt, rule up_SRem, goal_cases)
      case (2 w1 w2)
      have t: "tidied i (V w) (V w2)" using tidied_remove [OF assms(2,3), of t "V w"] Cons.prems(2) None 2 by simp
      have eq: "V w2 (runLock i c u) = V w (runLock i c u)" if "u \<in> set ts" for u
        using tidied_same(3) [OF assms(2) t assms(3), of u] Cons.prems(2) that by simp
      show ?case
      proof (rule Cons.IH, goal_cases)
        case 1
        then show ?case using tidied_idxD(1) [OF t assms(3) Cons.prems(1)] .
      next
        case 2
        then show ?case using Cons.prems(2) eq by simp
      next
        case (3 w3)
        then show ?case using Cons.prems(3) [of w3] tidied_trans [OF assms(2) t] None eq by simp
      qed
    qed (use Cons.prems(1) in simp)
  next
    case (Some y)
    then obtain x where x: "V w (runLock i c t) = Some (RStr x)" using Cons.prems(2) by (cases y) auto
    show ?thesis
      unfolding tasksRunning.simps assms(1) wp_bindE wp_attempt
      by (rule up_Get [OF x]) (use Cons.prems(3) x in \<open>auto simp: wp_eqs\<close>)
  qed
qed

lemma up_keptWarm:
  assumes "ai_Rdb i = R" and "isStr (V w k)" and "\<And>w'. V w' = V w \<Longrightarrow> Q (warm (V w k)) w'"
  shows "wp (keptWarm i k) Q E w"
proof (cases "V w k")
  case None
  show ?thesis
    unfolding keptWarm_def cmdInt_def assms(1) wp_bindE wp_attempt
    by (rule up_Get_None [OF None]) (use assms(3) None in \<open>simp add: wp_eqs warm_def\<close>)
next
  case (Some y)
  then obtain x where x: "V w k = Some (RStr x)" using assms(2) by (cases y) auto
  show ?thesis
    unfolding keptWarm_def cmdInt_def assms(1) wp_bindE wp_attempt
    by (rule up_Get [OF x]) (use assms(3) x in \<open>auto simp: wp_eqs warm_def split: option.splits\<close>)
qed

lemma up_noTaskRunning:
  assumes "ai_Rdb i = R" and "plain_instance i" and "queue_container i (V w) c"
    and "\<And>w'. tidied i (V w) (V w') \<Longrightarrow> Q (without_tasks i (V w) c) w'"
  shows "wp (noTaskRunning i c) Q E w"
proof (cases "V w (popLock i c)")
  case None
  have c: "plain c" "isSet (V w (runIndex i c))" using assms(3) by (simp_all add: queue_container_def)
  show ?thesis
    unfolding noTaskRunning_def assms(1) wp_bindE wp_attempt
  proof (rule up_Get_None [OF None], goal_cases)
    case (1 w1)
    have no: "\<not> (Inl RedisNil :: goerror + string) \<noteq> Inl RedisNil" by simp
    show ?case
      unfolding if_not_P [OF no] wp_bindE wp_attempt
    proof (rule up_SMembers, goal_cases)
      case (2 ts w2)
      show ?case
        unfolding sum.case wp_bindE
        by (rule up_tasksRunning [OF assms(1,2) c(1)])
           (use 1 2 c assms(3,4) None in \<open>auto simp: wp_eqs queue_container_def without_tasks_def\<close>)
    qed (use 1 c in simp)
  qed
next
  case (Some y)
  then obtain x where x: "V w (popLock i c) = Some (RStr x)" using assms(3) by (cases y) (auto simp: queue_container_def)
  show ?thesis
    unfolding noTaskRunning_def assms(1) wp_bindE wp_attempt
    by (rule up_Get [OF x]) (use assms(4) x in \<open>auto simp: wp_eqs without_tasks_def\<close>)
qed

lemma up_taskQueueStoppable:
  assumes "ai_Rdb i = R" and "plain_instance i" and "queue_container i (V w) (cs_ContainerId c)"
    and "\<And>w'. tidied i (V w) (V w') \<Longrightarrow> Q (idle i (V w) c) w'"
  shows "wp (taskQueueStoppable i c) Q E w"
proof (cases "cs_Status c = ContainerStatusStopping \<or> cs_Status c = ContainerStatusPending \<or> \<not> ai_IsActive i")
  case True
  then show ?thesis using assms(4) [of w] by (auto simp: taskQueueStoppable_def wp_eqs idle_def)
next
  case False
  have warm: "wp (if IsServe (ai_StubType i) then returnE False else keptWarm i (warmLock i (cs_ContainerId c)))
     (\<lambda>b w'. V w' = V w \<and> b = (\<not> IsServe (ai_StubType i) \<and> warm (V w (warmLock i (cs_ContainerId c))))) (\<lambda>_ _. False) w"
    by (auto simp: wp_eqs intro!: up_keptWarm assms(1)) (use assms(3) in \<open>simp add: queue_container_def\<close>)
  from False have "taskQueueStoppable i c = bindE (if IsServe (ai_StubType i) then returnE False else keptWarm i (warmLock i (cs_ContainerId c)))
     (\<lambda>keepWarm. if keepWarm then returnE False else noTaskRunning i (cs_ContainerId c))"
    by (simp add: taskQueueStoppable_def)
  then show ?thesis
    unfolding wp_bindE
  proof (simp only: wp_bindE, intro wp_mono [OF warm], goal_cases)
    case (1 b w1)
    show ?case
    proof (cases b)
      case True
      then show ?thesis using 1 False assms(4) [of w1] by (simp add: wp_eqs idle_def)
    next
      case b: False
      have "wp (noTaskRunning i (cs_ContainerId c)) Q E w1"
        by (rule up_noTaskRunning [OF assms(1,2)]) (use 1 b False assms(3,4) in \<open>auto simp: idle_def\<close>)
      then show ?thesis using b by simp
    qed
  qed simp
qed

lemma up_collectStoppable:
  assumes "ai_Rdb i = R" and "plain_instance i" and "\<forall>c \<in> set cs. queue_container i (V w) (cs_ContainerId c)"
    and "\<And>w'. tidied i (V w) (V w') \<Longrightarrow> Q (map cs_ContainerId (filter (idle i (V w)) cs)) w'"
  shows "wp (collectStoppable (taskQueueStoppable i) cs) Q E w"
  using assms(3,4)
proof (induction cs arbitrary: w Q)
  case Nil
  then show ?case by (simp add: wp_eqs)
next
  case (Cons c cs)
  show ?case
    unfolding collectStoppable.simps wp_bindE
  proof (rule up_taskQueueStoppable [OF assms(1,2)], goal_cases)
    case (2 w1)
    have ok: "\<forall>c \<in> set cs. queue_container i (V w1) (cs_ContainerId c)" and same: "filter (idle i (V w1)) cs = filter (idle i (V w)) cs"
      using Cons.prems(1) tidied_container(1) [OF assms(2) 2] tidied_idle [OF assms(2) 2] by (auto intro!: filter_cong)
    show ?case
      by (rule Cons.IH [OF ok]) (use Cons.prems(2) tidied_trans [OF assms(2) 2] in \<open>auto simp: wp_eqs same\<close>)
  qed (use Cons.prems(1) in simp)
qed

lemma up_stoppableContainers:
  assumes "ai_Rdb i = R" and "plain_instance i" and "queue_listing i (V w)"
  shows "wp (stoppableContainers i (taskQueueStoppable i)) (\<lambda>ids _. \<exists>ks. distinct ks \<and> set ks = setOf (V w (SchedulerContainerIndex (ai_StubExternalId i))) \<and>
     ids = map cs_ContainerId (filter (idle i (V w)) (active_states (V w) ks))) (\<lambda>_ _. False) w"
  unfolding stoppableContainers_def GetActiveContainersByStubId_def assms(1) wp_bindE
proof (rule up_containersByIndex, goal_cases)
  case 1
  then show ?case using assms(3) by (simp add: queue_listing_def)
next
  case 2
  then show ?case using assms(3) by (simp add: queue_listing_def)
next
  case (3 ks w1)
  have same: "V w1 k = V w k" if "HasPrefix k ''taskqueue:''" for k
  proof -
    have "k \<noteq> SchedulerContainerIndex (ai_StubExternalId i)" using that by (auto simp: key_eqs HasPrefix_def)
    then show ?thesis using 3(3) by (simp add: pruned_def agree_off_def)
  qed
  have eq: "queue_container i (V w1) = queue_container i (V w)" "idle i (V w1) = idle i (V w)"
    by (rule queue_key_agree, rule same, assumption)+
  have "\<forall>c \<in> set (active_states (V w) ks). queue_container i (V w1) (cs_ContainerId c)"
    unfolding eq(1) using assms(3) 3(1) by (auto simp: queue_listing_def active_states_def active_keys_def)
  then show ?case
    by (rule up_collectStoppable [OF assms(1,2)]) (use 3 eq(2) in auto)
qed

end

text \<open>The containers that are stopped are different ones of those that may be stopped, as many as asked for if there are enough.\<close>

lemma wp_stopRandom:
  "wp (stopRandom i now rnd n ids) (\<lambda>stopped _. length stopped = min n (length ids) \<and> mset stopped \<subseteq># mset ids) (\<lambda>_ _. True) w"
proof (induction n arbitrary: ids w)
  case 0
  then show ?case by (simp add: wp_eqs)
next
  case (Suc n ids w)
  show ?case
  proof (cases "ids = []")
    case True
    then show ?thesis by (simp add: wp_eqs)
  next
    case False
    define k where "k = rnd n mod length ids"
    have k: "k < length ids" using False by (simp add: k_def)
    let ?rest = "take k ids @ drop (Suc k) ids"
    have len: "length ids = Suc (length ?rest)" using k by simp
    have ids: "mset ids = add_mset (ids ! k) (mset ?rest)"
      using arg_cong [OF id_take_nth_drop [OF k], of mset] by simp
    have "wp (stopRandom i now rnd n ?rest) (\<lambda>xs _. length (ids ! k # xs) = min (Suc n) (length ids) \<and> mset (ids ! k # xs) \<subseteq># mset ids) (\<lambda>_ _. True) w'" for w'
    proof (rule wp_mono [OF Suc.IH])
      fix xs :: "string list" and w'' assume "length xs = min n (length ?rest) \<and> mset xs \<subseteq># mset ?rest"
      then show "length (ids ! k # xs) = min (Suc n) (length ids) \<and> mset (ids ! k # xs) \<subseteq># mset ids" unfolding ids len by simp
    qed simp
    then have "wp (thenE (Stop (ai_Scheduler i) now \<lparr>sa_ContainerId = ids ! k, sa_Force = False, sa_Reason = StopContainerReasonScheduler\<rparr>)
        (bindE (stopRandom i now rnd n ?rest) (\<lambda>xs. returnE (ids ! k # xs))))
       (\<lambda>stopped _. length stopped = min (Suc n) (length ids) \<and> mset stopped \<subseteq># mset ids) (\<lambda>_ _. True) w"
      unfolding wp_thenE wp_bindE wp_returnE by (rule wp_all) simp_all
    then show ?thesis unfolding stopRandom.simps Let_def k_def [symmetric] if_not_P [OF False] .
  qed
qed

section \<open>A task queue with two containers\<close>

definition ex_autoscaler :: Autoscaler where
  "ex_autoscaler = \<lparr>au_Type = QueueDepthAutoscaler, au_MaxContainers = 10, au_TasksPerContainer = 2, au_MinContainers = 0\<rparr>"

definition ex_queue_instance :: "mem redis_client \<Rightarrow> mem AutoscaledInstance" where
  "ex_queue_instance R = \<lparr>ai_Rdb = R, ai_InstanceLockKey = taskQueueInstanceLock ''ws'' ''st'', ai_IsActive = True,
     ai_FailedContainerThreshold = failedContainerThreshold StubTypeTaskQueue, ai_WorkspaceName = ''ws'', ai_StubExternalId = ''st'', ai_StubType = StubTypeTaskQueue,
     ai_StubConfig = \<lparr>sc_Autoscaler = Some ex_autoscaler\<rparr>, ai_MaxReplicas = 4, ai_Scheduler = ex_scheduler,
     ai_ListDeployments = (\<lambda>_. returnE []), ai_Unmarshal = (\<lambda>_. Inl (ErrNew ''syntax'')),
     ai_StartContainersFunc = (\<lambda>_. returnE ()), ai_StopContainersFunc = (\<lambda>_. returnE ())\<rparr>"

lemma ex_queue_instance_sel [simp]:
  "ai_Rdb (ex_queue_instance R) = R" "ai_WorkspaceName (ex_queue_instance R) = ''ws''" "ai_StubExternalId (ex_queue_instance R) = ''st''"
  "ai_IsActive (ex_queue_instance R)" "ai_StubType (ex_queue_instance R) = StubTypeTaskQueue"
  "ai_StubConfig (ex_queue_instance R) = \<lparr>sc_Autoscaler = Some ex_autoscaler\<rparr>" "ai_MaxReplicas (ex_queue_instance R) = 4"
  by (simp_all add: ex_queue_instance_def)

text \<open>The second container runs a task.\<close>

definition ex_two_containers :: "mem world" where
  "ex_two_containers = \<lparr>rdb = [SchedulerContainerIndex ''st'' \<mapsto> MSet [SchedulerContainerState ''c1'', SchedulerContainerState ''c2''],
     SchedulerContainerState ''c1'' \<mapsto> MHash [(''container_id'', ''c1''), (''status'', ContainerStatusRunning)],
     SchedulerContainerState ''c2'' \<mapsto> MHash [(''container_id'', ''c2''), (''status'', ContainerStatusRunning)],
     taskQueueTaskRunningLockIndex ''ws'' ''st'' ''c2'' \<mapsto> MSet [''t1''], taskQueueTaskRunningLock ''ws'' ''st'' ''c2'' ''t1'' \<mapsto> MStr ''1''],
     locks = Map.empty\<rparr>"

section \<open>Properties\<close>

text \<open>
  C25. Both scale functions ask for the least number of containers that is enough for the tasks in flight, limited by the
  configured and the global maximum, for every number of tasks below 2^53: neither the integer division with its correction nor
  the detour of the limits through floating point changes that number.
\<close>

theorem scale_functions_match_reference:
  assumes "sc_Autoscaler (ai_StubConfig i) = Some a" and "0 < uint (au_TasksPerContainer a)" and "uint (au_TasksPerContainer a) < 2 ^ 63"
    and "q < 2 ^ 53"
    and "r = \<lparr>ar_DesiredContainers = min (min (uint (au_MaxContainers a)) (uint (ai_MaxReplicas i)))
                 (int (LEAST n. q \<le> n * unat (au_TasksPerContainer a))), ar_ResultValid = True\<rparr>"
  shows "taskQueueScaleFunc i \<lparr>qs_QueueLength = int q, qs_RunningTasks = b, qs_CurrentContainers = c, qs_TaskDuration = d\<rparr> = Inr r \<and>
     endpointDeploymentScaleFunc i \<lparr>es_TotalRequests = int q, es_CurrentContainers = c\<rparr> = r"
proof -
  define t where "t = unat (au_TasksPerContainer a)"
  define m where "m = (LEAST n. q \<le> n * t)"
  have int_t: "int t = uint (au_TasksPerContainer a)" by (simp add: t_def)
  have pos: "0 < t" using assms(2) int_t by linarith
  have word: "0 < au_TasksPerContainer a" using assms(2) by (simp add: word_less_def)
  have t64: "i64 (uint (au_TasksPerContainer a)) = int t" unfolding int_t using assms(2,3) by (intro i64_id) (simp add: in_i64_def)
  have "q \<le> q * t" using pos by simp
  then have "m \<le> q" unfolding m_def by (rule Least_le)
  then have "m < 2 ^ 53" using assms(4) by (rule order_le_less_trans)
  then have small: "int m < 2 ^ 53" by simp
  have lim: "limitContainers (au_MaxContainers a) (ai_MaxReplicas i) (int m) = min (min (uint (au_MaxContainers a)) (uint (ai_MaxReplicas i))) (int m)"
    by (rule limitContainers_exact [OF of_nat_0_le_iff small])
  have enough: "(if int q smod int t > 0 then int q sdiv int t + 1 else int q sdiv int t) = int m"
    unfolding m_def by (rule enough_containers [OF pos refl refl])
  have r: "r = \<lparr>ar_DesiredContainers = min (min (uint (au_MaxContainers a)) (uint (ai_MaxReplicas i))) (int m), ar_ResultValid = True\<rparr>"
    using assms(5) unfolding m_def t_def .
  show ?thesis
  proof (cases "q = 0")
    case True
    then have "m = 0" using \<open>m \<le> q\<close> by simp
    then have "r = \<lparr>ar_DesiredContainers = 0, ar_ResultValid = True\<rparr>" unfolding r by simp
    with True show ?thesis by (simp add: taskQueueScaleFunc_def endpointDeploymentScaleFunc_def)
  next
    case False
    have zero: "int t \<noteq> 0" using pos by simp
    have "taskQueueScaleFunc i \<lparr>qs_QueueLength = int q, qs_RunningTasks = b, qs_CurrentContainers = c, qs_TaskDuration = d\<rparr> = Inr r"
      unfolding taskQueueScaleFunc_def taskQueueAutoscalerSample.simps assms(1) option.case Let_def t64 if_not_P [OF zero] enough lim r
      using False by simp
    moreover have "endpointDeploymentScaleFunc i \<lparr>es_TotalRequests = int q, es_CurrentContainers = c\<rparr> = r"
      unfolding endpointDeploymentScaleFunc_def endpointAutoscalerSample.simps assms(1) option.case Let_def if_P [OF word] t64 enough lim r
      using False by simp
    ultimately show ?thesis by (rule conjI)
  qed
qed

theorem scale_functions_match_reference_witness:
  "taskQueueScaleFunc (ex_queue_instance mem_client) \<lparr>qs_QueueLength = 5, qs_RunningTasks = 0, qs_CurrentContainers = 0, qs_TaskDuration = None\<rparr> =
     Inr \<lparr>ar_DesiredContainers = 3, ar_ResultValid = True\<rparr>"
proof -
  have "unat (au_TasksPerContainer ex_autoscaler) = 2" by (simp add: ex_autoscaler_def)
  moreover have "(LEAST n. 5 \<le> n * 2) = (3 :: nat)" by (rule Least_equality) simp_all
  ultimately show ?thesis
    using scale_functions_match_reference [where i = "ex_queue_instance mem_client" and a = ex_autoscaler and q = 5 and b = 0 and c = 0 and d = None, OF _ _ _ _ refl]
    by (simp add: ex_autoscaler_def)
qed



text \<open>
  C40. When Redis does not answer, a tick of either autoscaler panics: the sample function takes the error of the listing into
  account and then reads the missing state all the same.
\<close>

theorem unreachable_redis_panics:
  assumes "\<And>k s. cSMembers (ai_Rdb i) k s = (Inl e, s)" and "\<And>k s. cLPop (ai_Rdb i) k s = (Inl e, s)" and "\<And>p. e \<noteq> Panic p"
  shows "autoscalerTick i (taskQueueAutoscalerSampleFunc i) scale w = (Inl nilDereference, w) \<and>
     autoscalerTick i (endpointSampleFunc i) scale' w = (Inl nilDereference, w)"
proof -
  have err: "(case e of Panic p \<Rightarrow> a p | _ \<Rightarrow> b) = b" for a and b :: "'b" using assms(3) by (cases e) auto
  have m: "SMembers (ai_Rdb i) k w = (Inl e, w)" "LPop (ai_Rdb i) k w = (Inl e, w)" for k
    using assms(1,2) by (simp_all add: SMembers_def LPop_def onR_def)
  have st: "InstanceState i w = (Inl (Errorf ''failed to retrieve container state keys'' e), w)"
    by (simp add: InstanceState_def GetActiveContainersByStubId_def containersByIndex_def wrapE_def bindE_def m)
  have "stateOrPanic i w = (Inl nilDereference, w)"
    using st by (simp add: stateOrPanic_def tryE_def bindE_def attempt_def returnE_def throwE_def)
  moreover have "orMinusOne (TasksInFlight (ai_Rdb i) ws st) w = (Inr (-1), w)" "orMinusOne (TasksClaimed (ai_Rdb i) ws st) w = (Inr (-1), w)" for ws st
    using m by (simp_all add: orMinusOne_def TasksInFlight_def TasksClaimed_def tryE_def bindE_def attempt_def returnE_def err)
  moreover have "tryE (GetTaskDuration (ai_Rdb i) ws st) w = (Inr (Inl e), w)" for ws st
    using m by (simp add: GetTaskDuration_def tryE_def bindE_def attempt_def returnE_def err)
  ultimately show ?thesis
    by (simp add: autoscalerTick_def taskQueueAutoscalerSampleFunc_def endpointSampleFunc_def bindE_def tryE_def attempt_def nilDereference_def throwE_def)
qed

theorem unreachable_redis_panics_witness:
  "\<exists>w. autoscalerTick (ex_queue_instance (mem_client\<lparr>cSMembers := \<lambda>_ s. (Inl (ErrNew ''connection refused''), s),
        cLPop := \<lambda>_ s. (Inl (ErrNew ''connection refused''), s)\<rparr>))
      (taskQueueAutoscalerSampleFunc (ex_queue_instance (mem_client\<lparr>cSMembers := \<lambda>_ s. (Inl (ErrNew ''connection refused''), s),
        cLPop := \<lambda>_ s. (Inl (ErrNew ''connection refused''), s)\<rparr>)))
      (\<lambda>_. returnE \<lparr>ar_DesiredContainers = 0, ar_ResultValid = True\<rparr>) ex_two_containers = (Inl nilDereference, w)"
  using unreachable_redis_panics [where e = "ErrNew ''connection refused''"
      and i = "ex_queue_instance (mem_client\<lparr>cSMembers := \<lambda>_ s. (Inl (ErrNew ''connection refused''), s),
        cLPop := \<lambda>_ s. (Inl (ErrNew ''connection refused''), s)\<rparr>)"]
  by simp

end
