(* ===== verification/Ring_Buffer.thy ===== *)
theory Ring_Buffer
  imports Go_Prelude
begin

text \<open>
  The ring buffer of \<open>pkg/abstractions/common/ring_buffer.go\<close>, in which endpoints and pods keep the requests that wait for a container.
  Every operation runs under the mutex of the buffer, so a call is one step. The zero value of the element type is an argument.
  The interface of a bounded queue with urgent elements is a locale; the ring buffer implements it, so that any
  sequence of calls gives the answers of a plain list.
\<close>

section \<open>Operations\<close>

record 'a RingBuffer =
  rb_buffer :: "'a list"
  rb_size :: nat
  rb_head :: nat
  rb_tail :: nat
  rb_count :: nat

definition NewRingBuffer :: "'a \<Rightarrow> nat \<Rightarrow> 'a RingBuffer" where
  "NewRingBuffer zero n = \<lparr>rb_buffer = replicate n zero, rb_size = n, rb_head = 0, rb_tail = 0, rb_count = 0\<rparr>"

definition storeAt :: "nat \<Rightarrow> 'a \<Rightarrow> 'a list \<Rightarrow> goerror + 'a list" where
  "storeAt i x xs = (if i < length xs then Inr (xs[i := x]) else Inl (Panic ''index out of range''))"

definition RingBufferPush :: "'a \<Rightarrow> bool \<Rightarrow> 'a RingBuffer \<Rightarrow> goerror + 'a RingBuffer" where
  "RingBufferPush request priority rb =
     (if priority then
        (if rb_count rb = rb_size rb
         then (case storeAt (rb_head rb) request (rb_buffer rb) of
                 Inl e \<Rightarrow> Inl e
               | Inr b \<Rightarrow> Inr (rb\<lparr>rb_buffer := b\<rparr>))
         else (let head = (rb_head rb + rb_size rb - 1) mod rb_size rb
               in case storeAt head request (rb_buffer rb) of
                    Inl e \<Rightarrow> Inl e
                  | Inr b \<Rightarrow> Inr (rb\<lparr>rb_head := head, rb_buffer := b, rb_count := rb_count rb + 1\<rparr>)))
      else (case storeAt (rb_tail rb) request (rb_buffer rb) of
              Inl e \<Rightarrow> Inl e
            | Inr b \<Rightarrow>
                let rb' = rb\<lparr>rb_buffer := b, rb_tail := (rb_tail rb + 1) mod rb_size rb\<rparr>
                in if rb_count rb = rb_size rb then Inr (rb'\<lparr>rb_head := (rb_head rb + 1) mod rb_size rb\<rparr>)
                   else Inr (rb'\<lparr>rb_count := rb_count rb + 1\<rparr>)))"

definition RingBufferPop :: "'a \<Rightarrow> 'a RingBuffer \<Rightarrow> ('a \<times> bool) \<times> 'a RingBuffer" where
  "RingBufferPop zero rb =
     (if rb_count rb = 0 then ((zero, False), rb)
      else ((rb_buffer rb ! rb_head rb, True),
            rb\<lparr>rb_buffer := (rb_buffer rb)[rb_head rb := zero], rb_head := (rb_head rb + 1) mod rb_size rb, rb_count := rb_count rb - 1\<rparr>))"

definition RingBufferLen :: "'a RingBuffer \<Rightarrow> nat" where
  "RingBufferLen rb = rb_count rb"

section \<open>A bounded queue with urgent elements\<close>

text \<open>
  An urgent element goes to the front, any other one to the back. When the queue is full, the element at the front makes room.
\<close>

definition queue_push :: "nat \<Rightarrow> 'a \<Rightarrow> bool \<Rightarrow> 'a list \<Rightarrow> 'a list" where
  "queue_push n x urgent xs =
     (let ys = (if length xs = n then tl xs else xs) in if urgent then x # ys else ys @ [x])"

datatype 'a call = PushCall 'a bool | PopCall | LenCall

datatype 'a answer = Pushed | Popped "'a option" | Length nat

fun queue_call :: "nat \<Rightarrow> 'a call \<Rightarrow> 'a list \<Rightarrow> 'a answer \<times> 'a list" where
  "queue_call n (PushCall x urgent) xs = (Pushed, queue_push n x urgent xs)"
| "queue_call n PopCall xs = (case xs of [] \<Rightarrow> (Popped None, []) | x # xs' \<Rightarrow> (Popped (Some x), xs'))"
| "queue_call n LenCall xs = (Length (length xs), xs)"

fun queue_calls :: "nat \<Rightarrow> 'a call list \<Rightarrow> 'a list \<Rightarrow> 'a answer list" where
  "queue_calls n [] xs = []"
| "queue_calls n (c # cs) xs = (case queue_call n c xs of (a, xs') \<Rightarrow> a # queue_calls n cs xs')"

text \<open>The answers a buffer with the given operations gives to a sequence of calls; a panic ends the sequence.\<close>

fun run_calls :: "('a \<Rightarrow> bool \<Rightarrow> 'b \<Rightarrow> goerror + 'b) \<Rightarrow> ('b \<Rightarrow> ('a \<times> bool) \<times> 'b) \<Rightarrow> ('b \<Rightarrow> nat) \<Rightarrow> 'a call list \<Rightarrow> 'b \<Rightarrow>
    goerror + 'a answer list" where
  "run_calls push pop len [] b = Inr []"
| "run_calls push pop len (PushCall x u # cs) b =
     (case push x u b of Inl e \<Rightarrow> Inl e | Inr b' \<Rightarrow> map_sum id ((#) Pushed) (run_calls push pop len cs b'))"
| "run_calls push pop len (PopCall # cs) b =
     (case pop b of ((x, ok), b') \<Rightarrow> map_sum id ((#) (Popped (if ok then Some x else None))) (run_calls push pop len cs b'))"
| "run_calls push pop len (LenCall # cs) b = map_sum id ((#) (Length (len b))) (run_calls push pop len cs b)"

text \<open>What a buffer promises to the code that uses it.\<close>

locale bounded_queue =
  fixes inv :: "'b \<Rightarrow> bool" and contents :: "'b \<Rightarrow> 'a list" and capacity :: "'b \<Rightarrow> nat"
    and push :: "'a \<Rightarrow> bool \<Rightarrow> 'b \<Rightarrow> goerror + 'b" and pop :: "'b \<Rightarrow> ('a \<times> bool) \<times> 'b" and len :: "'b \<Rightarrow> nat"
  assumes push_ok: "inv b \<Longrightarrow> \<exists>b'. push x u b = Inr b' \<and> inv b' \<and> capacity b' = capacity b \<and> contents b' = queue_push (capacity b) x u (contents b)"
    and pop_empty: "inv b \<Longrightarrow> contents b = [] \<Longrightarrow> \<exists>x. pop b = ((x, False), b)"
    and pop_more: "inv b \<Longrightarrow> contents b \<noteq> [] \<Longrightarrow>
      \<exists>b'. pop b = ((hd (contents b), True), b') \<and> inv b' \<and> capacity b' = capacity b \<and> contents b' = tl (contents b)"
    and len_ok: "inv b \<Longrightarrow> len b = length (contents b)"
begin

lemma calls_refine: "inv b \<Longrightarrow> run_calls push pop len cs b = Inr (queue_calls (capacity b) cs (contents b))"
proof (induction cs arbitrary: b)
  case Nil
  then show ?case by simp
next
  case (Cons c cs)
  show ?case
  proof (cases c)
    case (PushCall x u)
    obtain b' where "push x u b = Inr b'" "inv b'" "capacity b' = capacity b" "contents b' = queue_push (capacity b) x u (contents b)"
      using push_ok [OF Cons.prems] by blast
    then show ?thesis using Cons.IH [of b'] PushCall by simp
  next
    case PopCall
    show ?thesis
    proof (cases "contents b")
      case Nil
      then obtain x where "pop b = ((x, False), b)" using pop_empty [OF Cons.prems] by blast
      then show ?thesis using Cons.IH [OF Cons.prems] PopCall Nil by simp
    next
      case (Cons y ys)
      then obtain b' where "pop b = ((y, True), b')" "inv b'" "capacity b' = capacity b" "contents b' = ys"
        using pop_more [OF Cons.prems] by auto
      then show ?thesis using Cons.IH [of b'] PopCall Cons by simp
    qed
  next
    case LenCall
    then show ?thesis using Cons.IH [OF Cons.prems] len_ok [OF Cons.prems] by simp
  qed
qed

end

section \<open>The ring buffer implements it\<close>

definition ring_inv :: "'a RingBuffer \<Rightarrow> bool" where
  "ring_inv rb \<longleftrightarrow> 0 < rb_size rb \<and> length (rb_buffer rb) = rb_size rb \<and> rb_head rb < rb_size rb \<and> rb_count rb \<le> rb_size rb \<and>
     rb_tail rb = (rb_head rb + rb_count rb) mod rb_size rb"

definition ring_contents :: "'a RingBuffer \<Rightarrow> 'a list" where
  "ring_contents rb = map (\<lambda>k. rb_buffer rb ! ((rb_head rb + k) mod rb_size rb)) [0..<rb_count rb]"

lemma length_ring_contents [simp]: "length (ring_contents rb) = rb_count rb"
  by (simp add: ring_contents_def)

text \<open>Indices go round once.\<close>

lemma wrap: "(h :: nat) < n \<Longrightarrow> k \<le> n \<Longrightarrow> (h + k) mod n = (if h + k < n then h + k else h + k - n)"
  by (simp add: mod_if)

lemma wrap_inj: "(h :: nat) < n \<Longrightarrow> j < n \<Longrightarrow> k < n \<Longrightarrow> (h + j) mod n = (h + k) mod n \<longleftrightarrow> j = k"
  by (auto simp: wrap split: if_splits)

lemma wrap_Suc: "(Suc h mod n + k) mod n = Suc (h + k) mod n"
  using mod_add_left_eq [of "Suc h" n k] by simp

lemma wrap_back: "(h :: nat) < n \<Longrightarrow> ((h + n - 1) mod n + Suc k) mod n = (h + k) mod n"
proof -
  assume "h < n"
  have "((h + n - 1) mod n + Suc k) mod n = (h + n - 1 + Suc k) mod n" by (rule mod_add_left_eq)
  also have "h + n - 1 + Suc k = h + k + n" using \<open>h < n\<close> by simp
  finally show ?thesis by simp
qed

lemma ring_new: "0 < n \<Longrightarrow> ring_inv (NewRingBuffer z n) \<and> ring_contents (NewRingBuffer z n) = [] \<and> rb_size (NewRingBuffer z n) = n"
  by (simp add: ring_inv_def ring_contents_def NewRingBuffer_def)

lemma ring_nth: "k < rb_count rb \<Longrightarrow> ring_contents rb ! k = rb_buffer rb ! ((rb_head rb + k) mod rb_size rb)"
  by (simp add: ring_contents_def)

lemma ring_pop:
  assumes "ring_inv rb" and "ring_contents rb \<noteq> []"
  shows "\<exists>rb'. RingBufferPop z rb = ((hd (ring_contents rb), True), rb') \<and> ring_inv rb' \<and> rb_size rb' = rb_size rb \<and> ring_contents rb' = tl (ring_contents rb)"
proof -
  let ?n = "rb_size rb" and ?h = "rb_head rb" and ?c = "rb_count rb"
  have i: "0 < ?n" "length (rb_buffer rb) = ?n" "?h < ?n" "?c \<le> ?n" "rb_tail rb = (?h + ?c) mod ?n" using assms(1) by (simp_all add: ring_inv_def)
  have c: "0 < ?c" using assms(2) by (metis length_greater_0_conv length_ring_contents)
  have hd: "hd (ring_contents rb) = rb_buffer rb ! ?h" using c i(3) by (simp add: hd_conv_nth ring_nth assms(2))
  let ?rb = "rb\<lparr>rb_buffer := (rb_buffer rb)[?h := z], rb_head := (?h + 1) mod ?n, rb_count := ?c - 1\<rparr>"
  have "ring_contents ?rb = tl (ring_contents rb)"
  proof (rule nth_equalityI)
    fix k assume k: "k < length (ring_contents ?rb)"
    have "(?h + Suc k) mod ?n \<noteq> ?h" using wrap_inj [OF i(3), of "Suc k" 0] i k by simp
    then show "ring_contents ?rb ! k = tl (ring_contents rb) ! k"
      using k i(1,3) by (simp add: ring_nth nth_tl wrap_Suc)
  qed simp
  moreover have "ring_inv ?rb"
  proof -
    obtain m where "?c = Suc m" using c by (cases ?c) simp_all
    then show ?thesis using i by (simp add: ring_inv_def wrap_Suc)
  qed
  ultimately show ?thesis using c by (auto simp: RingBufferPop_def hd)
qed

lemma ring_push_back:
  assumes "ring_inv rb"
  shows "\<exists>rb'. RingBufferPush x False rb = Inr rb' \<and> ring_inv rb' \<and> rb_size rb' = rb_size rb \<and>
    ring_contents rb' = queue_push (rb_size rb) x False (ring_contents rb)"
proof -
  let ?n = "rb_size rb" and ?h = "rb_head rb" and ?c = "rb_count rb"
  have i: "0 < ?n" "length (rb_buffer rb) = ?n" "?h < ?n" "?c \<le> ?n" "rb_tail rb = (?h + ?c) mod ?n" using assms by (simp_all add: ring_inv_def)
  let ?b = "(rb_buffer rb)[rb_tail rb := x]" and ?t = "(rb_tail rb + 1) mod ?n"
  have st: "storeAt (rb_tail rb) x (rb_buffer rb) = Inr ?b" using i by (simp add: storeAt_def)
  have t: "?t = (?h + Suc ?c) mod ?n" using i(5) by (simp add: mod_Suc_eq)
  show ?thesis
  proof (cases "?c = ?n")
    case True
    let ?rb = "rb\<lparr>rb_buffer := ?b, rb_tail := ?t, rb_head := (?h + 1) mod ?n\<rparr>"
    have "ring_contents ?rb = tl (ring_contents rb) @ [x]"
    proof (rule nth_equalityI)
      fix k assume k: "k < length (ring_contents ?rb)"
      show "ring_contents ?rb ! k = (tl (ring_contents rb) @ [x]) ! k"
      proof (cases "Suc k = ?n")
        case last: True
        have "Suc (?h + k) mod ?n = (?h + ?n) mod ?n" unfolding last [symmetric] by simp
        then have "Suc (?h + k) mod ?n = ?h" using i(3) by simp
        moreover have "\<not> k < ?n - Suc 0" using last by simp
        ultimately show ?thesis using k i True by (simp add: ring_nth nth_append wrap_Suc)
      next
        case False
        then show ?thesis using k i True wrap_inj [OF i(3), of "Suc k" 0] by (auto simp: ring_nth nth_append nth_tl wrap_Suc)
      qed
    qed (use True i in simp)
    moreover have "ring_inv ?rb" using i True t by (simp add: ring_inv_def wrap_Suc)
    ultimately show ?thesis using True st by (simp add: RingBufferPush_def queue_push_def Let_def)
  next
    case False
    let ?rb = "rb\<lparr>rb_buffer := ?b, rb_tail := ?t, rb_count := ?c + 1\<rparr>"
    have "ring_contents ?rb = ring_contents rb @ [x]"
    proof (rule nth_equalityI)
      fix k assume k: "k < length (ring_contents ?rb)"
      then show "ring_contents ?rb ! k = (ring_contents rb @ [x]) ! k"
        using i False wrap_inj [OF i(3), of ?c k] by (auto simp: ring_nth nth_append nth_list_update less_Suc_eq)
    qed simp
    moreover have "ring_inv ?rb" using i False t by (simp add: ring_inv_def)
    ultimately show ?thesis using False st by (simp add: RingBufferPush_def queue_push_def Let_def)
  qed
qed

lemma ring_push_front:
  assumes "ring_inv rb"
  shows "\<exists>rb'. RingBufferPush x True rb = Inr rb' \<and> ring_inv rb' \<and> rb_size rb' = rb_size rb \<and>
    ring_contents rb' = queue_push (rb_size rb) x True (ring_contents rb)"
proof -
  let ?n = "rb_size rb" and ?h = "rb_head rb" and ?c = "rb_count rb"
  have i: "0 < ?n" "length (rb_buffer rb) = ?n" "?h < ?n" "?c \<le> ?n" "rb_tail rb = (?h + ?c) mod ?n" using assms by (simp_all add: ring_inv_def)
  show ?thesis
  proof (cases "?c = ?n")
    case True
    let ?rb = "rb\<lparr>rb_buffer := (rb_buffer rb)[?h := x]\<rparr>"
    have "ring_contents ?rb = x # tl (ring_contents rb)"
    proof (rule nth_equalityI)
      fix k assume k: "k < length (ring_contents ?rb)"
      then show "ring_contents ?rb ! k = (x # tl (ring_contents rb)) ! k"
        using i True wrap_inj [OF i(3), of k 0] by (cases k) (auto simp: ring_nth nth_tl)
    qed (use True i in simp)
    moreover have "ring_inv ?rb" using i by (simp add: ring_inv_def)
    ultimately show ?thesis using True i by (simp add: RingBufferPush_def queue_push_def storeAt_def)
  next
    case False
    let ?f = "(?h + ?n - 1) mod ?n"
    let ?rb = "rb\<lparr>rb_head := ?f, rb_buffer := (rb_buffer rb)[?f := x], rb_count := ?c + 1\<rparr>"
    have f: "?f < ?n" using i by simp
    have "ring_contents ?rb = x # ring_contents rb"
    proof (rule nth_equalityI)
      fix k assume k: "k < length (ring_contents ?rb)"
      show "ring_contents ?rb ! k = (x # ring_contents rb) ! k"
      proof (cases k)
        case 0
        then show ?thesis using f i by (simp add: ring_nth)
      next
        case (Suc j)
        have "(?f + Suc j) mod ?n \<noteq> ?f" using wrap_inj [OF f, of "Suc j" 0] f i k Suc False by simp
        then show ?thesis using Suc k i wrap_back [OF i(3), of j] by (simp add: ring_nth)
      qed
    qed simp
    moreover have "ring_inv ?rb" using i False f wrap_back [OF i(3), of ?c] by (simp add: ring_inv_def)
    ultimately show ?thesis using False f i by (simp add: RingBufferPush_def queue_push_def storeAt_def Let_def)
  qed
qed

interpretation ring: bounded_queue ring_inv ring_contents rb_size RingBufferPush "RingBufferPop z" RingBufferLen
proof
  fix b :: "'a RingBuffer" and x u
  assume "ring_inv b"
  then show "\<exists>b'. RingBufferPush x u b = Inr b' \<and> ring_inv b' \<and> rb_size b' = rb_size b \<and> ring_contents b' = queue_push (rb_size b) x u (ring_contents b)"
    using ring_push_back ring_push_front by (cases u) auto
next
  fix b :: "'a RingBuffer"
  assume "ring_contents b = []"
  then have "rb_count b = 0" by (metis length_ring_contents list.size(3))
  then show "\<exists>x. RingBufferPop z b = ((x, False), b)" by (simp add: RingBufferPop_def)
qed (simp_all add: ring_pop RingBufferLen_def)

section \<open>Properties\<close>

text \<open>
  C14. A ring buffer of positive size answers every sequence of pushes, pops and length queries like a plain list of at most that
  many elements, to whose front urgent elements and to whose back the others are added, and which drops its front
  element when it is full; it never panics.
\<close>

theorem ring_buffer_refines_queue:
  assumes "0 < n"
  shows "run_calls RingBufferPush (RingBufferPop zero) RingBufferLen cs (NewRingBuffer zero n) = Inr (queue_calls n cs [])"
  using ring.calls_refine [of "NewRingBuffer zero n" zero cs] ring_new [OF assms, of zero] by simp

theorem ring_buffer_refines_queue_witness:
  "run_calls RingBufferPush (RingBufferPop 0) RingBufferLen [PushCall 1 False, PushCall 2 False, PushCall (3 :: nat) True, PopCall, PopCall, LenCall]
     (NewRingBuffer 0 2) = Inr [Pushed, Pushed, Pushed, Popped (Some 3), Popped (Some 2), Length 0]"
  using ring_buffer_refines_queue [of 2 0 "[PushCall 1 False, PushCall 2 False, PushCall (3 :: nat) True, PopCall, PopCall, LenCall]"]
  by (simp add: queue_push_def)

end
