(* ===== verification/Request_Buffer.thy ===== *)
theory Request_Buffer
  imports Autoscaler Ring_Buffer
begin

text \<open>
  The requests of an endpoint on their way to its containers (\<open>pkg/abstractions/endpoint/buffer.go\<close>): the tokens in Redis that limit the requests
  a container works on, the discovery of the containers, the choice of one for a request, and the methods of an endpoint's task
  (\<open>pkg/abstractions/endpoint/task.go\<close>). The counting commands of Redis are a second interface, \<open>redis_counters\<close>, beside that of the other commands.
  What proxies the request to the container is an argument \<open>serve\<close>; so is the probe of a container's address.

  Goroutines of all gateways draw and return tokens at the same time. A draw is one command followed by a second one that
  depends on the answer to the first; \<open>token_step\<close> interleaves these commands in every way.
  Shown is that a container never works on more requests than it has tokens, and that all tokens are back when
  none is being worked on; both as long as no token or heartbeat key expires.
\<close>

section \<open>Counters in Redis\<close>

record 's counter_client =
  cDecr :: "string \<Rightarrow> ('s, int) io"
  cIncr :: "string \<Rightarrow> ('s, int) io"
  cSetNX :: "string \<Rightarrow> string \<Rightarrow> ('s, bool) io"

text \<open>The number at a key; a missing key counts as zero.\<close>

fun counterAt :: "rvalue option \<Rightarrow> int option" where
  "counterAt None = Some 0"
| "counterAt (Some (RStr x)) = ParseInt x 64"
| "counterAt _ = None"

locale redis_counters = redis_up R view for R :: "'s redis_client" and view :: "'s \<Rightarrow> keyspace" +
  fixes C :: "'s counter_client"
  assumes Decr_law: "cDecr C k s = (Inr m, s') \<Longrightarrow>
      \<exists>n. counterAt (view s k) = Some n \<and> m = n - 1 \<and> in_i64 m \<and> view s' = (view s)(k \<mapsto> RStr (itoa m))"
    and Incr_law: "cIncr C k s = (Inr m, s') \<Longrightarrow>
      \<exists>n. counterAt (view s k) = Some n \<and> m = n + 1 \<and> in_i64 m \<and> view s' = (view s)(k \<mapsto> RStr (itoa m))"
    and Incr_up: "counterAt (view s k) = Some n \<Longrightarrow> in_i64 (n + 1) \<Longrightarrow> \<exists>m s'. cIncr C k s = (Inr m, s')"
    and Decr_up: "counterAt (view s k) = Some n \<Longrightarrow> in_i64 (n - 1) \<Longrightarrow> \<exists>m s'. cDecr C k s = (Inr m, s')"
    and SetNX_law: "cSetNX C k x s = (Inr b, s') \<Longrightarrow>
      (b \<longleftrightarrow> view s k = None) \<and> view s' = (if b then (view s)(k \<mapsto> RStr x) else view s)"
    and SetNX_up: "\<exists>b s'. cSetNX C k x s = (Inr b, s')"

section \<open>The buffer\<close>

definition endpointRequestTokens :: "string \<Rightarrow> string \<Rightarrow> string \<Rightarrow> string" where
  "endpointRequestTokens workspaceName stubId containerId =
     Sprintf ''endpoint:%s:%s:request_tokens:%s'' [workspaceName, stubId, containerId]"

definition endpointRequestHeartbeat :: "string \<Rightarrow> string \<Rightarrow> string \<Rightarrow> string \<Rightarrow> string" where
  "endpointRequestHeartbeat workspaceName stubId taskId containerId =
     Sprintf ''endpoint:%s:%s:request_heartbeat:%s:%s'' [workspaceName, stubId, taskId, containerId]"

definition endpointRequestHeartbeatKeepAlive :: int where
  "endpointRequestHeartbeatKeepAlive = 30 * second"

record endpoint_container =
  ct_id :: string
  ct_address :: string
  ct_inFlightRequests :: int

record 's RequestBuffer =
  eb_rdb :: "'s redis_client"
  eb_counters :: "'s counter_client"
  eb_workspaceName :: string
  eb_stubId :: string
  eb_maxTokens :: int
  eb_Timeout :: int
  eb_KeepWarmSeconds :: "64 word"

text \<open>\<open>maxTokens\<close> of a new buffer: the workers of a container, or the concurrent requests of an ASGI application.\<close>

definition maxTokensOf :: "64 word \<Rightarrow> 64 word \<Rightarrow> bool \<Rightarrow> int" where
  "maxTokensOf workers concurrentRequests isASGI =
     (if 1 < concurrentRequests \<and> isASGI then max (sint concurrentRequests) (sint workers) else sint workers)"

definition tokenKey :: "'s RequestBuffer \<Rightarrow> string \<Rightarrow> string" where
  "tokenKey rb containerId = endpointRequestTokens (eb_workspaceName rb) (eb_stubId rb) containerId"

definition heartbeatKey :: "'s RequestBuffer \<Rightarrow> string \<Rightarrow> string \<Rightarrow> string" where
  "heartbeatKey rb taskId containerId = endpointRequestHeartbeat (eb_workspaceName rb) (eb_stubId rb) taskId containerId"

definition GetInt :: "'s redis_client \<Rightarrow> string \<Rightarrow> ('s world, int) io" where
  "GetInt R k = bindE (Get R k) (\<lambda>v. liftOpt (ErrNew ''invalid syntax'') (ParseInt v 64))"

definition requestTokens :: "'s RequestBuffer \<Rightarrow> string \<Rightarrow> ('s world, int) io" where
  "requestTokens rb containerId =
     bindE (tryE (GetInt (eb_rdb rb) (tokenKey rb containerId))) (\<lambda>r.
       case r of
         Inl e \<Rightarrow>
           if e \<noteq> RedisNil then throwE e
           else bindE (onR (cSetNX (eb_counters rb) (tokenKey rb containerId) (itoa (eb_maxTokens rb)))) (\<lambda>created.
                  if created then returnE (eb_maxTokens rb) else GetInt (eb_rdb rb) (tokenKey rb containerId))
       | Inr val \<Rightarrow> returnE val)"

definition renewTokens :: "'s RequestBuffer \<Rightarrow> string \<Rightarrow> ('s world, unit) io" where
  "renewTokens rb containerId = Expire (eb_rdb rb) (tokenKey rb containerId) (i64 (eb_Timeout rb * second))"

text \<open>The first command of \<open>acquireRequestToken\<close>, and what follows its answer.\<close>

definition drawToken :: "'s RequestBuffer \<Rightarrow> string \<Rightarrow> ('s world, int) io" where
  "drawToken rb containerId = onR (cDecr (eb_counters rb) (tokenKey rb containerId))"

definition checkToken :: "'s RequestBuffer \<Rightarrow> string \<Rightarrow> int \<Rightarrow> ('s world, unit) io" where
  "checkToken rb containerId tokenCount =
     (if tokenCount < 0
      then thenE (tryE (onR (cIncr (eb_counters rb) (tokenKey rb containerId)))) (throwE (ErrNew ''too many in-flight requests''))
      else renewTokens rb containerId)"

definition acquireRequestToken :: "'s RequestBuffer \<Rightarrow> string \<Rightarrow> ('s world, unit) io" where
  "acquireRequestToken rb containerId = bindE (drawToken rb containerId) (checkToken rb containerId)"

definition returnToken :: "'s RequestBuffer \<Rightarrow> string \<Rightarrow> ('s world, int) io" where
  "returnToken rb containerId = onR (cIncr (eb_counters rb) (tokenKey rb containerId))"

definition endRelease :: "'s RequestBuffer \<Rightarrow> string \<Rightarrow> string \<Rightarrow> ('s world, unit) io" where
  "endRelease rb containerId taskId = thenE (renewTokens rb containerId) (Del (eb_rdb rb) (heartbeatKey rb taskId containerId))"

definition releaseRequestToken :: "'s RequestBuffer \<Rightarrow> string \<Rightarrow> string \<Rightarrow> ('s world, unit) io" where
  "releaseRequestToken rb containerId taskId = thenE (returnToken rb containerId) (endRelease rb containerId taskId)"

text \<open>One event on the heartbeat keys; \<open>handleHeartbeatEvents\<close> drops the error.\<close>

definition KeyOperationExpired :: string where
  "KeyOperationExpired = ''expired''"

definition handleHeartbeatEvent :: "'s RequestBuffer \<Rightarrow> string \<Rightarrow> string \<Rightarrow> ('s world, unit) io" where
  "handleHeartbeatEvent rb operation key =
     (if operation = KeyOperationExpired
      then (let parts = Split CHR '':'' key
            in if length parts \<ge> 2
               then thenE (tryE (releaseRequestToken rb (parts ! (length parts - 1)) (parts ! (length parts - 2)))) (returnE ())
               else returnE ())
      else returnE ())"

text \<open>One beat of \<open>heartBeat\<close>.\<close>

definition heartBeatOnce :: "'s RequestBuffer \<Rightarrow> string \<Rightarrow> string \<Rightarrow> ('s world, unit) io" where
  "heartBeatOnce rb taskId containerId =
     thenE (tryE (SetKey (eb_rdb rb) (heartbeatKey rb taskId containerId) ''1'' endpointRequestHeartbeatKeepAlive)) (returnE ())"

definition afterRequest :: "'s RequestBuffer \<Rightarrow> TaskMessage \<Rightarrow> string \<Rightarrow> ('s world, unit) io" where
  "afterRequest rb task containerId =
     deferring (releaseRequestToken rb containerId (tm_TaskId task))
       (if eb_KeepWarmSeconds rb = 0 then returnE ()
        else thenE (tryE (SetKey (eb_rdb rb) (endpointKeepWarmLock (eb_workspaceName rb) (eb_stubId rb) containerId) ''1''
                            (i64 (sint (eb_KeepWarmSeconds rb) * second)))) (returnE ()))"

text \<open>What one goroutine of \<open>discoverContainers\<close> finds, if anything; \<open>isReady\<close> is \<open>checkAddressIsReady\<close>.\<close>

definition probeContainer :: "'s RequestBuffer \<Rightarrow> (string \<Rightarrow> ('s world, bool) io) \<Rightarrow> ContainerState \<Rightarrow> ('s world, endpoint_container option) io" where
  "probeContainer rb isReady cs =
     (if cs_Status cs \<noteq> ContainerStatusRunning then returnE None
      else orElse None (GetContainerAddress (eb_rdb rb) (cs_ContainerId cs)) (\<lambda>containerAddress.
           orElse None (requestTokens rb (cs_ContainerId cs)) (\<lambda>availableTokens.
             bindE (isReady containerAddress) (\<lambda>ok.
               returnE (if ok then Some \<lparr>ct_id = cs_ContainerId cs, ct_address = containerAddress,
                                         ct_inFlightRequests = i64 (eb_maxTokens rb - availableTokens)\<rparr> else None)))))"

fun probeContainers :: "'s RequestBuffer \<Rightarrow> (string \<Rightarrow> ('s world, bool) io) \<Rightarrow> ContainerState list \<Rightarrow> ('s world, endpoint_container list) io" where
  "probeContainers rb isReady [] = returnE []"
| "probeContainers rb isReady (cs # css) =
     bindE (probeContainer rb isReady cs) (\<lambda>c. bindE (probeContainers rb isReady css) (\<lambda>rest.
       returnE (case c of None \<Rightarrow> rest | Some x \<Rightarrow> x # rest)))"

definition fewerRequests :: "endpoint_container \<Rightarrow> endpoint_container \<Rightarrow> bool" where
  "fewerRequests a b \<longleftrightarrow> ct_inFlightRequests a < ct_inFlightRequests b"

text \<open>One round of \<open>discoverContainers\<close>; after an error the containers stay as they are. \<open>srt\<close> is \<open>sort.Slice\<close>.\<close>

definition discoverContainers :: "((endpoint_container \<Rightarrow> endpoint_container \<Rightarrow> bool) \<Rightarrow> endpoint_container list \<Rightarrow> endpoint_container list) \<Rightarrow> 's RequestBuffer \<Rightarrow>
    (string \<Rightarrow> ('s world, bool) io) \<Rightarrow> endpoint_container list \<Rightarrow> ('s world, endpoint_container list) io" where
  "discoverContainers srt rb isReady availableContainers =
     orElse availableContainers (GetActiveContainersByStubId (eb_rdb rb) (eb_stubId rb)) (\<lambda>containerStates.
       bindE (probeContainers rb isReady containerStates) (\<lambda>found. returnE (srt fewerRequests found)))"

text \<open>What becomes of a request that a goroutine handles: it goes back to the front of the buffer, or it is processed.\<close>

datatype handled = PutBack | Processed

definition handleRequest :: "'s RequestBuffer \<Rightarrow> (endpoint_container \<Rightarrow> TaskMessage \<Rightarrow> ('s world, unit) io) \<Rightarrow> endpoint_container list \<Rightarrow> TaskMessage \<Rightarrow>
    ('s world, handled) io" where
  "handleRequest rb serve availableContainers req =
     (case availableContainers of
        [] \<Rightarrow> returnE PutBack
      | c # _ \<Rightarrow>
          bindE (tryE (acquireRequestToken rb (ct_id c))) (\<lambda>r.
            case r of
              Inl _ \<Rightarrow> returnE PutBack
            | Inr _ \<Rightarrow> deferring (afterRequest rb req (ct_id c)) (thenE (serve c req) (returnE Processed))))"

text \<open>\<open>ForwardRequest\<close> and the push of \<open>handleRequest\<close>.\<close>

definition forwardRequest :: "TaskMessage \<Rightarrow> TaskMessage RingBuffer \<Rightarrow> goerror + TaskMessage RingBuffer" where
  "forwardRequest req buffer = RingBufferPush req False buffer"

definition afterHandling :: "handled \<Rightarrow> TaskMessage \<Rightarrow> TaskMessage RingBuffer \<Rightarrow> goerror + TaskMessage RingBuffer" where
  "afterHandling h req buffer = (case h of PutBack \<Rightarrow> RingBufferPush req True buffer | Processed \<Rightarrow> Inr buffer)"

text \<open>One round of \<open>processRequests\<close>: it waits, drops a request whose client is gone, or starts a goroutine for it.\<close>

datatype round = Wait | CancelTask TaskMessage | Handle TaskMessage

definition processRound :: "TaskMessage \<Rightarrow> (TaskMessage \<Rightarrow> bool) \<Rightarrow> endpoint_container list \<Rightarrow> TaskMessage RingBuffer \<Rightarrow> round \<times> TaskMessage RingBuffer" where
  "processRound zero gone availableContainers buffer =
     (if length availableContainers = 0 then (Wait, buffer)
      else case RingBufferPop zero buffer of
             ((req, ok), buffer') \<Rightarrow> (if \<not> ok then Wait else if gone req then CancelTask req else Handle req, buffer'))"

section \<open>The methods of a task\<close>

definition TaskRequestCancelled :: string where
  "TaskRequestCancelled = ''request_cancelled''"

definition TaskInvalidRequestPayload :: string where
  "TaskInvalidRequestPayload = ''invalid_request_payload''"

definition endpointRetry :: "'s task_backend \<Rightarrow> TaskMessage \<Rightarrow> ('s world, unit) io" where
  "endpointRetry B m =
     bindE (tb_GetTask B (tm_TaskId m)) (\<lambda>task. tb_UpdateTask B (tm_TaskId m) (task\<lparr>dt_Status := TaskStatusError\<rparr>))"

definition cancelledStatus :: "string \<Rightarrow> string" where
  "cancelledStatus reason =
     (if reason = TaskExpired then TaskStatusTimeout
      else if reason = TaskExceededRetryLimit then TaskStatusError
      else if reason = TaskRequestCancelled then TaskStatusCancelled
      else if reason = TaskInvalidRequestPayload then TaskStatusError
      else TaskStatusError)"

definition endpointCancel :: "'s task_backend \<Rightarrow> 's Dispatcher \<Rightarrow> TaskMessage \<Rightarrow> string \<Rightarrow> ('s world, unit) io" where
  "endpointCancel B d m reason =
     bindE (tb_GetTask B (tm_TaskId m)) (\<lambda>task.
       deferring (Complete d (tm_WorkspaceName m) (tm_StubId m) (tm_TaskId m))
         (if IsCompleted (dt_Status task) then returnE ()
          else tb_UpdateTask B (tm_TaskId m) (task\<lparr>dt_Status := cancelledStatus reason\<rparr>)))"

definition endpointHeartBeat :: "'s redis_client \<Rightarrow> 's task_backend \<Rightarrow> TaskMessage \<Rightarrow> ('s world, bool) io" where
  "endpointHeartBeat R B m =
     bindE (tb_GetTask B (tm_TaskId m)) (\<lambda>task.
       wrapE ''failed to retrieve endpoint heartbeat key''
         (Exists R (endpointRequestHeartbeat (tm_WorkspaceName m) (tm_StubId m) (tm_TaskId m) (dt_ContainerId task))))"

section \<open>Drawing and returning tokens\<close>

text \<open>How far a request is with the token of a container.\<close>

datatype token_phase = Waiting | Drew int | Serving | Returning | Gone

text \<open>
  The goroutines of all gateways on one container, a Redis command at a time. A request that is refused waits in the buffer and
  tries again. What else happens to Redis leaves the key with the tokens alone.
\<close>

inductive token_step :: "('s \<Rightarrow> keyspace) \<Rightarrow> 's RequestBuffer \<Rightarrow> string \<Rightarrow> 's world \<times> token_phase list \<Rightarrow> 's world \<times> token_phase list \<Rightarrow> bool"
  for view rb c where
  arrive: "token_step view rb c (w, ps) (w, ps @ [Waiting])"
| draw: "i < length ps \<Longrightarrow> ps ! i = Waiting \<Longrightarrow> drawToken rb c w = (Inr n, w') \<Longrightarrow> token_step view rb c (w, ps) (w', ps[i := Drew n])"
| refuse: "i < length ps \<Longrightarrow> ps ! i = Drew n \<Longrightarrow> checkToken rb c n w = (Inl e, w') \<Longrightarrow> token_step view rb c (w, ps) (w', ps[i := Waiting])"
| start: "i < length ps \<Longrightarrow> ps ! i = Drew n \<Longrightarrow> checkToken rb c n w = (Inr (), w') \<Longrightarrow> token_step view rb c (w, ps) (w', ps[i := Serving])"
| return: "i < length ps \<Longrightarrow> ps ! i = Serving \<Longrightarrow> returnToken rb c w = (Inr n, w') \<Longrightarrow> token_step view rb c (w, ps) (w', ps[i := Returning])"
| renew: "i < length ps \<Longrightarrow> ps ! i = Returning \<Longrightarrow> renewTokens rb c w = (Inr (), w') \<Longrightarrow> token_step view rb c (w, ps) (w', ps[i := Gone])"
| elsewhere: "view (rdb w') (tokenKey rb c) = view (rdb w) (tokenKey rb c) \<Longrightarrow> token_step view rb c (w, ps) (w', ps)"

definition tally :: "('a \<Rightarrow> bool) \<Rightarrow> 'a list \<Rightarrow> int" where
  "tally P xs = int (length (filter P xs))"

fun drawn :: "token_phase \<Rightarrow> bool" where
  "drawn (Drew _) = True" | "drawn _ = False"

fun granted :: "token_phase \<Rightarrow> bool" where
  "granted (Drew n) = (0 \<le> n)" | "granted _ = False"

lemma tally_simps [simp]: "tally P [] = 0" "tally P (xs @ [x]) = tally P xs + (if P x then 1 else 0)" "0 \<le> tally P xs"
  by (simp_all add: tally_def)

lemma tally_update: "i < length xs \<Longrightarrow> tally P (xs[i := x]) = tally P xs - (if P (xs ! i) then 1 else 0) + (if P x then 1 else 0)"
proof (induction xs arbitrary: i)
  case (Cons a xs)
  show ?case
  proof (cases i)
    case (Suc j)
    have "tally P (a # ys) = (if P a then 1 else 0) + tally P ys" for ys by (simp add: tally_def)
    with Suc Cons show ?thesis by simp
  qed (simp add: tally_def)
qed simp

lemma tally_mono: "(\<And>x. P x \<Longrightarrow> Q x) \<Longrightarrow> tally P xs \<le> tally Q xs"
  by (induction xs) (auto simp: tally_def)

lemma tally_pos: "i < length xs \<Longrightarrow> P (xs ! i) \<Longrightarrow> 1 \<le> tally P xs"
proof -
  assume "i < length xs" "P (xs ! i)"
  then have "xs ! i \<in> set (filter P xs)" by simp
  then show ?thesis by (cases "filter P xs") (auto simp: tally_def)
qed

text \<open>
  The tokens at the key, those that are drawn and those that requests hold make up all tokens, and the tokens that are held or
  granted do not exceed them.
\<close>

definition tokens_inv :: "('s \<Rightarrow> keyspace) \<Rightarrow> 's RequestBuffer \<Rightarrow> string \<Rightarrow> 's world \<times> token_phase list \<Rightarrow> bool" where
  "tokens_inv view rb c st \<longleftrightarrow> (case st of (w, ps) \<Rightarrow>
     \<exists>t. view (rdb w) (tokenKey rb c) = Some (RStr (itoa t)) \<and> in_i64 t \<and> t + tally drawn ps + tally ((=) Serving) ps = eb_maxTokens rb \<and>
       tally ((=) Serving) ps + tally granted ps \<le> eb_maxTokens rb)"

lemma tokens_invI:
  "view (rdb w) (tokenKey rb c) = Some (RStr (itoa t)) \<Longrightarrow> in_i64 t \<Longrightarrow> t + tally drawn ps + tally ((=) Serving) ps = eb_maxTokens rb \<Longrightarrow>
   tally ((=) Serving) ps + tally granted ps \<le> eb_maxTokens rb \<Longrightarrow> tokens_inv view rb c (w, ps)"
  by (auto simp: tokens_inv_def)

locale request_tokens = redis_counters R view C for R :: "'s redis_client" and view :: "'s \<Rightarrow> keyspace" and C :: "'s counter_client" +
  fixes rb :: "'s RequestBuffer"
  assumes rb_rdb: "eb_rdb rb = R" and rb_counters: "eb_counters rb = C" and rb_timeout: "0 < i64 (eb_Timeout rb * second)"
    and rb_max: "0 \<le> eb_maxTokens rb" "in_i64 (eb_maxTokens rb)"
begin

lemma counter_itoa: "in_i64 t \<Longrightarrow> counterAt (Some (RStr (itoa t))) = Some t"
  by (simp add: ParseInt_itoa_64)

lemma drawToken_effect:
  assumes "view (rdb w) (tokenKey rb c) = Some (RStr (itoa t))" "in_i64 t" "drawToken rb c w = (Inr n, w')"
  shows "n = t - 1 \<and> in_i64 n \<and> view (rdb w') = (view (rdb w))(tokenKey rb c \<mapsto> RStr (itoa n))"
proof -
  obtain s' where s': "cDecr C (tokenKey rb c) (rdb w) = (Inr n, s')" "rdb w' = s'"
    using assms(3) by (auto simp: drawToken_def onR_def rb_counters split: prod.splits)
  then show ?thesis using Decr_law [OF s'(1)] counter_itoa [OF assms(2)] assms(1) by auto
qed

lemma returnToken_effect:
  assumes "view (rdb w) (tokenKey rb c) = Some (RStr (itoa t))" "in_i64 t" "returnToken rb c w = (Inr n, w')"
  shows "n = t + 1 \<and> in_i64 n \<and> view (rdb w') = (view (rdb w))(tokenKey rb c \<mapsto> RStr (itoa n))"
proof -
  obtain s' where s': "cIncr C (tokenKey rb c) (rdb w) = (Inr n, s')" "rdb w' = s'"
    using assms(3) by (auto simp: returnToken_def onR_def rb_counters split: prod.splits)
  then show ?thesis using Incr_law [OF s'(1)] counter_itoa [OF assms(2)] assms(1) by auto
qed

lemma returnToken_up:
  assumes "view (rdb w) (tokenKey rb c) = Some (RStr (itoa t))" "in_i64 t" "in_i64 (t + 1)"
  obtains w' where "returnToken rb c w = (Inr (t + 1), w')" "view (rdb w') = (view (rdb w))(tokenKey rb c \<mapsto> RStr (itoa (t + 1)))"
proof -
  obtain m s' where "cIncr C (tokenKey rb c) (rdb w) = (Inr m, s')"
    using Incr_up [of "rdb w" "tokenKey rb c" t] counter_itoa [OF assms(2)] assms(1,3) by auto
  then have "returnToken rb c w = (Inr m, w\<lparr>rdb := s'\<rparr>)" by (simp add: returnToken_def onR_def rb_counters)
  then show thesis using that returnToken_effect [OF assms(1,2)] by metis
qed

lemma renewTokens_effect: "\<exists>w'. renewTokens rb c w = (Inr (), w') \<and> view (rdb w') = view (rdb w)"
  using up_Expire [OF rb_timeout, of w "\<lambda>_ w'. view (rdb w') = view (rdb w)" "tokenKey rb c" "\<lambda>_ _. False"]
  unfolding renewTokens_def rb_rdb by (auto simp: wp_def split: prod.splits sum.splits)

text \<open>A draw below zero is taken back; any other is granted.\<close>

lemma checkToken_negative:
  assumes "view (rdb w) (tokenKey rb c) = Some (RStr (itoa t))" "in_i64 t" "in_i64 (t + 1)" "n < 0" "checkToken rb c n w = (r, w')"
  shows "r = Inl (ErrNew ''too many in-flight requests'') \<and> view (rdb w') = (view (rdb w))(tokenKey rb c \<mapsto> RStr (itoa (t + 1)))"
proof -
  obtain w1 where "returnToken rb c w = (Inr (t + 1), w1)" "view (rdb w1) = (view (rdb w))(tokenKey rb c \<mapsto> RStr (itoa (t + 1)))"
    by (rule returnToken_up [OF assms(1-3)])
  then show ?thesis
    using assms(4,5) unfolding checkToken_def returnToken_def [symmetric]
    by (auto simp: thenE_def bindE_def tryE_def attempt_def returnE_def throwE_def)
qed

lemma checkToken_granted:
  assumes "0 \<le> n" "checkToken rb c n w = (r, w')"
  shows "r = Inr () \<and> view (rdb w') = view (rdb w)"
  using assms renewTokens_effect [of c w] by (auto simp: checkToken_def)

lemma token_step_inv:
  assumes "token_step view rb c st st'" "tokens_inv view rb c st"
  shows "tokens_inv view rb c st'"
proof -
  obtain w ps where st: "st = (w, ps)" by fastforce
  obtain t where t: "view (rdb w) (tokenKey rb c) = Some (RStr (itoa t))" "in_i64 t"
    and sum: "t + tally drawn ps + tally ((=) Serving) ps = eb_maxTokens rb" and le: "tally ((=) Serving) ps + tally granted ps \<le> eb_maxTokens rb"
    using assms(2) by (auto simp: st tokens_inv_def)
  from assms(1) show ?thesis unfolding st
  proof (cases rule: token_step.cases)
    case arrive
    show ?thesis unfolding arrive by (intro tokens_invI [of view w rb c t]) (use t sum le in simp_all)
  next
    case (draw i n w')
    note eff = drawToken_effect [OF t draw(4)]
    have "tally granted ps \<le> tally drawn ps" by (rule tally_mono) (auto elim: granted.elims)
    then show ?thesis unfolding draw(1)
      by (intro tokens_invI [of view w' rb c n]) (use eff sum le draw(2,3) in \<open>auto simp: tally_update\<close>)
  next
    case (refuse i n e w')
    have "1 \<le> tally drawn ps" using tally_pos [OF refuse(2), of drawn] refuse(3) by simp
    then have "t + 1 \<le> eb_maxTokens rb" using sum tally_simps(3) [of "(=) Serving" ps] by linarith
    then have up: "in_i64 (t + 1)" using rb_max t(2) by (auto simp: in_i64_def)
    have "n < 0" using checkToken_granted [OF _ refuse(4)] by force
    then have "view (rdb w') = (view (rdb w))(tokenKey rb c \<mapsto> RStr (itoa (t + 1)))" using checkToken_negative [OF t up _ refuse(4)] by simp
    then show ?thesis unfolding refuse(1)
      by (intro tokens_invI [of view w' rb c "t + 1"]) (use \<open>n < 0\<close> up sum le refuse(2,3) in \<open>simp_all add: tally_update\<close>)
  next
    case (start i n w')
    have "0 \<le> n"
    proof (rule ccontr)
      assume "\<not> 0 \<le> n"
      then show False using start(4) by (auto simp: checkToken_def thenE_def bindE_def throwE_def split: prod.splits sum.splits)
    qed
    then have "view (rdb w') = view (rdb w)" using checkToken_granted [OF _ start(4)] by simp
    then show ?thesis unfolding start(1)
      by (intro tokens_invI [of view w' rb c t]) (use \<open>0 \<le> n\<close> t sum le start(2,3) in \<open>simp_all add: tally_update\<close>)
  next
    case (return i n w')
    note eff = returnToken_effect [OF t return(4)]
    then show ?thesis unfolding return(1)
      by (intro tokens_invI [of view w' rb c n]) (use sum le return(2,3) in \<open>auto simp: tally_update\<close>)
  next
    case (renew i w')
    have "view (rdb w') = view (rdb w)" using renewTokens_effect [of c w] renew(4) by auto
    then show ?thesis unfolding renew(1)
      by (intro tokens_invI [of view w' rb c t]) (use t sum le renew(2,3) in \<open>simp_all add: tally_update\<close>)
  next
    case (elsewhere w')
    then show ?thesis unfolding elsewhere(1) by (intro tokens_invI [of view w' rb c t]) (use t sum le in simp_all)
  qed
qed

lemma tokens_inv_reachable: "(token_step view rb c)\<^sup>*\<^sup>* st st' \<Longrightarrow> tokens_inv view rb c st \<Longrightarrow> tokens_inv view rb c st'"
  by (induction rule: rtranclp_induct) (auto intro: token_step_inv)

text \<open>The tokens of a container appear when it is discovered; later they are only read.\<close>

lemma requestTokens_new:
  assumes "view (rdb w) (tokenKey rb c) = None"
  shows "wp (requestTokens rb c) (\<lambda>n w'. n = eb_maxTokens rb \<and> view (rdb w') = (view (rdb w))(tokenKey rb c \<mapsto> RStr (itoa (eb_maxTokens rb)))) (\<lambda>_ _. False) w"
proof -
  let ?k = "tokenKey rb c" and ?x = "itoa (eb_maxTokens rb)"
  have create: "wp (onR (cSetNX C ?k ?x)) (\<lambda>b w'. b \<and> view (rdb w') = (view (rdb w1))(?k \<mapsto> RStr ?x)) (\<lambda>_ _. False) w1"
    if "view (rdb w1) ?k = None" for w1
    using SetNX_up [of ?k ?x "rdb w1"] SetNX_law [of ?k ?x "rdb w1"] that by (auto simp: wp_def onR_def)
  show ?thesis
    unfolding requestTokens_def rb_rdb rb_counters wp_bindE
  proof (rule wp_tryE_no_panic, unfold GetInt_def wp_bindE, rule up_Get_None [OF assms])
    fix w' :: "'s world"
    assume w': "view (rdb w') = view (rdb w)"
    have "wp (onR (cSetNX C ?k ?x)) (\<lambda>b w'. b \<and> view (rdb w') = (view (rdb w))(?k \<mapsto> RStr ?x)) (\<lambda>_ _. False) w'"
      using create [of w'] w' assms by simp
    then show "(\<forall>p. RedisNil \<noteq> Panic p) \<and> wp (case Inl RedisNil of
          Inl e \<Rightarrow> if e \<noteq> RedisNil then throwE e
            else bindE (onR (cSetNX C ?k ?x)) (\<lambda>created. if created then returnE (eb_maxTokens rb) else bindE (Get R ?k) (\<lambda>v. liftOpt (ErrNew ''invalid syntax'') (ParseInt v 64)))
        | Inr val \<Rightarrow> returnE val)
        (\<lambda>n w'. n = eb_maxTokens rb \<and> view (rdb w') = (view (rdb w))(?k \<mapsto> RStr ?x)) (\<lambda>_ _. False) w'"
      by (auto simp: wp_eqs elim!: wp_mono)
  qed
qed

lemma requestTokens_known:
  assumes "view (rdb w) (tokenKey rb c) = Some (RStr (itoa t))" "in_i64 t"
  shows "wp (requestTokens rb c) (\<lambda>n w'. n = t \<and> view (rdb w') = view (rdb w)) (\<lambda>_ _. False) w"
  unfolding requestTokens_def rb_rdb rb_counters wp_bindE
  by (rule wp_tryE_no_panic, unfold GetInt_def wp_bindE, rule up_Get [OF assms(1)]) (simp add: ParseInt_itoa_64 [OF assms(2)] wp_eqs)

end

lemma weak_order_fewerRequests: "weak_order fewerRequests"
  by (auto simp: weak_order_def fewerRequests_def)

text \<open>A request goes to a container with the fewest requests in flight, by the last discovery.\<close>

lemma least_loaded_first:
  assumes "go_sort srt" and "GetActiveContainersByStubId (eb_rdb rb) (eb_stubId rb) w = (Inr states, w1)"
    and "probeContainers rb isReady states w1 = (Inr found, w2)" and "discoverContainers srt rb isReady old w = (Inr (c # cs), w')"
  shows "c \<in> set found \<and> (\<forall>x \<in> set found. ct_inFlightRequests c \<le> ct_inFlightRequests x)"
proof -
  have run: "srt fewerRequests found = c # cs"
    using assms(2-4) by (simp add: discoverContainers_def orElse_def tryE_def attempt_def bindE_def returnE_def)
  then have "found \<noteq> []" using go_sort.sortSlice_Nil [OF assms(1) weak_order_fewerRequests, of found] by simp
  note first = go_sort.hd_sortSlice [OF assms(1) weak_order_fewerRequests this, unfolded run list.sel]
  show ?thesis using first(1) first(2) by (simp add: fewerRequests_def not_less)
qed

text \<open>A request that is not served is where it was: at the front of the buffer.\<close>

lemma put_back_keeps_request:
  assumes "ring_inv b" and "processRound zero gone cs b = (Handle req, b')"
  shows "\<exists>b''. afterHandling PutBack req b' = Inr b'' \<and> ring_contents b'' = ring_contents b"
proof -
  have pop: "RingBufferPop zero b = ((req, True), b')" using assms(2) by (auto simp: processRound_def split: if_splits prod.splits)
  then have ne: "ring_contents b \<noteq> []" using ring.pop_empty [OF assms(1), of zero] by auto
  then have b': "req = hd (ring_contents b)" "ring_inv b'" "rb_size b' = rb_size b" "ring_contents b' = tl (ring_contents b)"
    using ring_pop [OF assms(1) ne, of zero] pop by auto
  have "length (ring_contents b') < rb_size b'" using ne assms(1) b'(3,4) by (auto simp: ring_inv_def)
  then show ?thesis
    using ring_push_front [OF b'(2), of req] b' ne by (auto simp: afterHandling_def queue_push_def)
qed

section \<open>A reference server\<close>

definition overflow_error :: goerror where
  "overflow_error = RedisErr ''ERR increment or decrement would overflow''"

definition mem_add :: "int \<Rightarrow> string \<Rightarrow> (mem, int) io" where
  "mem_add d k s =
     (case counterAt (mem_view s k) of
        None \<Rightarrow> (Inl wrongtype, s)
      | Some n \<Rightarrow> if in_i64 (n + d) then (Inr (n + d), s(k \<mapsto> MStr (itoa (n + d)))) else (Inl overflow_error, s))"

definition mem_SetNX :: "string \<Rightarrow> string \<Rightarrow> (mem, bool) io" where
  "mem_SetNX k x s = (case s k of None \<Rightarrow> (Inr True, s(k \<mapsto> MStr x)) | Some _ \<Rightarrow> (Inr False, s))"

definition mem_counters :: "mem counter_client" where
  "mem_counters = \<lparr>cDecr = mem_add (- 1), cIncr = mem_add 1, cSetNX = mem_SetNX\<rparr>"

interpretation mem_count: redis_counters mem_client mem_view mem_counters
  by unfold_locales
    (auto simp: mem_counters_def mem_add_def mem_SetNX_def mem_view_upd split: option.splits if_splits)

definition ex_request_buffer :: "mem RequestBuffer" where
  "ex_request_buffer =
     \<lparr>eb_rdb = mem_client, eb_counters = mem_counters, eb_workspaceName = ''ws'', eb_stubId = ''st'', eb_maxTokens = 1, eb_Timeout = 180,
      eb_KeepWarmSeconds = 0\<rparr>"

interpretation ex_tokens: request_tokens mem_client mem_view mem_counters ex_request_buffer
  by unfold_locales (simp_all add: ex_request_buffer_def second_def i64_def in_i64_def)

definition ex_token_world :: "string \<Rightarrow> mem world" where
  "ex_token_world tokens = \<lparr>rdb = (\<lambda>k. if k = ''endpoint:ws:st:request_tokens:c1'' then Some (MStr tokens) else None), locks = Map.empty\<rparr>"

lemma ex_tokenKey: "tokenKey ex_request_buffer ''c1'' = ''endpoint:ws:st:request_tokens:c1''"
  by (simp add: tokenKey_def endpointRequestTokens_def ex_request_buffer_def)

lemma itoa_digits: "itoa 0 = ''0''" "itoa 1 = ''1''" "itoa (- 1) = ''-1''"
  by (simp_all add: itoa_def utoa.simps digit_def)

lemmas ex_token_simps = drawToken_def checkToken_def returnToken_def renewTokens_def ex_tokenKey onR_def mem_counters_def mem_add_def mem_view_def
  mem_client_def mem_Expire_def Expire_def thenE_def bindE_def tryE_def attempt_def returnE_def throwE_def ParseInt_def in_i64_def itoa_digits digit_val_def
  second_def i64_def

lemma ex_eb: "eb_rdb ex_request_buffer = mem_client" "eb_counters ex_request_buffer = mem_counters" "eb_Timeout ex_request_buffer = 180"
  "eb_maxTokens ex_request_buffer = 1" "eb_workspaceName ex_request_buffer = ''ws''" "eb_stubId ex_request_buffer = ''st''"
  by (simp_all add: ex_request_buffer_def)

text \<open>
  When the heartbeat of a request expires although the request goes on, its token is returned while it is still held, so that a container with
  one token gets a second request.
\<close>

lemma expired_heartbeat_overcommits:
  "(case handleHeartbeatEvent ex_request_buffer KeyOperationExpired ''endpoint:ws:st:request_heartbeat:t1:c1'' (ex_token_world ''0'') of
      (_, w) \<Rightarrow> fst (acquireRequestToken ex_request_buffer ''c1'' w)) = Inr ()"
  by (simp add: handleHeartbeatEvent_def releaseRequestToken_def endRelease_def acquireRequestToken_def KeyOperationExpired_def heartbeatKey_def
      endpointRequestHeartbeat_def Del_def mem_Del_def ex_token_world_def ex_token_simps ex_eb)

section \<open>Properties\<close>

text \<open>
  C8. From the discovery of a container on, however the requests of all gateways interleave, the container works on at most as many
  requests as it has tokens; and when no request holds a token or is about to draw one, all tokens are back.
\<close>

theorem container_not_overloaded:
  assumes "request_tokens R view C rb" and "view (rdb w0) (tokenKey rb c) = None" and "requestTokens rb c w0 = (r, w1)"
    and "(token_step view rb c)\<^sup>*\<^sup>* (w1, []) (w, ps)"
  shows "int (length (filter ((=) Serving) ps)) \<le> eb_maxTokens rb \<and>
    (set ps \<subseteq> {Waiting, Returning, Gone} \<longrightarrow> view (rdb w) (tokenKey rb c) = Some (RStr (itoa (eb_maxTokens rb))))"
proof -
  have "view (rdb w1) = (view (rdb w0))(tokenKey rb c \<mapsto> RStr (itoa (eb_maxTokens rb)))"
    using request_tokens.requestTokens_new [OF assms(1,2)] assms(3) by (cases r) (simp_all add: wp_def)
  then have "tokens_inv view rb c (w1, [])"
    by (intro tokens_invI [of view w1 rb c "eb_maxTokens rb"]) (use request_tokens.rb_max [OF assms(1)] in simp_all)
  then have inv: "tokens_inv view rb c (w, ps)" by (rule request_tokens.tokens_inv_reachable [OF assms(1,4)])
  then obtain t where t: "view (rdb w) (tokenKey rb c) = Some (RStr (itoa t))" "t + tally drawn ps + tally ((=) Serving) ps = eb_maxTokens rb"
    "tally ((=) Serving) ps + tally granted ps \<le> eb_maxTokens rb"
    by (auto simp: tokens_inv_def)
  have "tally ((=) Serving) ps \<le> eb_maxTokens rb" using t(3) tally_simps(3) [of granted ps] by linarith
  moreover have "t = eb_maxTokens rb" if "set ps \<subseteq> {Waiting, Returning, Gone}"
  proof -
    have "filter drawn ps = []" "filter ((=) Serving) ps = []" using that by (auto simp: filter_empty_conv)
    then show ?thesis using t(2) by (simp add: tally_def)
  qed
  ultimately show ?thesis using t(1) by (auto simp: tally_def)
qed

text \<open>Two requests and one token: the second is refused.\<close>

theorem container_not_overloaded_witness:
  "\<exists>w1 w. requestTokens ex_request_buffer ''c1'' \<lparr>rdb = Map.empty, locks = Map.empty\<rparr> = (Inr 1, w1) \<and>
     (token_step mem_view ex_request_buffer ''c1'')\<^sup>*\<^sup>* (w1, []) (w, [Serving, Waiting]) \<and>
     int (length (filter ((=) Serving) [Serving, Waiting])) \<le> eb_maxTokens ex_request_buffer"
proof -
  let ?w = "\<lambda>x. \<lparr>rdb = Map.empty(''endpoint:ws:st:request_tokens:c1'' \<mapsto> MStr x), locks = Map.empty\<rparr> :: mem world"
  let ?step = "token_step mem_view ex_request_buffer ''c1''"
  have new: "requestTokens ex_request_buffer ''c1'' \<lparr>rdb = Map.empty, locks = Map.empty\<rparr> = (Inr 1, ?w ''1'')"
    by (simp add: requestTokens_def GetInt_def Get_def mem_Get_def mem_SetNX_def ex_eb ex_token_simps)
  have d1: "drawToken ex_request_buffer ''c1'' (?w ''1'') = (Inr 0, ?w ''0'')" by (simp add: ex_eb ex_token_simps)
  have d2: "drawToken ex_request_buffer ''c1'' (?w ''0'') = (Inr (- 1), ?w ''-1'')" by (simp add: ex_eb ex_token_simps)
  have s1: "checkToken ex_request_buffer ''c1'' 0 (?w ''-1'') = (Inr (), ?w ''-1'')" by (simp add: ex_eb ex_token_simps)
  have s2: "checkToken ex_request_buffer ''c1'' (- 1) (?w ''-1'') = (Inl (ErrNew ''too many in-flight requests''), ?w ''0'')"
    by (simp add: ex_eb ex_token_simps)
  have "?step (?w ''1'', []) (?w ''1'', [Waiting])" using arrive [of mem_view ex_request_buffer "''c1''" "?w ''1''" "[]"] by simp
  moreover have "?step (?w ''1'', [Waiting]) (?w ''1'', [Waiting, Waiting])"
    using arrive [of mem_view ex_request_buffer "''c1''" "?w ''1''" "[Waiting]"] by simp
  moreover have "?step (?w ''1'', [Waiting, Waiting]) (?w ''0'', [Drew 0, Waiting])" using draw [OF _ _ d1, of 0 "[Waiting, Waiting]"] by simp
  moreover have "?step (?w ''0'', [Drew 0, Waiting]) (?w ''-1'', [Drew 0, Drew (- 1)])" using draw [OF _ _ d2, of 1 "[Drew 0, Waiting]"] by simp
  moreover have "?step (?w ''-1'', [Drew 0, Drew (- 1)]) (?w ''-1'', [Serving, Drew (- 1)])" using start [OF _ _ s1, of 0 "[Drew 0, Drew (- 1)]"] by simp
  moreover have "?step (?w ''-1'', [Serving, Drew (- 1)]) (?w ''0'', [Serving, Waiting])" using refuse [OF _ _ s2, of 1 "[Serving, Drew (- 1)]"] by simp
  ultimately have run: "?step\<^sup>*\<^sup>* (?w ''1'', []) (?w ''0'', [Serving, Waiting])" by (meson converse_rtranclp_into_rtranclp rtranclp.rtrancl_refl)
  have missing: "mem_view (rdb (\<lparr>rdb = Map.empty, locks = Map.empty\<rparr> :: mem world)) (tokenKey ex_request_buffer ''c1'') = None" by simp
  from container_not_overloaded [OF ex_tokens.request_tokens_axioms missing new run] new run show ?thesis by blast
qed

end
