(* ===== verification/Gpu_Manager.thy ===== *)
theory Gpu_Manager
  imports Pool_Manager "HOL-Library.Sublist"
begin

text \<open>
  How a worker hands its GPUs to containers (\<open>pkg/worker/nvidia.go\<close>) and how it finds the ones it may use (\<open>pkg/worker/gpu_info.go\<close>).
  The allocation runs under the mutex of the manager, so a call is one step; the answer of the info client is an
  argument of it. The output of \<open>nvidia-smi\<close>, the environment and the file system are arguments. The map of environment variables is an
  association list; Go returns its entries in any order.

  Shown are that no GPU is ever assigned to two containers, and when an assignment succeeds.
\<close>

section \<open>Allocation\<close>

record ContainerNvidiaManager =
  nm_gpuAllocationMap :: "int list SafeMap"
  nm_gpuCount :: "32 word"

text \<open>\<open>cdi\<close> is the error of \<open>nvidia-ctk cdi generate\<close>; with one, the process exits.\<close>

definition NewContainerNvidiaManager :: "goerror option \<Rightarrow> 32 word \<Rightarrow> ContainerNvidiaManager option" where
  "NewContainerNvidiaManager cdi gpuCount =
     (if 0 < gpuCount \<and> cdi \<noteq> None then None else Some \<lparr>nm_gpuAllocationMap = [], nm_gpuCount = gpuCount\<rparr>)"

definition UnassignGPUDevices :: "string \<Rightarrow> ContainerNvidiaManager \<Rightarrow> ContainerNvidiaManager" where
  "UnassignGPUDevices containerId c = c\<lparr>nm_gpuAllocationMap := SafeMap_Delete containerId (nm_gpuAllocationMap c)\<rparr>"

definition GetContainerGPUDevices :: "string \<Rightarrow> ContainerNvidiaManager \<Rightarrow> int list" where
  "GetContainerGPUDevices containerId c = (case SafeMap_Get containerId (nm_gpuAllocationMap c) of None \<Rightarrow> [] | Some ds \<Rightarrow> ds)"

definition currentAllocations :: "ContainerNvidiaManager \<Rightarrow> int list" where
  "currentAllocations c = remdups (concat (map snd (nm_gpuAllocationMap c)))"

definition errNotEnoughGPUs :: "32 word \<Rightarrow> int \<Rightarrow> nat \<Rightarrow> goerror" where
  "errNotEnoughGPUs requested allocable available =
     ErrNew (''not enough GPUs available, requested: '' @ utoa (unat requested) @ '', allocable: '' @ itoa allocable @ '' out of '' @ utoa available)"

definition chooseDevices :: "(goerror + int list) \<Rightarrow> string \<Rightarrow> 32 word \<Rightarrow> ContainerNvidiaManager \<Rightarrow> (goerror + int list) \<times> ContainerNvidiaManager" where
  "chooseDevices available containerId requestedGpuCount c =
     (case available of
        Inl e \<Rightarrow> (Inl e, c)
      | Inr availableDevices \<Rightarrow>
          let taken = currentAllocations c;
              allocableDevices = (if length taken < length availableDevices then filter (\<lambda>gpuId. gpuId \<notin> set taken) availableDevices else [])
          in if length allocableDevices < unat requestedGpuCount
             then (Inl (errNotEnoughGPUs requestedGpuCount (uint (nm_gpuCount c) - int (length allocableDevices)) (length availableDevices)), c)
             else let devicesToAllocate = take (unat requestedGpuCount) allocableDevices
                  in (Inr devicesToAllocate, c\<lparr>nm_gpuAllocationMap := SafeMap_Set containerId devicesToAllocate (nm_gpuAllocationMap c)\<rparr>))"

definition AssignGPUDevices :: "(goerror + int list) \<Rightarrow> string \<Rightarrow> 32 word \<Rightarrow> ContainerNvidiaManager \<Rightarrow> (goerror + int list) \<times> ContainerNvidiaManager" where
  "AssignGPUDevices available containerId gpuCount c = chooseDevices available containerId gpuCount c"

section \<open>The GPUs of a worker\<close>

definition isSpace :: "char \<Rightarrow> bool" where
  "isSpace c \<longleftrightarrow> c \<in> set [CHR '' '', CHR 0x09, CHR 0x0A, CHR 0x0B, CHR 0x0C, CHR 0x0D]"

definition TrimSpace :: "string \<Rightarrow> string" where
  "TrimSpace s = rev (dropWhile isSpace (rev (dropWhile isSpace s)))"

definition lowerChar :: "char \<Rightarrow> char" where
  "lowerChar c = (case map_of (zip ''ABCDEFGHIJKLMNOPQRSTUVWXYZ'' ''abcdefghijklmnopqrstuvwxyz'') c of None \<Rightarrow> c | Some d \<Rightarrow> d)"

fun Join :: "string \<Rightarrow> string list \<Rightarrow> string" where
  "Join sep [] = []"
| "Join sep [s] = s"
| "Join sep (s # ss) = s @ sep @ Join sep ss"

definition hexDigits :: string where
  "hexDigits = ''0123456789abcdef''"

fun parseHex :: "nat \<Rightarrow> string \<Rightarrow> nat option" where
  "parseHex acc [] = Some acc"
| "parseHex acc (c # cs) =
     (case map_of (zip hexDigits [0..<16]) (lowerChar c) of None \<Rightarrow> None | Some d \<Rightarrow> parseHex (16 * acc + d) cs)"

text \<open>\<open>%04x\<close> of a number of at most sixteen bits.\<close>

definition hex4 :: "nat \<Rightarrow> string" where
  "hex4 n = map (\<lambda>k. hexDigits ! (n div 16 ^ k mod 16)) [3, 2, 1, 0]"

definition hexToPaddedString :: "string \<Rightarrow> goerror + string" where
  "hexToPaddedString hexStr =
     (let s = TrimPrefix hexStr ''0x''
      in case (if s = [] then None else parseHex 0 s) of
           None \<Rightarrow> Inl (ErrNew ''invalid syntax'')
         | Some value \<Rightarrow> if value < 2 ^ 16 then Inr (hex4 value) else Inl (ErrNew ''value out of range''))"

definition deviceOfLine :: "string \<Rightarrow> (string \<Rightarrow> goerror + bool) \<Rightarrow> string \<Rightarrow> goerror + int option" where
  "deviceOfLine visibleDevices gpuExists line =
     (let parts = Split CHR '','' line
      in if length parts \<noteq> 4 then Inl (ErrNew (''unexpected output from nvidia-smi: '' @ line))
         else case hexToPaddedString (TrimSpace (parts ! 0)) of
           Inl e \<Rightarrow> Inl e
         | Inr domain \<Rightarrow>
             let uuid = TrimSpace (parts ! 3)
             in if \<not> sublist uuid visibleDevices \<and> visibleDevices \<noteq> ''all'' then Inr None
                else let smiBusIdParts = Split CHR '':'' (parts ! 1)
                     in if length smiBusIdParts \<noteq> 3 then Inl (ErrNew (''unexpected bus id format from nvidia-smi: '' @ line))
                        else let systemBusId = map lowerChar (Join '':'' [domain, smiBusIdParts ! 1, smiBusIdParts ! 2])
                             in if gpuExists systemBusId = Inr True
                                then (case ParseInt (TrimSpace (parts ! 2)) 64 of
                                        None \<Rightarrow> Inl (ErrNew ''invalid syntax'')
                                      | Some index \<Rightarrow> Inr (Some index))
                                else Inr None)"

fun collectDevices :: "string \<Rightarrow> (string \<Rightarrow> goerror + bool) \<Rightarrow> string list \<Rightarrow> int list \<Rightarrow> goerror + int list" where
  "collectDevices visibleDevices gpuExists [] result = Inr result"
| "collectDevices visibleDevices gpuExists (line # lines) result =
     (if length line = 0 then collectDevices visibleDevices gpuExists lines result
      else case deviceOfLine visibleDevices gpuExists line of
             Inl e \<Rightarrow> Inl e
           | Inr None \<Rightarrow> collectDevices visibleDevices gpuExists lines result
           | Inr (Some index) \<Rightarrow> collectDevices visibleDevices gpuExists lines (result @ [index]))"

definition AvailableGPUDevices :: "string \<Rightarrow> (string \<Rightarrow> goerror + bool) \<Rightarrow> (goerror + string) \<Rightarrow> goerror + int list" where
  "AvailableGPUDevices visibleDevices gpuExists devices =
     (case devices of Inl e \<Rightarrow> Inl e | Inr out \<Rightarrow> collectDevices visibleDevices gpuExists (Split (CHR 0x0A) out) [])"

section \<open>The environment of a container\<close>

type_synonym env = "(string \<times> string) list"

definition lookupEnv :: "env \<Rightarrow> string \<Rightarrow> string" where
  "lookupEnv e k = (case map_of e k of None \<Rightarrow> [] | Some v \<Rightarrow> v)"

text \<open>\<open>strings.SplitN(s, "=", 2)\<close>, if there is a separator.\<close>

definition cutEnv :: "string \<Rightarrow> (string \<times> string) option" where
  "cutEnv m = (let name = takeWhile (\<lambda>c. c \<noteq> CHR ''='') m in if length name < length m then Some (name, drop (Suc (length name)) m) else None)"

definition readEnv :: "string list \<Rightarrow> env" where
  "readEnv ms = fold (\<lambda>m e. case cutEnv m of None \<Rightarrow> e | Some (name, v) \<Rightarrow> AList.update name v e) ms []"

definition mergePaths :: "string \<Rightarrow> env \<Rightarrow> string list \<Rightarrow> env" where
  "mergePaths pathName initEnv mergeIn =
     (if lookupEnv initEnv pathName = [] then AList.update pathName (Join '':'' mergeIn) initEnv
      else let pathMembers = fold (\<lambda>path ps. if path \<in> set ps then ps else ps @ [path]) mergeIn (Split CHR '':'' (lookupEnv initEnv pathName))
           in AList.update pathName (Join '':'' pathMembers) initEnv)"

definition defaultContainerCudaVersion :: string where
  "defaultContainerCudaVersion = ''12.4''"

definition defaultContainerPath :: "string list" where
  "defaultContainerPath = [''/usr/local/sbin'', ''/usr/local/bin'', ''/usr/sbin'', ''/usr/bin'', ''/sbin'', ''/bin'']"

definition defaultContainerLibrary :: "string list" where
  "defaultContainerLibrary = [''/usr/lib/x86_64-linux-gnu'', ''/usr/lib/worker/x86_64-linux-gnu'', ''/usr/local/nvidia/lib64'']"

definition cudaVersionOf :: "env \<Rightarrow> string" where
  "cudaVersionOf e =
     (case map_of e ''CUDA_VERSION'' of
        None \<Rightarrow> defaultContainerCudaVersion
      | Some v \<Rightarrow> (case Split CHR ''.'' v of major # minor # _ \<Rightarrow> major @ ''.'' @ minor | _ \<Rightarrow> defaultContainerCudaVersion))"

definition cudaEnvVarDefaults :: "string \<Rightarrow> env" where
  "cudaEnvVarDefaults cudaVersion =
     [(''NVIDIA_DRIVER_CAPABILITIES'', ''compute,utility,graphics,ngx,video''), (''NVIDIA_REQUIRE_CUDA'', []), (''NVARCH'', []),
      (''NV_CUDA_COMPAT_PACKAGE'', []), (''NV_CUDA_CUDART_VERSION'', []), (''CUDA_VERSION'', []), (''GPU_TYPE'', []),
      (''CUDA_HOME'', ''/usr/local/cuda-'' @ cudaVersion)]"

definition applyDefault :: "(string \<Rightarrow> string) \<Rightarrow> string \<times> string \<Rightarrow> env \<Rightarrow> env" where
  "applyDefault getenv kv e =
     (let key = fst kv; hostValue = getenv key
      in if lookupEnv e key \<noteq> [] then e
         else if hostValue \<noteq> [] then AList.update key hostValue e
         else if snd kv \<noteq> [] then AList.update key (snd kv) e
         else e)"

definition InjectEnvVars :: "(string \<Rightarrow> string) \<Rightarrow> string list \<Rightarrow> string list" where
  "InjectEnvVars getenv ms =
     (let e = readEnv ms;
          cudaVersion = cudaVersionOf e;
          e1 = fold (applyDefault getenv) (cudaEnvVarDefaults cudaVersion) e;
          e2 = mergePaths ''PATH'' e1 (defaultContainerPath @ [''/usr/local/cuda-'' @ cudaVersion @ ''/bin'']);
          e3 = mergePaths ''LD_LIBRARY_PATH'' e2 (defaultContainerLibrary @ [''/usr/local/cuda-'' @ cudaVersion @ ''/targets/x86_64-linux/lib''])
      in map (\<lambda>(k, v). k @ ''='' @ v) e3)"

record spec_mount =
  mt_Type :: string
  mt_Source :: string
  mt_Destination :: string
  mt_Options :: "string list"

definition InjectMounts :: "(string \<Rightarrow> bool) \<Rightarrow> spec_mount list \<Rightarrow> spec_mount list" where
  "InjectMounts isNotExist mounts =
     mounts @ map (\<lambda>path. \<lparr>mt_Type = ''bind'', mt_Source = path, mt_Destination = path,
                            mt_Options = [''rbind'', ''rprivate'', ''nosuid'', ''nodev'', ''rw'']\<rparr>)
       (filter (\<lambda>path. \<not> isNotExist path) [''/usr/local/cuda-'' @ defaultContainerCudaVersion, ''/usr/local/nvidia/lib64''])"

section \<open>Who has which GPU\<close>

text \<open>
  The calls of a worker, in any order. The indices \<open>nvidia-smi\<close> reports are different ones.
\<close>

inductive gpu_step :: "ContainerNvidiaManager \<Rightarrow> ContainerNvidiaManager \<Rightarrow> bool" where
  assign: "AssignGPUDevices available containerId n c = (r, c') \<Longrightarrow> (\<And>ds. available = Inr ds \<Longrightarrow> distinct ds) \<Longrightarrow> gpu_step c c'"
| unassign: "gpu_step c (UnassignGPUDevices containerId c)"

definition gpus_exclusive :: "ContainerNvidiaManager \<Rightarrow> bool" where
  "gpus_exclusive c \<longleftrightarrow> (\<forall>i. distinct (GetContainerGPUDevices i c)) \<and>
     (\<forall>i j. i \<noteq> j \<longrightarrow> set (GetContainerGPUDevices i c) \<inter> set (GetContainerGPUDevices j c) = {})"

lemma devices_taken: "set (GetContainerGPUDevices i c) \<subseteq> set (currentAllocations c)"
proof (cases "map_of (nm_gpuAllocationMap c) i")
  case None
  then show ?thesis by (simp add: GetContainerGPUDevices_def SafeMap_Get_def)
next
  case (Some ds)
  then have "(i, ds) \<in> set (nm_gpuAllocationMap c)" by (rule map_of_SomeD)
  with Some show ?thesis by (force simp: GetContainerGPUDevices_def SafeMap_Get_def currentAllocations_def)
qed

lemma GetContainerGPUDevices_Set:
  "GetContainerGPUDevices i (c\<lparr>nm_gpuAllocationMap := SafeMap_Set k ds (nm_gpuAllocationMap c)\<rparr>) = (if i = k then ds else GetContainerGPUDevices i c)"
  by (simp add: GetContainerGPUDevices_def)

lemma GetContainerGPUDevices_Unassign:
  "GetContainerGPUDevices i (UnassignGPUDevices k c) = (if i = k then [] else GetContainerGPUDevices i c)"
  by (simp add: GetContainerGPUDevices_def UnassignGPUDevices_def)

text \<open>What an assignment does: it fails and changes nothing, or it gives the container free GPUs.\<close>

lemma AssignGPUDevices_cases:
  assumes "AssignGPUDevices available k n c = (r, c')"
  obtains (failed) e where "r = Inl e" "c' = c"
  | (assigned) ds avail where "available = Inr avail" "r = Inr ds" "length ds = unat n" "ds = take (unat n) (filter (\<lambda>g. g \<notin> set (currentAllocations c)) avail)"
      "c' = c\<lparr>nm_gpuAllocationMap := SafeMap_Set k ds (nm_gpuAllocationMap c)\<rparr>"
proof (cases available)
  case (Inl e)
  then show thesis using assms by (intro failed [of e]) (simp_all add: AssignGPUDevices_def chooseDevices_def)
next
  case (Inr avail)
  let ?free = "filter (\<lambda>g. g \<notin> set (currentAllocations c)) avail"
  define allocable where "allocable = (if length (currentAllocations c) < length avail then ?free else [])"
  have run: "AssignGPUDevices available k n c =
     (if length allocable < unat n then (Inl (errNotEnoughGPUs n (uint (nm_gpuCount c) - int (length allocable)) (length avail)), c)
      else (Inr (take (unat n) allocable), c\<lparr>nm_gpuAllocationMap := SafeMap_Set k (take (unat n) allocable) (nm_gpuAllocationMap c)\<rparr>))"
    unfolding AssignGPUDevices_def chooseDevices_def Inr sum.case Let_def allocable_def ..
  show thesis
  proof (cases "length allocable < unat n")
    case True
    then have "r = Inl (errNotEnoughGPUs n (uint (nm_gpuCount c) - int (length allocable)) (length avail))" "c' = c" using assms run by auto
    then show thesis by (rule failed)
  next
    case False
    then have eq: "r = Inr (take (unat n) allocable)" "c' = c\<lparr>nm_gpuAllocationMap := SafeMap_Set k (take (unat n) allocable) (nm_gpuAllocationMap c)\<rparr>"
      using assms run by simp_all
    have "length (take (unat n) allocable) = unat n" using False by simp
    moreover have "take (unat n) allocable = take (unat n) ?free"
      using False by (cases "length (currentAllocations c) < length avail") (simp_all add: allocable_def)
    ultimately show thesis by (rule assigned [OF Inr eq(1) _ _ eq(2)])
  qed
qed

lemma gpu_step_exclusive: "gpu_step c c' \<Longrightarrow> gpus_exclusive c \<Longrightarrow> gpus_exclusive c'"
proof (induction rule: gpu_step.induct)
  case (assign available k n c r c')
  from assign.hyps(1) show ?case
  proof (cases rule: AssignGPUDevices_cases)
    case failed
    then show ?thesis using assign.prems by simp
  next
    case (assigned ds avail)
    have "distinct ds" using assigned(1,4) assign.hyps(2) by (simp add: distinct_take)
    moreover have "set ds \<inter> set (GetContainerGPUDevices i c) = {}" for i
      using devices_taken [of i c] assigned(4) by (auto dest!: in_set_takeD)
    ultimately show ?thesis
      using assign.prems unfolding assigned(5) gpus_exclusive_def GetContainerGPUDevices_Set by (simp add: Int_commute)
  qed
next
  case (unassign c k)
  then show ?case unfolding gpus_exclusive_def GetContainerGPUDevices_Unassign by simp
qed

lemma gpus_exclusive_reachable: "gpu_step\<^sup>*\<^sup>* c0 c \<Longrightarrow> NewContainerNvidiaManager cdi n = Some c0 \<Longrightarrow> gpus_exclusive c"
proof (induction rule: rtranclp_induct)
  case base
  then show ?case by (auto simp: gpus_exclusive_def GetContainerGPUDevices_def NewContainerNvidiaManager_def SafeMap_Get_def split: if_splits)
next
  case (step c c')
  then show ?case by (blast intro: gpu_step_exclusive)
qed

text \<open>As long as the assigned GPUs are still reported, an assignment succeeds exactly when enough GPUs are free.\<close>

lemma AssignGPUDevices_decision:
  assumes "distinct avail" and "set (currentAllocations c) \<subseteq> set avail"
  shows "(\<exists>ds. fst (AssignGPUDevices (Inr avail) k n c) = Inr ds) \<longleftrightarrow> unat n \<le> card (set avail - set (currentAllocations c))"
proof -
  let ?free = "filter (\<lambda>g. g \<notin> set (currentAllocations c)) avail"
  have "distinct ?free" "set ?free = set avail - set (currentAllocations c)" using assms(1) by auto
  then have free: "length ?free = card (set avail - set (currentAllocations c))" by (metis distinct_card)
  have taken: "length (currentAllocations c) = card (set (currentAllocations c))" by (simp add: currentAllocations_def length_remdups_card_conv)
  have avail: "length avail = card (set avail)" using assms(1) by (simp add: distinct_card)
  have "card (set (currentAllocations c)) < card (set avail) \<or> set (currentAllocations c) = set avail"
    using assms(2) by (metis List.finite_set psubsetI psubset_card_mono)
  then show ?thesis
    using free taken avail by (auto simp: AssignGPUDevices_def chooseDevices_def Let_def)
qed

text \<open>A GPU that is assigned and no longer reported counts all the same, so that a free GPU is refused.\<close>

lemma vanished_gpu_blocks_others:
  "fst (AssignGPUDevices (Inr [1]) ''c2'' 1 (snd (AssignGPUDevices (Inr [0, 1]) ''c1'' 1 \<lparr>nm_gpuAllocationMap = [], nm_gpuCount = 2\<rparr>))) = Inl (errNotEnoughGPUs 1 2 1)"
  by (simp add: AssignGPUDevices_def chooseDevices_def currentAllocations_def SafeMap_Set_def Let_def)

section \<open>Properties\<close>

text \<open>
  C13. After any sequence of assignments and releases, whatever the worker is told to be available each time, no GPU is assigned
  to two containers, and none is counted twice for one container.
\<close>

theorem gpus_never_shared:
  assumes "NewContainerNvidiaManager cdi n = Some c0" and "gpu_step\<^sup>*\<^sup>* c0 c" and "i \<noteq> j"
  shows "distinct (GetContainerGPUDevices i c) \<and> set (GetContainerGPUDevices i c) \<inter> set (GetContainerGPUDevices j c) = {}"
  using gpus_exclusive_reachable [OF assms(2,1)] assms(3) by (simp add: gpus_exclusive_def)

theorem gpus_never_shared_witness:
  "\<exists>c0 c. NewContainerNvidiaManager None 2 = Some c0 \<and> gpu_step\<^sup>*\<^sup>* c0 c \<and> GetContainerGPUDevices ''c1'' c = [0] \<and> GetContainerGPUDevices ''c2'' c = [1] \<and>
     set (GetContainerGPUDevices ''c1'' c) \<inter> set (GetContainerGPUDevices ''c2'' c) = {}"
proof -
  let ?c0 = "\<lparr>nm_gpuAllocationMap = [], nm_gpuCount = 2\<rparr>"
  let ?c1 = "snd (AssignGPUDevices (Inr [0, 1]) ''c1'' 1 ?c0)" and ?c2 = "\<lambda>c. snd (AssignGPUDevices (Inr [0, 1]) ''c2'' 1 c)"
  have step: "gpu_step c (snd (AssignGPUDevices (Inr [0, 1]) k 1 c))" for c k
    by (rule gpu_step.assign [of "Inr [0, 1]" k 1 c "fst (AssignGPUDevices (Inr [0, 1]) k 1 c)"]) auto
  have new: "NewContainerNvidiaManager None 2 = Some ?c0" by (simp add: NewContainerNvidiaManager_def)
  have run: "gpu_step\<^sup>*\<^sup>* ?c0 (?c2 ?c1)" by (rule rtranclp.rtrancl_into_rtrancl [OF r_into_rtranclp [of gpu_step, OF step] step])
  have "GetContainerGPUDevices ''c1'' (?c2 ?c1) = [0]" "GetContainerGPUDevices ''c2'' (?c2 ?c1) = [1]"
    by (simp_all add: AssignGPUDevices_def chooseDevices_def currentAllocations_def SafeMap_Set_def SafeMap_Get_def
        GetContainerGPUDevices_def Let_def)
  with new run gpus_never_shared [OF new run, of "''c1''" "''c2''"] show ?thesis by blast
qed

end
