(* ===== verification/Model_Registry.thy ===== *)
theory Model_Registry
  imports Task_Message Complex_Main "HOL-Library.AList"
begin

text \<open>
  The registry of the inference nodes (\<open>pkg/gateway/model_registry.go\<close>, types in \<open>pkg/types/inference.go\<close>): which node serves which
  models, how a node is chosen for a model, and how silent nodes leave. Every operation runs under the registry's mutex and
  is one function on the registry. \<open>now\<close> is the time of \<open>time.Now()\<close> in nanoseconds since the epoch, read once per
  operation. A Go map is an association list with different keys, in the order in which the loop at hand
  visits it: nothing below depends on the order. The pointers kept in the maps are not null.

  Shown are that the node chosen for a model is a healthy one with the highest score, that the cleanup of silent nodes does not
  change any choice, and that the requests of a model are counted across registrations and heartbeats.
\<close>

section \<open>Types\<close>

type_synonym LoadState = string

definition LoadStateIdle :: LoadState where
  "LoadStateIdle = ''idle''"

definition LoadStateLoading :: LoadState where
  "LoadStateLoading = ''loading''"

definition LoadStateReady :: LoadState where
  "LoadStateReady = ''ready''"

definition LoadStateError :: LoadState where
  "LoadStateError = ''error''"

lemmas load_states = LoadStateIdle_def LoadStateLoading_def LoadStateReady_def LoadStateError_def

record ModelInfo =
  mi_Name :: string
  mi_LoadState :: LoadState
  mi_SizeGB :: real
  mi_LastUsed :: int
  mi_LoadedAt :: int
  mi_RequestCount :: int
  mi_Error :: string

type_synonym models = "(string \<times> ModelInfo) list"

record NodeInferenceInfo =
  ni_NodeID :: string
  ni_TailscaleIP :: string
  ni_Port :: int
  ni_GPUType :: string
  ni_TotalVRAM :: int
  ni_AvailableVRAM :: int
  ni_Models :: models
  ni_LastHeartbeat :: int
  ni_Healthy :: bool

type_synonym nodes = "(string \<times> NodeInferenceInfo) list"

record ModelRegistry =
  mr_nodes :: nodes
  mr_HeartbeatTimeout :: int

text \<open>\<open>time.Time.Sub\<close>, which saturates, and the zero time.\<close>

definition Since :: "int \<Rightarrow> int \<Rightarrow> int" where
  "Since now t = max (- (2 ^ 63)) (min (2 ^ 63 - 1) (now - t))"

definition IsZero :: "int \<Rightarrow> bool" where
  "IsZero t \<longleftrightarrow> t = zero_time"

definition seconds :: "int \<Rightarrow> int" where
  "seconds n = n * 1000000000"

section \<open>Operations\<close>

definition NewModelRegistry :: ModelRegistry where
  "NewModelRegistry = \<lparr>mr_nodes = [], mr_HeartbeatTimeout = seconds 30\<rparr>"

definition preserveStats :: "ModelInfo \<Rightarrow> ModelInfo \<Rightarrow> ModelInfo" where
  "preserveStats existingModel newModel =
     (let counted = newModel\<lparr>mi_RequestCount := mi_RequestCount existingModel\<rparr>
      in if IsZero (mi_LoadedAt newModel) \<and> mi_LoadState existingModel = LoadStateReady
         then counted\<lparr>mi_LoadedAt := mi_LoadedAt existingModel\<rparr> else counted)"

definition registeredModels :: "NodeInferenceInfo \<Rightarrow> ModelRegistry \<Rightarrow> models" where
  "registeredModels info r =
     (case map_of (mr_nodes r) (ni_NodeID info) of
        None \<Rightarrow> ni_Models info
      | Some existing \<Rightarrow>
          fold (\<lambda>(name, existingModel) ms. AList.map_entry name (preserveStats existingModel) ms) (ni_Models existing) (ni_Models info))"

definition RegisterNode :: "int \<Rightarrow> NodeInferenceInfo \<Rightarrow> ModelRegistry \<Rightarrow> ModelRegistry" where
  "RegisterNode now info r =
     r\<lparr>mr_nodes := AList.update (ni_NodeID info)
         (info\<lparr>ni_LastHeartbeat := now, ni_Healthy := True, ni_Models := registeredModels info r\<rparr>) (mr_nodes r)\<rparr>"

definition putModel :: "string \<times> ModelInfo \<Rightarrow> models \<Rightarrow> models" where
  "putModel nm ms =
     AList.update (fst nm)
       (case map_of ms (fst nm) of None \<Rightarrow> snd nm | Some existing \<Rightarrow> (snd nm)\<lparr>mi_RequestCount := mi_RequestCount existing\<rparr>) ms"

definition UpdateNodeModels :: "int \<Rightarrow> string \<Rightarrow> models \<Rightarrow> ModelRegistry \<Rightarrow> ModelRegistry" where
  "UpdateNodeModels now nodeID models r =
     r\<lparr>mr_nodes := AList.map_entry nodeID
         (\<lambda>node. node\<lparr>ni_Models := fold putModel models (ni_Models node), ni_LastHeartbeat := now, ni_Healthy := True\<rparr>) (mr_nodes r)\<rparr>"

definition UpdateHeartbeat :: "int \<Rightarrow> string \<Rightarrow> ModelRegistry \<Rightarrow> ModelRegistry" where
  "UpdateHeartbeat now nodeID r =
     r\<lparr>mr_nodes := AList.map_entry nodeID (\<lambda>node. node\<lparr>ni_LastHeartbeat := now, ni_Healthy := True\<rparr>) (mr_nodes r)\<rparr>"

definition RemoveNode :: "string \<Rightarrow> ModelRegistry \<Rightarrow> ModelRegistry" where
  "RemoveNode nodeID r = r\<lparr>mr_nodes := AList.delete nodeID (mr_nodes r)\<rparr>"

definition isNodeHealthy :: "int \<Rightarrow> ModelRegistry \<Rightarrow> NodeInferenceInfo \<Rightarrow> bool" where
  "isNodeHealthy now r node \<longleftrightarrow> ni_Healthy node \<and> Since now (ni_LastHeartbeat node) < mr_HeartbeatTimeout r"

text \<open>
  The score of a node for a model, if it is considered at all. The memory is an \<open>int64\<close> in MB, so that no sum leaves
  the 64 bits of an \<open>int\<close>.
\<close>

definition modelScore :: "int \<Rightarrow> ModelRegistry \<Rightarrow> string \<Rightarrow> string \<Rightarrow> NodeInferenceInfo \<Rightarrow> int option" where
  "modelScore now r model preferGPU node =
     (if \<not> isNodeHealthy now r node then None
      else case map_of (ni_Models node) model of
             None \<Rightarrow> None
           | Some modelInfo \<Rightarrow>
               if mi_LoadState modelInfo = LoadStateError then None
               else Some ((if mi_LoadState modelInfo = LoadStateReady then 100
                           else if mi_LoadState modelInfo = LoadStateLoading then 10
                           else if mi_LoadState modelInfo = LoadStateIdle then 1 else 0)
                        + (if preferGPU \<noteq> [] \<and> ni_GPUType node = preferGPU then 50 else 0)
                        + (if Since now (mi_LastUsed modelInfo) < seconds (5 * 60) then 20 else 0)
                        + (if 0 < ni_AvailableVRAM node then ni_AvailableVRAM node div 1024 else 0)))"

fun considerNode :: "(NodeInferenceInfo \<Rightarrow> int option) \<Rightarrow> string \<times> NodeInferenceInfo \<Rightarrow> NodeInferenceInfo option \<times> int \<Rightarrow> NodeInferenceInfo option \<times> int" where
  "considerNode scoreOf (nodeID, node) (bestNode, bestScore) =
     (case scoreOf node of
        None \<Rightarrow> (bestNode, bestScore)
      | Some score \<Rightarrow> if bestScore < score then (Some node, score) else (bestNode, bestScore))"

definition FindNodeForModel :: "int \<Rightarrow> ModelRegistry \<Rightarrow> string \<Rightarrow> string \<Rightarrow> NodeInferenceInfo option" where
  "FindNodeForModel now r model preferGPU = fst (fold (considerNode (modelScore now r model preferGPU)) (mr_nodes r) (None, 0))"

fun considerCapacity :: "int \<Rightarrow> ModelRegistry \<Rightarrow> int \<Rightarrow> string \<Rightarrow> string \<times> NodeInferenceInfo \<Rightarrow> NodeInferenceInfo option \<times> int \<Rightarrow> NodeInferenceInfo option \<times> int" where
  "considerCapacity now r minVRAMMB preferGPU (nodeID, node) (bestNode, bestVRAM) =
     (if \<not> isNodeHealthy now r node then (bestNode, bestVRAM)
      else if 0 < minVRAMMB \<and> ni_AvailableVRAM node < minVRAMMB then (bestNode, bestVRAM)
      else if preferGPU \<noteq> [] \<and> ni_GPUType node = preferGPU then
        (if bestVRAM < ni_AvailableVRAM node then (Some node, ni_AvailableVRAM node) else (bestNode, bestVRAM))
      else if bestNode = None \<or> bestVRAM < ni_AvailableVRAM node then (Some node, ni_AvailableVRAM node)
      else (bestNode, bestVRAM))"

definition FindAnyNodeWithCapacity :: "int \<Rightarrow> ModelRegistry \<Rightarrow> int \<Rightarrow> string \<Rightarrow> NodeInferenceInfo option" where
  "FindAnyNodeWithCapacity now r minVRAMMB preferGPU = fst (fold (considerCapacity now r minVRAMMB preferGPU) (mr_nodes r) (None, 0))"

definition listNode :: "NodeInferenceInfo \<Rightarrow> string \<Rightarrow> (string \<times> NodeInferenceInfo list) list \<Rightarrow> (string \<times> NodeInferenceInfo list) list" where
  "listNode node modelName result = AList.update modelName ((case map_of result modelName of None \<Rightarrow> [] | Some ns \<Rightarrow> ns) @ [node]) result"

definition ListModels :: "int \<Rightarrow> ModelRegistry \<Rightarrow> (string \<times> NodeInferenceInfo list) list" where
  "ListModels now r =
     fold (\<lambda>(_, node) result. if \<not> isNodeHealthy now r node then result else fold (listNode node) (map fst (ni_Models node)) result) (mr_nodes r) []"

definition ListNodes :: "ModelRegistry \<Rightarrow> NodeInferenceInfo list" where
  "ListNodes r = map snd (mr_nodes r)"

definition GetNode :: "string \<Rightarrow> ModelRegistry \<Rightarrow> NodeInferenceInfo option" where
  "GetNode nodeID r = map_of (mr_nodes r) nodeID"

text \<open>A change of a model of a node, if the registry has both.\<close>

definition changeModel :: "(ModelInfo \<Rightarrow> ModelInfo) \<Rightarrow> string \<Rightarrow> string \<Rightarrow> ModelRegistry \<Rightarrow> ModelRegistry" where
  "changeModel f nodeID model r =
     r\<lparr>mr_nodes := AList.map_entry nodeID (\<lambda>node. node\<lparr>ni_Models := AList.map_entry model f (ni_Models node)\<rparr>) (mr_nodes r)\<rparr>"

definition IncrementRequestCount :: "int \<Rightarrow> string \<Rightarrow> string \<Rightarrow> ModelRegistry \<Rightarrow> ModelRegistry" where
  "IncrementRequestCount now = changeModel (\<lambda>m. m\<lparr>mi_RequestCount := i64 (mi_RequestCount m + 1), mi_LastUsed := now\<rparr>)"

definition MarkModelLoaded :: "int \<Rightarrow> string \<Rightarrow> string \<Rightarrow> ModelRegistry \<Rightarrow> ModelRegistry" where
  "MarkModelLoaded now = changeModel (\<lambda>m. m\<lparr>mi_LoadState := LoadStateReady, mi_LoadedAt := now, mi_Error := []\<rparr>)"

definition MarkModelError :: "string \<Rightarrow> string \<Rightarrow> string \<Rightarrow> ModelRegistry \<Rightarrow> ModelRegistry" where
  "MarkModelError nodeID model errorMsg = changeModel (\<lambda>m. m\<lparr>mi_LoadState := LoadStateError, mi_Error := errorMsg\<rparr>) nodeID model"

fun cleanNodes :: "int \<Rightarrow> int \<Rightarrow> nodes \<Rightarrow> nat \<times> nodes" where
  "cleanNodes now timeout [] = (0, [])"
| "cleanNodes now timeout ((nodeID, node) # ns) =
     (let (removed, kept) = cleanNodes now timeout ns
      in if i64 (timeout * 3) < Since now (ni_LastHeartbeat node) then (Suc removed, kept)
         else if timeout < Since now (ni_LastHeartbeat node) then (removed, (nodeID, node\<lparr>ni_Healthy := False\<rparr>) # kept)
         else (removed, (nodeID, node) # kept))"

definition CleanupStaleNodes :: "int \<Rightarrow> ModelRegistry \<Rightarrow> nat \<times> ModelRegistry" where
  "CleanupStaleNodes now r = (let (removed, kept) = cleanNodes now (mr_HeartbeatTimeout r) (mr_nodes r) in (removed, r\<lparr>mr_nodes := kept\<rparr>))"

definition Stats :: "int \<Rightarrow> ModelRegistry \<Rightarrow> (string \<times> nat) list" where
  "Stats now r =
     (let nodes = map snd (mr_nodes r);
          models = concat (map (\<lambda>node. map snd (ni_Models node)) nodes)
      in [(''total_nodes'', length nodes),
          (''healthy_nodes'', length (filter (isNodeHealthy now r) nodes)),
          (''unhealthy_nodes'', length (filter (\<lambda>node. \<not> isNodeHealthy now r node) nodes)),
          (''total_models'', length models),
          (''ready_models'', length (filter (\<lambda>m. mi_LoadState m = LoadStateReady) models))])"

section \<open>The node chosen for a model\<close>

text \<open>The nodes that may serve a model: healthy ones that have it and did not fail to load it.\<close>

definition candidate :: "int \<Rightarrow> ModelRegistry \<Rightarrow> string \<Rightarrow> NodeInferenceInfo \<Rightarrow> bool" where
  "candidate now r model node \<longleftrightarrow>
     isNodeHealthy now r node \<and> (\<exists>m. map_of (ni_Models node) model = Some m \<and> mi_LoadState m \<noteq> LoadStateError)"

definition known_states :: "ModelRegistry \<Rightarrow> bool" where
  "known_states r \<longleftrightarrow> (\<forall>node \<in> set (ListNodes r). \<forall>(_, m) \<in> set (ni_Models node).
     mi_LoadState m \<in> {LoadStateIdle, LoadStateLoading, LoadStateReady, LoadStateError})"

lemma fold_considerNode:
  assumes "fold (considerNode f) ns (b, s) = (b', s')"
  shows "s \<le> s'" "(i, n) \<in> set ns \<Longrightarrow> f n = Some x \<Longrightarrow> x \<le> s'"
    "(b', s') = (b, s) \<or> (\<exists>n \<in> snd ` set ns. b' = Some n \<and> f n = Some s' \<and> s < s')"
proof -
  have "s \<le> s' \<and> (\<forall>(i, n) \<in> set ns. \<forall>x. f n = Some x \<longrightarrow> x \<le> s') \<and>
      ((b', s') = (b, s) \<or> (\<exists>n \<in> snd ` set ns. b' = Some n \<and> f n = Some s' \<and> s < s'))"
    using assms
  proof (induction ns arbitrary: b s)
    case Nil
    then show ?case by simp
  next
    case (Cons nd ns)
    obtain i n where nd: "nd = (i, n)" by fastforce
    show ?case
    proof (cases "\<exists>x. f n = Some x \<and> s < x")
      case True
      then obtain x where "f n = Some x" "s < x" by blast
      with Cons nd have IH: "x \<le> s'" "\<forall>(i, n) \<in> set ns. \<forall>x. f n = Some x \<longrightarrow> x \<le> s'"
        "(b', s') = (Some n, x) \<or> (\<exists>n \<in> snd ` set ns. b' = Some n \<and> f n = Some s' \<and> x < s')"
        using Cons.IH [of "Some n" x] by simp_all
      then show ?thesis using \<open>f n = Some x\<close> \<open>s < x\<close> nd by auto
    next
      case False
      then have "considerNode f nd (b, s) = (b, s)" using nd by (auto split: option.split)
      with Cons.IH [of b s] Cons.prems have IH: "s \<le> s'" "\<forall>(i, n) \<in> set ns. \<forall>x. f n = Some x \<longrightarrow> x \<le> s'"
        "(b', s') = (b, s) \<or> (\<exists>n \<in> snd ` set ns. b' = Some n \<and> f n = Some s' \<and> s < s')"
        by simp_all
      then show ?thesis using False nd by fastforce
    qed
  qed
  then show "s \<le> s'" "(i, n) \<in> set ns \<Longrightarrow> f n = Some x \<Longrightarrow> x \<le> s'"
    "(b', s') = (b, s) \<or> (\<exists>n \<in> snd ` set ns. b' = Some n \<and> f n = Some s' \<and> s < s')"
    by auto
qed

lemma candidate_iff_scored: "candidate now r model node \<longleftrightarrow> modelScore now r model gpu node \<noteq> None"
  by (auto simp: candidate_def modelScore_def split: option.split)

lemma score_pos:
  assumes "known_states r" "node \<in> set (ListNodes r)" "modelScore now r model gpu node = Some s"
  shows "0 < s"
proof -
  obtain m where m: "map_of (ni_Models node) model = Some m" "mi_LoadState m \<noteq> LoadStateError"
    using assms(3) by (auto simp: modelScore_def split: if_splits option.splits)
  then have "mi_LoadState m \<in> {LoadStateIdle, LoadStateLoading, LoadStateReady}"
    using assms(1,2) map_of_SomeD [OF m(1)] by (fastforce simp: known_states_def)
  moreover have "0 \<le> (if 0 < ni_AvailableVRAM node then ni_AvailableVRAM node div 1024 else 0)" by (simp add: pos_imp_zdiv_nonneg_iff)
  ultimately show ?thesis using m assms(3) by (auto simp: modelScore_def load_states split: if_splits)
qed

lemma FindNodeForModel_Some:
  assumes "FindNodeForModel now r model gpu = Some node"
  obtains s where "node \<in> set (ListNodes r)" "modelScore now r model gpu node = Some s" "0 < s"
    "\<And>n t. n \<in> set (ListNodes r) \<Longrightarrow> modelScore now r model gpu n = Some t \<Longrightarrow> t \<le> s"
proof -
  obtain s where run: "fold (considerNode (modelScore now r model gpu)) (mr_nodes r) (None, 0) = (Some node, s)"
    using assms by (metis FindNodeForModel_def prod.collapse)
  show thesis
  proof (rule that)
    show "node \<in> set (ListNodes r)" "modelScore now r model gpu node = Some s" "0 < s"
      using fold_considerNode(3) [OF run] by (auto simp: ListNodes_def)
    show "t \<le> s" if "n \<in> set (ListNodes r)" "modelScore now r model gpu n = Some t" for n t
      using that fold_considerNode(2) [OF run] by (auto simp: ListNodes_def)
  qed
qed

lemma FindNodeForModel_None:
  assumes "FindNodeForModel now r model gpu = None" "n \<in> set (ListNodes r)" "modelScore now r model gpu n = Some t"
  shows "t \<le> 0"
proof -
  obtain s where run: "fold (considerNode (modelScore now r model gpu)) (mr_nodes r) (None, 0) = (None, s)"
    using assms(1) by (metis FindNodeForModel_def prod.collapse)
  then have "s = 0" using fold_considerNode(3) [OF run] by auto
  then show ?thesis using fold_considerNode(2) [OF run] assms(2,3) by (fastforce simp: ListNodes_def)
qed

text \<open>A model that is ready weighs less than a hundred GB of free memory.\<close>

lemma memory_outweighs_ready:
  fixes a b :: NodeInferenceInfo
  defines "a \<equiv> \<lparr>ni_NodeID = ''a'', ni_TailscaleIP = ''ip'', ni_Port = 1, ni_GPUType = [], ni_TotalVRAM = 0, ni_AvailableVRAM = 0,
     ni_Models = [(''m'', \<lparr>mi_Name = ''m'', mi_LoadState = LoadStateReady, mi_SizeGB = 0, mi_LastUsed = zero_time, mi_LoadedAt = 0, mi_RequestCount = 0, mi_Error = []\<rparr>)],
     ni_LastHeartbeat = 0, ni_Healthy = True\<rparr>"
    and "b \<equiv> \<lparr>ni_NodeID = ''b'', ni_TailscaleIP = ''ip'', ni_Port = 1, ni_GPUType = [], ni_TotalVRAM = 102400, ni_AvailableVRAM = 102400,
     ni_Models = [(''m'', \<lparr>mi_Name = ''m'', mi_LoadState = LoadStateIdle, mi_SizeGB = 0, mi_LastUsed = zero_time, mi_LoadedAt = 0, mi_RequestCount = 0, mi_Error = []\<rparr>)],
     ni_LastHeartbeat = 0, ni_Healthy = True\<rparr>"
  shows "FindNodeForModel 1 \<lparr>mr_nodes = [(''a'', a), (''b'', b)], mr_HeartbeatTimeout = seconds 30\<rparr> ''m'' [] = Some b"
  by (simp add: a_def b_def FindNodeForModel_def modelScore_def isNodeHealthy_def Since_def seconds_def load_states zero_time_def)

section \<open>A node with capacity\<close>

definition with_capacity :: "int \<Rightarrow> ModelRegistry \<Rightarrow> int \<Rightarrow> NodeInferenceInfo \<Rightarrow> bool" where
  "with_capacity now r minVRAMMB node \<longleftrightarrow> isNodeHealthy now r node \<and> (0 < minVRAMMB \<longrightarrow> minVRAMMB \<le> ni_AvailableVRAM node)"

definition most_memory :: "int \<Rightarrow> ModelRegistry \<Rightarrow> int \<Rightarrow> NodeInferenceInfo set \<Rightarrow> NodeInferenceInfo option \<Rightarrow> int \<Rightarrow> bool" where
  "most_memory now r mn S b v \<longleftrightarrow>
     (b = None \<longrightarrow> (\<forall>n \<in> S. \<not> with_capacity now r mn n)) \<and>
     (\<forall>n. b = Some n \<longrightarrow> n \<in> S \<and> with_capacity now r mn n \<and> v = ni_AvailableVRAM n) \<and>
     (\<forall>n \<in> S. with_capacity now r mn n \<longrightarrow> ni_AvailableVRAM n \<le> v)"

lemma considerCapacity_most:
  assumes "most_memory now r mn S b v" and "considerCapacity now r mn [] (i, n) (b, v) = (b', v')"
  shows "most_memory now r mn (insert n S) b' v'"
proof (cases "with_capacity now r mn n \<and> (b = None \<or> v < ni_AvailableVRAM n)")
  case True
  then have "b' = Some n" "v' = ni_AvailableVRAM n" using assms(2) by (auto simp: with_capacity_def)
  moreover have "ni_AvailableVRAM n' \<le> ni_AvailableVRAM n" if "n' \<in> S" "with_capacity now r mn n'" for n'
    using True assms(1) that unfolding most_memory_def by force
  ultimately show ?thesis using True by (simp add: most_memory_def)
next
  case False
  then have "b' = b" "v' = v" using assms(2) by (auto simp: with_capacity_def split: if_splits)
  then show ?thesis using False assms(1) unfolding most_memory_def by force
qed

lemma fold_considerCapacity:
  "most_memory now r mn S b v \<Longrightarrow> fold (considerCapacity now r mn []) ns (b, v) = (b', v') \<Longrightarrow> most_memory now r mn (S \<union> snd ` set ns) b' v'"
proof (induction ns arbitrary: S b v)
  case Nil
  then show ?case by simp
next
  case (Cons nd ns)
  obtain i n where nd: "nd = (i, n)" by fastforce
  obtain b1 v1 where step: "considerCapacity now r mn [] (i, n) (b, v) = (b1, v1)" by fastforce
  have "fold (considerCapacity now r mn []) ns (b1, v1) = (b', v')" using Cons.prems(2) by (simp only: nd fold_simps step)
  from Cons.IH [OF considerCapacity_most [OF Cons.prems(1) step] this] show ?case by (simp add: nd)
qed

lemma FindAnyNodeWithCapacity_most:
  "case FindAnyNodeWithCapacity now r mn [] of
     None \<Rightarrow> \<forall>n \<in> set (ListNodes r). \<not> with_capacity now r mn n
   | Some n \<Rightarrow> n \<in> set (ListNodes r) \<and> with_capacity now r mn n \<and>
       (\<forall>n' \<in> set (ListNodes r). with_capacity now r mn n' \<longrightarrow> ni_AvailableVRAM n' \<le> ni_AvailableVRAM n)"
proof -
  obtain b v where run: "fold (considerCapacity now r mn []) (mr_nodes r) (None, 0) = (b, v)" by fastforce
  have "most_memory now r mn {} None 0" by (simp add: most_memory_def)
  from fold_considerCapacity [OF this run] run show ?thesis
    by (cases b) (auto simp: FindAnyNodeWithCapacity_def ListNodes_def most_memory_def)
qed

text \<open>A node of the preferred type is passed over for one with more memory, and is not found at all if it reports no memory.\<close>

lemma preferred_type_not_preferred:
  fixes a b :: NodeInferenceInfo
  defines "a \<equiv> \<lparr>ni_NodeID = ''a'', ni_TailscaleIP = ''ip'', ni_Port = 1, ni_GPUType = ''CUDA'', ni_TotalVRAM = 8, ni_AvailableVRAM = 8,
     ni_Models = [], ni_LastHeartbeat = 0, ni_Healthy = True\<rparr>"
    and "b \<equiv> \<lparr>ni_NodeID = ''b'', ni_TailscaleIP = ''ip'', ni_Port = 1, ni_GPUType = ''MPS'', ni_TotalVRAM = 9, ni_AvailableVRAM = 9,
     ni_Models = [], ni_LastHeartbeat = 0, ni_Healthy = True\<rparr>"
  shows "FindAnyNodeWithCapacity 1 \<lparr>mr_nodes = [(''a'', a), (''b'', b)], mr_HeartbeatTimeout = seconds 30\<rparr> 0 ''CUDA'' = Some b"
    and "FindAnyNodeWithCapacity 1 \<lparr>mr_nodes = [(''a'', a\<lparr>ni_AvailableVRAM := 0\<rparr>)], mr_HeartbeatTimeout = seconds 30\<rparr> 0 ''CUDA'' = None"
  by (simp_all add: a_def b_def FindAnyNodeWithCapacity_def isNodeHealthy_def Since_def seconds_def)

section \<open>Silent nodes\<close>

lemma isNodeHealthy_nodes [simp]: "isNodeHealthy now (r\<lparr>mr_nodes := ns\<rparr>) = isNodeHealthy now r"
  by (simp add: isNodeHealthy_def fun_eq_iff)

lemma modelScore_nodes [simp]: "modelScore now (r\<lparr>mr_nodes := ns\<rparr>) = modelScore now r"
  by (simp add: modelScore_def fun_eq_iff cong: option.case_cong)

lemma fold_filter_map:
  assumes "\<And>x a. x \<in> set xs \<Longrightarrow> \<not> P x \<Longrightarrow> f x a = a" and "\<And>x. x \<in> set xs \<Longrightarrow> P x \<Longrightarrow> f (h x) = f x"
  shows "fold f (map h (filter P xs)) a = fold f xs a"
  using assms by (induction xs arbitrary: a) simp_all

definition expired :: "int \<Rightarrow> int \<Rightarrow> string \<times> NodeInferenceInfo \<Rightarrow> bool" where
  "expired now timeout nd \<longleftrightarrow> i64 (timeout * 3) < Since now (ni_LastHeartbeat (snd nd))"

definition noteSilence :: "int \<Rightarrow> int \<Rightarrow> string \<times> NodeInferenceInfo \<Rightarrow> string \<times> NodeInferenceInfo" where
  "noteSilence now timeout nd =
     (if timeout < Since now (ni_LastHeartbeat (snd nd)) then (fst nd, (snd nd)\<lparr>ni_Healthy := False\<rparr>) else nd)"

lemma cleanNodes_eq:
  "cleanNodes now timeout ns =
     (length (filter (expired now timeout) ns), map (noteSilence now timeout) (filter (\<lambda>nd. \<not> expired now timeout nd) ns))"
  by (induction ns) (auto simp: expired_def noteSilence_def Let_def)

lemma CleanupStaleNodes_eq:
  "CleanupStaleNodes now r =
     (length (filter (expired now (mr_HeartbeatTimeout r)) (mr_nodes r)),
      r\<lparr>mr_nodes := map (noteSilence now (mr_HeartbeatTimeout r)) (filter (\<lambda>nd. \<not> expired now (mr_HeartbeatTimeout r) nd) (mr_nodes r))\<rparr>)"
  by (simp add: CleanupStaleNodes_def cleanNodes_eq)

lemma Since_mono: "now \<le> later \<Longrightarrow> Since now t \<le> Since later t"
  by (auto simp: Since_def)

lemma silent_not_healthy:
  assumes "now \<le> later" "mr_HeartbeatTimeout r < Since now (ni_LastHeartbeat n)"
  shows "\<not> isNodeHealthy later r n"
  using assms Since_mono [OF assms(1), of "ni_LastHeartbeat n"] by (simp add: isNodeHealthy_def)

lemma thirty_seconds:
  "mr_HeartbeatTimeout r = seconds 30 \<Longrightarrow> expired now (mr_HeartbeatTimeout r) nd \<Longrightarrow> mr_HeartbeatTimeout r < Since now (ni_LastHeartbeat (snd nd))"
  by (simp add: expired_def seconds_def i64_def)

text \<open>A loop over the nodes that skips the unhealthy ones sees the same before and after a cleanup.\<close>

lemma fold_cleaned:
  assumes "mr_HeartbeatTimeout r = seconds 30" "now \<le> later" and skip: "\<And>i n a. \<not> isNodeHealthy later r n \<Longrightarrow> f (i, n) a = a"
  shows "fold f (mr_nodes (snd (CleanupStaleNodes now r))) a = fold f (mr_nodes r) a"
proof -
  let ?t = "mr_HeartbeatTimeout r"
  have silent: "f (i, n) = id" if "?t < Since now (ni_LastHeartbeat n)" for i n
    using skip silent_not_healthy [OF assms(2) that] by (simp add: fun_eq_iff)
  have marked: "f (i, n\<lparr>ni_Healthy := False\<rparr>) = id" for i n using skip by (simp add: fun_eq_iff isNodeHealthy_def)
  have "f (noteSilence now ?t nd) = f nd" for nd using silent marked by (cases nd) (simp add: noteSilence_def)
  moreover have "f nd a = a" if "expired now ?t nd" for nd a
    using silent thirty_seconds [OF assms(1) that] by (cases nd) simp
  ultimately show ?thesis unfolding CleanupStaleNodes_eq by (simp, intro fold_filter_map) simp_all
qed

section \<open>The requests of a model\<close>

datatype registry_op =
    OpRegister NodeInferenceInfo
  | OpUpdate string models
  | OpHeartbeat string
  | OpRemove string
  | OpCount string string
  | OpLoaded string string
  | OpFailed string string string
  | OpCleanup

fun apply_op :: "int \<Rightarrow> registry_op \<Rightarrow> ModelRegistry \<Rightarrow> ModelRegistry" where
  "apply_op now (OpRegister info) r = RegisterNode now info r"
| "apply_op now (OpUpdate nodeID models) r = UpdateNodeModels now nodeID models r"
| "apply_op now (OpHeartbeat nodeID) r = UpdateHeartbeat now nodeID r"
| "apply_op now (OpRemove nodeID) r = RemoveNode nodeID r"
| "apply_op now (OpCount nodeID model) r = IncrementRequestCount now nodeID model r"
| "apply_op now (OpLoaded nodeID model) r = MarkModelLoaded now nodeID model r"
| "apply_op now (OpFailed nodeID model errorMsg) r = MarkModelError nodeID model errorMsg r"
| "apply_op now OpCleanup r = snd (CleanupStaleNodes now r)"

definition lookupModel :: "string \<Rightarrow> string \<Rightarrow> ModelRegistry \<Rightarrow> ModelInfo option" where
  "lookupModel nodeID model r = (case map_of (mr_nodes r) nodeID of None \<Rightarrow> None | Some node \<Rightarrow> map_of (ni_Models node) model)"

text \<open>The registry as maps: every node is filed under its id, and no key occurs twice.\<close>

definition wf_node :: "NodeInferenceInfo \<Rightarrow> bool" where
  "wf_node node \<longleftrightarrow> distinct (map fst (ni_Models node))"

definition wf_registry :: "ModelRegistry \<Rightarrow> bool" where
  "wf_registry r \<longleftrightarrow> distinct (map fst (mr_nodes r)) \<and> (\<forall>(i, node) \<in> set (mr_nodes r). ni_NodeID node = i \<and> wf_node node)"

fun wf_op :: "registry_op \<Rightarrow> bool" where
  "wf_op (OpRegister info) \<longleftrightarrow> wf_node info"
| "wf_op _ \<longleftrightarrow> True"

lemma set_map_entry: "(i, y) \<in> set (AList.map_entry k f xs) \<Longrightarrow> \<exists>x. (i, x) \<in> set xs \<and> (y = x \<or> i = k \<and> y = f x)"
  by (induction xs) (auto split: if_splits)

lemma map_entry_wf:
  assumes "wf_registry r" "\<And>n. wf_node n \<Longrightarrow> ni_NodeID (f n) = ni_NodeID n \<and> wf_node (f n)"
  shows "wf_registry (r\<lparr>mr_nodes := AList.map_entry k f (mr_nodes r)\<rparr>)"
  using assms by (fastforce simp: wf_registry_def distinct_map_entry dest!: set_map_entry)

lemma fold_map_entry_fst: "map fst (fold (\<lambda>(name, e) ms. AList.map_entry name (g e) ms) es ms) = map fst ms"
proof (induction es arbitrary: ms)
  case (Cons e es)
  have "map fst (AList.map_entry k h xs) = map fst xs" for k h and xs :: "('a \<times> 'b) list" by (induction xs) auto
  then show ?case using Cons.IH by (simp add: case_prod_unfold)
qed simp

lemma fold_map_entry_lookup:
  assumes "distinct (map fst es)"
  shows "map_of (fold (\<lambda>(name, e) ms. AList.map_entry name (g e) ms) es ms) m =
     (case map_of ms m of None \<Rightarrow> None | Some x \<Rightarrow> Some (case map_of es m of None \<Rightarrow> x | Some e \<Rightarrow> g e x))"
  using assms
proof (induction es arbitrary: ms)
  case Nil
  then show ?case by (simp split: option.split)
next
  case (Cons e es)
  obtain n v where e: "e = (n, v)" by fastforce
  with Cons.prems have "map_of es n = None" by (simp add: map_of_eq_None_iff)
  with Cons.IH [of "AList.map_entry n (g v) ms"] Cons.prems show ?case
    by (auto simp: e map_of_map_entry split: option.splits)
qed

lemma fold_putModel_distinct: "distinct (map fst ms) \<Longrightarrow> distinct (map fst (fold putModel nms ms))"
  by (induction nms arbitrary: ms) (simp_all add: putModel_def distinct_update)

lemma fold_putModel_count:
  "map_of ms m = Some x \<Longrightarrow> \<exists>y. map_of (fold putModel nms ms) m = Some y \<and> mi_RequestCount y = mi_RequestCount x"
proof (induction nms arbitrary: ms x)
  case (Cons nm nms)
  have "\<exists>y. map_of (putModel nm ms) m = Some y \<and> mi_RequestCount y = mi_RequestCount x"
    using Cons.prems by (auto simp: putModel_def update_conv')
  then show ?case using Cons.IH by fastforce
qed simp

lemma changeModel_wf: "wf_registry r \<Longrightarrow> wf_registry (changeModel f i m r)"
  unfolding changeModel_def by (rule map_entry_wf) (simp_all add: wf_node_def distinct_map_entry)

lemma CleanupStaleNodes_wf:
  assumes "wf_registry r"
  shows "wf_registry (snd (CleanupStaleNodes now r))"
proof -
  have "fst (noteSilence now t nd) = fst nd" "ni_NodeID (snd (noteSilence now t nd)) = ni_NodeID (snd nd)"
    "wf_node (snd (noteSilence now t nd)) = wf_node (snd nd)" for t nd
    by (simp_all add: noteSilence_def wf_node_def)
  moreover from this(1) have "fst \<circ> noteSilence now t = fst" for t by (simp add: fun_eq_iff)
  ultimately show ?thesis using assms unfolding wf_registry_def CleanupStaleNodes_eq
    by (auto simp: case_prod_unfold distinct_map_filter)
qed

lemma RegisterNode_wf:
  assumes "wf_registry r" "wf_node info"
  shows "wf_registry (RegisterNode now info r)"
proof -
  have "map fst (registeredModels info r) = map fst (ni_Models info)"
    by (simp add: registeredModels_def fold_map_entry_fst split: option.split)
  moreover have "(i, n) \<in> set (AList.update k v xs) \<Longrightarrow> (i, n) = (k, v) \<or> (i, n) \<in> set xs" for i n k v and xs :: nodes
    by (induction xs) (auto split: if_splits)
  ultimately show ?thesis using assms unfolding RegisterNode_def wf_registry_def
    by (fastforce simp: distinct_update wf_node_def)
qed

lemma apply_op_wf: "wf_registry r \<Longrightarrow> wf_op op \<Longrightarrow> wf_registry (apply_op now op r)"
proof (cases op)
  case (OpUpdate i ms)
  assume "wf_registry r"
  then show ?thesis unfolding OpUpdate apply_op.simps UpdateNodeModels_def
    by (rule map_entry_wf) (simp add: wf_node_def fold_putModel_distinct)
next
  case (OpHeartbeat i)
  assume "wf_registry r"
  then show ?thesis unfolding OpHeartbeat apply_op.simps UpdateHeartbeat_def by (rule map_entry_wf) (simp add: wf_node_def)
next
  case (OpRemove i)
  assume "wf_registry r"
  then show ?thesis unfolding OpRemove by (auto simp: wf_registry_def RemoveNode_def distinct_map_filter AList.delete_eq)
qed (simp_all add: RegisterNode_wf changeModel_wf CleanupStaleNodes_wf IncrementRequestCount_def MarkModelLoaded_def MarkModelError_def)

lemma lookupModel_changeModel:
  "lookupModel i m (changeModel f k m' r) =
     (if i = k \<and> m = m' then map_option f (lookupModel i m r) else lookupModel i m r)"
  by (auto simp: lookupModel_def changeModel_def map_of_map_entry split: option.splits)

lemma lookupModel_CleanupStaleNodes:
  assumes "wf_registry r" "lookupModel i m (snd (CleanupStaleNodes now r)) = Some x"
  shows "lookupModel i m r = Some x"
proof -
  let ?t = "mr_HeartbeatTimeout r"
  obtain n where "(i, n) \<in> set (mr_nodes (snd (CleanupStaleNodes now r)))" and x: "map_of (ni_Models n) m = Some x"
    using assms(2) by (auto simp: lookupModel_def split: option.splits dest: map_of_SomeD)
  then obtain n' where "(i, n') \<in> set (mr_nodes r)" "ni_Models n = ni_Models n'"
    by (auto simp: CleanupStaleNodes_eq noteSilence_def split: if_splits)
  then show ?thesis using assms(1) x by (simp add: wf_registry_def lookupModel_def)
qed

lemma apply_op_count:
  assumes "wf_registry r" "lookupModel i m r = Some x" "lookupModel i m (apply_op now op r) = Some y"
  shows "mi_RequestCount y = (if op = OpCount i m then i64 (mi_RequestCount x + 1) else mi_RequestCount x)"
proof (cases op)
  case (OpRegister info)
  obtain node where node: "map_of (mr_nodes r) i = Some node" "map_of (ni_Models node) m = Some x"
    using assms(2) by (auto simp: lookupModel_def split: option.splits)
  then have "distinct (map fst (ni_Models node))" using assms(1) by (auto simp: wf_registry_def wf_node_def dest!: map_of_SomeD)
  with node assms(2,3) OpRegister show ?thesis
    by (auto simp: lookupModel_def RegisterNode_def update_conv' registeredModels_def fold_map_entry_lookup preserveStats_def Let_def
        split: if_splits option.splits)
next
  case (OpUpdate k ms)
  obtain node where node: "map_of (mr_nodes r) i = Some node" "map_of (ni_Models node) m = Some x"
    using assms(2) by (auto simp: lookupModel_def split: option.splits)
  then show ?thesis using OpUpdate assms(3) fold_putModel_count [OF node(2), of ms]
    by (auto simp: lookupModel_def UpdateNodeModels_def map_of_map_entry split: if_splits)
next
  case (OpHeartbeat k)
  then show ?thesis using assms(2,3) by (auto simp: lookupModel_def UpdateHeartbeat_def map_of_map_entry split: if_splits option.splits)
next
  case (OpRemove k)
  then show ?thesis using assms(2,3) by (auto simp: lookupModel_def RemoveNode_def delete_conv' split: if_splits option.splits)
next
  case OpCleanup
  then show ?thesis using assms lookupModel_CleanupStaleNodes by auto
qed (use assms(2,3) in \<open>auto simp: IncrementRequestCount_def MarkModelLoaded_def MarkModelError_def lookupModel_changeModel split: if_splits\<close>)

text \<open>A run of operations with their times, and whether the registry has the model of the node all along.\<close>

fun run_ops :: "(int \<times> registry_op) list \<Rightarrow> ModelRegistry \<Rightarrow> ModelRegistry" where
  "run_ops [] r = r"
| "run_ops ((now, op) # ops) r = run_ops ops (apply_op now op r)"

fun has_model_throughout :: "string \<Rightarrow> string \<Rightarrow> (int \<times> registry_op) list \<Rightarrow> ModelRegistry \<Rightarrow> bool" where
  "has_model_throughout i m [] r \<longleftrightarrow> lookupModel i m r \<noteq> None"
| "has_model_throughout i m ((now, op) # ops) r \<longleftrightarrow> lookupModel i m r \<noteq> None \<and> has_model_throughout i m ops (apply_op now op r)"

lemma has_model_first: "has_model_throughout i m ops r \<Longrightarrow> lookupModel i m r \<noteq> None"
  by (cases ops) auto

lemma run_ops_count:
  "wf_registry r \<Longrightarrow> \<forall>(_, op) \<in> set ops. wf_op op \<Longrightarrow> has_model_throughout i m ops r \<Longrightarrow> lookupModel i m r = Some x \<Longrightarrow> in_i64 (mi_RequestCount x) \<Longrightarrow>
   \<exists>y. lookupModel i m (run_ops ops r) = Some y \<and>
     mi_RequestCount y = i64 (mi_RequestCount x + int (length (filter (\<lambda>(_, op). op = OpCount i m) ops)))"
proof (induction ops arbitrary: r x)
  case Nil
  then show ?case by (simp add: i64_id)
next
  case (Cons o' ops)
  obtain now op where o': "o' = (now, op)" by fastforce
  with Cons.prems(3) have later: "has_model_throughout i m ops (apply_op now op r)" by simp
  then obtain z where z: "lookupModel i m (apply_op now op r) = Some z" using has_model_first by fastforce
  have count: "mi_RequestCount z = (if op = OpCount i m then i64 (mi_RequestCount x + 1) else mi_RequestCount x)"
    by (rule apply_op_count [OF Cons.prems(1,4) z])
  have "wf_registry (apply_op now op r)" "\<forall>(_, op) \<in> set ops. wf_op op" using Cons.prems(1,2) o' by (auto intro: apply_op_wf)
  moreover have "in_i64 (mi_RequestCount z)" using count Cons.prems(5) by simp
  ultimately obtain y where "lookupModel i m (run_ops ops (apply_op now op r)) = Some y"
    "mi_RequestCount y = i64 (mi_RequestCount z + int (length (filter (\<lambda>(_, op). op = OpCount i m) ops)))"
    using Cons.IH [OF _ _ later z] by blast
  then show ?case by (auto simp: o' count ac_simps)
qed

section \<open>Properties\<close>

text \<open>Data for the witnesses: a node that is loading the model and one that has it ready.\<close>

definition ex_model :: "LoadState \<Rightarrow> ModelInfo" where
  "ex_model st = \<lparr>mi_Name = ''llama'', mi_LoadState = st, mi_SizeGB = 4, mi_LastUsed = 0, mi_LoadedAt = 0, mi_RequestCount = 7, mi_Error = []\<rparr>"

definition ex_inference_node :: "string \<Rightarrow> LoadState \<Rightarrow> int \<Rightarrow> NodeInferenceInfo" where
  "ex_inference_node i st t =
     \<lparr>ni_NodeID = i, ni_TailscaleIP = ''100.64.0.1'', ni_Port = 11434, ni_GPUType = ''CUDA'', ni_TotalVRAM = 8192, ni_AvailableVRAM = 4096,
      ni_Models = [(''llama'', ex_model st)], ni_LastHeartbeat = t, ni_Healthy = True\<rparr>"

definition ex_registry :: ModelRegistry where
  "ex_registry = NewModelRegistry\<lparr>mr_nodes := [(''n1'', ex_inference_node ''n1'' LoadStateLoading (seconds 1000)),
     (''n2'', ex_inference_node ''n2'' LoadStateReady (seconds 1000)), (''n3'', ex_inference_node ''n3'' LoadStateReady (seconds 900))]\<rparr>"

lemmas ex_registry_defs = ex_registry_def ex_inference_node_def ex_model_def NewModelRegistry_def ListNodes_def load_states

text \<open>
  C20. If every model is in one of the four load states, the node found for a model is a healthy node that has the model and has not failed
  to load it, with the highest score of all such nodes; none is found only if there is no such node.
\<close>

theorem best_node_for_model:
  assumes "known_states r"
  shows "case FindNodeForModel now r model preferGPU of
      None \<Rightarrow> \<forall>n \<in> set (ListNodes r). \<not> candidate now r model n
    | Some node \<Rightarrow> node \<in> set (ListNodes r) \<and> candidate now r model node \<and>
        (\<forall>n \<in> set (ListNodes r). candidate now r model n \<longrightarrow> the (modelScore now r model preferGPU n) \<le> the (modelScore now r model preferGPU node))"
proof (cases "FindNodeForModel now r model preferGPU")
  case None
  then show ?thesis
    using FindNodeForModel_None [OF None] score_pos [OF assms] candidate_iff_scored [of now r model _ preferGPU] by fastforce
next
  case (Some node)
  then show ?thesis
    by (rule FindNodeForModel_Some) (auto simp: Some candidate_iff_scored [of now r model _ preferGPU])
qed

theorem best_node_for_model_witness:
  "\<exists>node. FindNodeForModel (seconds 1001) ex_registry ''llama'' [] = Some node \<and> ni_NodeID node = ''n2'' \<and>
     candidate (seconds 1001) ex_registry ''llama'' node"
proof -
  have found: "FindNodeForModel (seconds 1001) ex_registry ''llama'' [] = Some (ex_inference_node ''n2'' LoadStateReady (seconds 1000))"
    by (simp add: FindNodeForModel_def modelScore_def isNodeHealthy_def Since_def seconds_def ex_registry_defs)
  have "known_states ex_registry" by (simp add: known_states_def ex_registry_defs)
  from best_node_for_model [OF this, of "seconds 1001" "''llama''" "[]"] show ?thesis
    by (simp add: found) (simp add: ex_inference_node_def)
qed



text \<open>
  C23. While the registry has a model of a node, the request count of the model is its first count plus the number of requests
  counted since, whatever registrations, heartbeats, loads, failures and cleanups come in between, and
  whatever counts the node itself reports.
\<close>

theorem requests_are_counted:
  assumes "wf_registry r" and "\<forall>(_, op) \<in> set ops. wf_op op" and "has_model_throughout i m ops r"
    and "lookupModel i m r = Some x" and "in_i64 (mi_RequestCount x)"
  shows "\<exists>y. lookupModel i m (run_ops ops r) = Some y \<and>
     mi_RequestCount y = i64 (mi_RequestCount x + int (length (filter (\<lambda>(_, op). op = OpCount i m) ops)))"
  by (rule run_ops_count [OF assms])

theorem requests_are_counted_witness:
  "\<exists>y. lookupModel ''n1'' ''llama'' (run_ops [(seconds 1001, OpCount ''n1'' ''llama''), (seconds 1002, OpRegister ((ex_inference_node ''n1'' LoadStateReady 0)\<lparr>ni_Models := [(''llama'', (ex_model LoadStateReady)\<lparr>mi_RequestCount := 0\<rparr>)]\<rparr>)),
      (seconds 1003, OpCount ''n1'' ''llama'')] ex_registry) = Some y \<and> mi_RequestCount y = 9"
proof -
  let ?ops = "[(seconds 1001, OpCount ''n1'' ''llama''), (seconds 1002, OpRegister ((ex_inference_node ''n1'' LoadStateReady 0)\<lparr>ni_Models := [(''llama'', (ex_model LoadStateReady)\<lparr>mi_RequestCount := 0\<rparr>)]\<rparr>)),
      (seconds 1003, OpCount ''n1'' ''llama'')]"
  have "has_model_throughout ''n1'' ''llama'' ?ops ex_registry"
    by (simp add: lookupModel_def IncrementRequestCount_def changeModel_def RegisterNode_def registeredModels_def ex_registry_defs)
  then show ?thesis
    using requests_are_counted [of ex_registry ?ops "''n1''" "''llama''" "ex_model LoadStateLoading"]
    by (simp add: wf_registry_def wf_node_def lookupModel_def in_i64_def i64_def ex_registry_defs del: run_ops.simps)
qed

end
