(* ===== verification/Inference_Router.thy ===== *)
theory Inference_Router
  imports Model_Registry
begin

text \<open>
  The routing of inference requests (\<open>pkg/gateway/inference_router.go\<close>) and the HTTP handlers in front of it
  (\<open>pkg/gateway/inference_handlers.go\<close>). The server of a node is a parameter \<open>api\<close>, which maps the address and the
  JSON of a request to its outcome; so is the decoding of its answers. While a node is at work other requests may change the registry:
  \<open>during\<close> is what they do to it, and the theorems hold whatever it is. \<open>now\<close> is the time when the request arrives
  and \<open>later\<close> the time when the node has answered. A handler takes the outcome of \<open>c.Bind\<close>, which is \<open>None\<close> for a body
  that cannot be read.

  Shown are what a load of a model by a node means for the requests that follow, and that chat and embedding requests are counted when
  and only when they are served.
\<close>

section \<open>Router\<close>

datatype json =
    JText string
  | JFlag bool
  | JNumber real
  | JArray "json list"
  | JObject "(string \<times> json) list"

datatype http_outcome = NotCreated goerror | NotAnswered goerror | Answered nat string

datatype router_error = RouterError string string | OtherError goerror

record ChatMessage =
  cm_Role :: string
  cm_Content :: string

record ChatRequest =
  cr_Model :: string
  cr_Messages :: "ChatMessage list"
  cr_Temperature :: real
  cr_MaxTokens :: int
  cr_Stream :: bool
  cr_PreferGPU :: string

text \<open>The response with its one choice.\<close>

record ChatResponse =
  cp_ID :: string
  cp_Object :: string
  cp_Created :: int
  cp_Model :: string
  cp_Message :: ChatMessage
  cp_FinishReason :: string
  cp_PromptTokens :: int
  cp_CompletionTokens :: int
  cp_TotalTokens :: int
  cp_Node :: string

text \<open>What \<open>Chat\<close> reads of the answer of a node.\<close>

record ollama_chat =
  oc_Model :: string
  oc_Message :: ChatMessage
  oc_PromptEvalCount :: int
  oc_EvalCount :: int

definition Route :: "int \<Rightarrow> ModelRegistry \<Rightarrow> string \<Rightarrow> string \<Rightarrow> router_error + NodeInferenceInfo" where
  "Route now r model preferGPU =
     (case FindNodeForModel now r model preferGPU of
        None \<Rightarrow> Inl (RouterError ''NO_NODE_AVAILABLE'' (''no healthy node available for model '' @ model))
      | Some node \<Rightarrow> Inr node)"

definition nodeURL :: "NodeInferenceInfo \<Rightarrow> string \<Rightarrow> string" where
  "nodeURL node path = ''http://'' @ ni_TailscaleIP node @ '':'' @ itoa (ni_Port node) @ path"

definition chatOptions :: "ChatRequest \<Rightarrow> (string \<times> json) list" where
  "chatOptions req =
     (if 0 < cr_Temperature req then [(''temperature'', JNumber (cr_Temperature req))] else []) @
     (if 0 < cr_MaxTokens req then [(''num_predict'', JNumber (of_int (cr_MaxTokens req)))] else [])"

definition chatBody :: "ChatRequest \<Rightarrow> json" where
  "chatBody req =
     JObject ([(''model'', JText (cr_Model req)),
               (''messages'', JArray (map (\<lambda>m. JObject [(''role'', JText (cm_Role m)), (''content'', JText (cm_Content m))]) (cr_Messages req))),
               (''stream'', JFlag False)]
              @ (if chatOptions req = [] then [] else [(''options'', JObject (chatOptions req))]))"

definition nodeError :: "nat \<Rightarrow> string \<Rightarrow> router_error" where
  "nodeError status body = RouterError ''NODE_ERROR'' (''node returned '' @ utoa status @ '': '' @ body)"

definition chatResponse :: "int \<Rightarrow> NodeInferenceInfo \<Rightarrow> ollama_chat \<Rightarrow> ChatResponse" where
  "chatResponse later node resp =
     \<lparr>cp_ID = ''chatcmpl-'' @ itoa later, cp_Object = ''chat.completion'', cp_Created = later div 1000000000, cp_Model = oc_Model resp,
      cp_Message = oc_Message resp, cp_FinishReason = ''stop'', cp_PromptTokens = oc_PromptEvalCount resp,
      cp_CompletionTokens = oc_EvalCount resp, cp_TotalTokens = i64 (oc_PromptEvalCount resp + oc_EvalCount resp), cp_Node = ni_NodeID node\<rparr>"

type_synonym api = "string \<Rightarrow> json \<Rightarrow> http_outcome"

definition Chat :: "api \<Rightarrow> (string \<Rightarrow> goerror + ollama_chat) \<Rightarrow> int \<Rightarrow> int \<Rightarrow> (ModelRegistry \<Rightarrow> ModelRegistry) \<Rightarrow> ChatRequest \<Rightarrow> ModelRegistry
    \<Rightarrow> (router_error + ChatResponse) \<times> ModelRegistry" where
  "Chat api decode now later during req r =
     (case Route now r (cr_Model req) (cr_PreferGPU req) of
        Inl e \<Rightarrow> (Inl e, r)
      | Inr node \<Rightarrow>
          (case api (nodeURL node ''/api/chat'') (chatBody req) of
             NotCreated e \<Rightarrow> (Inl (OtherError (Errorf ''failed to create request'' e)), during r)
           | NotAnswered e \<Rightarrow> (Inl (OtherError (Errorf ''node request failed'' e)), during r)
           | Answered status body \<Rightarrow>
               if status \<noteq> 200 then (Inl (nodeError status body), during r)
               else (case decode body of
                       Inl e \<Rightarrow> (Inl (OtherError (Errorf ''failed to decode response'' e)), during r)
                     | Inr resp \<Rightarrow> (Inr (chatResponse later node resp), IncrementRequestCount later (ni_NodeID node) (cr_Model req) (during r)))))"

record EmbedRequest =
  er_Model :: string
  er_Input :: "string list"
  er_PreferGPU :: string

record EmbedData =
  ed_Object :: string
  ed_Embedding :: "real list"
  ed_Index :: nat

record EmbedResponse =
  ep_Object :: string
  ep_Data :: "EmbedData list"
  ep_Model :: string
  ep_PromptTokens :: nat
  ep_TotalTokens :: nat
  ep_Node :: string

text \<open>The loop of \<open>Embed\<close> over the inputs, from the index \<open>i\<close> on, with the embeddings and the token estimate so far.\<close>

fun embedInputs :: "api \<Rightarrow> (string \<Rightarrow> goerror + real list) \<Rightarrow> NodeInferenceInfo \<Rightarrow> string \<Rightarrow> nat \<Rightarrow> string list \<Rightarrow> EmbedData list \<times> nat
    \<Rightarrow> router_error + EmbedData list \<times> nat" where
  "embedInputs api decode node model i [] acc = Inr acc"
| "embedInputs api decode node model i (input # inputs) (allEmbeddings, totalTokens) =
     (case api (nodeURL node ''/api/embeddings'') (JObject [(''model'', JText model), (''prompt'', JText input)]) of
        NotCreated e \<Rightarrow> Inl (OtherError (Errorf ''failed to create request'' e))
      | NotAnswered e \<Rightarrow> Inl (OtherError (Errorf ''node request failed'' e))
      | Answered status body \<Rightarrow>
          if status \<noteq> 200 then Inl (nodeError status body)
          else (case decode body of
                  Inl e \<Rightarrow> Inl (OtherError (Errorf ''failed to decode response'' e))
                | Inr embedding \<Rightarrow>
                    embedInputs api decode node model (Suc i) inputs
                      (allEmbeddings @ [\<lparr>ed_Object = ''embedding'', ed_Embedding = embedding, ed_Index = i\<rparr>], totalTokens + length input div 4)))"

definition Embed :: "api \<Rightarrow> (string \<Rightarrow> goerror + real list) \<Rightarrow> int \<Rightarrow> int \<Rightarrow> (ModelRegistry \<Rightarrow> ModelRegistry) \<Rightarrow> EmbedRequest \<Rightarrow> ModelRegistry
    \<Rightarrow> (router_error + EmbedResponse) \<times> ModelRegistry" where
  "Embed api decode now later during req r =
     (case Route now r (er_Model req) (er_PreferGPU req) of
        Inl e \<Rightarrow> (Inl e, r)
      | Inr node \<Rightarrow>
          (case embedInputs api decode node (er_Model req) 0 (er_Input req) ([], 0) of
             Inl e \<Rightarrow> (Inl e, during r)
           | Inr (allEmbeddings, totalTokens) \<Rightarrow>
               (Inr \<lparr>ep_Object = ''list'', ep_Data = allEmbeddings, ep_Model = er_Model req, ep_PromptTokens = totalTokens,
                     ep_TotalTokens = totalTokens, ep_Node = ni_NodeID node\<rparr>,
                IncrementRequestCount later (ni_NodeID node) (er_Model req) (during r))))"

record ModelLocation =
  ml_NodeID :: string
  ml_TailscaleIP :: string
  ml_Port :: int
  ml_GPUType :: string
  ml_LoadState :: LoadState
  ml_LastUsed :: int

definition modelLocation :: "string \<Rightarrow> NodeInferenceInfo \<Rightarrow> ModelLocation option" where
  "modelLocation model node =
     map_option (\<lambda>modelInfo. \<lparr>ml_NodeID = ni_NodeID node, ml_TailscaleIP = ni_TailscaleIP node, ml_Port = ni_Port node, ml_GPUType = ni_GPUType node,
       ml_LoadState = mi_LoadState modelInfo, ml_LastUsed = mi_LastUsed modelInfo\<rparr>) (map_of (ni_Models node) model)"

text \<open>A model all of whose nodes have none of it gets no entry.\<close>

definition routerListModels :: "int \<Rightarrow> ModelRegistry \<Rightarrow> (string \<times> ModelLocation list) list" where
  "routerListModels now r =
     filter (\<lambda>(_, locations). locations \<noteq> []) (map (\<lambda>(model, nodes). (model, List.map_filter (modelLocation model) nodes)) (ListModels now r))"

definition Health :: "int \<Rightarrow> ModelRegistry \<Rightarrow> (string \<times> nat) list \<times> (string \<times> string) list" where
  "Health now r = (Stats now r, [(''router'', ''healthy'')])"

definition nodeNotFound :: "string \<Rightarrow> router_error" where
  "nodeNotFound nodeID = RouterError ''NODE_NOT_FOUND'' (''node '' @ nodeID @ '' not found'')"

definition LoadModel :: "api \<Rightarrow> int \<Rightarrow> (ModelRegistry \<Rightarrow> ModelRegistry) \<Rightarrow> string \<Rightarrow> string \<Rightarrow> ModelRegistry \<Rightarrow> (router_error + unit) \<times> ModelRegistry" where
  "LoadModel api later during nodeID model r =
     (case GetNode nodeID r of
        None \<Rightarrow> (Inl (nodeNotFound nodeID), r)
      | Some node \<Rightarrow>
          (case api (nodeURL node ''/api/generate'') (JObject [(''model'', JText model), (''prompt'', JText []), (''keep_alive'', JNumber (- 1))]) of
             NotCreated e \<Rightarrow> (Inl (OtherError (Errorf ''failed to create request'' e)), during r)
           | NotAnswered e \<Rightarrow> (Inl (OtherError (Errorf ''node request failed'' e)), during r)
           | Answered status body \<Rightarrow>
               if status \<noteq> 200
               then (Inl (RouterError ''LOAD_FAILED'' (''failed to load model: status '' @ utoa status)),
                     MarkModelError nodeID model (''load failed: '' @ utoa status) (during r))
               else (Inr (), MarkModelLoaded later nodeID model (during r))))"

definition UnloadModel :: "api \<Rightarrow> (ModelRegistry \<Rightarrow> ModelRegistry) \<Rightarrow> string \<Rightarrow> string \<Rightarrow> ModelRegistry \<Rightarrow> (router_error + unit) \<times> ModelRegistry" where
  "UnloadModel api during nodeID model r =
     (case GetNode nodeID r of
        None \<Rightarrow> (Inl (nodeNotFound nodeID), r)
      | Some node \<Rightarrow>
          (case api (nodeURL node ''/api/generate'') (JObject [(''model'', JText model), (''keep_alive'', JNumber 0)]) of
             NotCreated e \<Rightarrow> (Inl (OtherError (Errorf ''failed to create request'' e)), during r)
           | NotAnswered e \<Rightarrow> (Inl (OtherError (Errorf ''node request failed'' e)), during r)
           | Answered status body \<Rightarrow> (Inr (), changeModel (\<lambda>m. m\<lparr>mi_LoadState := LoadStateIdle\<rparr>) nodeID model (during r))))"

section \<open>Handlers\<close>

datatype 'a reply = ErrorReply nat "(string \<times> string) list" | OKReply 'a

definition badRequest :: "string \<Rightarrow> 'a reply" where
  "badRequest msg = ErrorReply 400 [(''error'', msg)]"

fun replyOf :: "router_error + 'a \<Rightarrow> 'a reply" where
  "replyOf (Inr resp) = OKReply resp"
| "replyOf (Inl (RouterError code message)) = ErrorReply 503 [(''error'', message), (''code'', code)]"
| "replyOf (Inl (OtherError e)) = ErrorReply 500 [(''error'', ''internal server error'')]"

definition handleChat :: "api \<Rightarrow> (string \<Rightarrow> goerror + ollama_chat) \<Rightarrow> int \<Rightarrow> int \<Rightarrow> (ModelRegistry \<Rightarrow> ModelRegistry) \<Rightarrow> ChatRequest option \<Rightarrow> ModelRegistry
    \<Rightarrow> ChatResponse reply \<times> ModelRegistry" where
  "handleChat api decode now later during bound r =
     (case bound of
        None \<Rightarrow> (badRequest ''invalid request body'', r)
      | Some req \<Rightarrow>
          if cr_Model req = [] then (badRequest ''model is required'', r)
          else if cr_Messages req = [] then (badRequest ''messages is required'', r)
          else apfst replyOf (Chat api decode now later during req r))"

definition handleEmbed :: "api \<Rightarrow> (string \<Rightarrow> goerror + real list) \<Rightarrow> int \<Rightarrow> int \<Rightarrow> (ModelRegistry \<Rightarrow> ModelRegistry) \<Rightarrow> EmbedRequest option \<Rightarrow> ModelRegistry
    \<Rightarrow> EmbedResponse reply \<times> ModelRegistry" where
  "handleEmbed api decode now later during bound r =
     (case bound of
        None \<Rightarrow> (badRequest ''invalid request body'', r)
      | Some req \<Rightarrow>
          if er_Model req = [] then (badRequest ''model is required'', r)
          else if er_Input req = [] then (badRequest ''input is required'', r)
          else apfst replyOf (Embed api decode now later during req r))"

record listed_model =
  lm_id :: string
  lm_object :: string
  lm_created :: int
  lm_owned_by :: string
  lm_locations :: "ModelLocation list"

definition handleListModels :: "int \<Rightarrow> ModelRegistry \<Rightarrow> listed_model list reply" where
  "handleListModels now r =
     OKReply (map (\<lambda>(model, locations). \<lparr>lm_id = model, lm_object = ''model'', lm_created = now div 1000000000, lm_owned_by = ''cluster'',
       lm_locations = locations\<rparr>) (routerListModels now r))"

definition loadOn :: "api \<Rightarrow> int \<Rightarrow> (ModelRegistry \<Rightarrow> ModelRegistry) \<Rightarrow> string \<Rightarrow> string \<Rightarrow> ModelRegistry \<Rightarrow> (string \<times> string) list reply \<times> ModelRegistry" where
  "loadOn api later during model nodeID r =
     (case LoadModel api later during nodeID model r of
        (Inl e, r') \<Rightarrow> (ErrorReply 500 [(''error'', ''failed to load model'')], r')
      | (Inr _, r') \<Rightarrow> (OKReply [(''status'', ''loaded''), (''model'', model), (''node'', nodeID)], r'))"

definition handleLoadModel :: "api \<Rightarrow> int \<Rightarrow> int \<Rightarrow> (ModelRegistry \<Rightarrow> ModelRegistry) \<Rightarrow> string \<Rightarrow> string \<Rightarrow> ModelRegistry
    \<Rightarrow> (string \<times> string) list reply \<times> ModelRegistry" where
  "handleLoadModel api now later during model nodeID r =
     (if nodeID = []
      then (case FindAnyNodeWithCapacity now r 0 [] of
              None \<Rightarrow> (ErrorReply 503 [(''error'', ''no available nodes with capacity'')], r)
            | Some node \<Rightarrow> loadOn api later during model (ni_NodeID node) r)
      else loadOn api later during model nodeID r)"

definition handleUnloadModel :: "api \<Rightarrow> (ModelRegistry \<Rightarrow> ModelRegistry) \<Rightarrow> string \<Rightarrow> string \<Rightarrow> ModelRegistry \<Rightarrow> (string \<times> string) list reply \<times> ModelRegistry" where
  "handleUnloadModel api during model nodeID r =
     (if nodeID = [] then (badRequest ''node query parameter is required'', r)
      else case UnloadModel api during nodeID model r of
             (Inl e, r') \<Rightarrow> (ErrorReply 500 [(''error'', ''failed to unload model'')], r')
           | (Inr _, r') \<Rightarrow> (OKReply [(''status'', ''unloaded''), (''model'', model), (''node'', nodeID)], r'))"

definition handleListNodes :: "int \<Rightarrow> ModelRegistry \<Rightarrow> (NodeInferenceInfo list \<times> (string \<times> nat) list) reply" where
  "handleListNodes now r = OKReply (ListNodes r, Stats now r)"

record NodeRegistrationRequest =
  nr_NodeID :: string
  nr_TailscaleIP :: string
  nr_Port :: int
  nr_GPUType :: string
  nr_TotalVRAM :: int
  nr_AvailableVRAM :: int
  nr_Models :: "models option"

definition registeredNode :: "NodeRegistrationRequest \<Rightarrow> NodeInferenceInfo" where
  "registeredNode req =
     \<lparr>ni_NodeID = nr_NodeID req, ni_TailscaleIP = nr_TailscaleIP req, ni_Port = (if nr_Port req = 0 then 11434 else nr_Port req),
      ni_GPUType = nr_GPUType req, ni_TotalVRAM = nr_TotalVRAM req, ni_AvailableVRAM = nr_AvailableVRAM req,
      ni_Models = (case nr_Models req of None \<Rightarrow> [] | Some ms \<Rightarrow> ms), ni_LastHeartbeat = zero_time, ni_Healthy = False\<rparr>"

definition handleRegisterNode :: "int \<Rightarrow> NodeRegistrationRequest option \<Rightarrow> ModelRegistry \<Rightarrow> (string \<times> string) list reply \<times> ModelRegistry" where
  "handleRegisterNode now bound r =
     (case bound of
        None \<Rightarrow> (badRequest ''invalid request body'', r)
      | Some req \<Rightarrow>
          if nr_NodeID req = [] \<or> nr_TailscaleIP req = [] then (badRequest ''node_id and tailscale_ip are required'', r)
          else (OKReply [(''status'', ''registered''), (''node_id'', nr_NodeID req)], RegisterNode now (registeredNode req) r))"

record HeartbeatRequest =
  hr_Models :: models
  hr_AvailableVRAM :: int

definition handleHeartbeat :: "int \<Rightarrow> string \<Rightarrow> HeartbeatRequest option \<Rightarrow> ModelRegistry \<Rightarrow> (string \<times> string) list reply \<times> ModelRegistry" where
  "handleHeartbeat now nodeID bound r =
     (let req = (case bound of None \<Rightarrow> \<lparr>hr_Models = [], hr_AvailableVRAM = 0\<rparr> | Some req \<Rightarrow> req);
          r1 = UpdateHeartbeat now nodeID r
      in (OKReply [(''status'', ''ok'')], if 0 < length (hr_Models req) then UpdateNodeModels now nodeID (hr_Models req) r1 else r1))"

definition handleHealth :: "int \<Rightarrow> ModelRegistry \<Rightarrow> ((string \<times> nat) list \<times> (string \<times> string) list) reply" where
  "handleHealth now r = OKReply (Health now r)"

section \<open>Loads and the requests that follow\<close>

definition failed_on :: "string \<Rightarrow> string \<Rightarrow> ModelRegistry \<Rightarrow> bool" where
  "failed_on i m r \<longleftrightarrow> (\<forall>x. lookupModel i m r = Some x \<longrightarrow> mi_LoadState x = LoadStateError)"

text \<open>The operations that give a model of a node a new state other than that of a failure.\<close>

fun reports :: "string \<Rightarrow> string \<Rightarrow> registry_op \<Rightarrow> bool" where
  "reports i m (OpRegister info) \<longleftrightarrow> ni_NodeID info = i"
| "reports i m (OpUpdate k ms) \<longleftrightarrow> k = i \<and> m \<in> fst ` set ms"
| "reports i m (OpLoaded k m') \<longleftrightarrow> k = i \<and> m' = m"
| "reports i m _ \<longleftrightarrow> False"

lemma fold_putModel_other: "m \<notin> fst ` set nms \<Longrightarrow> map_of (fold putModel nms ms) m = map_of ms m"
  by (induction nms arbitrary: ms) (simp_all add: putModel_def update_conv')

lemma failed_on_stays:
  assumes "wf_registry r" "failed_on i m r" "\<not> reports i m op"
  shows "failed_on i m (apply_op now op r)"
proof (cases op)
  case (OpRegister info)
  then show ?thesis using assms(2,3) by (simp add: failed_on_def lookupModel_def RegisterNode_def update_conv')
next
  case (OpUpdate k ms)
  have "lookupModel i m (apply_op now op r) = lookupModel i m r"
    using assms(3) OpUpdate by (auto simp: lookupModel_def UpdateNodeModels_def map_of_map_entry fold_putModel_other split: option.splits)
  then show ?thesis using assms(2) by (simp add: failed_on_def)
next
  case (OpHeartbeat k)
  have "lookupModel i m (apply_op now op r) = lookupModel i m r"
    using OpHeartbeat by (auto simp: lookupModel_def UpdateHeartbeat_def map_of_map_entry split: option.splits)
  then show ?thesis using assms(2) by (simp add: failed_on_def)
next
  case (OpRemove k)
  then show ?thesis using assms(2) by (simp add: failed_on_def lookupModel_def RemoveNode_def delete_conv')
next
  case OpCleanup
  then show ?thesis using assms(1,2) lookupModel_CleanupStaleNodes by (fastforce simp: failed_on_def)
qed (use assms(2,3) in \<open>auto simp: failed_on_def IncrementRequestCount_def MarkModelLoaded_def MarkModelError_def lookupModel_changeModel\<close>)

lemma failed_on_run:
  "wf_registry r \<Longrightarrow> failed_on i m r \<Longrightarrow> \<forall>(_, op) \<in> set ops. wf_op op \<and> \<not> reports i m op \<Longrightarrow> wf_registry (run_ops ops r) \<and> failed_on i m (run_ops ops r)"
proof (induction ops arbitrary: r)
  case (Cons o' ops)
  obtain now op where o': "o' = (now, op)" by fastforce
  have "wf_registry (apply_op now op r)" "failed_on i m (apply_op now op r)"
    using Cons.prems o' by (auto intro: apply_op_wf failed_on_stays)
  then show ?case using Cons.IH Cons.prems(3) o' by simp
qed simp

lemma routed_node_not_failed:
  assumes "wf_registry r" "failed_on i m r" "Route now r m gpu = Inr node"
  shows "ni_NodeID node \<noteq> i"
proof
  assume i: "ni_NodeID node = i"
  have "FindNodeForModel now r m gpu = Some node" using assms(3) by (simp add: Route_def split: option.splits)
  then obtain s where node: "node \<in> set (ListNodes r)" and score: "modelScore now r m gpu node = Some s" by (rule FindNodeForModel_Some)
  from node obtain k where "(k, node) \<in> set (mr_nodes r)" by (auto simp: ListNodes_def)
  then have "map_of (mr_nodes r) i = Some node" using assms(1) i by (auto simp: wf_registry_def)
  then show False using score assms(2) by (auto simp: failed_on_def lookupModel_def modelScore_def split: if_splits option.splits)
qed

lemma LoadModel_failed:
  assumes "fst (LoadModel api later during i m r) = Inl (RouterError ''LOAD_FAILED'' msg)"
  obtains err where "snd (LoadModel api later during i m r) = MarkModelError i m err (during r)"
  using assms by (auto simp: LoadModel_def nodeNotFound_def split: option.splits http_outcome.splits if_splits)

lemma LoadModel_loaded:
  assumes "fst (LoadModel api later during i m r) = Inr ()"
  shows "snd (LoadModel api later during i m r) = MarkModelLoaded later i m (during r)"
  using assms by (auto simp: LoadModel_def split: option.splits http_outcome.splits if_splits)

text \<open>A request is counted when it is served and not otherwise.\<close>

lemma Chat_counted:
  assumes "Chat api decode now later during req r = (res, r')"
  shows "case res of Inl e \<Rightarrow> r' = r \<or> r' = during r
    | Inr resp \<Rightarrow> r' = IncrementRequestCount later (cp_Node resp) (cr_Model req) (during r)"
  using assms by (auto simp: Chat_def chatResponse_def split: sum.splits http_outcome.splits if_splits)

lemma Embed_counted:
  assumes "Embed api decode now later during req r = (res, r')"
  shows "case res of Inl e \<Rightarrow> r' = r \<or> r' = during r
    | Inr resp \<Rightarrow> r' = IncrementRequestCount later (ep_Node resp) (er_Model req) (during r)"
  using assms by (auto simp: Embed_def split: sum.splits prod.splits)

text \<open>The embeddings are those of the inputs, in order.\<close>

lemma embedInputs_indices:
  "embedInputs api decode node model i inputs (acc, n) = Inr (out, tokens) \<Longrightarrow>
     map ed_Index out = map ed_Index acc @ [i..<i + length inputs] \<and> tokens = n + sum_list (map (\<lambda>s. length s div 4) inputs)"
proof (induction inputs arbitrary: i acc n)
  case (Cons input inputs)
  from Cons.prems obtain e where
    "embedInputs api decode node model (Suc i) inputs (acc @ [\<lparr>ed_Object = ''embedding'', ed_Embedding = e, ed_Index = i\<rparr>], n + length input div 4) = Inr (out, tokens)"
    by (auto split: http_outcome.splits if_splits sum.splits)
  from Cons.IH [OF this] show ?case by (simp add: upt_rec)
qed simp

text \<open>The memory a node reports with a heartbeat is read and not stored.\<close>

lemma heartbeat_ignores_memory:
  "handleHeartbeat now nodeID (Some (req\<lparr>hr_AvailableVRAM := v\<rparr>)) r = handleHeartbeat now nodeID (Some req) r"
  by (simp add: handleHeartbeat_def Let_def)

text \<open>A load of a model that the node has not reported leaves the registry as it is.\<close>

lemma unreported_load_not_noted:
  assumes "lookupModel i m (during r) = None" "fst (LoadModel api later during i m r) = Inr ()"
  shows "lookupModel i m (snd (LoadModel api later during i m r)) = None"
  using assms by (simp add: LoadModel_loaded MarkModelLoaded_def lookupModel_changeModel)

section \<open>Properties\<close>





end
