(* ===== verification/Bot_Net.thy ===== *)
theory Bot_Net
  imports Task_Queue Gpu_Manager
begin

text \<open>
  Bots (\<open>pkg/abstractions/experimental/bot\<close>): a bot is a Petri net whose markers are kept in Redis, a list for each location of a
  session. Modelled are the store of sessions, markers, tasks and events (\<open>state.go\<close>), one step of the net
  (\<open>instance.go\<close>), the methods of a bot's task (\<open>task.go\<close>), the service calls that push markers and pop tasks (\<open>bot.go\<close>), and the
  container ids (\<open>types.go\<close>). JSON is a parameter \<open>bot_codec\<close>; the dispatch of a task is an interface, the locale \<open>transition_tasks\<close>. A Go map is an
  association list in the order in which the loop at hand visits it. The language model behind a bot is not modelled.

  Shown is that a step of the program is a step of the net: the transitions fire that are enabled, each takes the oldest markers of its
  input locations, as many as it asks for, and hands exactly these to its task.
\<close>

section \<open>Keys and types\<close>

definition botLock :: "string \<Rightarrow> string \<Rightarrow> string \<Rightarrow> string" where
  "botLock workspaceName stubId sessionId = Sprintf ''bot:%s:%s:session_state_lock:%s'' [workspaceName, stubId, sessionId]"

definition botSessionIndex :: "string \<Rightarrow> string \<Rightarrow> string" where
  "botSessionIndex workspaceName stubId = Sprintf ''bot:%s:%s:session_index'' [workspaceName, stubId]"

definition botInputBuffer :: "string \<Rightarrow> string \<Rightarrow> string \<Rightarrow> string" where
  "botInputBuffer workspaceName stubId sessionId = Sprintf ''bot:%s:%s:input_buffer:%s'' [workspaceName, stubId, sessionId]"

definition botEventPair :: "string \<Rightarrow> string \<Rightarrow> string \<Rightarrow> string \<Rightarrow> string" where
  "botEventPair workspaceName stubId sessionId pairId = Sprintf ''bot:%s:%s:event_pair:%s:%s'' [workspaceName, stubId, sessionId, pairId]"

definition botEventBuffer :: "string \<Rightarrow> string \<Rightarrow> string \<Rightarrow> string" where
  "botEventBuffer workspaceName stubId sessionId = Sprintf ''bot:%s:%s:event_buffer:%s'' [workspaceName, stubId, sessionId]"

definition botEventHistory :: "string \<Rightarrow> string \<Rightarrow> string \<Rightarrow> string" where
  "botEventHistory workspaceName stubId sessionId = Sprintf ''bot:%s:%s:event_history:%s'' [workspaceName, stubId, sessionId]"

definition botSessionState :: "string \<Rightarrow> string \<Rightarrow> string \<Rightarrow> string" where
  "botSessionState workspaceName stubId sessionId = Sprintf ''bot:%s:%s:session_state:%s'' [workspaceName, stubId, sessionId]"

definition botSessionKeepAlive :: "string \<Rightarrow> string \<Rightarrow> string \<Rightarrow> string" where
  "botSessionKeepAlive workspaceName stubId sessionId = Sprintf ''bot:%s:%s:session_keep_alive:%s'' [workspaceName, stubId, sessionId]"

definition botMarkers :: "string \<Rightarrow> string \<Rightarrow> string \<Rightarrow> string \<Rightarrow> string" where
  "botMarkers workspaceName stubId sessionId locationName = Sprintf ''bot:%s:%s:markers:%s:%s'' [workspaceName, stubId, sessionId, locationName]"

text \<open>The format has one verb more than there are arguments.\<close>

definition botTaskIndex :: "string \<Rightarrow> string \<Rightarrow> string \<Rightarrow> string" where
  "botTaskIndex workspaceName stubId sessionId = Sprintf ''bot:%s:%s:task_index:%s:%s'' [workspaceName, stubId, sessionId]"

definition botTransitionTask :: "string \<Rightarrow> string \<Rightarrow> string \<Rightarrow> string \<Rightarrow> string \<Rightarrow> string" where
  "botTransitionTask workspaceName stubId sessionId transitionName taskId =
     Sprintf ''bot:%s:%s:transition_task:%s:%s:%s'' [workspaceName, stubId, sessionId, transitionName, taskId]"

lemmas bot_key_defs = botLock_def botSessionIndex_def botInputBuffer_def botEventPair_def botEventBuffer_def botEventHistory_def
  botSessionState_def botSessionKeepAlive_def botMarkers_def botTaskIndex_def botTransitionTask_def

record BotChatCompletionMessage =
  bm_Role :: string
  bm_Content :: string
  bm_Name :: string

record BotEvent =
  be_Type :: string
  be_Value :: string
  be_Metadata :: "(string \<times> string) list"
  be_PairId :: string

record BotEventPair =
  bp_Request :: BotEvent
  bp_Response :: BotEvent

record BotSession =
  bs_Id :: string
  bs_Messages :: "BotChatCompletionMessage list"
  bs_CreatedAt :: int
  bs_EventHistory :: "BotEvent list"

record MarkerField =
  mf_FieldName :: string
  mf_FieldValue :: string

record Marker =
  mk_LocationName :: string
  mk_Fields :: "MarkerField list"
  mk_SourceTaskId :: string

record BotTransitionConfig =
  tr_Cpu :: int
  tr_Gpu :: string
  tr_Memory :: int
  tr_PythonVersion :: string
  tr_ImageId :: string
  tr_Timeout :: int
  tr_KeepWarm :: int
  tr_MaxPending :: int
  tr_Volumes :: "string list"
  tr_Secrets :: "string list"
  tr_Handler :: string
  tr_OnStart :: string
  tr_CallbackUrl :: string
  tr_TaskPolicy :: string
  tr_Name :: string
  tr_Inputs :: "(string \<times> int) list"
  tr_Outputs :: "string list"
  tr_Description :: string
  tr_Expose :: bool
  tr_Confirm :: bool

text \<open>\<open>json.Marshal\<close> and \<open>json.Unmarshal\<close> of the types above, and \<open>err.Error()\<close>.\<close>

record bot_codec =
  bc_marker :: "Marker \<Rightarrow> goerror + string"
  bc_unmarker :: "string \<Rightarrow> goerror + Marker"
  bc_markers :: "Marker list \<Rightarrow> goerror + string"
  bc_unmarkers :: "string \<Rightarrow> goerror + Marker list"
  bc_event :: "BotEvent \<Rightarrow> goerror + string"
  bc_unevent :: "string \<Rightarrow> goerror + BotEvent"
  bc_pair :: "BotEventPair \<Rightarrow> goerror + string"
  bc_session :: "BotSession \<Rightarrow> goerror + string"
  bc_unsession :: "string \<Rightarrow> goerror + BotSession"
  bc_error :: "goerror \<Rightarrow> string"

definition BotEventTypeTransitionFired :: string where "BotEventTypeTransitionFired = ''transition_fired''"
definition BotEventTypeTransitionFailed :: string where "BotEventTypeTransitionFailed = ''transition_failed''"
definition BotEventTypeNetworkState :: string where "BotEventTypeNetworkState = ''network_state''"
definition BotEventTypeConfirmTransition :: string where "BotEventTypeConfirmTransition = ''confirm_transition''"

definition MetadataSessionId :: string where "MetadataSessionId = ''session_id''"
definition MetadataTransitionName :: string where "MetadataTransitionName = ''transition_name''"
definition MetadataTaskId :: string where "MetadataTaskId = ''task_id''"
definition MetadataErrorMsg :: string where "MetadataErrorMsg = ''error_msg''"

definition ErrBotSessionNotFound :: goerror where
  "ErrBotSessionNotFound = ErrNew ''bot session not found''"

section \<open>The state of a bot\<close>

definition loadSession :: "'s redis_client \<Rightarrow> bot_codec \<Rightarrow> string \<Rightarrow> string \<Rightarrow> string \<Rightarrow> ('s world, BotSession) io" where
  "loadSession R J ws st sid =
     bindE (attempt (Get R (botSessionState ws st sid))) (\<lambda>r.
       case r of
         Inl e \<Rightarrow> throwE (if e = RedisNil then ErrBotSessionNotFound else e)
       | Inr jsonData \<Rightarrow> liftSum (bc_unsession J jsonData))"

definition updateSession :: "'s redis_client \<Rightarrow> bot_codec \<Rightarrow> int \<Rightarrow> string \<Rightarrow> string \<Rightarrow> string \<Rightarrow> BotSession \<Rightarrow> ('s world, unit) io" where
  "updateSession R J now ws st sid state =
     locked R (botLock ws st sid) 10 0
       (bindE (Exists R (botSessionState ws st sid)) (\<lambda>exists.
        bindE (if exists then returnE state
               else thenE (SAdd R (botSessionIndex ws st) sid) (returnE (state\<lparr>bs_CreatedAt := now\<rparr>))) (\<lambda>state'.
        bindE (liftSum (bc_session J state')) (\<lambda>jsonData.
          SetKey R (botSessionState ws st sid) jsonData 0))))"

definition sessionKeepAlive :: "'s redis_client \<Rightarrow> string \<Rightarrow> string \<Rightarrow> string \<Rightarrow> 64 word \<Rightarrow> ('s world, unit) io" where
  "sessionKeepAlive R ws st sid ttlS = SetKey R (botSessionKeepAlive ws st sid) ''1'' (i64 (sint ttlS * second))"

definition deleteSession :: "'s redis_client \<Rightarrow> string \<Rightarrow> string \<Rightarrow> string \<Rightarrow> ('s world, unit) io" where
  "deleteSession R ws st sid =
     thenE (Del R (botSessionState ws st sid))
     (bindE (SMembers R (botTaskIndex ws st sid)) (\<lambda>taskKeys.
        thenE (forE (Del R) taskKeys)
       (thenE (Del R (botTaskIndex ws st sid))
       (thenE (Del R (botEventHistory ws st sid))
              (SRem R (botSessionIndex ws st) sid)))))"

fun loadSessions :: "'s redis_client \<Rightarrow> bot_codec \<Rightarrow> string \<Rightarrow> string \<Rightarrow> string list \<Rightarrow> ('s world, BotSession list) io" where
  "loadSessions R J ws st [] = returnE []"
| "loadSessions R J ws st (sid # sids) =
     bindE (loadSession R J ws st sid) (\<lambda>s. bindE (loadSessions R J ws st sids) (\<lambda>ss. returnE (s # ss)))"

definition listSessions :: "'s redis_client \<Rightarrow> bot_codec \<Rightarrow> string \<Rightarrow> string \<Rightarrow> ('s world, BotSession list) io" where
  "listSessions R J ws st = bindE (SMembers R (botSessionIndex ws st)) (loadSessions R J ws st)"

fun activeSessions :: "'s redis_client \<Rightarrow> bot_codec \<Rightarrow> string \<Rightarrow> string \<Rightarrow> string list \<Rightarrow> ('s world, BotSession list) io" where
  "activeSessions R J ws st [] = returnE []"
| "activeSessions R J ws st (sid # sids) =
     bindE (attempt (Exists R (botSessionKeepAlive ws st sid))) (\<lambda>alive.
       if alive \<noteq> Inr True then activeSessions R J ws st sids
       else bindE (loadSession R J ws st sid) (\<lambda>s. bindE (activeSessions R J ws st sids) (\<lambda>ss. returnE (s # ss))))"

definition getActiveSessions :: "'s redis_client \<Rightarrow> bot_codec \<Rightarrow> string \<Rightarrow> string \<Rightarrow> ('s world, BotSession list) io" where
  "getActiveSessions R J ws st = bindE (SMembers R (botSessionIndex ws st)) (activeSessions R J ws st)"

definition pushMarker :: "'s redis_client \<Rightarrow> bot_codec \<Rightarrow> string \<Rightarrow> string \<Rightarrow> string \<Rightarrow> string \<Rightarrow> Marker \<Rightarrow> ('s world, unit) io" where
  "pushMarker R J ws st sid locationName markerData =
     bindE (liftSum (bc_marker J markerData)) (\<lambda>jsonData. RPush R (botMarkers ws st sid locationName) jsonData)"

definition popMarker :: "'s redis_client \<Rightarrow> bot_codec \<Rightarrow> string \<Rightarrow> string \<Rightarrow> string \<Rightarrow> string \<Rightarrow> ('s world, Marker) io" where
  "popMarker R J ws st sid locationName =
     bindE (LPop R (botMarkers ws st sid locationName)) (\<lambda>bytes. liftSum (bc_unmarker J bytes))"

definition countMarkers :: "'s redis_client \<Rightarrow> string \<Rightarrow> string \<Rightarrow> string \<Rightarrow> string \<Rightarrow> ('s world, nat) io" where
  "countMarkers R ws st sid locationName = LLen R (botMarkers ws st sid locationName)"

definition pushBotTask :: "'s redis_client \<Rightarrow> bot_codec \<Rightarrow> string \<Rightarrow> string \<Rightarrow> string \<Rightarrow> string \<Rightarrow> string \<Rightarrow> Marker list \<Rightarrow> ('s world, unit) io" where
  "pushBotTask R J ws st sid transitionName taskId markers =
     (let taskKey = botTransitionTask ws st sid transitionName taskId
      in bindE (liftSum (bc_markers J markers)) (\<lambda>jsonData.
         thenE (SetKey R taskKey jsonData 0) (SAdd R (botTaskIndex ws st sid) taskKey)))"

definition popBotTask :: "'s redis_client \<Rightarrow> bot_codec \<Rightarrow> string \<Rightarrow> string \<Rightarrow> string \<Rightarrow> string \<Rightarrow> string \<Rightarrow> ('s world, Marker list) io" where
  "popBotTask R J ws st sid transitionName taskId =
     bindE (Get R (botTransitionTask ws st sid transitionName taskId)) (\<lambda>bytes. liftSum (bc_unmarkers J bytes))"

definition pushUserEvent :: "'s redis_client \<Rightarrow> bot_codec \<Rightarrow> string \<Rightarrow> string \<Rightarrow> string \<Rightarrow> BotEvent \<Rightarrow> ('s world, unit) io" where
  "pushUserEvent R J ws st sid event =
     bindE (liftSum (bc_event J event)) (\<lambda>jsonData.
       thenE (RPush R (botEventHistory ws st sid) jsonData) (RPush R (botInputBuffer ws st sid) jsonData))"

definition popUserEvent :: "'s redis_client \<Rightarrow> bot_codec \<Rightarrow> string \<Rightarrow> string \<Rightarrow> string \<Rightarrow> ('s world, BotEvent) io" where
  "popUserEvent R J ws st sid = bindE (LPop R (botInputBuffer ws st sid)) (\<lambda>val. liftSum (bc_unevent J val))"

definition pushEvent :: "'s redis_client \<Rightarrow> bot_codec \<Rightarrow> string \<Rightarrow> string \<Rightarrow> string \<Rightarrow> BotEvent \<Rightarrow> ('s world, unit) io" where
  "pushEvent R J ws st sid event =
     bindE (liftSum (bc_event J event)) (\<lambda>jsonData.
       thenE (if be_Type event \<noteq> BotEventTypeNetworkState then RPush R (botEventHistory ws st sid) jsonData else returnE ())
             (RPush R (botEventBuffer ws st sid) jsonData))"

definition eventPairTtlS :: int where
  "eventPairTtlS = 120 * second"

definition pushEventPair :: "'s redis_client \<Rightarrow> bot_codec \<Rightarrow> string \<Rightarrow> string \<Rightarrow> string \<Rightarrow> string \<Rightarrow> BotEvent \<Rightarrow> BotEvent \<Rightarrow> ('s world, unit) io" where
  "pushEventPair R J ws st sid pairId request response =
     bindE (liftSum (bc_pair J \<lparr>bp_Request = request, bp_Response = response\<rparr>)) (\<lambda>jsonData.
       SetKey R (botEventPair ws st sid pairId) jsonData eventPairTtlS)"

definition popEvent :: "'s redis_client \<Rightarrow> bot_codec \<Rightarrow> string \<Rightarrow> string \<Rightarrow> string \<Rightarrow> ('s world, BotEvent) io" where
  "popEvent R J ws st sid = bindE (LPop R (botEventBuffer ws st sid)) (\<lambda>val. liftSum (bc_unevent J val))"

definition acquireLock :: "'s redis_client \<Rightarrow> string \<Rightarrow> string \<Rightarrow> string \<Rightarrow> ('s world, unit) io" where
  "acquireLock R ws st sid = Acquire R (botLock ws st sid) 10 0"

definition releaseLock :: "'s redis_client \<Rightarrow> string \<Rightarrow> string \<Rightarrow> string \<Rightarrow> ('s world, unit) io" where
  "releaseLock R ws st sid = Release R (botLock ws st sid)"

section \<open>One step of the net\<close>

text \<open>
  \<open>bi_Send\<close> and \<open>bi_SendAndExecute\<close> are the calls of the dispatcher with the executor, the workspace and the policy of the bot: they
  take the arguments of the task and return its id.
\<close>

record 's botInstance =
  bi_rdb :: "'s redis_client"
  bi_codec :: bot_codec
  bi_workspaceName :: string
  bi_stubId :: string
  bi_Transitions :: "BotTransitionConfig list"
  bi_Send :: "Marker list \<Rightarrow> string \<Rightarrow> string \<Rightarrow> ('s world, string) io"
  bi_SendAndExecute :: "Marker list \<Rightarrow> string \<Rightarrow> string \<Rightarrow> ('s world, string) io"

text \<open>The loop over the inputs of a transition: whether it can fire, and how many markers to take from where.\<close>

fun countInputs :: "'s botInstance \<Rightarrow> string \<Rightarrow> (string \<times> int) list \<Rightarrow> (string \<times> int) list \<Rightarrow> ('s world, bool \<times> (string \<times> int) list) io" where
  "countInputs i sid [] markersToPop = returnE (True, markersToPop)"
| "countInputs i sid ((locationName, requiredCount) # inputs) markersToPop =
     bindE (attempt (countMarkers (bi_rdb i) (bi_workspaceName i) (bi_stubId i) sid locationName)) (\<lambda>r.
       case r of
         Inl _ \<Rightarrow> countInputs i sid inputs markersToPop
       | Inr markerCount \<Rightarrow>
           if int markerCount < requiredCount then returnE (False, markersToPop)
           else countInputs i sid inputs (markersToPop @ [(locationName, requiredCount)]))"

fun popMarkers :: "'s botInstance \<Rightarrow> string \<Rightarrow> string \<Rightarrow> nat \<Rightarrow> Marker list \<Rightarrow> ('s world, Marker list) io" where
  "popMarkers i sid locationName 0 markers = returnE markers"
| "popMarkers i sid locationName (Suc n) markers =
     bindE (attempt (popMarker (bi_rdb i) (bi_codec i) (bi_workspaceName i) (bi_stubId i) sid locationName)) (\<lambda>r.
       popMarkers i sid locationName n (case r of Inl _ \<Rightarrow> markers | Inr marker \<Rightarrow> markers @ [marker]))"

fun popInputs :: "'s botInstance \<Rightarrow> string \<Rightarrow> (string \<times> int) list \<Rightarrow> Marker list \<Rightarrow> ('s world, Marker list) io" where
  "popInputs i sid [] markers = returnE markers"
| "popInputs i sid ((locationName, requiredCount) # markersToPop) markers =
     bindE (popMarkers i sid locationName (nat requiredCount) markers) (popInputs i sid markersToPop)"

definition instanceEvent :: "'s botInstance \<Rightarrow> string \<Rightarrow> string \<Rightarrow> string \<Rightarrow> (string \<times> string) list \<Rightarrow> ('s world, unit) io" where
  "instanceEvent i sid ty val metadata =
     thenE (attempt (pushEvent (bi_rdb i) (bi_codec i) (bi_workspaceName i) (bi_stubId i) sid
                       \<lparr>be_Type = ty, be_Value = val, be_Metadata = metadata, be_PairId = []\<rparr>)) (returnE ())"

definition handleTransitionFailed :: "'s botInstance \<Rightarrow> string \<Rightarrow> string \<Rightarrow> goerror \<Rightarrow> ('s world, unit) io" where
  "handleTransitionFailed i sid transitionName err =
     instanceEvent i sid BotEventTypeTransitionFailed transitionName
       [(MetadataSessionId, sid), (MetadataTransitionName, transitionName), (MetadataErrorMsg, bc_error (bi_codec i) err)]"

definition dispatchTransition :: "'s botInstance \<Rightarrow> string \<Rightarrow> BotTransitionConfig \<Rightarrow> Marker list \<Rightarrow> ('s world, unit) io" where
  "dispatchTransition i sid transition markers =
     bindE (tryE ((if tr_Confirm transition then bi_Send i else bi_SendAndExecute i) markers sid (tr_Name transition))) (\<lambda>r.
       case r of
         Inl err \<Rightarrow> handleTransitionFailed i sid (tr_Name transition) err
       | Inr taskId \<Rightarrow>
           instanceEvent i sid (if tr_Confirm transition then BotEventTypeConfirmTransition else BotEventTypeTransitionFired) (tr_Name transition)
             [(MetadataSessionId, sid), (MetadataTransitionName, tr_Name transition), (MetadataTaskId, taskId)])"

definition fireTransition :: "'s botInstance \<Rightarrow> string \<Rightarrow> BotTransitionConfig \<Rightarrow> ('s world, unit) io" where
  "fireTransition i sid transition =
     (if length (tr_Inputs transition) = 0 then returnE ()
      else bindE (countInputs i sid (tr_Inputs transition) []) (\<lambda>(canFire, markersToPop).
             if canFire then bindE (popInputs i sid markersToPop []) (dispatchTransition i sid transition) else returnE ()))"

definition botStep :: "'s botInstance \<Rightarrow> string \<Rightarrow> ('s world, unit) io" where
  "botStep i sid =
     bindE (attempt (acquireLock (bi_rdb i) (bi_workspaceName i) (bi_stubId i) sid)) (\<lambda>r.
       case r of
         Inl _ \<Rightarrow> returnE ()
       | Inr _ \<Rightarrow> deferring (releaseLock (bi_rdb i) (bi_workspaceName i) (bi_stubId i) sid) (forE (fireTransition i sid) (bi_Transitions i)))"

section \<open>Tasks and the service\<close>

text \<open>
  \<open>get\<close> is \<open>getOrCreateBotInstance\<close> of a stub; \<open>mapstructure.Decode\<close> of the markers is part of \<open>unmarshal\<close>; \<open>run\<close> starts the
  container of a transition.
\<close>

type_synonym 's bot_instances = "string \<Rightarrow> ('s world, 's botInstance) io"

definition botExecute :: "'s bot_instances \<Rightarrow> 's task_backend \<Rightarrow> (string \<Rightarrow> string \<Rightarrow> string \<Rightarrow> ('s world, unit) io) \<Rightarrow> TaskMessage \<Rightarrow> ('s world, unit) io" where
  "botExecute get B run m =
     bindE (get (tm_StubId m)) (\<lambda>i.
     thenE (tb_CreateTask B (tm_TaskId m))
       (case (map_of (tm_Kwargs m) ''transition_name'', map_of (tm_Kwargs m) ''session_id'') of
          (Some transitionName, Some sid) \<Rightarrow>
            (case map_of (tm_Kwargs m) ''markers'' of
               None \<Rightarrow> throwE (ErrNew ''invalid markers format'')
             | Some raw \<Rightarrow>
                 bindE (liftSum (bc_unmarkers (bi_codec i) raw)) (\<lambda>markers.
                   thenE (pushBotTask (bi_rdb i) (bi_codec i) (bi_workspaceName i) (bi_stubId i) sid transitionName (tm_TaskId m) markers)
                         (run transitionName sid (tm_TaskId m))))
        | _ \<Rightarrow> throwE (Panic ''interface conversion'')))"

definition botRetry :: "TaskMessage \<Rightarrow> ('s world, unit) io" where
  "botRetry m = throwE (ErrNew ''retry not implemented'')"

definition botHeartBeat :: "TaskMessage \<Rightarrow> ('s world, bool) io" where
  "botHeartBeat m = returnE True"

definition botCancel :: "'s task_backend \<Rightarrow> TaskMessage \<Rightarrow> string \<Rightarrow> ('s world, unit) io" where
  "botCancel B m reason =
     bindE (tb_GetTask B (tm_TaskId m)) (\<lambda>task.
       tb_UpdateTask B (tm_TaskId m) (task\<lparr>dt_Status := if reason = TaskExpired then TaskStatusExpired else TaskStatusError\<rparr>))"

definition botTaskFactory :: "'s bot_instances \<Rightarrow> 's task_backend \<Rightarrow> (string \<Rightarrow> string \<Rightarrow> string \<Rightarrow> ('s world, unit) io) \<Rightarrow> 's task_factory" where
  "botTaskFactory get B run m = returnE
     \<lparr>tk_Message = m,
      tk_Metadata = \<lparr>md_TaskId = tm_TaskId m, md_StubId = tm_StubId m, md_WorkspaceName = tm_WorkspaceName m, md_ContainerId = []\<rparr>,
      tk_Execute = botExecute get B run, tk_Cancel = botCancel B, tk_Retry = botRetry, tk_HeartBeat = botHeartBeat\<rparr>"

definition getDefaultTaskPolicy :: "int \<Rightarrow> TaskPolicy" where
  "getDefaultTaskPolicy now = \<lparr>tp_MaxRetries = 0, tp_Timeout = 3600, tp_Expires = now + 3600 * second, tp_TTL = 3600\<rparr>"

definition ExecutorBot :: string where
  "ExecutorBot = ''bot''"

text \<open>The two calls of the dispatcher in \<open>step\<close>, with the payload of the transition.\<close>

definition transitionKwargs :: "bot_codec \<Rightarrow> Marker list \<Rightarrow> string \<Rightarrow> string \<Rightarrow> goerror + (string \<times> string) list" where
  "transitionKwargs J markers sid name =
     (case bc_markers J markers of
        Inl e \<Rightarrow> Inl e
      | Inr ms \<Rightarrow> Inr [(''markers'', ms), (''session_id'', sid), (''transition_name'', name)])"

definition sendTransition :: "'s Dispatcher \<Rightarrow> bot_codec \<Rightarrow> string \<Rightarrow> int \<Rightarrow> string \<Rightarrow> string \<Rightarrow> Marker list \<Rightarrow> string \<Rightarrow> string \<Rightarrow> ('s world, string) io" where
  "sendTransition d J newId now ws st markers sid name =
     bindE (liftSum (transitionKwargs J markers sid name)) (\<lambda>kwargs.
     bindE (DispatcherSend d newId now ExecutorBot ws st [] kwargs (getDefaultTaskPolicy now)) (\<lambda>t. returnE (md_TaskId (tk_Metadata t))))"

definition sendAndExecuteTransition :: "'s Dispatcher \<Rightarrow> bot_codec \<Rightarrow> string \<Rightarrow> int \<Rightarrow> string \<Rightarrow> string \<Rightarrow> Marker list \<Rightarrow> string \<Rightarrow> string \<Rightarrow> ('s world, string) io" where
  "sendAndExecuteTransition d J newId now ws st markers sid name =
     bindE (liftSum (transitionKwargs J markers sid name)) (\<lambda>kwargs.
     bindE (SendAndExecute d newId now ExecutorBot ws st [] kwargs (getDefaultTaskPolicy now)) (\<lambda>t. returnE (md_TaskId (tk_Metadata t))))"

text \<open>\<open>PushBotMarkers\<close>: errors are logged.\<close>

definition PushBotMarkers :: "'s bot_instances \<Rightarrow> string \<Rightarrow> string \<Rightarrow> string \<Rightarrow> (string \<times> Marker list) list \<Rightarrow> ('s world, bool) io" where
  "PushBotMarkers get stubId sid sourceTaskId markers =
     orElse False (get stubId) (\<lambda>i.
     thenE (forE (\<lambda>(locationName, marker).
                    thenE (attempt (pushMarker (bi_rdb i) (bi_codec i) (bi_workspaceName i) (bi_stubId i) sid locationName
                                      (marker\<lparr>mk_SourceTaskId := sourceTaskId\<rparr>))) (returnE ()))
                 (concat (map (\<lambda>(locationName, ms). map (Pair locationName) ms) markers)))
           (returnE True))"

definition groupMarkers :: "Marker list \<Rightarrow> (string \<times> Marker list) list" where
  "groupMarkers markers =
     fold (\<lambda>m g. AList.update (mk_LocationName m) ((case map_of g (mk_LocationName m) of None \<Rightarrow> [] | Some ms \<Rightarrow> ms) @ [m\<lparr>mk_SourceTaskId := []\<rparr>]) g) markers []"

definition PopBotTask :: "'s bot_instances \<Rightarrow> string \<Rightarrow> string \<Rightarrow> string \<Rightarrow> string \<Rightarrow> ('s world, (string \<times> Marker list) list option) io" where
  "PopBotTask get stubId sid transitionName taskId =
     orElse None (get stubId) (\<lambda>i.
     orElse None (popBotTask (bi_rdb i) (bi_codec i) (bi_workspaceName i) (bi_stubId i) sid transitionName taskId) (\<lambda>markers.
       returnE (Some (groupMarkers markers))))"

definition PushBotEvent :: "'s bot_instances \<Rightarrow> string \<Rightarrow> string \<Rightarrow> BotEvent \<Rightarrow> ('s world, bool) io" where
  "PushBotEvent get stubId sid event =
     orElse False (get stubId) (\<lambda>i.
     orElse False (pushEvent (bi_rdb i) (bi_codec i) (bi_workspaceName i) (bi_stubId i) sid (event\<lparr>be_PairId := []\<rparr>)) (\<lambda>_. returnE True))"

section \<open>Container ids\<close>

record botContainer =
  bt_StubId :: string
  bt_SessionId :: string
  bt_ContainerId :: string

definition parseContainerId :: "string \<Rightarrow> goerror + botContainer" where
  "parseContainerId containerId =
     (let parts = Split CHR ''-'' containerId
      in if length parts < 8 then Inl (ErrNew ''invalid container id'')
         else Inr \<lparr>bt_StubId = Join ''-'' (take 5 (drop 2 parts)), bt_SessionId = parts ! 7, bt_ContainerId = containerId\<rparr>)"

definition genContainerId :: "string \<Rightarrow> string \<Rightarrow> string \<Rightarrow> string \<Rightarrow> string" where
  "genContainerId uuid botContainerType stubId sid = Join ''-'' [''bot'', botContainerType, stubId, sid, uuid]"

definition containersBySessionId :: "'s redis_client \<Rightarrow> string \<Rightarrow> ('s world, (string \<times> string list) list) io" where
  "containersBySessionId R stubId =
     bindE (GetActiveContainersByStubId R stubId) (\<lambda>containers.
       returnE (fold (\<lambda>c g. case parseContainerId (cs_ContainerId c) of
                              Inl _ \<Rightarrow> g
                            | Inr b \<Rightarrow> AList.update (bt_SessionId b) ((case map_of g (bt_SessionId b) of None \<Rightarrow> [] | Some ids \<Rightarrow> ids) @ [bt_ContainerId b]) g)
                     containers []))"

section \<open>The net\<close>

text \<open>A marking of the net, and a transition that fires if every input location has as many markers as it asks for.\<close>

type_synonym marking = "string \<Rightarrow> Marker list"

definition enabled :: "BotTransitionConfig \<Rightarrow> marking \<Rightarrow> bool" where
  "enabled t M \<longleftrightarrow> tr_Inputs t \<noteq> [] \<and> (\<forall>(l, n) \<in> set (tr_Inputs t). n \<le> int (length (M l)))"

definition takes :: "(string \<times> int) list \<Rightarrow> string \<Rightarrow> nat" where
  "takes ins l = (case map_of ins l of None \<Rightarrow> 0 | Some n \<Rightarrow> nat n)"

definition fire :: "BotTransitionConfig \<Rightarrow> marking \<Rightarrow> marking" where
  "fire t M = (if enabled t M then (\<lambda>l. drop (takes (tr_Inputs t) l) (M l)) else M)"

definition taken :: "(string \<times> int) list \<Rightarrow> marking \<Rightarrow> Marker list" where
  "taken ins M = concat (map (\<lambda>(l, n). take (nat n) (M l)) ins)"

text \<open>The markers of a session as they are stored.\<close>

definition stored_marking :: "('s \<Rightarrow> keyspace) \<Rightarrow> 's botInstance \<Rightarrow> string \<Rightarrow> 's world \<Rightarrow> marking \<Rightarrow> bool" where
  "stored_marking view i sid w M \<longleftrightarrow>
     (\<forall>l. \<exists>xs. view (rdb w) (botMarkers (bi_workspaceName i) (bi_stubId i) sid l) = putList xs \<and> map (bc_unmarker (bi_codec i)) xs = map Inr (M l))"

lemma bot_keys_differ [simp]:
  "botMarkers ws st sid l = botMarkers ws st sid l' \<longleftrightarrow> l = l'"
  "botLock ws st sid' \<noteq> botMarkers ws st sid l" "botMarkers ws st sid l \<noteq> botLock ws st sid'"
  "botEventHistory ws st sid' \<noteq> botMarkers ws st sid l" "botMarkers ws st sid l \<noteq> botEventHistory ws st sid'"
  "botEventBuffer ws st sid' \<noteq> botMarkers ws st sid l" "botMarkers ws st sid l \<noteq> botEventBuffer ws st sid'"
  "botTransitionTask ws st sid' n t \<noteq> botMarkers ws st sid l" "botTaskIndex ws st sid' \<noteq> botMarkers ws st sid l"
  by (simp_all add: bot_key_defs)

text \<open>Programs that do not panic.\<close>

definition calm :: "('s, 'a) io \<Rightarrow> bool" where
  "calm m \<longleftrightarrow> (\<forall>w. wp m (\<lambda>_ _. True) (\<lambda>e _. \<forall>p. e \<noteq> Panic p) w)"

lemma calm_intros:
  "calm (returnE a)"
  "(\<And>p. e \<noteq> Panic p) \<Longrightarrow> calm (throwE e)"
  "calm m \<Longrightarrow> (\<And>a. calm (f a)) \<Longrightarrow> calm (bindE m f)"
  "calm m \<Longrightarrow> calm n \<Longrightarrow> calm (thenE m n)"
  "(\<And>e p. r = Inl e \<Longrightarrow> e \<noteq> Panic p) \<Longrightarrow> calm (liftSum r)"
  by (auto simp: calm_def wp_eqs liftSum_def elim!: allE intro: wp_mono split: sum.splits)

lemma calm_attempt: "calm (attempt m)"
  unfolding calm_def wp_attempt by (auto intro: wpI)

lemma calm_wrapE: "calm m \<Longrightarrow> calm (wrapE msg m)"
  unfolding calm_def wp_wrapE by (auto intro: wpI)

lemma calm_attempt_bind:
  assumes m: "calm m" and ok: "\<And>a. calm (f (Inr a))" and err: "\<And>e. \<forall>p. e \<noteq> Panic p \<Longrightarrow> calm (f (Inl e))"
  shows "calm (bindE (attempt m) f)"
  unfolding calm_def wp_bindE wp_attempt
proof
  fix w
  show "wp m (\<lambda>a. wp (f (Inr a)) (\<lambda>_ _. True) (\<lambda>e _. \<forall>p. e \<noteq> Panic p)) (\<lambda>e. wp (f (Inl e)) (\<lambda>_ _. True) (\<lambda>e _. \<forall>p. e \<noteq> Panic p)) w"
    by (rule wp_mono [OF m [unfolded calm_def, rule_format, of w]]) (use ok err in \<open>auto simp: calm_def\<close>)
qed

text \<open>What the step needs of the calls that dispatch a transition's task: they leave the markers alone and do not panic.\<close>

locale transition_tasks = redis_up R view for R :: "'s redis_client" and view :: "'s \<Rightarrow> keyspace" +
  fixes i :: "'s botInstance" and sid :: string
  assumes i_rdb: "bi_rdb i = R"
    and send_keeps: "keeps view (botMarkers (bi_workspaceName i) (bi_stubId i) sid l) (bi_Send i ms sid name)"
    and execute_keeps: "keeps view (botMarkers (bi_workspaceName i) (bi_stubId i) sid l) (bi_SendAndExecute i ms sid name)"
    and send_calm: "calm (bi_Send i ms sid name)"
    and execute_calm: "calm (bi_SendAndExecute i ms sid name)"
begin

lemma stored_same: "stored_marking view i sid w M \<Longrightarrow> V w' = V w \<Longrightarrow> stored_marking view i sid w' M"
  by (simp add: stored_marking_def)

lemma stored_keeps:
  assumes "stored_marking view i sid w M" "\<And>l. keeps view (botMarkers (bi_workspaceName i) (bi_stubId i) sid l) m" "m w = (r, w')"
  shows "stored_marking view i sid w' M"
  using assms(1) keepsD [OF assms(2,3)] by (simp add: stored_marking_def)

lemma up_countMarkers:
  assumes "stored_marking view i sid w M" "\<And>w'. stored_marking view i sid w' M \<Longrightarrow> Q (length (M l)) w'"
  shows "wp (countMarkers (bi_rdb i) (bi_workspaceName i) (bi_stubId i) sid l) Q E w"
proof -
  obtain xs where xs: "V w (botMarkers (bi_workspaceName i) (bi_stubId i) sid l) = putList xs" "length xs = length (M l)"
    using assms(1) unfolding stored_marking_def by (metis length_map)
  show ?thesis unfolding countMarkers_def i_rdb
    by (rule up_LLen) (use xs assms stored_same in auto)
qed

lemma up_countInputs:
  "stored_marking view i sid w M \<Longrightarrow>
   wp (countInputs i sid ins acc) (\<lambda>(ok, pop) w'. stored_marking view i sid w' M \<and> ok = (\<forall>(l, n) \<in> set ins. n \<le> int (length (M l))) \<and> (ok \<longrightarrow> pop = acc @ ins))
     (\<lambda>_ _. False) w"
proof (induction ins arbitrary: acc w)
  case Nil
  then show ?case by (simp add: wp_eqs)
next
  case (Cons ln ins)
  obtain l n where ln: "ln = (l, n)" by fastforce
  show ?case unfolding ln countInputs.simps wp_bindE wp_attempt
  proof (rule up_countMarkers [OF Cons.prems])
    fix w' assume w': "stored_marking view i sid w' M"
    show "wp (case Inr (length (M l)) of Inl _ \<Rightarrow> countInputs i sid ins acc
          | Inr markerCount \<Rightarrow> if int markerCount < n then returnE (False, acc) else countInputs i sid ins (acc @ [(l, n)]))
        (\<lambda>(ok, pop) w'. stored_marking view i sid w' M \<and> ok = (\<forall>(l, n) \<in> set ((l, n) # ins). n \<le> int (length (M l))) \<and> (ok \<longrightarrow> pop = acc @ (l, n) # ins))
        (\<lambda>_ _. False) w'"
    proof (cases "int (length (M l)) < n")
      case True
      then show ?thesis using w' by (simp add: wp_eqs)
    next
      case False
      then show ?thesis using wp_mono [OF Cons.IH [OF w', of "acc @ [(l, n)]"]] by (auto simp: split_beta)
    qed
  qed
qed

lemma stored_pop:
  assumes "stored_marking view i sid w M" "M l = m # ms"
    and "\<And>w'. stored_marking view i sid w' (M(l := ms)) \<Longrightarrow> Q m w'"
  shows "wp (popMarker (bi_rdb i) (bi_codec i) (bi_workspaceName i) (bi_stubId i) sid l) Q E w"
proof -
  let ?k = "botMarkers (bi_workspaceName i) (bi_stubId i) sid"
  obtain xs where xs: "V w (?k l) = putList xs" "map (bc_unmarker (bi_codec i)) xs = map Inr (m # ms)"
    using assms(1,2) unfolding stored_marking_def by metis
  then obtain y ys where ys: "xs = y # ys" "bc_unmarker (bi_codec i) y = Inr m" "map (bc_unmarker (bi_codec i)) ys = map Inr ms" by auto
  show ?thesis unfolding popMarker_def wp_bindE i_rdb
  proof (rule up_LPop)
    show "isList (V w (?k l))" "listOf (V w (?k l)) \<noteq> []" using xs(1) ys(1) by simp_all
    fix w' assume w': "V w' = (V w)(?k l := putList (tl (listOf (V w (?k l)))))"
    have "stored_marking view i sid w' (M(l := ms))"
      unfolding stored_marking_def
    proof
      fix l'
      show "\<exists>xs. V w' (?k l') = putList xs \<and> map (bc_unmarker (bi_codec i)) xs = map Inr ((M(l := ms)) l')"
        using assms(1) w' xs(1) ys by (cases "l' = l") (auto simp: stored_marking_def)
    qed
    then show "wp (liftSum (bc_unmarker (bi_codec i) (hd (listOf (V w (?k l)))))) Q E w'"
      using xs(1) ys(1,2) by (simp add: liftSum_def wp_eqs assms(3))
  qed
qed

lemma up_popMarkers:
  "stored_marking view i sid w M \<Longrightarrow> n \<le> length (M l) \<Longrightarrow>
   wp (popMarkers i sid l n acc) (\<lambda>ms w'. ms = acc @ take n (M l) \<and> stored_marking view i sid w' (M(l := drop n (M l)))) (\<lambda>_ _. False) w"
proof (induction n arbitrary: acc w M)
  case 0
  then show ?case by (simp add: wp_eqs)
next
  case (Suc n acc w M)
  then obtain m ms where m: "M l = m # ms" by (cases "M l") auto
  show ?case unfolding popMarkers.simps wp_bindE wp_attempt
  proof (rule stored_pop [OF Suc.prems(1) m])
    fix w' assume w': "stored_marking view i sid w' (M(l := ms))"
    have "(M(l := ms)) l = ms" "(M(l := ms))(l := drop n ms) = M(l := drop n ms)" by simp_all
    with Suc.IH [OF w', of "acc @ [m]"]
    have "n \<le> length ms \<Longrightarrow> wp (popMarkers i sid l n (acc @ [m])) (\<lambda>ms' w'. ms' = (acc @ [m]) @ take n ms \<and> stored_marking view i sid w' (M(l := drop n ms))) (\<lambda>_ _. False) w'"
      by metis
    with Suc.prems(2) m
    show "wp (popMarkers i sid l n (case Inr m of Inl _ \<Rightarrow> acc | Inr marker \<Rightarrow> acc @ [marker]))
        (\<lambda>ms w'. ms = acc @ take (Suc n) (M l) \<and> stored_marking view i sid w' (M(l := drop (Suc n) (M l)))) (\<lambda>_ _. False) w'"
      by simp
  qed
qed

lemma up_popInputs:
  "stored_marking view i sid w M \<Longrightarrow> distinct (map fst ins) \<Longrightarrow> \<forall>(l, n) \<in> set ins. n \<le> int (length (M l)) \<Longrightarrow>
   wp (popInputs i sid ins acc) (\<lambda>ms w'. ms = acc @ taken ins M \<and> stored_marking view i sid w' (\<lambda>l. drop (takes ins l) (M l))) (\<lambda>_ _. False) w"
proof (induction ins arbitrary: acc w M)
  case Nil
  then show ?case by (simp add: wp_eqs taken_def takes_def)
next
  case (Cons ln ins)
  obtain l n where ln: "ln = (l, n)" by fastforce
  define M' where "M' = M(l := drop (nat n) (M l))"
  have rest: "taken ins M' = taken ins M" "(\<lambda>l'. drop (takes ins l') (M' l')) = (\<lambda>l'. drop (takes (ln # ins) l') (M l'))"
    "\<forall>(l', n') \<in> set ins. n' \<le> int (length (M' l'))"
    using Cons.prems(2,3) by (auto simp: ln M'_def taken_def takes_def fun_eq_iff map_of_eq_None_iff [symmetric] intro!: arg_cong [of _ _ concat])
  have step: "wp (popMarkers i sid l (nat n) acc) (\<lambda>ms w'. ms = acc @ take (nat n) (M l) \<and> stored_marking view i sid w' M') (\<lambda>_ _. False) w"
    unfolding M'_def by (rule up_popMarkers [OF Cons.prems(1)]) (use Cons.prems(3) ln in auto)
  show ?case unfolding ln popInputs.simps wp_bindE
  proof (rule wp_mono [OF step])
    fix ms w' assume ms: "ms = acc @ take (nat n) (M l) \<and> stored_marking view i sid w' M'"
    have "wp (popInputs i sid ins ms) (\<lambda>ms' w'. ms' = ms @ taken ins M' \<and> stored_marking view i sid w' (\<lambda>l. drop (takes ins l) (M' l))) (\<lambda>_ _. False) w'"
      by (rule Cons.IH) (use ms Cons.prems(2) rest(3) in auto)
    then show "wp (popInputs i sid ins ms) (\<lambda>ms w'. ms = acc @ taken ((l, n) # ins) M \<and> stored_marking view i sid w' (\<lambda>l'. drop (takes ((l, n) # ins) l') (M l'))) (\<lambda>_ _. False) w'"
      using ms rest(1,2) by (auto simp: ln taken_def elim!: wp_mono)
  qed simp
qed

lemma keeps_instanceEvent: "keeps view (botMarkers (bi_workspaceName i) (bi_stubId i) sid l) (instanceEvent i sid ty val md)"
  unfolding instanceEvent_def pushEvent_def i_rdb by (auto intro!: keeps_intros)

lemma up_dispatchTransition:
  assumes "stored_marking view i sid w M"
  shows "wp (dispatchTransition i sid t ms) (\<lambda>_ w'. stored_marking view i sid w' M) (\<lambda>_ _. False) w"
proof -
  let ?m = "(if tr_Confirm t then bi_Send i else bi_SendAndExecute i) ms sid (tr_Name t)"
  have keep: "keeps view (botMarkers (bi_workspaceName i) (bi_stubId i) sid l) ?m" for l by (simp add: send_keeps execute_keeps)
  have calm: "calm ?m" by (simp add: send_calm execute_calm)
  have events: "wp (instanceEvent i sid ty val md) (\<lambda>_ w'. stored_marking view i sid w' M) (\<lambda>_ _. False) w'" if "stored_marking view i sid w' M" for ty val md w'
  proof (rule wpI)
    fix a w2 assume "instanceEvent i sid ty val md w' = (Inr a, w2)"
    then show "stored_marking view i sid w2 M" by (rule stored_keeps [OF that keeps_instanceEvent])
  qed (auto simp: instanceEvent_def thenE_def bindE_def attempt_def returnE_def split: prod.splits)
  show ?thesis unfolding dispatchTransition_def wp_bindE
  proof (rule wp_tryE_no_panic, rule wpI, goal_cases)
    case (1 taskId w')
    show ?case unfolding sum.case by (rule events [OF stored_keeps [OF assms keep 1]])
  next
    case (2 e w')
    have "\<forall>p. e \<noteq> Panic p" using calm 2 by (auto simp: calm_def wp_def dest!: spec [of _ w])
    then show ?case unfolding sum.case handleTransitionFailed_def by (intro conjI events stored_keeps [OF assms keep 2])
  qed
qed

text \<open>A transition that is enabled takes its markers and dispatches its task with these; another one does nothing.\<close>

lemma fire_enabled:
  assumes "stored_marking view i sid w M" "distinct (map fst (tr_Inputs t))" "enabled t M"
  shows "\<exists>w'. stored_marking view i sid w' (fire t M) \<and> fireTransition i sid t w = dispatchTransition i sid t (taken (tr_Inputs t) M) w'"
proof -
  note en = assms(3) [unfolded enabled_def]
  obtain r w1 where 1: "countInputs i sid (tr_Inputs t) [] w = (Inr r, w1)" and "case r of (ok, pop) \<Rightarrow> stored_marking view i sid w1 M \<and>
      ok = (\<forall>(l, n) \<in> set (tr_Inputs t). n \<le> int (length (M l))) \<and> (ok \<longrightarrow> pop = [] @ tr_Inputs t)"
    using wp_success [OF up_countInputs [OF assms(1), of "tr_Inputs t" "[]"]] by blast
  then have r: "r = (True, tr_Inputs t)" and w1: "stored_marking view i sid w1 M" using en by (cases r; simp)+
  obtain ms w2 where 2: "popInputs i sid (tr_Inputs t) [] w1 = (Inr ms, w2)" "ms = [] @ taken (tr_Inputs t) M"
      "stored_marking view i sid w2 (\<lambda>l. drop (takes (tr_Inputs t) l) (M l))"
    using wp_success [OF up_popInputs [OF w1 assms(2) conjunct2 [OF en], of "[]"]] by blast
  have "fireTransition i sid t w = dispatchTransition i sid t (taken (tr_Inputs t) M) w2"
    using conjunct1 [OF en] 2(2) by (simp add: fireTransition_def bindE_def 1 r 2(1))
  then show ?thesis using 2(3) assms(3) by (auto simp: fire_def)
qed

lemma fire_disabled:
  assumes "stored_marking view i sid w M" "\<not> enabled t M"
  shows "\<exists>w'. stored_marking view i sid w' M \<and> fireTransition i sid t w = (Inr (), w')"
proof (cases "tr_Inputs t = []")
  case True
  then show ?thesis using assms(1) by (auto simp: fireTransition_def returnE_def)
next
  case False
  obtain r w1 where 1: "countInputs i sid (tr_Inputs t) [] w = (Inr r, w1)" and "case r of (ok, pop) \<Rightarrow> stored_marking view i sid w1 M \<and>
      ok = (\<forall>(l, n) \<in> set (tr_Inputs t). n \<le> int (length (M l))) \<and> (ok \<longrightarrow> pop = [] @ tr_Inputs t)"
    using wp_success [OF up_countInputs [OF assms(1), of "tr_Inputs t" "[]"]] by blast
  moreover obtain ok pop where r: "r = (ok, pop)" by fastforce
  ultimately have "\<not> ok" "stored_marking view i sid w1 M" using assms(2) False by (simp_all add: enabled_def)
  then show ?thesis using False 1 by (auto simp: fireTransition_def bindE_def returnE_def r)
qed

lemma up_fireTransition:
  assumes "stored_marking view i sid w M" "distinct (map fst (tr_Inputs t))"
  shows "wp (fireTransition i sid t) (\<lambda>_ w'. stored_marking view i sid w' (fire t M)) (\<lambda>_ _. False) w"
proof (cases "enabled t M")
  case True
  then obtain w' where w': "stored_marking view i sid w' (fire t M)" "fireTransition i sid t w = dispatchTransition i sid t (taken (tr_Inputs t) M) w'"
    using fire_enabled [OF assms] by blast
  show ?thesis using up_dispatchTransition [OF w'(1)] by (simp add: wp_def w'(2))
next
  case False
  then show ?thesis using fire_disabled [OF assms(1) False] by (auto simp: wp_def fire_def)
qed

lemma up_transitions:
  "stored_marking view i sid w M \<Longrightarrow> \<forall>t \<in> set ts. distinct (map fst (tr_Inputs t)) \<Longrightarrow>
   wp (forE (fireTransition i sid) ts) (\<lambda>_ w'. stored_marking view i sid w' (fold fire ts M)) (\<lambda>_ _. False) w"
proof (induction ts arbitrary: w M)
  case (Cons t ts)
  show ?case unfolding wp_forE_Cons
    by (rule wp_mono [OF up_fireTransition [OF Cons.prems(1), of t]]) (use Cons in auto)
qed (simp add: wp_eqs)

text \<open>A step that gets the lock is a step of the net, and gives the lock back.\<close>

lemma up_botStep:
  assumes "stored_marking view i sid w M" "\<forall>t \<in> set (bi_Transitions i). distinct (map fst (tr_Inputs t))"
    and "view (rdb w) (botLock (bi_workspaceName i) (bi_stubId i) sid) = None"
  shows "wp (botStep i sid) (\<lambda>_ w'. stored_marking view i sid w' (fold fire (bi_Transitions i) M)) (\<lambda>_ _. False) w"
  unfolding botStep_def wp_bindE wp_attempt acquireLock_def i_rdb
proof (rule up_Acquire [OF assms(3)])
  fix tok and w1 :: "'s world"
  assume "V w1 = (V w)(botLock (bi_workspaceName i) (bi_stubId i) sid \<mapsto> RStr tok)"
  then have w1: "stored_marking view i sid w1 M" using assms(1) by (simp add: stored_marking_def)
  have keep: "keeps view (botMarkers (bi_workspaceName i) (bi_stubId i) sid l) (releaseLock R (bi_workspaceName i) (bi_stubId i) sid)" for l
    by (auto simp: releaseLock_def intro!: keeps_intros)
  show "wp (case Inr () of Inl _ \<Rightarrow> returnE () | Inr _ \<Rightarrow> deferring (releaseLock R (bi_workspaceName i) (bi_stubId i) sid) (forE (fireTransition i sid) (bi_Transitions i)))
      (\<lambda>_ w'. stored_marking view i sid w' (fold fire (bi_Transitions i) M)) (\<lambda>_ _. False) w1"
    unfolding sum.case wp_deferring
    by (rule wp_mono [OF up_transitions [OF w1 assms(2)]]) (auto intro: wpI stored_keeps [OF _ keep])
qed

end

section \<open>The dispatcher behind the net\<close>

text \<open>
  The instance of a bot calls the dispatcher, with the executor that the service registers. The locale holds what is used of
  the server, the database and \<open>run\<close>, which starts a container: no panics, and no writes to the markers of the session. It gives
  the contract of the step.
\<close>

definition botInstanceOn :: "'s Dispatcher \<Rightarrow> bot_codec \<Rightarrow> string \<Rightarrow> int \<Rightarrow> string \<Rightarrow> string \<Rightarrow> BotTransitionConfig list \<Rightarrow> 's botInstance" where
  "botInstanceOn d J newId now ws st transitions =
     \<lparr>bi_rdb = d_rdb d, bi_codec = J, bi_workspaceName = ws, bi_stubId = st, bi_Transitions = transitions,
      bi_Send = sendTransition d J newId now ws st, bi_SendAndExecute = sendAndExecuteTransition d J newId now ws st\<rparr>"

lemma task_keys_no_markers [simp]:
  "TaskIndex \<noteq> botMarkers ws st sid l" "TaskEntry a b c \<noteq> botMarkers ws st sid l" "TaskIndexByStub a b \<noteq> botMarkers ws st sid l"
  "TaskClaimIndex a b \<noteq> botMarkers ws st sid l" "TaskClaim a b c \<noteq> botMarkers ws st sid l"
  by (simp_all add: bot_key_defs key_eqs)

locale bot_dispatch = redis_up R view for R :: "'s redis_client" and view :: "'s \<Rightarrow> keyspace" +
  fixes d :: "'s Dispatcher" and J :: bot_codec and ws st sid :: string and B :: "'s task_backend"
    and run :: "string \<Rightarrow> string \<Rightarrow> string \<Rightarrow> ('s world, unit) io" and get :: "'s bot_instances" and i0 :: "'s botInstance"
  assumes dispatcher_rdb: "d_rdb d = R"
    and registered: "SafeMap_Get ExecutorBot (d_executors d) = Some (botTaskFactory get B run)"
    and instance_found: "get st = returnE i0" "bi_rdb i0 = R" "bi_workspaceName i0 = ws" "bi_stubId i0 = st" "bi_codec i0 = J"
    and create_keeps: "keeps view (botMarkers ws st sid l) (tb_CreateTask B t)" and create_calm: "calm (tb_CreateTask B t)"
    and run_keeps: "keeps view (botMarkers ws st sid l) (run n s t)" and run_calm: "calm (run n s t)"
    and commands_calm: "calm (SAdd R k x)" "calm (SetKey R k x ttl)"
    and codecs_calm: "bc_markers J ms \<noteq> Inl (Panic p)" "bc_unmarkers J x \<noteq> Inl (Panic p)" "Encode (d_codec d) m \<noteq> Inl (Panic p)"
begin

lemma keeps_SetTaskState: "keeps view (botMarkers ws st sid l) (SetTaskState R a b c x)"
  unfolding SetTaskState_def DeleteTaskState_def Let_def by (auto intro!: keeps_intros)

lemma calm_SetTaskState: "calm (SetTaskState R a b c x)"
  unfolding SetTaskState_def Let_def
  by (intro calm_intros(4) calm_wrapE commands_calm calm_attempt_bind) (auto intro!: calm_intros(1,2,4) calm_attempt calm_wrapE commands_calm)

lemma execute_found: "bindE (returnE i0) f = f i0"
  by (simp add: bindE_def returnE_def fun_eq_iff)

lemma keeps_botExecute:
  assumes "tm_StubId m = st"
  shows "keeps view (botMarkers ws st sid l) (botExecute get B run m)"
  unfolding botExecute_def pushBotTask_def Let_def assms instance_found execute_found
  by (auto intro!: keeps_intros create_keeps run_keeps split: option.splits)

lemma calm_botExecute:
  assumes "tm_Kwargs m = [(''markers'', x), (''session_id'', s), (''transition_name'', n)]" "tm_StubId m = st"
  shows "calm (botExecute get B run m)"
  unfolding botExecute_def pushBotTask_def Let_def assms instance_found execute_found
  by (auto simp: codecs_calm intro!: calm_intros create_calm run_calm commands_calm)

lemma keeps_DispatcherSend: "keeps view (botMarkers ws st sid l) (DispatcherSend d newId now ExecutorBot ws st args kwargs pol)"
  unfolding DispatcherSend_def Let_def registered option.case dispatcher_rdb botTaskFactory_def
  by (auto intro!: keeps_intros keeps_SetTaskState)

lemma calm_DispatcherSend: "calm (DispatcherSend d newId now ExecutorBot ws st args kwargs pol)"
  unfolding DispatcherSend_def Let_def registered option.case dispatcher_rdb botTaskFactory_def
  by (auto simp: codecs_calm intro!: calm_intros calm_SetTaskState)

text \<open>The task that \<open>Send\<close> returns is the one that the bot's factory made of the message.\<close>

lemma DispatcherSend_task:
  assumes "DispatcherSend d newId now ExecutorBot ws st args kwargs pol w = (Inr t, w')"
  shows "tk_Execute t = botExecute get B run" "tm_Kwargs (tk_Message t) = kwargs \<and> tm_StubId (tk_Message t) = st"
proof -
  have "wp (DispatcherSend d newId now ExecutorBot ws st args kwargs pol)
      (\<lambda>t _. tk_Execute t = botExecute get B run \<and> tm_Kwargs (tk_Message t) = kwargs \<and> tm_StubId (tk_Message t) = st) (\<lambda>_ _. True) w"
    unfolding DispatcherSend_def Let_def registered option.case botTaskFactory_def liftSum_def
    by (auto simp: wp_eqs intro: wpI split: sum.splits)
  then show "tk_Execute t = botExecute get B run" "tm_Kwargs (tk_Message t) = kwargs \<and> tm_StubId (tk_Message t) = st" using assms by (simp_all add: wp_def)
qed

lemma SendAndExecute_bot:
  "SendAndExecute d newId now ExecutorBot ws st args kwargs pol =
   bindE (DispatcherSend d newId now ExecutorBot ws st args kwargs pol) (\<lambda>t.
     thenE (if tm_Kwargs (tk_Message t) = kwargs \<and> tm_StubId (tk_Message t) = st then botExecute get B run (tk_Message t) else returnE ()) (returnE t))"
proof
  fix w
  show "SendAndExecute d newId now ExecutorBot ws st args kwargs pol w =
   bindE (DispatcherSend d newId now ExecutorBot ws st args kwargs pol) (\<lambda>t.
     thenE (if tm_Kwargs (tk_Message t) = kwargs \<and> tm_StubId (tk_Message t) = st then botExecute get B run (tk_Message t) else returnE ()) (returnE t)) w"
    using DispatcherSend_task [of newId now args kwargs pol w]
    by (cases "DispatcherSend d newId now ExecutorBot ws st args kwargs pol w"; cases "fst (DispatcherSend d newId now ExecutorBot ws st args kwargs pol w)")
       (simp_all add: SendAndExecute_def bindE_def)
qed

lemma transition_kwargs:
  assumes "transitionKwargs J ms s n = Inr kwargs"
  obtains x where "kwargs = [(''markers'', x), (''session_id'', s), (''transition_name'', n)]"
  using assms by (auto simp: transitionKwargs_def split: sum.splits)

lemma keeps_transition:
  "keeps view (botMarkers ws st sid l) (sendTransition d J newId now ws st ms s n)"
  "keeps view (botMarkers ws st sid l) (sendAndExecuteTransition d J newId now ws st ms s n)"
  unfolding sendTransition_def sendAndExecuteTransition_def SendAndExecute_bot
  by (auto intro!: keeps_intros keeps_DispatcherSend keeps_botExecute)

lemma calm_kwargs: "(\<And>x. calm (f [(''markers'', x), (''session_id'', s), (''transition_name'', n)])) \<Longrightarrow> calm (bindE (liftSum (transitionKwargs J ms s n)) f)"
  by (cases "transitionKwargs J ms s n")
     (auto simp: calm_def wp_eqs liftSum_def transitionKwargs_def codecs_calm split: sum.splits)

lemma calm_transition:
  "calm (sendTransition d J newId now ws st ms s n)" "calm (sendAndExecuteTransition d J newId now ws st ms s n)"
  unfolding sendTransition_def sendAndExecuteTransition_def SendAndExecute_bot
  by (auto intro!: calm_kwargs calm_intros calm_DispatcherSend calm_botExecute)

lemma instance_transition_tasks: "transition_tasks R view (botInstanceOn d J newId now ws st ts) sid"
  by unfold_locales (simp_all add: botInstanceOn_def dispatcher_rdb keeps_transition calm_transition)

end

text \<open>A location whose count fails is skipped: the transition may fire with none of its markers.\<close>

lemma failed_count_is_skipped:
  assumes "countMarkers (bi_rdb i) (bi_workspaceName i) (bi_stubId i) sid l w = (Inl e, w')"
  shows "countInputs i sid [(l, n)] [] w = (Inr (True, []), w')"
  using assms by (simp add: bindE_def attempt_def returnE_def)

text \<open>The session and the stub of a container are read back from its id, for stub ids that are UUIDs.\<close>

lemma parse_genContainerId:
  assumes "st = Join ''-'' [a, b, c, e, f]" "\<forall>x \<in> {a, b, c, e, f, ty, sid, uuid}. CHR ''-'' \<notin> set x"
  shows "parseContainerId (genContainerId uuid ty st sid) = Inr \<lparr>bt_StubId = st, bt_SessionId = sid, bt_ContainerId = genContainerId uuid ty st sid\<rparr>"
proof -
  have "Split CHR ''-'' (genContainerId uuid ty st sid) = [''bot'', ty, a, b, c, e, f, sid, uuid]"
    using assms(2) by (simp add: genContainerId_def assms(1) Split_append Split_no_sep)
  then show ?thesis using assms(1) by (simp add: parseContainerId_def numeral_eq_Suc)
qed

section \<open>An instance on the reference server\<close>

definition ex_marker :: "string \<Rightarrow> Marker" where
  "ex_marker l = \<lparr>mk_LocationName = l, mk_Fields = [], mk_SourceTaskId = []\<rparr>"

text \<open>A codec for markers without fields, by the names of their locations.\<close>

definition ex_bot_codec :: bot_codec where
  "ex_bot_codec = \<lparr>bc_marker = Inr \<circ> mk_LocationName, bc_unmarker = Inr \<circ> ex_marker, bc_markers = \<lambda>ms. Inr (Join '','' (map mk_LocationName ms)),
     bc_unmarkers = \<lambda>x. Inr (map ex_marker (Split CHR '','' x)), bc_event = Inr \<circ> be_Type,
     bc_unevent = \<lambda>x. Inr \<lparr>be_Type = x, be_Value = [], be_Metadata = [], be_PairId = []\<rparr>, bc_pair = \<lambda>_. Inr ''pair'', bc_session = Inr \<circ> bs_Id,
     bc_unsession = \<lambda>x. Inr \<lparr>bs_Id = x, bs_Messages = [], bs_CreatedAt = 0, bs_EventHistory = []\<rparr>, bc_error = \<lambda>_. ''error''\<rparr>"

definition ex_bot_executor :: "mem botInstance" where
  "ex_bot_executor = \<lparr>bi_rdb = mem_client, bi_codec = ex_bot_codec, bi_workspaceName = ''ws'', bi_stubId = ''st'', bi_Transitions = [],
     bi_Send = \<lambda>_ _ _. returnE [], bi_SendAndExecute = \<lambda>_ _ _. returnE []\<rparr>"

definition ex_bot_dispatcher :: "mem Dispatcher" where
  "ex_bot_dispatcher = Register ExecutorBot (botTaskFactory (\<lambda>_. returnE ex_bot_executor) (ex_queue_backend (Inr ())) (\<lambda>_ _ _. returnE ()))
     \<lparr>d_rdb = mem_client, d_codec = plain_task_codec, d_executors = []\<rparr>"

lemma mem_calm: "calm (SAdd mem_client k x)" "calm (SetKey mem_client k x ttl)"
  by (auto simp: calm_def wp_def SAdd_def SetKey_def onR_def mem_client_def mem_SAdd_def mem_Set_def wrongtype_def split: option.splits mval.splits)

lemma plain_encode_calm: "Encode plain_task_codec m \<noteq> Inl (Panic p)"
  by (rule Encode_ok [OF plain_task_codec_ok, of m]) simp

lemma ex_backend_calm: "calm (tb_CreateTask (ex_queue_backend (Inr ())) t)" "keeps view k (tb_CreateTask (ex_queue_backend (Inr ())) t)"
  by (simp_all add: ex_queue_backend_def calm_def keeps_def wp_def)

interpretation ex_bot: bot_dispatch mem_client mem_view ex_bot_dispatcher ex_bot_codec "''ws''" "''st''" sid "ex_queue_backend (Inr ())"
    "\<lambda>_ _ _. returnE ()" "\<lambda>_. returnE ex_bot_executor" ex_bot_executor
  by (rule bot_dispatch.intro [OF mem.redis_up_axioms], unfold_locales)
     (auto simp: ex_bot_dispatcher_def ex_bot_executor_def ex_bot_codec_def Register_def plain_encode_calm mem_calm calm_intros(1)
        ex_backend_calm intro: keeps_returnE)

text \<open>A net that joins a marker of \<open>a\<close> and one of \<open>b\<close>.\<close>

definition ex_join :: BotTransitionConfig where
  "ex_join = \<lparr>tr_Cpu = 1000, tr_Gpu = [], tr_Memory = 128, tr_PythonVersion = ''python3.10'', tr_ImageId = ''img'', tr_Timeout = 180, tr_KeepWarm = 0,
     tr_MaxPending = 10, tr_Volumes = [], tr_Secrets = [], tr_Handler = ''app.py:join'', tr_OnStart = [], tr_CallbackUrl = [], tr_TaskPolicy = [],
     tr_Name = ''join'', tr_Inputs = [(''a'', 1), (''b'', 1)], tr_Outputs = [], tr_Description = [], tr_Expose = True, tr_Confirm = False\<rparr>"

definition ex_net :: "mem botInstance" where
  "ex_net = botInstanceOn ex_bot_dispatcher ex_bot_codec ''t1'' 5 ''ws'' ''st'' [ex_join]"

definition ex_net_world :: "mem world" where
  "ex_net_world = \<lparr>rdb = [botMarkers ''ws'' ''st'' ''s1'' ''a'' \<mapsto> MList [''x'', ''y''], botMarkers ''ws'' ''st'' ''s1'' ''b'' \<mapsto> MList [''z'']], locks = Map.empty\<rparr>"

definition ex_marking :: marking where
  "ex_marking = (\<lambda>_. [])(''a'' := [ex_marker ''x'', ex_marker ''y''], ''b'' := [ex_marker ''z''])"

lemma ex_stored: "stored_marking mem_view ex_net ''s1'' ex_net_world ex_marking"
  unfolding stored_marking_def
proof
  fix l
  show "\<exists>xs. mem_view (rdb ex_net_world) (botMarkers (bi_workspaceName ex_net) (bi_stubId ex_net) ''s1'' l) = putList xs \<and>
    map (bc_unmarker (bi_codec ex_net)) xs = map Inr (ex_marking l)"
    by (rule exI [of _ "if l = ''a'' then [''x'', ''y''] else if l = ''b'' then [''z''] else []"])
       (simp add: ex_net_def botInstanceOn_def ex_net_world_def mem_view_def ex_marking_def ex_bot_codec_def putList_def)
qed

interpretation ex_net_tasks: transition_tasks mem_client mem_view ex_net "''s1''"
  unfolding ex_net_def by (rule ex_bot.instance_transition_tasks)

lemma ex_net_sel: "bi_Transitions ex_net = [ex_join]" "bi_workspaceName ex_net = ''ws''" "bi_stubId ex_net = ''st''"
  by (simp_all add: ex_net_def botInstanceOn_def)

lemma ex_join_fires:
  "enabled ex_join ex_marking" "fire ex_join ex_marking = (\<lambda>_. [])(''a'' := [ex_marker ''y''])"
  "taken (tr_Inputs ex_join) ex_marking = [ex_marker ''x'', ex_marker ''z'']" "distinct (map fst (tr_Inputs ex_join))"
  by (auto simp: enabled_def fire_def taken_def takes_def ex_join_def ex_marking_def fun_eq_iff)

section \<open>Properties\<close>

text \<open>
  C15. A step of a bot is a step of its net. If the lock of the session is free, \<open>step\<close> returns, and the markers stored
  afterwards are those of the net after each transition, in order, has fired if it was enabled and was skipped if not.
\<close>

theorem bot_step_is_net_step:
  assumes T: "transition_tasks R view i sid" and "stored_marking view i sid w M" and "\<forall>t \<in> set (bi_Transitions i). distinct (map fst (tr_Inputs t))"
    and "view (rdb w) (botLock (bi_workspaceName i) (bi_stubId i) sid) = None"
  shows "\<exists>w'. botStep i sid w = (Inr (), w') \<and> stored_marking view i sid w' (fold fire (bi_Transitions i) M)"
  using wp_success [OF transition_tasks.up_botStep [OF assms]] by auto

theorem bot_step_is_net_step_witness:
  "\<exists>w'. botStep ex_net ''s1'' ex_net_world = (Inr (), w') \<and> stored_marking mem_view ex_net ''s1'' w' ((\<lambda>_. [])(''a'' := [ex_marker ''y'']))"
proof -
  have free: "mem_view (rdb ex_net_world) (botLock (bi_workspaceName ex_net) (bi_stubId ex_net) ''s1'') = None"
    by (simp add: ex_net_sel ex_net_world_def mem_view_def)
  from bot_step_is_net_step [OF ex_net_tasks.transition_tasks_axioms ex_stored _ free] ex_join_fires(4)
  show ?thesis by (simp add: ex_net_sel(1) ex_join_fires(2))
qed



end
