(* ===== verification/Spec2Isabelle.thy ===== *)
theory Spec2Isabelle
  imports Worker_Capacity Workspace_Quota Pool_Health Scheduler_Runs Request_Buffer Gpu_Manager Inference_Router Bot_Net
begin

text \<open>
  A verification development for beta9, a platform that runs containers for functions, endpoints, task queues, bots and inference
  nodes on pools of workers. File names below are relative to \<open>src/\<close>.

  \<^bold>\<open>The program.\<close> A gateway takes calls from clients. Its services turn a call into a task, which the dispatcher
  (\<open>pkg/task\<close>) stores in Redis, or into a container request, which the scheduler (\<open>pkg/scheduler\<close>) admits under the limit
  of the workspace, keeps in a backlog and gives to a worker that fits. Pools of workers (local or external Kubernetes clusters) are
  sized, watched and cleaned by monitors. A worker takes its requests from Redis and assigns its GPUs to the containers it starts. Autoscalers start
  and stop containers by the length of a queue or the number of waiting requests, and endpoints forward requests to
  containers that have a token to spare. All parts share their state through Redis repositories (\<open>pkg/repository\<close>). Beside this, an inference
  router sends requests for language models to registered nodes, and bots run Petri nets whose transitions are tasks.

  \<^bold>\<open>How Go is modelled.\<close> A Go function with effects is a function of type \<open>('s, 'a) io\<close> from a state to an error or a result and a state;
  a panic is an error that only the end of the goroutine stops. Structs are records whose fields carry a prefix and the name of the source, word types and the
  wrap-around of \<open>int64\<close> are kept where arithmetic may overflow, strings are character lists and Go maps are association lists in the
  order of the loop at hand. Redis is a record of commands over an unknown server state; the locales \<open>redis\<close> (what a
  reply means) and \<open>redis_up\<close> (the server answers) hold the documented laws, and a reference server interprets them. JSON,
  SHA-1, the database, the Kubernetes API, cloud providers and HTTP calls are arguments. The clock, tickers and random numbers are arguments too.
  Concurrency is interleaving: operations under a lock or a mutex, and single Redis commands where there is no lock, are the steps.

  \<^bold>\<open>Foundations.\<close>
  \<^item> \<open>Go_Prelude\<close>: errors, the monad and its weakest preconditions \<open>wp\<close>, integers, \<open>strings\<close>, \<open>strconv\<close>.
  \<^item> \<open>Go_Sort\<close>: the contract of \<open>sort.Slice\<close> (locale \<open>go_sort\<close>) and an insertion sort that meets it.
  \<^item> \<open>Redis\<close>: the command interface, \<open>RedisLock\<close> of \<open>pkg/common/redis.go\<close>, the reference server.
  \<^item> \<open>Redis_Keys\<close>: \<open>pkg/common/keys.go\<close>, with the lemmas that different keys differ.
  \<^item> \<open>Redis_Frames\<close>: \<open>keeps\<close>, which keys an operation leaves alone, with one rule for each combinator and operation.
  \<^item> \<open>Sched_Types\<close>: types of \<open>pkg/types\<close>, and \<open>ToSlice\<close> and \<open>ToStruct\<close> of \<open>pkg/common/redis.go\<close> with their round trips.
  \<^item> \<open>Request_Codec\<close>: serializations that satisfy the round-trip hypotheses about JSON, for the worked examples.

  \<^bold>\<open>Repositories.\<close>
  \<^item> \<open>Worker_Repo\<close> (\<open>worker_redis.go\<close>) and \<open>Worker_Capacity\<close>: interleavings of \<open>ScheduleContainerRequest\<close>,
    \<open>UpdateWorkerCapacity\<close> and status changes never over-commit a worker; the locale \<open>versioned\<close> is the argument about stale copies.
  \<^item> \<open>Container_Repo\<close> (\<open>container_redis.go\<close>) and \<open>Workspace_Quota\<close>: \<open>SetContainerStateWithConcurrencyLimit\<close> keeps the limit of a
    workspace, and which requests it refuses.
  \<^item> \<open>State_Repos\<close> (\<open>workspace_redis.go\<close>, \<open>worker_pool_redis.go\<close>) and \<open>Provider_Repo\<close> (\<open>provider_redis.go\<close>): caches, pool states, machines and their life cycle.
  \<^item> \<open>Task_Message\<close> (\<open>pkg/types/task.go\<close>) and \<open>Task_Repo\<close> (\<open>task_redis.go\<close>): messages with \<open>Encode\<close> and \<open>Decode\<close>, entries, claims and indices; every
    operation keeps them consistent.

  \<^bold>\<open>Scheduling.\<close>
  \<^item> \<open>Backlog\<close> (\<open>backlog.go\<close>): a sorted set of requests, oldest first.
  \<^item> \<open>Worker_Select\<close>: the filters and \<open>selectWorker\<close> of \<open>scheduler.go\<close>; the choice is suitable and optimal.
  \<^item> \<open>Pool_Manager\<close>, \<open>Pool_Sizing\<close>, \<open>Pool_Jobs\<close>, \<open>Pool_Controllers\<close>, \<open>Pool_Health\<close> (\<open>pool*.go\<close>, \<open>utils.go\<close>): the choice of pools, when
    a worker is added, the Kubernetes job of a worker, both controllers, the health monitor and the cleaners. A new worker fits the request it is made for, a machine is not
    over-committed, a live worker is not cleaned up.
  \<^item> \<open>Event_Bus\<close> (\<open>pkg/common/events.go\<close>): an event is claimed once, and resent a bounded number of times.
  \<^item> \<open>Scheduler\<close>, \<open>Scheduler_Submit\<close>, \<open>Scheduler_Runs\<close> (\<open>scheduler.go\<close>, \<open>service.go\<close>): submission, the body of the loop, the goroutines,
    and their runs. A step of the scheduler is a step of an abstract system of waiting, pending and settled requests; no accepted request is lost, and without new
    submissions the scheduler comes to rest.

  \<^bold>\<open>Tasks, endpoints and workers.\<close>
  \<^item> \<open>Dispatcher\<close> (\<open>pkg/task/dispatch.go\<close>): locale \<open>executor\<close> is the contract of a kind of task; retries are limited.
  \<^item> \<open>Task_Queue\<close> (\<open>pkg/abstractions/taskqueue\<close>): meets that contract; what is put is popped.
  \<^item> \<open>Autoscaler\<close> (\<open>pkg/abstractions/common/instance.go\<close>, \<open>autoscaler.go\<close> and the callbacks of queues and endpoints): the scale functions agree with
    reference formulas, busy containers are spared.
  \<^item> \<open>Ring_Buffer\<close> (\<open>ring_buffer.go\<close>): refines a bounded queue (locale \<open>bounded_queue\<close>).
  \<^item> \<open>Request_Buffer\<close> (\<open>pkg/abstractions/endpoint\<close>): no container works on more requests than it has tokens.
  \<^item> \<open>Gpu_Manager\<close> (\<open>pkg/worker/nvidia.go\<close>, \<open>gpu_info.go\<close>): no GPU is given to two containers.
  \<^item> \<open>Model_Registry\<close>, \<open>Inference_Router\<close> (\<open>pkg/gateway\<close>): the node chosen for a model, cleanup, loads and the counting of requests.
  \<^item> \<open>Bot_Net\<close> (\<open>pkg/abstractions/experimental/bot\<close>): a step of a bot is a step of its net, and a transition's task gets the markers it takes. The locale
    \<open>transition_tasks\<close> is what a step needs of the dispatcher; \<open>bot_dispatch\<close> derives it from the dispatcher's model.

  \<^bold>\<open>Bounds and fuel.\<close> Loops over data are structural. The only fuel is that of \<open>nextTask\<close> in \<open>Task_Queue\<close>, the loop of \<open>Pop\<close> that skips completed
  tasks: a round takes a message from the queue, so as many rounds as there are messages, and one more, are enough. The property about a queue with one
  live message is stated with any positive fuel. Endless loops (the scheduler, monitors, receive loops) are modelled by their body, and runs are sequences of bodies. Integers that
  the code lets wrap around are wrapped in the model; where a property needs that they do not, it is a hypothesis.

  \<^bold>\<open>Not modelled.\<close> Code whose effect lies outside the program: the SQL of the backend database, the worker's handling of runtimes, images, networks and
  checkpoints, storage mounts, the agent, cloud providers, proxies for HTTP, WebSocket and TCP, image builds, and metrics and event sinks. Code with little logic of its own: the gRPC
  and REST handlers, generated protocol code, the maps, queues and signals over single Redis commands, and the Python SDK. Within modelled
  files, logging, usage metrics, subscriptions and waiting are left out, as the opening of each theory says. Expiry of keys appears
  where an operation sets it; time passing on the server does not.
\<close>

end
